(* ===== verification/Prelude.thy ===== *)
theory Prelude
  imports Main "HOL-Library.Word"
begin

text \<open>
  Shared vocabulary of the development: the machine integers and results of the Rust host,
  big-endian byte strings, byte streams as \<^verbatim>\<open>read_exact\<close> sees them, saturating arithmetic, the
  part of UTF-8 validation that \<^verbatim>\<open>std::str::from_utf8\<close> performs, and the interface of a
  length-delimited codec with the lemmas its two instances (GNR4 control frames and HEV UDP
  frames) share.
\<close>

section \<open>Machine integers and results\<close>

type_synonym u8 = "8 word"
type_synonym u16 = "16 word"
type_synonym u32 = "32 word"
type_synonym u64 = "64 word"
type_synonym bytes = "u8 list"

text \<open>Instants and durations count nanoseconds, the resolution of \<^verbatim>\<open>std::time\<close>.\<close>

type_synonym instant = nat
type_synonym duration = nat

named_theorems wire_simps
named_theorems machine_simps
named_theorems machine_intros

text \<open>The loopback ports of the three lanes of the host.\<close>

definition SOCKS_PORT :: u16 where "SOCKS_PORT = 31416"
definition CONTROL_PORT :: u16 where "CONTROL_PORT = 31417"
definition UDP_STREAM_PORT :: u16 where "UDP_STREAM_PORT = 31418"

text \<open>\<^verbatim>\<open>usize\<close> and \<^verbatim>\<open>u64\<close> are 64 bits wide on the supported targets; sizes are modelled by
  \<open>nat\<close> and the operations that saturate or check at the width say so.\<close>

definition usize_max :: nat where
  "usize_max = 2 ^ 64 - 1"

definition saturating_add :: "nat \<Rightarrow> nat \<Rightarrow> nat" where
  "saturating_add a b = min usize_max (a + b)"

definition saturating_mul :: "nat \<Rightarrow> nat \<Rightarrow> nat" where
  "saturating_mul a b = min usize_max (a * b)"

definition checked_add :: "nat \<Rightarrow> nat \<Rightarrow> nat option" where
  "checked_add a b = (if a + b \<le> usize_max then Some (a + b) else None)"

definition saturating_inc64 :: "u64 \<Rightarrow> u64" where
  "saturating_inc64 w = (if w = -1 then w else w + 1)"

lemma saturating_add_bound [simp]: "saturating_add a b \<le> usize_max"
  by (simp add: saturating_add_def)

lemma saturating_add_exact: "a + b \<le> usize_max \<Longrightarrow> saturating_add a b = a + b"
  by (simp add: saturating_add_def)

lemma saturating_add_le: "saturating_add a b \<le> a + b"
  by (simp add: saturating_add_def)

lemma checked_add_Some: "checked_add a b = Some c \<longleftrightarrow> c = a + b \<and> a + b \<le> usize_max"
  by (auto simp: checked_add_def)

lemma unat_saturating_inc64: "unat (saturating_inc64 w) = min usize_max (unat w + 1)"
proof (cases "w = -1")
  case True
  then show ?thesis 
    by (simp add: saturating_inc64_def usize_max_def unsigned_minus_1_eq_mask mask_eq_exp_minus_1)
next
  case False
  then have "unat w \<noteq> unat (-1 :: u64)"
    by (simp only: word_eq_iff_unsigned [symmetric] simp_thms)
  then have "unat w \<noteq> 2 ^ 64 - 1"
    by (simp add: unsigned_minus_1_eq_mask mask_eq_exp_minus_1)
  moreover have "unat w < 2 ^ 64" using unsigned_less [of w] by simp
  ultimately have "unat w + 1 < 2 ^ 64" by linarith
  then show ?thesis using False
    by (simp add: saturating_inc64_def usize_max_def unat_word_ariths)
qed

section \<open>List searches\<close>

text \<open>\<^verbatim>\<open>Iterator::position\<close>: the index of the first element that satisfies the predicate.\<close>

fun position :: "('a \<Rightarrow> bool) \<Rightarrow> 'a list \<Rightarrow> nat option" where
  "position p [] = None"
| "position p (x # xs) = (if p x then Some 0 else map_option Suc (position p xs))"

lemma position_Some:
  "position p xs = Some i \<longleftrightarrow> i < length xs \<and> p (xs ! i) \<and> (\<forall>j<i. \<not> p (xs ! j))"
proof (induction xs arbitrary: i)
  case (Cons x xs)
  then show ?case
    by (cases i) (auto simp: less_Suc_eq_0_disj)
qed simp

lemma position_None: "position p xs = None \<longleftrightarrow> list_all (\<lambda>x. \<not> p x) xs"
  by (induction xs) auto

section \<open>Big-endian byte strings\<close>

text \<open>\<open>be_bytes n x\<close> is the \<open>n\<close>-byte big-endian representation of \<open>x\<close>
  (\<^verbatim>\<open>to_be_bytes\<close>), \<open>be_value\<close> reads one back (\<^verbatim>\<open>from_be_bytes\<close>).\<close>

fun be_bytes :: "nat \<Rightarrow> nat \<Rightarrow> bytes" where
  "be_bytes 0 x = []"
| "be_bytes (Suc n) x = be_bytes n (x div 256) @ [word_of_nat x]"

definition be_value :: "bytes \<Rightarrow> nat" where
  "be_value bs = foldl (\<lambda>acc b. acc * 256 + unat b) 0 bs"

lemma be_value_Nil [simp]: "be_value [] = 0"
  by (simp add: be_value_def)

lemma be_value_snoc [simp]: "be_value (bs @ [b]) = be_value bs * 256 + unat b"
  by (simp add: be_value_def)

lemma length_be_bytes [simp]: "length (be_bytes n x) = n"
  by (induction n arbitrary: x) auto

lemma unat_byte_less [simp]: "unat (b :: u8) < 256"
  using unsigned_less [of b] by simp

lemma unat_byte_of_nat: "unat (word_of_nat x :: u8) = x mod 256"
  by (simp add: unat_of_nat)

lemma be_value_bound: "be_value bs < 256 ^ length bs"
proof (induction bs rule: rev_induct)
  case (snoc b bs)
  have "be_value bs * 256 + unat b < (be_value bs + 1) * 256"
    using unat_byte_less [of b] by simp
  also have "\<dots> \<le> 256 ^ length bs * 256"
    using snoc by (intro mult_le_mono1) simp
  finally show ?case by (simp add: mult.commute)
qed simp

lemma be_value_be_bytes [simp]: "be_value (be_bytes n x) = x mod 256 ^ n"
proof (induction n arbitrary: x)
  case (Suc n)
  have "x mod (256 * 256 ^ n) = 256 * (x div 256 mod 256 ^ n) + x mod 256"
    by (rule mod_mult2_eq)
  with Suc show ?case by (simp add: unat_byte_of_nat mult.commute)
qed simp

lemma be_bytes_be_value: "length bs = n \<Longrightarrow> be_bytes n (be_value bs) = bs"
proof (induction bs arbitrary: n rule: rev_induct)
  case (snoc b bs)
  then obtain m where n: "n = Suc m" and m: "length bs = m" by auto
  have "(be_value bs * 256 + unat b) div 256 = be_value bs"
    using unat_byte_less [of b] by (simp add: div_add1_eq)
  moreover have "(word_of_nat (be_value bs * 256 + unat b) :: u8) = b"
    by (rule unsigned_word_eqI [where 'a = nat]) (simp only: unat_byte_of_nat mod_mult_self3 mod_less unat_byte_less)
  ultimately show ?case using snoc.IH [OF m] n by simp
qed simp

text \<open>\<open>subslice i j xs\<close> is the Rust slice \<^verbatim>\<open>xs[i..j]\<close>; every use is guarded by a length check.\<close>

definition subslice :: "nat \<Rightarrow> nat \<Rightarrow> 'a list \<Rightarrow> 'a list" where
  "subslice i j xs = take (j - i) (drop i xs)"

lemma length_subslice [simp]: "j \<le> length xs \<Longrightarrow> length (subslice i j xs) = j - i"
  by (simp add: subslice_def)

lemma subslice_drop: "i \<le> j \<Longrightarrow> subslice i j xs @ drop j xs = drop i xs"
  by (metis append_take_drop_id drop_drop le_add_diff_inverse2 subslice_def)

lemma subslice_append_left [wire_simps]: "j \<le> length xs \<Longrightarrow> subslice i j (xs @ ys) = subslice i j xs"
  by (simp add: subslice_def)

lemma subslice_append_right [wire_simps]:
  "length xs \<le> i \<Longrightarrow> subslice i j (xs @ ys) = subslice (i - length xs) (j - length xs) ys"
  by (simp add: subslice_def)

lemma subslice_full [wire_simps]: "j = length xs \<Longrightarrow> subslice 0 j xs = xs"
  by (simp add: subslice_def)

lemma subslice_join:
  "i \<le> j \<Longrightarrow> j \<le> k \<Longrightarrow> subslice i j xs @ subslice j k xs = subslice i k xs"
proof -
  assume "i \<le> j" "j \<le> k"
  then have "take (k - i) (drop i xs) = take (j - i) (drop i xs) @ take (k - j) (drop (j - i) (drop i xs))"
    by (metis Nat.diff_add_assoc2 le_add_diff_inverse2 take_add add.commute)
  then show ?thesis using \<open>i \<le> j\<close> by (simp add: subslice_def)
qed

lemma subslice_one: "i < length xs \<Longrightarrow> subslice i (Suc i) xs = [xs ! i]"
  by (simp add: subslice_def take_Suc_conv_app_nth)

lemma subslice_take: "subslice 0 n xs = take n xs"
  by (simp add: subslice_def)

lemma subslice_to_end: "length xs = j \<Longrightarrow> subslice i j xs = drop i xs"
  by (simp add: subslice_def)

text \<open>\<open>ascii\<close> is the byte string of a literal.\<close>

definition ascii :: "string \<Rightarrow> bytes" where
  "ascii cs = map (\<lambda>c. word_of_nat (of_char c)) cs"

definition u16_be :: "u16 \<Rightarrow> bytes" where "u16_be w = be_bytes 2 (unat w)"
definition u32_be :: "u32 \<Rightarrow> bytes" where "u32_be w = be_bytes 4 (unat w)"
definition u64_be :: "u64 \<Rightarrow> bytes" where "u64_be w = be_bytes 8 (unat w)"
definition be_u16 :: "bytes \<Rightarrow> u16" where "be_u16 bs = word_of_nat (be_value bs)"
definition be_u32 :: "bytes \<Rightarrow> u32" where "be_u32 bs = word_of_nat (be_value bs)"
definition be_u64 :: "bytes \<Rightarrow> u64" where "be_u64 bs = word_of_nat (be_value bs)"

lemma length_uN_be [simp]: "length (u16_be a) = 2" "length (u32_be b) = 4" "length (u64_be c) = 8"
  by (simp_all add: u16_be_def u32_be_def u64_be_def)

lemma be_uN_uN_be [simp]: "be_u16 (u16_be a) = a" "be_u32 (u32_be b) = b" "be_u64 (u64_be c) = c"
  using unsigned_less [of a, where 'a = nat] unsigned_less [of b, where 'a = nat]
    unsigned_less [of c, where 'a = nat]
  by (simp_all add: be_u16_def u16_be_def be_u32_def u32_be_def be_u64_def u64_be_def)

lemma unat_be_u16: "length bs = 2 \<Longrightarrow> unat (be_u16 bs) = be_value bs"
  using be_value_bound [of bs] by (simp add: be_u16_def unat_of_nat)

lemma unat_be_u32: "length bs = 4 \<Longrightarrow> unat (be_u32 bs) = be_value bs"
  using be_value_bound [of bs] by (simp add: be_u32_def unat_of_nat)

lemma unat_be_u64: "length bs = 8 \<Longrightarrow> unat (be_u64 bs) = be_value bs"
  using be_value_bound [of bs] by (simp add: be_u64_def unat_of_nat)

lemma uN_be_be_uN:
  "length a = 2 \<Longrightarrow> u16_be (be_u16 a) = a"
  "length b = 4 \<Longrightarrow> u32_be (be_u32 b) = b"
  "length c = 8 \<Longrightarrow> u64_be (be_u64 c) = c"
  by (simp_all add: u16_be_def u32_be_def u64_be_def unat_be_u16 unat_be_u32 unat_be_u64
      be_bytes_be_value)

section \<open>UTF-8 validation\<close>

definition utf8_cont :: "u8 \<Rightarrow> bool" where
  "utf8_cont b \<longleftrightarrow> 0x80 \<le> b \<and> b \<le> 0xBF"

text \<open>The lead byte of a well-formed sequence fixes the range of the second byte
  (no overlong forms, no surrogates, nothing above U+10FFFF).\<close>

definition utf8_second3 :: "u8 \<Rightarrow> u8 \<Rightarrow> bool" where
  "utf8_second3 a b \<longleftrightarrow>
     (if a = 0xE0 then 0xA0 \<le> b \<and> b \<le> 0xBF
      else if a = 0xED then 0x80 \<le> b \<and> b \<le> 0x9F else utf8_cont b)"

definition utf8_second4 :: "u8 \<Rightarrow> u8 \<Rightarrow> bool" where
  "utf8_second4 a b \<longleftrightarrow>
     (if a = 0xF0 then 0x90 \<le> b \<and> b \<le> 0xBF
      else if a = 0xF4 then 0x80 \<le> b \<and> b \<le> 0x8F else utf8_cont b)"

fun utf8_valid :: "bytes \<Rightarrow> bool" where
  "utf8_valid [] = True"
| "utf8_valid (a # r) =
     (if a < 0x80 then utf8_valid r
      else if 0xC2 \<le> a \<and> a \<le> 0xDF then
        (case r of b # r' \<Rightarrow> utf8_cont b \<and> utf8_valid r' | _ \<Rightarrow> False)
      else if 0xE0 \<le> a \<and> a \<le> 0xEF then
        (case r of b # c # r' \<Rightarrow> utf8_second3 a b \<and> utf8_cont c \<and> utf8_valid r' | _ \<Rightarrow> False)
      else if 0xF0 \<le> a \<and> a \<le> 0xF4 then
        (case r of b # c # d # r' \<Rightarrow>
             utf8_second4 a b \<and> utf8_cont c \<and> utf8_cont d \<and> utf8_valid r' | _ \<Rightarrow> False)
      else False)"

section \<open>Byte streams and sinks\<close>

text \<open>The I/O error kinds the host distinguishes; every other kind is \<open>OtherIo\<close>.\<close>

datatype io_kind =
    UnexpectedEof | ConnectionReset | ConnectionRefused | WouldBlock | NotFound | InvalidInput
  | OtherIo

text \<open>A stream is what the peer still sends (\<open>pending\<close>) and how the stream ends: a clean
  close shows as \<open>UnexpectedEof\<close> to \<^verbatim>\<open>read_exact\<close>, a failing socket as its error kind.\<close>

record byte_stream =
  pending :: bytes
  closing :: io_kind

definition read_exact :: "nat \<Rightarrow> byte_stream \<Rightarrow> io_kind + (bytes \<times> byte_stream)" where
  "read_exact n s =
     (if n \<le> length (pending s)
      then Inr (take n (pending s), s\<lparr>pending := drop n (pending s)\<rparr>)
      else Inl (closing s))"

record byte_sink =
  written :: bytes
  broken :: "io_kind option"

definition write_all :: "bytes \<Rightarrow> byte_sink \<Rightarrow> io_kind + byte_sink" where
  "write_all bs w = (case broken w of Some k \<Rightarrow> Inl k | None \<Rightarrow> Inr (w\<lparr>written := written w @ bs\<rparr>))"

lemma byte_stream_advance: "closing s' = closing s \<Longrightarrow> s' = (s :: byte_stream)\<lparr>pending := pending s'\<rparr>"
  by (cases s; cases s') simp

lemma read_exact_append [wire_simps]:
  "pending s = bs @ rest \<Longrightarrow> length bs = n \<Longrightarrow>
     read_exact n s = Inr (bs, s\<lparr>pending := rest\<rparr>)"
  by (simp add: read_exact_def)

lemma read_exact_InrD:
  assumes "read_exact n s = Inr (bs, s')"
  shows "length bs = n" and "pending s = bs @ pending s'" and "closing s' = closing s"
  using assms by (auto simp: read_exact_def split: if_splits)

section \<open>The interface of a length-delimited codec\<close>

text \<open>\<open>read_frames rd n s\<close> calls the stream reader \<open>rd\<close> until \<open>n\<close> messages have arrived.\<close>

fun read_frames ::
  "(byte_stream \<Rightarrow> 'e + ('m \<times> byte_stream)) \<Rightarrow> nat \<Rightarrow> byte_stream
     \<Rightarrow> 'e + ('m list \<times> byte_stream)" where
  "read_frames rd 0 s = Inr ([], s)"
| "read_frames rd (Suc n) s =
     (case rd s of
        Inl e \<Rightarrow> Inl e
      | Inr (m, s') \<Rightarrow>
          (case read_frames rd n s' of
             Inl e \<Rightarrow> Inl e
           | Inr (ms, s'') \<Rightarrow> Inr (m # ms, s'')))"

text \<open>\<open>write_frames wr ms w\<close> hands the messages to the writer \<open>wr\<close> one after the other.\<close>

fun write_frames :: "('m \<Rightarrow> byte_sink \<Rightarrow> 'e + byte_sink) \<Rightarrow> 'm list \<Rightarrow> byte_sink \<Rightarrow> 'e + byte_sink"
where
  "write_frames wr [] w = Inr w"
| "write_frames wr (m # ms) w = (case wr m w of Inl e \<Rightarrow> Inl e | Inr w' \<Rightarrow> write_frames wr ms w')"

locale framed_codec =
  fixes enc :: "'m \<Rightarrow> 'e + bytes"
    and dec :: "bytes \<Rightarrow> 'e + 'm"
    and rd :: "byte_stream \<Rightarrow> 'e + ('m \<times> byte_stream)"
    and ok :: "'m \<Rightarrow> bool"
  assumes enc_total: "ok m \<Longrightarrow> \<exists>bs. enc m = Inr bs"
    and dec_enc: "ok m \<Longrightarrow> enc m = Inr bs \<Longrightarrow> dec bs = Inr m"
    and enc_dec: "dec bs = Inr m \<Longrightarrow> ok m \<and> enc m = Inr bs"
    and rd_enc: "ok m \<Longrightarrow> enc m = Inr bs \<Longrightarrow> pending s = bs @ rest \<Longrightarrow>
        rd s = Inr (m, s\<lparr>pending := rest\<rparr>)"
    and rd_dec: "rd s = Inr (m, s') \<Longrightarrow>
        \<exists>bs. dec bs = Inr m \<and> pending s = bs @ pending s' \<and> s' = s\<lparr>pending := pending s'\<rparr>"
begin

lemma dec_iff: "dec bs = Inr m \<longleftrightarrow> ok m \<and> enc m = Inr bs"
  using dec_enc enc_dec by blast

lemma dec_inject: "dec a = Inr m \<Longrightarrow> dec b = Inr m \<Longrightarrow> a = b"
  using enc_dec by (metis sum.inject(2))

lemma enc_inject: "ok m \<Longrightarrow> ok m' \<Longrightarrow> enc m = Inr bs \<Longrightarrow> enc m' = Inr bs \<Longrightarrow> m = m'"
  using dec_enc by (metis sum.inject(2))

text \<open>No encoding is a proper prefix of another, so a stream of messages parses in one way.\<close>

lemma enc_prefix_free:
  assumes "ok m" "ok m'" "enc m = Inr a" "enc m' = Inr (a @ c)"
  shows "m = m' \<and> c = []"
proof -
  let ?s = "\<lparr>pending = a @ c, closing = UnexpectedEof\<rparr>"
  have "rd ?s = Inr (m, ?s\<lparr>pending := c\<rparr>)"
    using assms(1,3) by (rule rd_enc) simp
  moreover have "rd ?s = Inr (m', ?s\<lparr>pending := []\<rparr>)"
    using assms(2,4) by (rule rd_enc) simp
  ultimately show ?thesis by simp
qed

lemma read_frames_enc:
  assumes "list_all ok ms" "pending s = concat (map (\<lambda>m. projr (enc m)) ms) @ rest"
  shows "read_frames rd (length ms) s = Inr (ms, s\<lparr>pending := rest\<rparr>)"
  using assms
proof (induction ms arbitrary: s)
  case (Cons m ms)
  then obtain bs where bs: "enc m = Inr bs" using enc_total by auto
  let ?s = "s\<lparr>pending := concat (map (\<lambda>m. projr (enc m)) ms) @ rest\<rparr>"
  have "rd s = Inr (m, ?s)"
    using Cons.prems bs by (intro rd_enc [of m bs]) auto
  moreover have "read_frames rd (length ms) ?s = Inr (ms, ?s\<lparr>pending := rest\<rparr>)"
    using Cons.prems by (intro Cons.IH) auto
  ultimately show ?case by simp
qed simp

lemma read_frames_dec:
  assumes "read_frames rd n s = Inr (ms, s')"
  shows "length ms = n \<and> list_all ok ms \<and>
    pending s = concat (map (\<lambda>m. projr (enc m)) ms) @ pending s'"
  using assms
proof (induction n arbitrary: s ms)
  case (Suc n)
  then obtain m t ms' where rd: "rd s = Inr (m, t)"
    and rest: "read_frames rd n t = Inr (ms', s')" and ms: "ms = m # ms'"
    by (auto split: sum.splits)
  from rd_dec [OF rd] obtain bs where "dec bs = Inr m" and p: "pending s = bs @ pending t" by auto
  with enc_dec have "ok m" "enc m = Inr bs" by auto
  with Suc.IH [OF rest] p ms show ?case by simp
qed simp

end

text \<open>A channel adds the writer that hands an encoding to the transport.\<close>

locale framed_channel = framed_codec +
  fixes wr :: "'a \<Rightarrow> byte_sink \<Rightarrow> 'b + byte_sink"
  assumes wr_enc: "enc m = Inr bs \<Longrightarrow> broken w = None \<Longrightarrow>
      wr m w = Inr (w\<lparr>written := written w @ bs\<rparr>)"
begin

lemma write_frames_enc:
  assumes "list_all ok ms" "broken w = None"
  shows "write_frames wr ms w =
    Inr (w\<lparr>written := written w @ concat (map (\<lambda>m. projr (enc m)) ms)\<rparr>)"
  using assms
proof (induction ms arbitrary: w)
  case (Cons m ms)
  then obtain bs where "enc m = Inr bs" using enc_total by auto
  with Cons wr_enc [of m bs w] show ?case by simp
qed simp

text \<open>What the writer put into a healthy sink, a reader of the same bytes gets back, whatever
  follows it on the stream.\<close>

lemma stream_roundtrip:
  assumes "list_all ok ms" "broken w = None"
  shows "\<exists>bs. write_frames wr ms w = Inr (w\<lparr>written := written w @ bs\<rparr>) \<and>
    (\<forall>s rest. pending s = bs @ rest \<longrightarrow>
       read_frames rd (length ms) s = Inr (ms, s\<lparr>pending := rest\<rparr>))"
  using write_frames_enc [OF assms] read_frames_enc [OF assms(1)] by blast

end

end
