(* ===== verification/Protocol.thy ===== *)
theory Protocol
  imports Prelude
begin

text \<open>
  The GNR4 control protocol of \<^verbatim>\<open>protocol.rs\<close>: session identifiers and their UUID text, the
  message types, the METRICS payload, and control frames with their pure decoder, their
  stream reader and their writer.  \<open>SessionId\<close>s and payloads are byte lists; a session
  identifier that came from the code has 16 bytes (\<open>session_wf\<close>).
\<close>

unbundle bit_operations_syntax

section \<open>Constants and errors\<close>

definition MAGIC :: bytes where "MAGIC = ascii ''GNR4''"
definition VERSION :: u16 where "VERSION = 4"
definition HEADER_LEN :: nat where "HEADER_LEN = 28"
definition MAX_PAYLOAD_LEN :: nat where "MAX_PAYLOAD_LEN = 64 * 1024"
definition METRICS_V1_PAYLOAD_LEN :: nat where "METRICS_V1_PAYLOAD_LEN = 60"
definition STARTED_WAKE_PAYLOAD :: bytes where "STARTED_WAKE_PAYLOAD = [1]"

datatype ProtocolError =
    PE_BadMagic
  | PE_InvalidSessionId
  | PE_PayloadTooLarge nat
  | PE_TruncatedHeader nat
  | PE_TruncatedPayload (pe_expected: nat) (pe_actual: nat)
  | PE_TrailingBytes nat
  | PE_UnknownMessageType u16
  | PE_UnsupportedVersion u16
  | PE_Io io_kind

section \<open>Session identifiers\<close>

datatype SessionId = SessionId (session_bytes: bytes)

definition SessionId_ZERO :: SessionId where
  "SessionId_ZERO = SessionId (replicate 16 0)"

definition session_wf :: "SessionId \<Rightarrow> bool" where
  "session_wf s \<longleftrightarrow> length (session_bytes s) = 16"

text \<open>\<^verbatim>\<open>SessionId::random\<close> redraws until the 16 random bytes are not all zero.  The draws of the
  operating system's generator are the argument; \<open>None\<close> is a loop that has not ended yet.\<close>

fun SessionId_random :: "bytes list \<Rightarrow> SessionId option" where
  "SessionId_random [] = None"
| "SessionId_random (bs # draws) =
     (if SessionId bs \<noteq> SessionId_ZERO then Some (SessionId bs) else SessionId_random draws)"

definition hex_digit :: "nat \<Rightarrow> char" where
  "hex_digit n = ''0123456789abcdef'' ! n"

definition hex_byte :: "u8 \<Rightarrow> string" where
  "hex_byte b = [hex_digit (unat b div 16), hex_digit (unat b mod 16)]"

definition SessionId_to_string :: "SessionId \<Rightarrow> string" where
  "SessionId_to_string s =
     concat (map (\<lambda>(index, b). (if index \<in> set [4, 6, 8, 10] then ''-'' else '''') @ hex_byte b)
       (enumerate 0 (session_bytes s)))"

definition is_ascii_hexdigit :: "u8 \<Rightarrow> bool" where
  "is_ascii_hexdigit b \<longleftrightarrow>
     48 \<le> b \<and> b \<le> 57 \<or> 97 \<le> b \<and> b \<le> 102 \<or> 65 \<le> b \<and> b \<le> 70"

definition hex_nibble :: "u8 \<Rightarrow> ProtocolError + u8" where
  "hex_nibble b =
     (if 48 \<le> b \<and> b \<le> 57 then Inr (b - 48)
      else if 97 \<le> b \<and> b \<le> 102 then Inr (b - 97 + 10)
      else if 65 \<le> b \<and> b \<le> 70 then Inr (b - 65 + 10)
      else Inl PE_InvalidSessionId)"

text \<open>The loop that fills the destination bytes from the nibble iterator.\<close>

fun fill_bytes :: "nat \<Rightarrow> (ProtocolError + u8) list \<Rightarrow> ProtocolError + bytes" where
  "fill_bytes 0 hex = Inr []"
| "fill_bytes (Suc n) (Inr high # Inr low # hex) =
     (case fill_bytes n hex of
        Inl e \<Rightarrow> Inl e
      | Inr bs \<Rightarrow> Inr ((push_bit 4 high OR low) # bs))"
| "fill_bytes (Suc n) (Inl e # hex) = Inl e"
| "fill_bytes (Suc n) (Inr high # Inl e # hex) = Inl e"
| "fill_bytes (Suc n) hex = Inl PE_InvalidSessionId"

definition uuid_shape :: "bytes \<Rightarrow> bool" where
  "uuid_shape encoded \<longleftrightarrow>
     list_all (\<lambda>(index, b). if index \<in> set [8, 13, 18, 23] then b = 45 else is_ascii_hexdigit b)
       (enumerate (0::nat) encoded)"

definition SessionId_from_str :: "bytes \<Rightarrow> ProtocolError + SessionId" where
  "SessionId_from_str value =
     (if length value \<noteq> 36 then Inl PE_InvalidSessionId
      else if \<not> uuid_shape value then Inl PE_InvalidSessionId
      else
        (case fill_bytes 16 (map hex_nibble (filter (\<lambda>b. b \<noteq> 45) value)) of
           Inl e \<Rightarrow> Inl e
         | Inr bs \<Rightarrow>
             if SessionId bs = SessionId_ZERO then Inl PE_InvalidSessionId
             else Inr (SessionId bs)))"

section \<open>Message types\<close>

datatype MessageType =
    M_Hello | M_HelloAck | M_Started | M_Heartbeat | M_Stop | M_Stopped | M_Status | M_Error
  | M_Suspend | M_Suspended | M_Metrics

fun message_code :: "MessageType \<Rightarrow> u16" where
  "message_code M_Hello = 1"
| "message_code M_HelloAck = 2"
| "message_code M_Started = 3"
| "message_code M_Heartbeat = 4"
| "message_code M_Stop = 5"
| "message_code M_Stopped = 6"
| "message_code M_Status = 7"
| "message_code M_Error = 8"
| "message_code M_Suspend = 9"
| "message_code M_Suspended = 10"
| "message_code M_Metrics = 11"

definition MessageType_try_from :: "u16 \<Rightarrow> ProtocolError + MessageType" where
  "MessageType_try_from value =
     (if value = 1 then Inr M_Hello
      else if value = 2 then Inr M_HelloAck
      else if value = 3 then Inr M_Started
      else if value = 4 then Inr M_Heartbeat
      else if value = 5 then Inr M_Stop
      else if value = 6 then Inr M_Stopped
      else if value = 7 then Inr M_Status
      else if value = 8 then Inr M_Error
      else if value = 9 then Inr M_Suspend
      else if value = 10 then Inr M_Suspended
      else if value = 11 then Inr M_Metrics
      else Inl (PE_UnknownMessageType value))"

section \<open>METRICS payloads\<close>

record AndroidMetricsV1 =
  tx_packets :: u64
  tx_bytes :: u64
  rx_packets :: u64
  rx_bytes :: u64
  control_rtt_samples :: u64
  control_rtt_p99_us :: u64
  control_rtt_max_us :: u64

definition METRICS_VERSION :: u16 where "METRICS_VERSION = 1"
definition METRICS_FLAGS :: u16 where "METRICS_FLAGS = 0"

datatype MetricsError =
    ME_InvalidLength nat | ME_UnsupportedVersion u16 | ME_UnsupportedFlags u16

definition AndroidMetricsV1_encode :: "AndroidMetricsV1 \<Rightarrow> bytes" where
  "AndroidMetricsV1_encode m =
     u16_be METRICS_VERSION @ u16_be METRICS_FLAGS @
     concat (map u64_be
       [tx_packets m, tx_bytes m, rx_packets m, rx_bytes m,
        control_rtt_samples m, control_rtt_p99_us m, control_rtt_max_us m])"

definition metrics_field :: "bytes \<Rightarrow> nat \<Rightarrow> u64" where
  "metrics_field payload index =
     (let offset = 4 + index * 8 in be_u64 (subslice offset (offset + 8) payload))"

definition AndroidMetricsV1_decode :: "bytes \<Rightarrow> MetricsError + AndroidMetricsV1" where
  "AndroidMetricsV1_decode payload =
     (if length payload \<noteq> METRICS_V1_PAYLOAD_LEN then Inl (ME_InvalidLength (length payload))
      else
        let version = be_u16 (subslice 0 2 payload) in
        if version \<noteq> METRICS_VERSION then Inl (ME_UnsupportedVersion version)
        else
          let flags = be_u16 (subslice 2 4 payload) in
          if flags \<noteq> METRICS_FLAGS then Inl (ME_UnsupportedFlags flags)
          else Inr
            \<lparr>tx_packets = metrics_field payload 0,
             tx_bytes = metrics_field payload 1,
             rx_packets = metrics_field payload 2,
             rx_bytes = metrics_field payload 3,
             control_rtt_samples = metrics_field payload 4,
             control_rtt_p99_us = metrics_field payload 5,
             control_rtt_max_us = metrics_field payload 6\<rparr>)"

section \<open>Frames\<close>

record Frame =
  fr_type :: MessageType
  fr_session :: SessionId
  fr_payload :: bytes

definition Frame_new :: "MessageType \<Rightarrow> SessionId \<Rightarrow> bytes \<Rightarrow> Frame" where
  "Frame_new t s p = \<lparr>fr_type = t, fr_session = s, fr_payload = p\<rparr>"

definition Frame_encode :: "Frame \<Rightarrow> ProtocolError + bytes" where
  "Frame_encode f =
     (if length (fr_payload f) > MAX_PAYLOAD_LEN
      then Inl (PE_PayloadTooLarge (length (fr_payload f)))
      else Inr
        (MAGIC @ u16_be VERSION @ u16_be (message_code (fr_type f)) @
         u32_be (word_of_nat (length (fr_payload f))) @
         session_bytes (fr_session f) @ fr_payload f))"

definition Frame_decode :: "bytes \<Rightarrow> ProtocolError + Frame" where
  "Frame_decode input =
     (if length input < HEADER_LEN then Inl (PE_TruncatedHeader (length input))
      else if subslice 0 4 input \<noteq> MAGIC then Inl PE_BadMagic
      else
        let version = be_u16 (subslice 4 6 input) in
        if version \<noteq> VERSION then Inl (PE_UnsupportedVersion version)
        else
          (case MessageType_try_from (be_u16 (subslice 6 8 input)) of
             Inl e \<Rightarrow> Inl e
           | Inr message_type \<Rightarrow>
               let payload_len = unat (be_u32 (subslice 8 12 input)) in
               if payload_len > MAX_PAYLOAD_LEN then Inl (PE_PayloadTooLarge payload_len)
               else
                 let expected = HEADER_LEN + payload_len in
                 if length input < expected
                 then Inl (PE_TruncatedPayload payload_len (length input - HEADER_LEN))
                 else if length input \<noteq> expected
                 then Inl (PE_TrailingBytes (length input - expected))
                 else Inr
                   \<lparr>fr_type = message_type,
                    fr_session = SessionId (subslice 12 28 input),
                    fr_payload = subslice HEADER_LEN expected input\<rparr>))"

definition Frame_read_from :: "byte_stream \<Rightarrow> ProtocolError + (Frame \<times> byte_stream)" where
  "Frame_read_from reader =
     (case read_exact HEADER_LEN reader of
        Inl k \<Rightarrow> Inl (PE_Io k)
      | Inr (header, reader) \<Rightarrow>
          if subslice 0 4 header \<noteq> MAGIC then Inl PE_BadMagic
          else
            let version = be_u16 (subslice 4 6 header) in
            if version \<noteq> VERSION then Inl (PE_UnsupportedVersion version)
            else
              let payload_len = unat (be_u32 (subslice 8 12 header)) in
              if payload_len > MAX_PAYLOAD_LEN then Inl (PE_PayloadTooLarge payload_len)
              else
                (case read_exact payload_len reader of
                   Inl k \<Rightarrow> Inl (PE_Io k)
                 | Inr (body, reader) \<Rightarrow>
                     (case Frame_decode (header @ body) of
                        Inl e \<Rightarrow> Inl e
                      | Inr f \<Rightarrow> Inr (f, reader))))"

definition Frame_write_to :: "Frame \<Rightarrow> byte_sink \<Rightarrow> ProtocolError + byte_sink" where
  "Frame_write_to f writer =
     (case Frame_encode f of
        Inl e \<Rightarrow> Inl e
      | Inr bs \<Rightarrow> (case write_all bs writer of Inl k \<Rightarrow> Inl (PE_Io k) | Inr w \<Rightarrow> Inr w))"

text \<open>A frame the wire can carry: a 16-byte session and a payload within the bound.\<close>

definition frame_wf :: "Frame \<Rightarrow> bool" where
  "frame_wf f \<longleftrightarrow> session_wf (fr_session f) \<and> length (fr_payload f) \<le> MAX_PAYLOAD_LEN"

section \<open>Session identifiers: the text form\<close>

lemma SessionId_random_Some:
  "SessionId_random draws = Some s \<Longrightarrow> s \<noteq> SessionId_ZERO \<and> session_bytes s \<in> set draws"
  by (induction draws) (auto split: if_splits)

lemma hex_digit_table:
  "list_all (\<lambda>n. hex_nibble (word_of_nat (of_char (hex_digit n))) = Inr (word_of_nat n) \<and>
      is_ascii_hexdigit (word_of_nat (of_char (hex_digit n))) \<and>
      (word_of_nat (of_char (hex_digit n)) :: u8) \<noteq> 45) [0..<16]"
  by code_simp

lemma hex_digit_code:
  assumes "n < 16"
  shows "hex_nibble (word_of_nat (of_char (hex_digit n))) = Inr (word_of_nat n)"
    and "is_ascii_hexdigit (word_of_nat (of_char (hex_digit n)))"
    and "(word_of_nat (of_char (hex_digit n)) :: u8) \<noteq> 45"
  using hex_digit_table assms by (auto simp only: list_all_iff set_upt atLeastLessThan_iff)

lemma byte_from_nibbles:
  "push_bit 4 (word_of_nat (unat b div 16)) OR word_of_nat (unat b mod 16) = (b :: u8)"
proof -
  have "unat b div 16 mod 256 = unat b div 16"
    using unat_byte_less [of b] by (intro mod_less) linarith
  moreover have "unat b mod 16 mod 256 = unat b mod 16" by simp
  ultimately have "word_of_nat (unat b div 16) = drop_bit 4 b"
    and "word_of_nat (unat b mod 16) = take_bit 4 b"
    by (auto intro!: unsigned_word_eqI [where 'a = nat]
        simp: unat_byte_of_nat drop_bit_eq_div take_bit_eq_mod unat_div unat_mod)
  then show ?thesis
    by (auto intro!: bit_eqI simp: bit_simps)
qed

lemma list16_cases:
  assumes "length xs = 16"
  obtains a b c d e f g h i j k l m n p q where "xs = [a,b,c,d,e,f,g,h,i,j,k,l,m,n,p,q]"
  using assms by (auto simp: eval_nat_numeral length_Suc_conv)

lemma ascii_simps [simp]:
  "ascii [] = []" "ascii (c # cs) = word_of_nat (of_char c) # ascii cs"
  "ascii (xs @ ys) = ascii xs @ ascii ys"
  by (simp_all add: ascii_def)

lemma nibble_less: "unat (b :: u8) div 16 < 16" "unat (b :: u8) mod 16 < 16"
  using unat_byte_less [of b] by (simp_all add: less_mult_imp_div_less)

definition hex_high :: "u8 \<Rightarrow> u8" where
  "hex_high b = word_of_nat (of_char (hex_digit (unat b div 16)))"

definition hex_low :: "u8 \<Rightarrow> u8" where
  "hex_low b = word_of_nat (of_char (hex_digit (unat b mod 16)))"

lemma ascii_hex_byte: "ascii (hex_byte b) = [hex_high b, hex_low b]"
  by (simp add: hex_byte_def hex_high_def hex_low_def)

lemma hex_high_low:
  "hex_nibble (hex_high b) = Inr (word_of_nat (unat b div 16))"
  "hex_nibble (hex_low b) = Inr (word_of_nat (unat b mod 16))"
  "is_ascii_hexdigit (hex_high b)" "is_ascii_hexdigit (hex_low b)"
  "hex_high b \<noteq> 45" "hex_low b \<noteq> 45"
  by (simp_all add: hex_high_def hex_low_def nibble_less hex_digit_code)

lemma session_text:
  "ascii (SessionId_to_string (SessionId [a,b,c,d,e,f,g,h,i,j,k,l,m,n,p,q])) =
     [hex_high a, hex_low a, hex_high b, hex_low b, hex_high c, hex_low c, hex_high d, hex_low d,
      45, hex_high e, hex_low e, hex_high f, hex_low f,
      45, hex_high g, hex_low g, hex_high h, hex_low h,
      45, hex_high i, hex_low i, hex_high j, hex_low j,
      45, hex_high k, hex_low k, hex_high l, hex_low l, hex_high m, hex_low m,
      hex_high n, hex_low n, hex_high p, hex_low p, hex_high q, hex_low q]"
  by (simp add: SessionId_to_string_def ascii_hex_byte)

lemma fill_bytes_pairs:
  "fill_bytes (length bs)
     (concat (map (\<lambda>b. [Inr (word_of_nat (unat b div 16)), Inr (word_of_nat (unat b mod 16))]) bs))
   = Inr bs"
  by (induction bs) (simp_all add: byte_from_nibbles)

lemma session_text_roundtrip_aux:
  assumes "session_wf s"
  shows "length (ascii (SessionId_to_string s)) = 36"
    and "uuid_shape (ascii (SessionId_to_string s))"
    and "fill_bytes 16 (map hex_nibble (filter (\<lambda>b. b \<noteq> 45) (ascii (SessionId_to_string s))))
           = Inr (session_bytes s)"
proof -
  obtain bs where s: "s = SessionId bs" by (cases s)
  with assms have "length bs = 16" by (simp add: session_wf_def)
  then obtain a b c d e f g h i j k l m n p q
    where bs: "bs = [a,b,c,d,e,f,g,h,i,j,k,l,m,n,p,q]" by (rule list16_cases)
  note text36 = session_text [of a b c d e f g h i j k l m n p q, folded bs s]
  show "length (ascii (SessionId_to_string s)) = 36"
    by (simp add: text36)
  show "uuid_shape (ascii (SessionId_to_string s))"
    by (simp add: uuid_shape_def text36 hex_high_low)
  have "map hex_nibble (filter (\<lambda>b. b \<noteq> 45) (ascii (SessionId_to_string s))) =
      concat (map (\<lambda>b. [Inr (word_of_nat (unat b div 16)), Inr (word_of_nat (unat b mod 16))]) bs)"
    by (simp add: bs text36 hex_high_low)
  with fill_bytes_pairs [of bs] \<open>length bs = 16\<close> s
  show "fill_bytes 16 (map hex_nibble (filter (\<lambda>b. b \<noteq> 45) (ascii (SessionId_to_string s))))
           = Inr (session_bytes s)" by simp
qed

lemma fill_bytes_length: "fill_bytes n hex = Inr bs \<Longrightarrow> length bs = n"
  by (induction n hex arbitrary: bs rule: fill_bytes.induct) (auto split: sum.splits)

section \<open>Message types: the code table\<close>

lemma message_type_roundtrip [simp]: "MessageType_try_from (message_code t) = Inr t"
  by (cases t) (simp_all add: MessageType_try_from_def)

lemma MessageType_try_from_Inr: "MessageType_try_from v = Inr t \<Longrightarrow> message_code t = v"
  by (auto simp: MessageType_try_from_def split: if_splits)

lemma MessageType_try_from_Inl: "MessageType_try_from v = Inl e \<Longrightarrow> e = PE_UnknownMessageType v"
  by (auto simp: MessageType_try_from_def split: if_splits)

section \<open>METRICS payloads: round trip\<close>

lemma length_metrics_encode: "length (AndroidMetricsV1_encode m) = METRICS_V1_PAYLOAD_LEN"
  by (simp add: AndroidMetricsV1_encode_def METRICS_V1_PAYLOAD_LEN_def)

lemma metrics_field_encode:
  "metrics_field (AndroidMetricsV1_encode m) 0 = tx_packets m"
  "metrics_field (AndroidMetricsV1_encode m) 1 = tx_bytes m"
  "metrics_field (AndroidMetricsV1_encode m) 2 = rx_packets m"
  "metrics_field (AndroidMetricsV1_encode m) 3 = rx_bytes m"
  "metrics_field (AndroidMetricsV1_encode m) 4 = control_rtt_samples m"
  "metrics_field (AndroidMetricsV1_encode m) 5 = control_rtt_p99_us m"
  "metrics_field (AndroidMetricsV1_encode m) 6 = control_rtt_max_us m"
  by (simp_all add: metrics_field_def AndroidMetricsV1_encode_def wire_simps)

lemma metrics_split:
  assumes "length p = 60"
  shows "p = subslice 0 2 p @ subslice 2 4 p @ subslice 4 12 p @ subslice 12 20 p @ subslice 20 28 p @
    subslice 28 36 p @ subslice 36 44 p @ subslice 44 52 p @ subslice 52 60 p"
proof -
  have "subslice 0 2 p @ subslice 2 4 p @ subslice 4 12 p @ subslice 12 20 p @ subslice 20 28 p @
    subslice 28 36 p @ subslice 36 44 p @ subslice 44 52 p @ subslice 52 60 p @ drop 60 p = drop 0 p"
    by (simp only: subslice_drop)
  then show ?thesis using assms by simp
qed

lemma metrics_enc_dec:
  assumes "AndroidMetricsV1_decode p = Inr m"
  shows "AndroidMetricsV1_encode m = p"
proof -
  from assms have len: "length p = 60" and v: "be_u16 (subslice 0 2 p) = METRICS_VERSION"
    and f: "be_u16 (subslice 2 4 p) = METRICS_FLAGS"
    and m: "m = \<lparr>tx_packets = metrics_field p 0, tx_bytes = metrics_field p 1,
      rx_packets = metrics_field p 2, rx_bytes = metrics_field p 3,
      control_rtt_samples = metrics_field p 4, control_rtt_p99_us = metrics_field p 5,
      control_rtt_max_us = metrics_field p 6\<rparr>"
    by (auto simp: AndroidMetricsV1_decode_def METRICS_V1_PAYLOAD_LEN_def Let_def split: if_splits)
  have "u16_be METRICS_VERSION = subslice 0 2 p" "u16_be METRICS_FLAGS = subslice 2 4 p"
    using len uN_be_be_uN(1) [of "subslice 0 2 p"] uN_be_be_uN(1) [of "subslice 2 4 p"]
    by (simp_all add: v f)
  moreover have "u64_be (metrics_field p i) = subslice (4 + i * 8) (4 + i * 8 + 8) p" if "i \<le> 6" for i
    unfolding metrics_field_def Let_def using len that by (intro uN_be_be_uN(3)) simp
  ultimately show ?thesis
    using metrics_split [OF len] by (simp add: AndroidMetricsV1_encode_def m)
qed

section \<open>Frames: the codec laws\<close>

lemma length_MAGIC [simp]: "length MAGIC = 4"
  by (simp add: MAGIC_def)

lemma unat_payload_len:
  "n \<le> MAX_PAYLOAD_LEN \<Longrightarrow> unat (word_of_nat n :: u32) = n"
  by (simp add: MAX_PAYLOAD_LEN_def unat_of_nat)

lemma Frame_encode_Inr:
  "Frame_encode f = Inr bs \<longleftrightarrow>
     length (fr_payload f) \<le> MAX_PAYLOAD_LEN \<and>
     bs = MAGIC @ u16_be VERSION @ u16_be (message_code (fr_type f)) @
       u32_be (word_of_nat (length (fr_payload f))) @ session_bytes (fr_session f) @ fr_payload f"
  by (auto simp: Frame_encode_def)

lemma header_slices:
  fixes body :: bytes
  assumes "length a = 4" "length b = 2" "length c = 2" "length d = 4" "length e = 16"
    and "bs = a @ b @ c @ d @ e @ body"
  shows "subslice 0 4 bs = a" "subslice 4 6 bs = b" "subslice 6 8 bs = c" "subslice 8 12 bs = d"
    "subslice 12 28 bs = e" "drop 28 bs = body" "length bs = 28 + length body"
  unfolding assms(6) using assms(1-5) by (simp_all add: subslice_def)

lemma header_split:
  assumes "28 \<le> length bs"
  shows "bs = subslice 0 4 bs @ subslice 4 6 bs @ subslice 6 8 bs @ subslice 8 12 bs @ subslice 12 28 bs @ drop 28 bs"
proof -
  have "subslice 0 4 bs @ subslice 4 6 bs @ subslice 6 8 bs @ subslice 8 12 bs @ subslice 12 28 bs @ drop 28 bs = drop 0 bs"
    by (simp only: subslice_drop)
  then show ?thesis by simp
qed

lemma frame_dec_enc:
  assumes "frame_wf f" "Frame_encode f = Inr bs"
  shows "Frame_decode bs = Inr f"
proof -
  have len: "length (session_bytes (fr_session f)) = 16" and p: "length (fr_payload f) \<le> MAX_PAYLOAD_LEN"
    using assms(1) by (simp_all add: frame_wf_def session_wf_def)
  have bs: "bs = MAGIC @ u16_be VERSION @ u16_be (message_code (fr_type f)) @
       u32_be (word_of_nat (length (fr_payload f))) @ session_bytes (fr_session f) @ fr_payload f"
    using assms(2) by (simp add: Frame_encode_Inr)
  note parts = header_slices [OF _ _ _ _ len bs, simplified]
  show ?thesis
    using p by (simp add: Frame_decode_def HEADER_LEN_def Let_def unat_payload_len parts
        subslice_def [of 28])
qed

lemma Frame_decode_Inr:
  "Frame_decode bs = Inr f \<longleftrightarrow>
     28 \<le> length bs \<and> subslice 0 4 bs = MAGIC \<and> be_u16 (subslice 4 6 bs) = VERSION \<and>
     (\<exists>t. MessageType_try_from (be_u16 (subslice 6 8 bs)) = Inr t \<and>
       unat (be_u32 (subslice 8 12 bs)) \<le> MAX_PAYLOAD_LEN \<and>
       length bs = 28 + unat (be_u32 (subslice 8 12 bs)) \<and>
       f = \<lparr>fr_type = t, fr_session = SessionId (subslice 12 28 bs), fr_payload = drop 28 bs\<rparr>)"
  by (cases "MessageType_try_from (be_u16 (subslice 6 8 bs))")
     (auto simp: Frame_decode_def Let_def HEADER_LEN_def subslice_to_end [where i = 28])

lemma Frame_decode_InrD:
  assumes "Frame_decode bs = Inr f"
  shows "28 \<le> length bs" "subslice 0 4 bs = MAGIC" "be_u16 (subslice 4 6 bs) = VERSION"
    "be_u16 (subslice 6 8 bs) = message_code (fr_type f)"
    "unat (be_u32 (subslice 8 12 bs)) = length (fr_payload f)"
    "length (fr_payload f) \<le> MAX_PAYLOAD_LEN"
    "fr_session f = SessionId (subslice 12 28 bs)" "fr_payload f = drop 28 bs"
  using assms by (auto simp: Frame_decode_Inr dest!: MessageType_try_from_Inr)

lemma frame_enc_dec:
  assumes "Frame_decode bs = Inr f"
  shows "frame_wf f \<and> Frame_encode f = Inr bs"
proof -
  note d = Frame_decode_InrD [OF assms]
  have "u16_be VERSION = subslice 4 6 bs"
    using d(1,3) uN_be_be_uN(1) [of "subslice 4 6 bs"] by simp
  moreover have "u16_be (message_code (fr_type f)) = subslice 6 8 bs"
    using d(1,4) uN_be_be_uN(1) [of "subslice 6 8 bs"] by simp
  moreover have "u32_be (word_of_nat (length (fr_payload f))) = subslice 8 12 bs"
    using d(1,5) uN_be_be_uN(2) [of "subslice 8 12 bs"] by (simp flip: d(5))
  ultimately show ?thesis
    using d header_split [OF d(1)] by (simp add: frame_wf_def session_wf_def Frame_encode_Inr)
qed

lemma frame_rd_enc:
  assumes "frame_wf f" "Frame_encode f = Inr bs" "pending s = bs @ rest"
  shows "Frame_read_from s = Inr (f, s\<lparr>pending := rest\<rparr>)"
proof -
  have dec: "Frame_decode bs = Inr f" using assms(1,2) by (rule frame_dec_enc)
  note d = Frame_decode_InrD [OF dec]
  have p: "pending s = take 28 bs @ (drop 28 bs @ rest)"
    using assms(3) by (metis append_assoc append_take_drop_id)
  have h: "read_exact HEADER_LEN s = Inr (take 28 bs, s\<lparr>pending := drop 28 bs @ rest\<rparr>)"
    using p d(1) by (intro read_exact_append) (simp_all add: HEADER_LEN_def)
  have b: "read_exact (length (fr_payload f)) (s\<lparr>pending := drop 28 bs @ rest\<rparr>) =
      Inr (drop 28 bs, s\<lparr>pending := rest\<rparr>)"
    by (simp add: read_exact_def d(8))
  have sl: "subslice 0 4 (take 28 bs) = subslice 0 4 bs" "subslice 4 6 (take 28 bs) = subslice 4 6 bs"
    "subslice 8 12 (take 28 bs) = subslice 8 12 bs"
    by (simp_all add: subslice_def drop_take)
  show ?thesis
    using d(2,3,6) by (simp add: Frame_read_from_def h sl b d(5) dec Let_def)
qed

lemma frame_rd_dec:
  assumes "Frame_read_from s = Inr (f, s')"
  shows "\<exists>bs. Frame_decode bs = Inr f \<and> pending s = bs @ pending s' \<and>
    s' = s\<lparr>pending := pending s'\<rparr>"
proof -
  from assms obtain header t body where
    h: "read_exact HEADER_LEN s = Inr (header, t)" and
    b: "read_exact (unat (be_u32 (subslice 8 12 header))) t = Inr (body, s')" and
    dec: "Frame_decode (header @ body) = Inr f"
    by (auto simp: Frame_read_from_def Let_def split: sum.splits if_splits)
  from read_exact_InrD [OF h] read_exact_InrD [OF b] dec show ?thesis
    by (intro exI [of _ "header @ body"]) (auto intro: byte_stream_advance)
qed

lemma Frame_write_to_ok:
  "Frame_encode f = Inr bs \<Longrightarrow> broken w = None \<Longrightarrow>
     Frame_write_to f w = Inr (w\<lparr>written := written w @ bs\<rparr>)"
  by (simp add: Frame_write_to_def write_all_def)

interpretation gnr4: framed_channel Frame_encode Frame_decode Frame_read_from frame_wf Frame_write_to
proof unfold_locales
  show "\<And>m. frame_wf m \<Longrightarrow> \<exists>bs. Frame_encode m = Inr bs"
    by (simp add: frame_wf_def Frame_encode_Inr)
qed (fact frame_dec_enc frame_enc_dec frame_rd_enc frame_rd_dec Frame_write_to_ok)+

section \<open>Properties\<close>

text \<open>C1. A frame decodes from a byte string exactly when it is well formed and the byte
  string is its encoding: the decoder accepts nothing but canonical encodings, and every frame
  with a 16-byte session and a payload within the bound survives the round trip.\<close>

theorem frame_codec_exact:
  "Frame_decode bs = Inr f \<longleftrightarrow> frame_wf f \<and> Frame_encode f = Inr bs"
  by (rule gnr4.dec_iff)

text \<open>A sequence of well-formed frames written one after the other to a healthy transport
  is read back by the stream reader as the same sequence, leaving what follows untouched.\<close>

theorem frame_stream_roundtrip:
  assumes "list_all frame_wf fs" "broken w = None"
  shows "\<exists>bs. write_frames Frame_write_to fs w = Inr (w\<lparr>written := written w @ bs\<rparr>) \<and>
    (\<forall>s rest. pending s = bs @ rest \<longrightarrow>
       read_frames Frame_read_from (length fs) s = Inr (fs, s\<lparr>pending := rest\<rparr>))"
  using assms by (rule gnr4.stream_roundtrip)

text \<open>The stream reader rejects a header that declares a payload above the protocol bound
  from the 28 header bytes alone: it neither waits for nor consumes any payload byte, however
  long the stream is.\<close>

theorem oversize_rejected_before_payload:
  assumes "length header = 28" "pending s = header @ rest"
    and "subslice 0 4 header = MAGIC" "be_u16 (subslice 4 6 header) = VERSION"
    and "unat (be_u32 (subslice 8 12 header)) > MAX_PAYLOAD_LEN"
  shows "Frame_read_from s = Inl (PE_PayloadTooLarge (unat (be_u32 (subslice 8 12 header))))"
  using assms by (simp add: Frame_read_from_def read_exact_append HEADER_LEN_def Let_def)

text \<open>Every session identifier the host can use (16 bytes, not all zero) prints as UUID text
  that parses back to it; and whatever text the parser accepts yields such an identifier, so
  the all-zero session is never admitted.\<close>

theorem session_text_roundtrip:
  "(session_wf s \<and> s \<noteq> SessionId_ZERO \<longrightarrow>
      SessionId_from_str (ascii (SessionId_to_string s)) = Inr s) \<and>
   (SessionId_from_str v = Inr s \<longrightarrow> session_wf s \<and> s \<noteq> SessionId_ZERO \<and> length v = 36)"
  using session_text_roundtrip_aux [of s]
  by (auto simp: SessionId_from_str_def session_wf_def dest: fill_bytes_length
      split: if_splits sum.splits)

text \<open>A METRICS payload decodes to a record exactly when it is that record's encoding: the
  layout is fixed at 60 bytes and every other length, version or flag word is refused.\<close>

theorem metrics_codec_exact:
  "AndroidMetricsV1_decode p = Inr m \<longleftrightarrow> p = AndroidMetricsV1_encode m"
proof
  assume "p = AndroidMetricsV1_encode m"
  moreover have "subslice 0 2 (AndroidMetricsV1_encode m) = u16_be METRICS_VERSION"
    "subslice 2 4 (AndroidMetricsV1_encode m) = u16_be METRICS_FLAGS"
    by (simp_all add: AndroidMetricsV1_encode_def subslice_def)
  ultimately show "AndroidMetricsV1_decode p = Inr m"
    using metrics_field_encode [of m]
    by (simp add: AndroidMetricsV1_decode_def length_metrics_encode)
qed (simp add: metrics_enc_dec)

end
