(* ===== verification/Lifecycle.thy ===== *)
theory Lifecycle
  imports Protocol
begin

text \<open>
  The host lifecycle of \<^verbatim>\<open>state.rs\<close>: the record \<open>StateMachine\<close>, one definition per method with
  its guards, the step relation the methods generate, its invariant, and an abstract lifecycle
  automaton that the methods refine.  A method that returns an error leaves the machine as it
  was, so an error is a value \<open>Inl e\<close> and the new machine is the value \<open>Inr m\<close>.
\<close>

section \<open>State\<close>

datatype HostState = Stopped | Preparing | Connected | Degraded | Stopping | ErrorState

definition HEARTBEAT_INTERVAL :: duration where "HEARTBEAT_INTERVAL = 1000 * 1000000"
definition HEARTBEAT_MISS_LIMIT :: u32 where "HEARTBEAT_MISS_LIMIT = 3"
definition HEADSET_SUSPENDED_REASON :: string where
  "HEADSET_SUSPENDED_REASON = ''headset is asleep; VPN remains active''"
definition HEARTBEATS_MISSED_REASON :: string where
  "HEARTBEATS_MISSED_REASON = ''three heartbeat intervals missed; VPN remains active''"

record StateMachine =
  sm_state :: HostState
  sm_session :: "SessionId option"
  sm_last_heartbeat :: "instant option"
  sm_missed :: u32
  sm_reason :: "string option"

record StateSnapshot =
  snap_state :: HostState
  snap_session :: "string option"
  snap_missed :: u32
  snap_reason :: "string option"

datatype TransitionError =
    TE_InvalidState (te_actual: HostState) (te_expected: "HostState list")
  | TE_SessionMismatch "SessionId option" SessionId

section \<open>Operations\<close>

definition as_millis :: "duration \<Rightarrow> nat" where
  "as_millis d = d div 1000000"

definition StateMachine_new :: StateMachine where
  "StateMachine_new = \<lparr>sm_state = Stopped, sm_session = None, sm_last_heartbeat = None,
     sm_missed = 0, sm_reason = None\<rparr>"

definition require_session :: "SessionId \<Rightarrow> StateMachine \<Rightarrow> TransitionError + unit" where
  "require_session actual m =
     (case sm_session m of
        Some expected \<Rightarrow> if expected = actual then Inr () else Inl (TE_SessionMismatch (Some expected) actual)
      | None \<Rightarrow> Inl (TE_SessionMismatch None actual))"

definition require_state :: "HostState list \<Rightarrow> StateMachine \<Rightarrow> TransitionError + unit" where
  "require_state expected m =
     (if sm_state m \<in> set expected then Inr () else Inl (TE_InvalidState (sm_state m) expected))"

definition begin_start :: "SessionId \<Rightarrow> StateMachine \<Rightarrow> TransitionError + StateMachine" where
  "begin_start session m =
     (case require_state [Stopped, ErrorState] m of
        Inl e \<Rightarrow> Inl e
      | Inr _ \<Rightarrow> Inr (m\<lparr>sm_state := Preparing, sm_session := Some session,
          sm_last_heartbeat := None, sm_missed := 0, sm_reason := None\<rparr>))"

definition peer_started :: "SessionId \<Rightarrow> instant \<Rightarrow> StateMachine \<Rightarrow> TransitionError + StateMachine" where
  "peer_started session now m =
     (case require_session session m of
        Inl e \<Rightarrow> Inl e
      | Inr _ \<Rightarrow>
          (case require_state [Preparing, Connected, Degraded] m of
             Inl e \<Rightarrow> Inl e
           | Inr _ \<Rightarrow> Inr (m\<lparr>sm_state := Connected, sm_last_heartbeat := Some now,
               sm_missed := 0, sm_reason := None\<rparr>)))"

definition heartbeat :: "SessionId \<Rightarrow> instant \<Rightarrow> StateMachine \<Rightarrow> TransitionError + StateMachine" where
  "heartbeat session now m =
     (case require_session session m of
        Inl e \<Rightarrow> Inl e
      | Inr _ \<Rightarrow>
          if sm_state m = Degraded \<and> sm_reason m = Some HEADSET_SUSPENDED_REASON
          then Inr (m\<lparr>sm_last_heartbeat := Some now, sm_missed := 0\<rparr>)
          else
            (case require_state [Connected, Degraded] m of
               Inl e \<Rightarrow> Inl e
             | Inr _ \<Rightarrow> Inr (m\<lparr>sm_state := Connected, sm_last_heartbeat := Some now,
                 sm_missed := 0, sm_reason := None\<rparr>)))"

definition missed_intervals :: "instant \<Rightarrow> instant \<Rightarrow> u32" where
  "missed_intervals now last_at =
     word_of_nat (min (as_millis (now - last_at) div as_millis HEARTBEAT_INTERVAL) (2 ^ 32 - 1))"

definition tick :: "instant \<Rightarrow> StateMachine \<Rightarrow> StateMachine" where
  "tick now m =
     (if sm_state m \<noteq> Connected then m
      else
        (case sm_last_heartbeat m of
           None \<Rightarrow> m
         | Some last_at \<Rightarrow>
             let m = m\<lparr>sm_missed := missed_intervals now last_at\<rparr> in
             if sm_missed m \<ge> HEARTBEAT_MISS_LIMIT
             then m\<lparr>sm_state := Degraded, sm_reason := Some HEARTBEATS_MISSED_REASON\<rparr>
             else m))"

definition transport_lost :: "string \<Rightarrow> StateMachine \<Rightarrow> StateMachine" where
  "transport_lost reason m =
     (if sm_state m \<in> set [Preparing, Connected]
      then m\<lparr>sm_state := Degraded, sm_reason := Some reason\<rparr>
      else if sm_state m = Degraded \<and> sm_reason m \<noteq> Some HEADSET_SUSPENDED_REASON
      then m\<lparr>sm_reason := Some reason\<rparr>
      else m)"

definition peer_suspended :: "SessionId \<Rightarrow> StateMachine \<Rightarrow> TransitionError + StateMachine" where
  "peer_suspended session m =
     (case require_session session m of
        Inl e \<Rightarrow> Inl e
      | Inr _ \<Rightarrow>
          (case require_state [Connected, Degraded] m of
             Inl e \<Rightarrow> Inl e
           | Inr _ \<Rightarrow> Inr (m\<lparr>sm_state := Degraded, sm_last_heartbeat := None, sm_missed := 0,
               sm_reason := Some HEADSET_SUSPENDED_REASON\<rparr>)))"

definition begin_stop :: "StateMachine \<Rightarrow> TransitionError + StateMachine" where
  "begin_stop m =
     (case require_state [Preparing, Connected, Degraded, ErrorState] m of
        Inl e \<Rightarrow> Inl e
      | Inr _ \<Rightarrow> Inr (m\<lparr>sm_state := Stopping, sm_reason := None\<rparr>))"

definition stopped :: "StateMachine \<Rightarrow> TransitionError + StateMachine" where
  "stopped m =
     (case require_state [Stopping] m of
        Inl e \<Rightarrow> Inl e
      | Inr _ \<Rightarrow> Inr (m\<lparr>sm_state := Stopped, sm_session := None, sm_last_heartbeat := None,
          sm_missed := 0, sm_reason := None\<rparr>))"

definition fail :: "string \<Rightarrow> StateMachine \<Rightarrow> StateMachine" where
  "fail reason m = m\<lparr>sm_state := ErrorState, sm_last_heartbeat := None, sm_reason := Some reason\<rparr>"

definition snapshot :: "StateMachine \<Rightarrow> StateSnapshot" where
  "snapshot m = \<lparr>snap_state = sm_state m,
     snap_session = map_option SessionId_to_string (sm_session m),
     snap_missed = sm_missed m, snap_reason = sm_reason m\<rparr>"

text \<open>The suspended substate: authenticated headset sleep.\<close>

definition is_suspended :: "StateMachine \<Rightarrow> bool" where
  "is_suspended m \<longleftrightarrow> sm_state m = Degraded \<and> sm_reason m = Some HEADSET_SUSPENDED_REASON"

section \<open>Steps and reachable machines\<close>

text \<open>A step is one successful method call.  The callers of \<open>transport_lost\<close> pass fixed carrier
  messages, none of which is the text that marks authenticated headset sleep.\<close>

inductive sm_step :: "StateMachine \<Rightarrow> StateMachine \<Rightarrow> bool" where
  step_begin_start: "begin_start s m = Inr m' \<Longrightarrow> sm_step m m'"
| step_peer_started: "peer_started s now m = Inr m' \<Longrightarrow> sm_step m m'"
| step_heartbeat: "heartbeat s now m = Inr m' \<Longrightarrow> sm_step m m'"
| step_tick: "sm_step m (tick now m)"
| step_transport_lost: "reason \<noteq> HEADSET_SUSPENDED_REASON \<Longrightarrow> sm_step m (transport_lost reason m)"
| step_peer_suspended: "peer_suspended s m = Inr m' \<Longrightarrow> sm_step m m'"
| step_begin_stop: "begin_stop m = Inr m' \<Longrightarrow> sm_step m m'"
| step_stopped: "stopped m = Inr m' \<Longrightarrow> sm_step m m'"
| step_fail: "sm_step m (fail reason m)"

inductive sm_reachable :: "StateMachine \<Rightarrow> bool" where
  reach_new: "sm_reachable StateMachine_new"
| reach_step: "sm_reachable m \<Longrightarrow> sm_step m m' \<Longrightarrow> sm_reachable m'"

text \<open>What the fields say of each other: an active lifecycle has a session, only a live one has a
  heartbeat to measure, and the states that need a reason carry one.\<close>

definition sm_inv :: "StateMachine \<Rightarrow> bool" where
  "sm_inv m \<longleftrightarrow>
     (sm_state m = Stopped \<longrightarrow> m = StateMachine_new) \<and>
     (sm_state m \<in> {Preparing, Connected, Degraded} \<longrightarrow> sm_session m \<noteq> None) \<and>
     (sm_state m = Preparing \<longrightarrow> sm_last_heartbeat m = None \<and> sm_missed m = 0 \<and> sm_reason m = None) \<and>
     (sm_state m = Connected \<longrightarrow>
        sm_last_heartbeat m \<noteq> None \<and> sm_missed m < HEARTBEAT_MISS_LIMIT \<and> sm_reason m = None) \<and>
     (sm_state m \<in> {Degraded, ErrorState} \<longrightarrow> sm_reason m \<noteq> None) \<and>
     (sm_state m \<in> {ErrorState} \<longrightarrow> sm_last_heartbeat m = None) \<and>
     (sm_state m = Stopping \<longrightarrow> sm_reason m = None)"

section \<open>Characterisations\<close>

lemmas guard_defs = require_session_def require_state_def

text \<open>The successful runs of the fallible methods, as guards and effects.\<close>

lemma begin_start_Inr [machine_simps]:
  "begin_start s m = Inr m' \<longleftrightarrow> sm_state m \<in> {Stopped, ErrorState} \<and>
     m' = m\<lparr>sm_state := Preparing, sm_session := Some s, sm_last_heartbeat := None,
       sm_missed := 0, sm_reason := None\<rparr>"
  by (auto simp: begin_start_def guard_defs split: option.splits)

lemma peer_started_Inr [machine_simps]:
  "peer_started s now m = Inr m' \<longleftrightarrow> sm_session m = Some s \<and>
     sm_state m \<in> {Preparing, Connected, Degraded} \<and>
     m' = m\<lparr>sm_state := Connected, sm_last_heartbeat := Some now, sm_missed := 0,
       sm_reason := None\<rparr>"
  by (auto simp: peer_started_def guard_defs split: option.splits)

lemma heartbeat_Inr [machine_simps]:
  "heartbeat s now m = Inr m' \<longleftrightarrow> sm_session m = Some s \<and> sm_state m \<in> {Connected, Degraded} \<and>
     m' = (if is_suspended m then m\<lparr>sm_last_heartbeat := Some now, sm_missed := 0\<rparr>
           else m\<lparr>sm_state := Connected, sm_last_heartbeat := Some now, sm_missed := 0,
             sm_reason := None\<rparr>)"
  by (auto simp: heartbeat_def guard_defs is_suspended_def split: option.splits)

lemma peer_suspended_Inr [machine_simps]:
  "peer_suspended s m = Inr m' \<longleftrightarrow> sm_session m = Some s \<and> sm_state m \<in> {Connected, Degraded} \<and>
     m' = m\<lparr>sm_state := Degraded, sm_last_heartbeat := None, sm_missed := 0,
       sm_reason := Some HEADSET_SUSPENDED_REASON\<rparr>"
  by (auto simp: peer_suspended_def guard_defs split: option.splits)

lemma begin_stop_Inr [machine_simps]:
  "begin_stop m = Inr m' \<longleftrightarrow> sm_state m \<in> {Preparing, Connected, Degraded, ErrorState} \<and>
     m' = m\<lparr>sm_state := Stopping, sm_reason := None\<rparr>"
  by (auto simp: begin_stop_def guard_defs split: option.splits)

lemma stopped_Inr [machine_simps]:
  "stopped m = Inr m' \<longleftrightarrow> sm_state m = Stopping \<and> m' = m\<lparr>sm_state := Stopped, sm_session := None,
     sm_last_heartbeat := None, sm_missed := 0, sm_reason := None\<rparr>"
  by (auto simp: stopped_def guard_defs split: option.splits)

inductive_cases sm_stepE: "sm_step m m'"

text \<open>Every step is one of these updates.\<close>

lemmas sm_step_simps = tick_def transport_lost_def fail_def Let_def

lemma missed_intervals_value:
  "unat (missed_intervals now last_at) = min ((now - last_at) div 1000000000) (2 ^ 32 - 1)"
proof -
  have "as_millis (now - last_at) div as_millis HEARTBEAT_INTERVAL = (now - last_at) div 1000000000"
    by (simp add: as_millis_def HEARTBEAT_INTERVAL_def flip: div_mult2_eq)
  then show ?thesis by (simp add: missed_intervals_def unat_of_nat)
qed

lemma missed_limit:
  "HEARTBEAT_MISS_LIMIT \<le> missed_intervals now last_at \<longleftrightarrow> last_at + 3 * HEARTBEAT_INTERVAL \<le> now"
proof -
  have "HEARTBEAT_MISS_LIMIT \<le> missed_intervals now last_at \<longleftrightarrow>
      3 \<le> min ((now - last_at) div 1000000000) (2 ^ 32 - 1)"
    by (simp add: word_le_nat_alt missed_intervals_value HEARTBEAT_MISS_LIMIT_def)
  also have "\<dots> \<longleftrightarrow> 3 \<le> (now - last_at) div 1000000000" by simp
  also have "\<dots> \<longleftrightarrow> last_at + 3 * HEARTBEAT_INTERVAL \<le> now"
    by (simp add: HEARTBEAT_INTERVAL_def) arith
  finally show ?thesis .
qed

section \<open>The invariant\<close>

lemma sm_inv_new: "sm_inv StateMachine_new"
  by (simp add: sm_inv_def StateMachine_new_def)

lemma sm_inv_step: "sm_step m m' \<Longrightarrow> sm_inv m \<Longrightarrow> sm_inv m'"
proof (induction rule: sm_step.induct)
  case (step_tick m now)
  then show ?case
    by (cases "sm_last_heartbeat m") (auto simp: sm_inv_def tick_def Let_def not_le)
next
  case (step_stopped m m')
  then show ?case by (cases m) (auto simp: sm_inv_def machine_simps StateMachine_new_def)
qed (auto simp: sm_inv_def machine_simps sm_step_simps is_suspended_def HEARTBEAT_MISS_LIMIT_def)

lemma sm_reachable_inv: "sm_reachable m \<Longrightarrow> sm_inv m"
  by (induction rule: sm_reachable.induct) (auto intro: sm_inv_new sm_inv_step)

lemma sm_step_to_stopped:
  "sm_step m m' \<Longrightarrow> sm_state m' = Stopped \<Longrightarrow> sm_state m \<noteq> Stopped \<Longrightarrow>
     sm_state m = Stopping \<and> stopped m = Inr m'"
  by (induction rule: sm_step.induct)
     (auto simp: machine_simps sm_step_simps split: if_splits option.splits)

section \<open>The abstract lifecycle\<close>

text \<open>What the lifecycle promises to the rest of the host, without heartbeats and messages: a
  session is either off, being prepared, live, lost (the carrier is gone, the VPN stays), asleep
  (the headset said so), stopping, or failed, and it keeps its identifier throughout.\<close>

datatype lifecycle =
    L_Off
  | L_Preparing SessionId
  | L_Live SessionId
  | L_Lost SessionId
  | L_Asleep SessionId
  | L_Stopping "SessionId option"
  | L_Failed "SessionId option"

fun lifecycle_session :: "lifecycle \<Rightarrow> SessionId option" where
  "lifecycle_session L_Off = None"
| "lifecycle_session (L_Preparing s) = Some s"
| "lifecycle_session (L_Live s) = Some s"
| "lifecycle_session (L_Lost s) = Some s"
| "lifecycle_session (L_Asleep s) = Some s"
| "lifecycle_session (L_Stopping x) = x"
| "lifecycle_session (L_Failed x) = x"

inductive lifecycle_step :: "lifecycle \<Rightarrow> lifecycle \<Rightarrow> bool" where
  life_start: "l = L_Off \<or> l = L_Failed x \<Longrightarrow> lifecycle_step l (L_Preparing s)"
| life_live: "l \<in> {L_Preparing s, L_Lost s, L_Asleep s} \<Longrightarrow> lifecycle_step l (L_Live s)"
| life_lost: "l \<in> {L_Preparing s, L_Live s} \<Longrightarrow> lifecycle_step l (L_Lost s)"
| life_asleep: "l \<in> {L_Live s, L_Lost s} \<Longrightarrow> lifecycle_step l (L_Asleep s)"
| life_stopping: "l \<notin> {L_Off, L_Stopping (lifecycle_session l)} \<Longrightarrow>
    lifecycle_step l (L_Stopping (lifecycle_session l))"
| life_off: "lifecycle_step (L_Stopping x) L_Off"
| life_failed: "lifecycle_step l (L_Failed (lifecycle_session l))"

definition lifecycle_of :: "StateMachine \<Rightarrow> lifecycle" where
  "lifecycle_of m =
     (case sm_state m of
        Stopped \<Rightarrow> L_Off
      | Preparing \<Rightarrow> L_Preparing (the (sm_session m))
      | Connected \<Rightarrow> L_Live (the (sm_session m))
      | Degraded \<Rightarrow> if is_suspended m then L_Asleep (the (sm_session m)) else L_Lost (the (sm_session m))
      | Stopping \<Rightarrow> L_Stopping (sm_session m)
      | ErrorState \<Rightarrow> L_Failed (sm_session m))"

lemma reasons_distinct [simp]: "HEARTBEATS_MISSED_REASON \<noteq> HEADSET_SUSPENDED_REASON"
  by (simp add: HEARTBEATS_MISSED_REASON_def HEADSET_SUSPENDED_REASON_def)

lemma lifecycle_at [simp]:
  "sm_state m = Stopped \<Longrightarrow> lifecycle_of m = L_Off"
  "sm_state m = Preparing \<Longrightarrow> lifecycle_of m = L_Preparing (the (sm_session m))"
  "sm_state m = Connected \<Longrightarrow> lifecycle_of m = L_Live (the (sm_session m))"
  "sm_state m = Degraded \<Longrightarrow> lifecycle_of m =
     (if sm_reason m = Some HEADSET_SUSPENDED_REASON then L_Asleep else L_Lost) (the (sm_session m))"
  "sm_state m = Stopping \<Longrightarrow> lifecycle_of m = L_Stopping (sm_session m)"
  "sm_state m = ErrorState \<Longrightarrow> lifecycle_of m = L_Failed (sm_session m)"
  by (simp_all add: lifecycle_of_def is_suspended_def)

lemma sm_inv_session:
  "sm_inv m \<Longrightarrow> sm_state m \<in> {Preparing, Connected, Degraded} \<Longrightarrow> sm_session m \<noteq> None"
  "sm_inv m \<Longrightarrow> sm_state m = Stopped \<Longrightarrow> sm_session m = None"
  unfolding sm_inv_def StateMachine_new_def by (blast, metis StateMachine.select_convs(2))

lemma lifecycle_session_of: "sm_inv m \<Longrightarrow> lifecycle_session (lifecycle_of m) = sm_session m"
  by (cases "sm_state m") (auto dest: sm_inv_session)

lemmas lifecycle_simps = is_suspended_def machine_simps sm_step_simps

lemma lifecycle_simulation:
  assumes "sm_step m m'" "sm_inv m"
  shows "lifecycle_of m' = lifecycle_of m \<or> lifecycle_step (lifecycle_of m) (lifecycle_of m')"
  using assms
proof (induction rule: sm_step.induct)
  case (step_begin_start s m m')
  then have "lifecycle_of m = L_Off \<or> lifecycle_of m = L_Failed (sm_session m)"
    and "lifecycle_of m' = L_Preparing s"
    by (auto simp: lifecycle_simps)
  then show ?case by (auto intro: lifecycle_step.life_start)
next
  case (step_peer_started s now m m')
  then have "lifecycle_of m \<in> {L_Preparing s, L_Live s, L_Lost s, L_Asleep s}"
    and "lifecycle_of m' = L_Live s"
    by (auto simp: lifecycle_simps)
  then show ?case by (auto intro: lifecycle_step.life_live)
next
  case (step_heartbeat s now m m')
  then have "lifecycle_of m \<in> {L_Live s, L_Lost s} \<and> lifecycle_of m' = L_Live s \<or>
      lifecycle_of m' = lifecycle_of m"
    by (auto simp: lifecycle_simps)
  then show ?case by (auto intro: lifecycle_step.life_live)
next
  case (step_tick m now)
  then have "lifecycle_of (tick now m) = lifecycle_of m \<or>
      lifecycle_of m = L_Live (the (sm_session m)) \<and>
      lifecycle_of (tick now m) = L_Lost (the (sm_session m))"
    by (auto simp: lifecycle_simps split: option.splits)
  then show ?case by (auto intro: lifecycle_step.life_lost)
next
  case (step_transport_lost reason m)
  then have "lifecycle_of (transport_lost reason m) = lifecycle_of m \<or>
      lifecycle_of m \<in> {L_Preparing (the (sm_session m)), L_Live (the (sm_session m))} \<and>
      lifecycle_of (transport_lost reason m) = L_Lost (the (sm_session m))"
    by (auto simp: lifecycle_simps)
  then show ?case by (auto intro: lifecycle_step.life_lost)
next
  case (step_peer_suspended s m m')
  then have "lifecycle_of m \<in> {L_Live s, L_Lost s, L_Asleep s}" and "lifecycle_of m' = L_Asleep s"
    by (auto simp: lifecycle_simps)
  then show ?case by (auto intro: lifecycle_step.life_asleep)
next
  case (step_begin_stop m m')
  then have "lifecycle_of m \<notin> {L_Off, L_Stopping (sm_session m)}"
    and "lifecycle_of m' = L_Stopping (sm_session m)"
    by (auto simp: lifecycle_simps split: if_splits)
  then show ?case
    using lifecycle_step.life_stopping [of "lifecycle_of m"] lifecycle_session_of [OF step_begin_stop(2)]
    by simp
next
  case (step_stopped m m')
  then have "lifecycle_of m = L_Stopping (sm_session m)" and "lifecycle_of m' = L_Off"
    by (auto simp: lifecycle_simps)
  then show ?case by (auto intro: lifecycle_step.life_off)
next
  case (step_fail m reason)
  have "lifecycle_of (fail reason m) = L_Failed (sm_session m)"
    by (simp add: lifecycle_simps)
  then show ?case
    using lifecycle_step.life_failed [of "lifecycle_of m"] lifecycle_session_of [OF step_fail] by simp
qed

section \<open>Properties\<close>

text \<open>C2. Every reachable machine satisfies the field invariant: stopped means fully reset, an
  active session always has its identifier, a connected one has a heartbeat to measure and fewer
  misses than the limit, and degraded or failed states always carry a reason.\<close>

theorem reachable_invariant:
  assumes "sm_reachable m"
  shows "sm_inv m"
  using assms by (rule sm_reachable_inv)

theorem reachable_invariant_witness:
  "sm_inv (StateMachine_new\<lparr>sm_state := Preparing, sm_session := Some (SessionId (replicate 16 1))\<rparr>)"
  by (rule reachable_invariant, rule reach_step [OF reach_new],
      rule step_begin_start [of "SessionId (replicate 16 1)"])
     (simp add: machine_simps StateMachine_new_def)

text \<open>C3. The state machine implements the abstract lifecycle: each successful method call of a
  reachable machine either leaves the abstract state alone or is one of its transitions.  In
  particular a session keeps its identifier until it is stopped or a new start replaces a
  failed one, and headset sleep ends only by an authenticated start.\<close>

theorem state_machine_refines_lifecycle:
  assumes "sm_reachable m" "sm_step m m'"
  shows "lifecycle_of m' = lifecycle_of m \<or> lifecycle_step (lifecycle_of m) (lifecycle_of m')"
  using assms(2) sm_reachable_inv [OF assms(1)] by (rule lifecycle_simulation)

theorem state_machine_refines_lifecycle_witness:
  "lifecycle_of (fail ''x'' StateMachine_new) = lifecycle_of StateMachine_new \<or>
     lifecycle_step (lifecycle_of StateMachine_new) (lifecycle_of (fail ''x'' StateMachine_new))"
  by (rule state_machine_refines_lifecycle [OF reach_new step_fail])

text \<open>Losing heartbeats degrades a connected session at exactly three missed intervals and
  never stops it: after a tick it is degraded if and only if three seconds have passed since the
  last heartbeat, and otherwise still connected with fewer than three misses recorded.\<close>

theorem tick_degrades_after_three_intervals:
  assumes "sm_state m = Connected" "sm_last_heartbeat m = Some h"
  shows "sm_state (tick now m) = (if h + 3 * HEARTBEAT_INTERVAL \<le> now then Degraded else Connected) \<and>
    sm_session (tick now m) = sm_session m \<and>
    unat (sm_missed (tick now m)) = min ((now - h) div HEARTBEAT_INTERVAL) (2 ^ 32 - 1)"
  using assms missed_intervals_value [of now h]
  by (auto simp: tick_def Let_def missed_limit HEARTBEAT_INTERVAL_def)

text \<open>A message of another session is refused by every method that takes one, with the
  expected and the presented session in the error; the machine is unchanged.\<close>

theorem stale_session_rejected:
  assumes "sm_session m \<noteq> Some s"
  shows "peer_started s now m = Inl (TE_SessionMismatch (sm_session m) s) \<and>
    heartbeat s now m = Inl (TE_SessionMismatch (sm_session m) s) \<and>
    peer_suspended s m = Inl (TE_SessionMismatch (sm_session m) s)"
  using assms
  by (auto simp: peer_started_def heartbeat_def peer_suspended_def require_session_def
      split: option.splits)

text \<open>Stopping is explicit: a step reaches the stopped state from another state only by
  acknowledging a stop that was already in progress, and then the machine is fully reset.\<close>

theorem stopped_only_from_stopping:
  assumes "sm_reachable m" "sm_step m m'" "sm_state m \<noteq> Stopped" "sm_state m' = Stopped"
  shows "sm_state m = Stopping \<and> stopped m = Inr m' \<and> m' = StateMachine_new"
  using assms sm_step_to_stopped [of m m'] sm_inv_step [OF assms(2)] sm_reachable_inv [of m]
  by (auto simp: sm_inv_def)

lemma stopping_reachable:
  "sm_reachable (StateMachine_new\<lparr>sm_state := Stopping\<rparr>)"
proof -
  have "sm_reachable (fail ''x'' StateMachine_new)" by (rule reach_step [OF reach_new step_fail])
  then show ?thesis
    by (rule reach_step, intro step_begin_stop)
       (simp add: machine_simps fail_def StateMachine_new_def)
qed

end
