(* ===== verification/RustText.thy ===== *)
theory RustText
  imports Prelude
begin

text \<open>
  The part of Rust's string library the host uses on ADB output, persisted documents and log
  fields: \<^verbatim>\<open>trim\<close>, \<^verbatim>\<open>lines\<close>, \<^verbatim>\<open>split_whitespace\<close>, \<^verbatim>\<open>split\<close>, \<^verbatim>\<open>split_once\<close>, \<^verbatim>\<open>strip_prefix\<close>, \<^verbatim>\<open>strip_suffix\<close>,
  \<^verbatim>\<open>contains\<close>, \<^verbatim>\<open>replace\<close>, \<^verbatim>\<open>to_ascii_lowercase\<close>, the integer and boolean parsers and the decimal
  printer.  A text is a \<open>string\<close> whose characters are the code points U+0000 to U+00FF; these are the
  only code points the modelled callers compare against or classify.
\<close>

section \<open>Characters\<close>

definition char_code :: "char \<Rightarrow> nat" where
  "char_code c = of_char c"

text \<open>Unicode \<^verbatim>\<open>White_Space\<close> below U+0100.\<close>

definition is_whitespace :: "char \<Rightarrow> bool" where
  "is_whitespace c \<longleftrightarrow>
     (let n = char_code c in 9 \<le> n \<and> n \<le> 13 \<or> n = 32 \<or> n = 0x85 \<or> n = 0xA0)"

definition is_ascii_digit :: "char \<Rightarrow> bool" where
  "is_ascii_digit c \<longleftrightarrow> (let n = char_code c in 48 \<le> n \<and> n \<le> 57)"

definition is_ascii_alphanumeric :: "char \<Rightarrow> bool" where
  "is_ascii_alphanumeric c \<longleftrightarrow>
     (let n = char_code c in 48 \<le> n \<and> n \<le> 57 \<or> 65 \<le> n \<and> n \<le> 90 \<or> 97 \<le> n \<and> n \<le> 122)"

definition char_to_ascii_lowercase :: "char \<Rightarrow> char" where
  "char_to_ascii_lowercase c =
     (let n = char_code c in if 65 \<le> n \<and> n \<le> 90 then char_of (n + 32) else c)"

section \<open>Whole texts\<close>

definition to_ascii_lowercase :: "string \<Rightarrow> string" where
  "to_ascii_lowercase t = map char_to_ascii_lowercase t"

definition trim_end_by :: "(char \<Rightarrow> bool) \<Rightarrow> string \<Rightarrow> string" where
  "trim_end_by p t = rev (dropWhile p (rev t))"

definition trim :: "string \<Rightarrow> string" where
  "trim t = trim_end_by is_whitespace (dropWhile is_whitespace t)"

fun strip_prefix :: "string \<Rightarrow> string \<Rightarrow> string option" where
  "strip_prefix [] t = Some t"
| "strip_prefix (c # cs) [] = None"
| "strip_prefix (c # cs) (d # ds) = (if c = d then strip_prefix cs ds else None)"

definition starts_with :: "string \<Rightarrow> string \<Rightarrow> bool" where
  "starts_with p t \<longleftrightarrow> strip_prefix p t \<noteq> None"

definition strip_suffix :: "string \<Rightarrow> string \<Rightarrow> string option" where
  "strip_suffix p t = map_option rev (strip_prefix (rev p) (rev t))"

fun contains :: "string \<Rightarrow> string \<Rightarrow> bool" where
  "contains [] p = starts_with p []"
| "contains (c # t) p = (starts_with p (c # t) \<or> contains t p)"

text \<open>\<^verbatim>\<open>replace\<close> scans left to right and continues after each match; the pattern is not empty.\<close>

function replace :: "string \<Rightarrow> string \<Rightarrow> string \<Rightarrow> string" where
  "replace pat to [] = []"
| "replace pat to (c # t) =
     (if pat = [] then c # t
      else if starts_with pat (c # t)
      then to @ replace pat to (drop (length pat) (c # t))
      else c # replace pat to t)"
  by pat_completeness auto
termination
  by (relation "measure (\<lambda>(pat, to, t). length t)") auto

text \<open>\<open>split_by p\<close> is \<^verbatim>\<open>split\<close> at the characters that satisfy \<open>p\<close>: one field more than separators.\<close>

fun split_by :: "(char \<Rightarrow> bool) \<Rightarrow> string \<Rightarrow> string list" where
  "split_by p [] = [[]]"
| "split_by p (c # t) =
     (if p c then [] # split_by p t
      else (case split_by p t of f # fs \<Rightarrow> (c # f) # fs | [] \<Rightarrow> [[c]]))"

definition split_whitespace :: "string \<Rightarrow> string list" where
  "split_whitespace t = filter (\<lambda>f. f \<noteq> []) (split_by is_whitespace t)"

text \<open>\<^verbatim>\<open>lines\<close> ends a line at a line feed, drops a carriage return right before that line feed, and
  yields nothing for the empty rest after the last line feed.\<close>

definition drop_cr :: "string \<Rightarrow> string" where
  "drop_cr l = (if l \<noteq> [] \<and> char_code (last l) = 13 then butlast l else l)"

definition lines :: "string \<Rightarrow> string list" where
  "lines t =
     (let fs = split_by (\<lambda>c. char_code c = 10) t in
      map drop_cr (butlast fs) @ (if last fs = [] then [] else [last fs]))"

fun split_once :: "char \<Rightarrow> string \<Rightarrow> (string \<times> string) option" where
  "split_once sep [] = None"
| "split_once sep (c # t) =
     (if c = sep then Some ([], t)
      else map_option (\<lambda>(a, b). (c # a, b)) (split_once sep t))"

section \<open>Numbers and booleans\<close>

definition digits_value :: "string \<Rightarrow> nat" where
  "digits_value t = foldl (\<lambda>acc c. acc * 10 + (char_code c - 48)) 0 t"

text \<open>Parsing an unsigned integer: an optional plus sign, at least one digit, no overflow.\<close>

definition parse_unsigned :: "nat \<Rightarrow> string \<Rightarrow> nat option" where
  "parse_unsigned bound t =
     (let ds = (case t of c # r \<Rightarrow> if c = CHR ''+'' then r else t | [] \<Rightarrow> t) in
      if ds \<noteq> [] \<and> list_all is_ascii_digit ds \<and> digits_value ds \<le> bound
      then Some (digits_value ds) else None)"

definition parse_u64 :: "string \<Rightarrow> u64 option" where
  "parse_u64 t = map_option word_of_nat (parse_unsigned (2 ^ 64 - 1) t)"

definition parse_bool :: "string \<Rightarrow> bool option" where
  "parse_bool t = (if t = ''true'' then Some True else if t = ''false'' then Some False else None)"

fun show_nat :: "nat \<Rightarrow> string" where
  "show_nat n = (if n < 10 then [char_of (48 + n)] else show_nat (n div 10) @ [char_of (48 + n mod 10)])"

declare show_nat.simps [simp del]

section \<open>Lemmas\<close>

lemma strip_prefix_Some: "strip_prefix p t = Some r \<longleftrightarrow> t = p @ r"
  by (induction p t rule: strip_prefix.induct) auto

lemma starts_with_iff: "starts_with p t \<longleftrightarrow> (\<exists>r. t = p @ r)"
  using strip_prefix_Some by (fastforce simp: starts_with_def)

lemma contains_iff: "contains t p \<longleftrightarrow> (\<exists>a b. t = a @ p @ b)"
proof (induction t)
  case (Cons c t)
  show ?case
  proof
    assume "contains (c # t) p"
    then show "\<exists>a b. c # t = a @ p @ b"
      using Cons.IH by (auto simp: starts_with_iff intro: exI [of _ "[]"]) (metis append_Cons)
  next
    assume "\<exists>a b. c # t = a @ p @ b"
    then obtain a b where eq: "c # t = a @ p @ b" by blast
    show "contains (c # t) p"
    proof (cases a)
      case Nil
      with eq have "starts_with p (c # t)" by (auto simp: starts_with_iff)
      then show ?thesis by simp
    next
      case (Cons x a')
      with eq Cons.IH show ?thesis by auto
    qed
  qed
qed (auto simp: starts_with_iff)

lemma split_by_not_Nil [simp]: "split_by p t \<noteq> []"
  by (induction t) (auto split: list.splits)

lemma split_by_fields: "f \<in> set (split_by p t) \<Longrightarrow> list_all (\<lambda>c. \<not> p c) f"
proof (induction t arbitrary: f)
  case (Cons c t)
  then show ?case by (cases "split_by p t") (auto split: if_splits)
qed simp

lemma split_by_append_sep:
  "list_all (\<lambda>c. \<not> p c) f \<Longrightarrow> p c \<Longrightarrow> split_by p (f @ c # t) = f # split_by p t"
  by (induction f) auto

lemma split_by_single: "list_all (\<lambda>c. \<not> p c) f \<Longrightarrow> split_by p f = [f]"
  by (induction f) auto

lemma to_ascii_lowercase_append [simp]:
  "to_ascii_lowercase (a @ b) = to_ascii_lowercase a @ to_ascii_lowercase b"
  by (simp add: to_ascii_lowercase_def)

lemma show_nat_digits: "list_all is_ascii_digit (show_nat n) \<and> show_nat n \<noteq> []"
proof (induction n rule: show_nat.induct)
  case (1 n)
  have d: "is_ascii_digit (char_of (48 + k))" if "k < 10" for k :: nat
    using that by (simp add: is_ascii_digit_def char_code_def)
  show ?case
    using 1 d [of n] d [of "n mod 10"]
    by (cases "n < 10") (simp_all add: show_nat.simps [of n])
qed

lemma digits_value_snoc [simp]:
  "digits_value (ds @ [d]) = digits_value ds * 10 + (char_code d - 48)"
  by (simp add: digits_value_def)

lemma digits_value_show_nat [simp]: "digits_value (show_nat n) = n"
proof (induction n rule: show_nat.induct)
  case (1 n)
  have c: "char_code (char_of (48 + k)) = 48 + k" if "k < 10" for k :: nat
    using that by (simp add: char_code_def)
  show ?case
    using 1 c [of n] c [of "n mod 10"]
    by (cases "n < 10") (simp_all add: show_nat.simps [of n], simp add: digits_value_def)
qed

lemma show_nat_inject [simp]: "show_nat m = show_nat n \<longleftrightarrow> m = n"
  by (metis digits_value_show_nat)

lemma parse_show_nat: "n \<le> bound \<Longrightarrow> parse_unsigned bound (show_nat n) = Some n"
proof -
  assume n: "n \<le> bound"
  obtain d ds where s: "show_nat n = d # ds" using show_nat_digits [of n] by (cases "show_nat n") auto
  then have "is_ascii_digit d" using show_nat_digits [of n] by simp
  then have "d \<noteq> CHR ''+''" by (auto simp: is_ascii_digit_def char_code_def)
  with s n show_nat_digits [of n] digits_value_show_nat [of n] show ?thesis
    by (simp add: parse_unsigned_def)
qed

lemma trim_id: "list_all (\<lambda>c. \<not> is_whitespace c) t \<Longrightarrow> trim t = t"
proof -
  assume visible: "list_all (\<lambda>c. \<not> is_whitespace c) t"
  have id: "dropWhile is_whitespace u = u" if "list_all (\<lambda>c. \<not> is_whitespace c) u" for u
    using that by (cases u) auto
  show "trim t = t" using id [OF visible] id [of "rev t"] visible by (simp add: trim_def trim_end_by_def list_all_rev)
qed

lemma digit_not_space: "is_ascii_digit c \<Longrightarrow> \<not> is_whitespace c"
  by (auto simp: is_ascii_digit_def is_whitespace_def Let_def)

end
