(* ===== verification/Diagnostics.thy ===== *)
theory Diagnostics
  imports RustText "HOL-Library.Sublist"
begin

text \<open>
  Local diagnostics of \<^verbatim>\<open>diagnostics.rs\<close>: the latency histogram with its 99th percentile, the
  size-rotated log files and the redaction of recorded values and exported lines.  The
  directory is a map from file names to contents; every file-system call takes its failure from an
  oracle argument, so that each early return is a branch.  JSON text is read by the
  \<^verbatim>\<open>serde_json\<close> crate, which is a parameter.
\<close>

section \<open>Latency histograms\<close>

definition LATENCY_BUCKET_UPPER_US :: "u64 list" where
  "LATENCY_BUCKET_UPPER_US = [250, 500, 1000, 2000, 5000, 10000, 25000, 50000, 100000]"

record LatencyHistogram =
  h_buckets :: "u64 list"
  h_samples :: u64
  h_max_us :: u64

record LatencyHistogramSnapshot =
  hs_samples :: u64
  hs_p99_us :: u64
  hs_max_us :: u64
  hs_bucket_upper_us :: "u64 list"
  hs_bucket_counts :: "u64 list"

definition LatencyHistogram_default :: LatencyHistogram where
  "LatencyHistogram_default = \<lparr>h_buckets = replicate 10 0, h_samples = 0, h_max_us = 0\<rparr>"

definition as_micros :: "duration \<Rightarrow> nat" where
  "as_micros d = d div 1000"

definition micros_of :: "duration \<Rightarrow> u64" where
  "micros_of d = word_of_nat (min (as_micros d) (2 ^ 64 - 1))"

definition latency_bucket :: "u64 \<Rightarrow> nat" where
  "latency_bucket micros =
     (case position (\<lambda>upper. micros \<le> upper) LATENCY_BUCKET_UPPER_US of
        Some i \<Rightarrow> i | None \<Rightarrow> length LATENCY_BUCKET_UPPER_US)"

definition LatencyHistogram_record :: "duration \<Rightarrow> LatencyHistogram \<Rightarrow> LatencyHistogram" where
  "LatencyHistogram_record d h =
     (let micros = micros_of d; bucket = latency_bucket micros in
      h\<lparr>h_buckets := (h_buckets h)[bucket := h_buckets h ! bucket + 1],
        h_samples := h_samples h + 1,
        h_max_us := max (h_max_us h) micros\<rparr>)"

text \<open>The scan over the bucket counts that finds the percentile.\<close>

fun p99_scan :: "nat \<Rightarrow> nat \<Rightarrow> nat \<Rightarrow> u64 \<Rightarrow> u64 list \<Rightarrow> u64" where
  "p99_scan index cumulative target max_us [] = 0"
| "p99_scan index cumulative target max_us (count # counts) =
     (let cumulative = saturating_add cumulative (unat count) in
      if target > 0 \<and> cumulative \<ge> target
      then (if index < length LATENCY_BUCKET_UPPER_US then LATENCY_BUCKET_UPPER_US ! index else max_us)
      else p99_scan (index + 1) cumulative target max_us counts)"

definition p99_target :: "u64 \<Rightarrow> nat" where
  "p99_target samples = saturating_add (saturating_mul (unat samples) 99) 99 div 100"

definition LatencyHistogram_snapshot :: "LatencyHistogram \<Rightarrow> LatencyHistogramSnapshot" where
  "LatencyHistogram_snapshot h =
     \<lparr>hs_samples = h_samples h,
      hs_p99_us = p99_scan 0 0 (p99_target (h_samples h)) (h_max_us h) (h_buckets h),
      hs_max_us = h_max_us h,
      hs_bucket_upper_us = LATENCY_BUCKET_UPPER_US,
      hs_bucket_counts = h_buckets h\<rparr>"

section \<open>Log files\<close>

type_synonym directory = "string \<rightharpoonup> string"

definition DEFAULT_MAX_BYTES :: nat where "DEFAULT_MAX_BYTES = 20 * 1024 * 1024"
definition DEFAULT_FILE_COUNT :: nat where "DEFAULT_FILE_COUNT = 10"

definition log_path :: "nat \<Rightarrow> string" where
  "log_path index = ''gnirehtet-vd.'' @ show_nat index @ ''.jsonl''"

text \<open>The calls that can fail, and the oracle that says which do.\<close>

datatype fs_op = FsFlush | FsRemove string | FsRename string string | FsOpen string | FsWrite string
  | FsReadDir

type_synonym fs_faults = "fs_op \<Rightarrow> io_kind option"

record RotatingWriter =
  rw_open :: bool
  rw_bytes :: nat
  rw_max_bytes :: nat
  rw_file_count :: nat

text \<open>\<open>remove_file\<close> and \<open>rename\<close> treat a missing file as success, as the callers do.\<close>

definition remove_log :: "fs_faults \<Rightarrow> string \<Rightarrow> directory \<Rightarrow> io_kind option \<times> directory" where
  "remove_log faults name d =
     (case d name of
        None \<Rightarrow> (None, d)
      | Some _ \<Rightarrow> (case faults (FsRemove name) of
          Some k \<Rightarrow> (if k = NotFound then None else Some k, d)
        | None \<Rightarrow> (None, d(name := None))))"

definition rename_log :: "fs_faults \<Rightarrow> string \<Rightarrow> string \<Rightarrow> directory \<Rightarrow> io_kind option \<times> directory" where
  "rename_log faults source target d =
     (case d source of
        None \<Rightarrow> (None, d)
      | Some c \<Rightarrow> (case faults (FsRename source target) of
          Some k \<Rightarrow> (if k = NotFound then None else Some k, d)
        | None \<Rightarrow> (None, (d(source := None))(target \<mapsto> c))))"

fun shift_logs :: "fs_faults \<Rightarrow> nat \<Rightarrow> directory \<Rightarrow> io_kind option \<times> directory" where
  "shift_logs faults 0 d = (None, d)"
| "shift_logs faults (Suc index) d =
     (case rename_log faults (log_path index) (log_path (index + 1)) d of
        (Some k, d') \<Rightarrow> (Some k, d')
      | (None, d') \<Rightarrow> shift_logs faults index d')"

definition rotate_files :: "fs_faults \<Rightarrow> nat \<Rightarrow> directory \<Rightarrow> io_kind option \<times> directory" where
  "rotate_files faults file_count d =
     (if file_count > 1 then
        (case remove_log faults (log_path (file_count - 1)) d of
           (Some k, d') \<Rightarrow> (Some k, d')
         | (None, d') \<Rightarrow> shift_logs faults (file_count - 1) d')
      else remove_log faults (log_path 0) d)"

definition open_log :: "fs_faults \<Rightarrow> directory \<Rightarrow> io_kind option \<times> directory" where
  "open_log faults d =
     (case faults (FsOpen (log_path 0)) of
        Some k \<Rightarrow> (Some k, d)
      | None \<Rightarrow> (None, case d (log_path 0) of None \<Rightarrow> d(log_path 0 \<mapsto> []) | Some _ \<Rightarrow> d))"

text \<open>\<open>rotate\<close> first closes the current file; every error after that leaves the writer closed.\<close>

definition rotate :: "fs_faults \<Rightarrow> RotatingWriter \<Rightarrow> directory
    \<Rightarrow> io_kind option \<times> RotatingWriter \<times> directory" where
  "rotate faults w d =
     (case (if rw_open w then faults FsFlush else None) of
        Some k \<Rightarrow> (Some k, w\<lparr>rw_open := False\<rparr>, d)
      | None \<Rightarrow>
          (case rotate_files faults (rw_file_count w) d of
             (Some k, d') \<Rightarrow> (Some k, w\<lparr>rw_open := False\<rparr>, d')
           | (None, d') \<Rightarrow>
               (case open_log faults d' of
                  (Some k, d'') \<Rightarrow> (Some k, w\<lparr>rw_open := False\<rparr>, d'')
                | (None, d'') \<Rightarrow> (None, w\<lparr>rw_open := True, rw_bytes := 0\<rparr>, d''))))"

definition append_record :: "fs_faults \<Rightarrow> string \<Rightarrow> RotatingWriter \<Rightarrow> directory
    \<Rightarrow> (io_kind + unit) \<times> RotatingWriter \<times> directory" where
  "append_record faults record w d =
     (if \<not> rw_open w then (Inl OtherIo, w, d)
      else
        (case faults (FsWrite (log_path 0)) of
           Some k \<Rightarrow> (Inl k, w, d)
         | None \<Rightarrow>
             (Inr (), w\<lparr>rw_bytes := saturating_add (rw_bytes w) (length record)\<rparr>,
              d(log_path 0 \<mapsto> (case d (log_path 0) of None \<Rightarrow> [] | Some c \<Rightarrow> c) @ record))))"

definition write_record :: "fs_faults \<Rightarrow> string \<Rightarrow> RotatingWriter \<Rightarrow> directory
    \<Rightarrow> (io_kind + bool) \<times> RotatingWriter \<times> directory" where
  "write_record faults record w d =
     (if rw_bytes w > 0 \<and> saturating_add (rw_bytes w) (length record) > rw_max_bytes w then
        (case rotate faults w d of
           (Some k, w', d') \<Rightarrow> (Inl k, w', d')
         | (None, w', d') \<Rightarrow>
             (case append_record faults record w' d' of
                (Inl k, w'', d'') \<Rightarrow> (Inl k, w'', d'')
              | (Inr _, w'', d'') \<Rightarrow> (Inr True, w'', d'')))
      else
        (case append_record faults record w d of
           (Inl k, w', d') \<Rightarrow> (Inl k, w', d')
         | (Inr _, w', d') \<Rightarrow> (Inr False, w', d')))"

text \<open>A directory entry names a log in excess when its index parses and is not below the count.\<close>

definition log_index :: "string \<Rightarrow> nat option" where
  "log_index name =
     (case strip_prefix ''gnirehtet-vd.'' name of
        None \<Rightarrow> None
      | Some value \<Rightarrow> (case strip_suffix ''.jsonl'' value of
          None \<Rightarrow> None
        | Some value \<Rightarrow> parse_unsigned usize_max value))"

fun prune_excess_logs :: "fs_faults \<Rightarrow> nat \<Rightarrow> string list \<Rightarrow> directory \<Rightarrow> io_kind option \<times> directory"
where
  "prune_excess_logs faults file_count [] d = (None, d)"
| "prune_excess_logs faults file_count (name # entries) d =
     (case log_index name of
        None \<Rightarrow> prune_excess_logs faults file_count entries d
      | Some index \<Rightarrow>
          if index \<ge> file_count then
            (case remove_log faults name d of
               (Some k, d') \<Rightarrow> (Some k, d')
             | (None, d') \<Rightarrow> prune_excess_logs faults file_count entries d')
          else prune_excess_logs faults file_count entries d)"

definition RotatingWriter_open :: "fs_faults \<Rightarrow> string list \<Rightarrow> nat \<Rightarrow> nat \<Rightarrow> directory
    \<Rightarrow> (io_kind + RotatingWriter) \<times> directory" where
  "RotatingWriter_open faults entries max_bytes file_count d =
     (if max_bytes = 0 \<or> file_count = 0 then (Inl InvalidInput, d)
      else
        (case faults FsReadDir of
           Some k \<Rightarrow> (Inl k, d)
         | None \<Rightarrow>
             (case prune_excess_logs faults file_count entries d of
                (Some k, d') \<Rightarrow> (Inl k, d')
              | (None, d') \<Rightarrow>
                  (case open_log faults d' of
                     (Some k, d'') \<Rightarrow> (Inl k, d'')
                   | (None, d'') \<Rightarrow>
                       (Inr \<lparr>rw_open = True,
                             rw_bytes = (case d'' (log_path 0) of None \<Rightarrow> 0 | Some c \<Rightarrow> length c),
                             rw_max_bytes = max_bytes, rw_file_count = file_count\<rparr>, d'')))))"

section \<open>Redaction\<close>

datatype json =
    JNull
  | JBool bool
  | JNumber int
  | JString string
  | JArray "json list"
  | JObject "(string \<times> json) list"

definition SENSITIVE_MARKERS :: "string list" where
  "SENSITIVE_MARKERS = [''payload'', ''secret'', ''password'', ''token'', ''sessionid'', ''serial'',
     ''username'', ''userid'', ''address'', ''endpoint'', ''filepath'']"

definition normalized_key :: "string \<Rightarrow> string" where
  "normalized_key key = filter is_ascii_alphanumeric (to_ascii_lowercase key)"

definition sensitive_key :: "string \<Rightarrow> bool" where
  "sensitive_key key \<longleftrightarrow>
     (let normalized = normalized_key key in
      list_ex (\<lambda>marker. contains normalized marker) SENSITIVE_MARKERS \<or>
      normalized = ''err'' \<or>
      contains normalized ''error'' \<and> normalized \<notin> set [''errorkind'', ''errorcategory''])"

text \<open>\<open>redact_text env\<close> replaces the values of the identity variables that are set and not empty.\<close>

definition redact_text :: "(string \<Rightarrow> string option) \<Rightarrow> string \<Rightarrow> string" where
  "redact_text env input =
     foldl (\<lambda>output variable.
        case env variable of
          None \<Rightarrow> output
        | Some value \<Rightarrow> if value = [] then output else replace value ''<home>'' output)
       input [''USERPROFILE'', ''HOME'', ''USERNAME'', ''USER'']"

fun redact_value :: "(string \<Rightarrow> string option) \<Rightarrow> json \<Rightarrow> json" where
  "redact_value env (JObject fs) =
     JObject (map (\<lambda>(key, v). if sensitive_key key then (key, JString ''<redacted>'')
                             else (key, redact_value env v)) fs)"
| "redact_value env (JArray values) = JArray (map (redact_value env) values)"
| "redact_value env (JString v) = JString (redact_text env v)"
| "redact_value env JNull = JNull"
| "redact_value env (JBool b) = JBool b"
| "redact_value env (JNumber n) = JNumber n"

text \<open>What a recorded or exported document must satisfy: at every depth, a sensitive field holds
  only the placeholder.\<close>

fun redacted :: "json \<Rightarrow> bool" where
  "redacted (JObject fs) =
     list_all (\<lambda>(key, v). (sensitive_key key \<longrightarrow> v = JString ''<redacted>'') \<and> redacted v) fs"
| "redacted (JArray values) = list_all redacted values"
| "redacted (JString v) = True"
| "redacted JNull = True"
| "redacted (JBool b) = True"
| "redacted (JNumber n) = True"

definition diagnostics_event :: "(string \<Rightarrow> string option) \<Rightarrow> int \<Rightarrow> string \<Rightarrow> json \<Rightarrow> json" where
  "diagnostics_event env timestamp kind fs =
     JObject [(''timestamp_unix_ms'', JNumber timestamp), (''kind'', JString kind),
       (''fields'', redact_value env fs)]"

definition malformed_log_line :: json where
  "malformed_log_line = JObject [(''kind'', JString ''malformed_log_line'')]"

definition bundle_metadata :: "int \<Rightarrow> json" where
  "bundle_metadata created =
     JObject [(''kind'', JString ''bundle_metadata''), (''created_unix_ms'', JNumber created),
       (''format'', JNumber 1), (''redacted'', JBool True),
       (''packet_payloads_recorded'', JBool False)]"

section \<open>Histograms: counts and the percentile bound\<close>

definition record_all :: "duration list \<Rightarrow> LatencyHistogram" where
  "record_all ds = foldl (\<lambda>h d. LatencyHistogram_record d h) LatencyHistogram_default ds"

definition bucket_of :: "duration \<Rightarrow> nat" where
  "bucket_of d = latency_bucket (micros_of d)"

lemma record_all_snoc [simp]: "record_all (ds @ [d]) = LatencyHistogram_record d (record_all ds)"
  by (simp add: record_all_def)

lemma upper_sorted: "sorted LATENCY_BUCKET_UPPER_US"
  by (simp add: LATENCY_BUCKET_UPPER_US_def)

lemma length_upper [simp]: "length LATENCY_BUCKET_UPPER_US = 9"
  by (simp add: LATENCY_BUCKET_UPPER_US_def)

lemma latency_bucket_le:
  assumes "i < 9"
  shows "latency_bucket m \<le> i \<longleftrightarrow> m \<le> LATENCY_BUCKET_UPPER_US ! i"
proof (cases "position (\<lambda>upper. m \<le> upper) LATENCY_BUCKET_UPPER_US")
  case None
  then have "\<not> m \<le> LATENCY_BUCKET_UPPER_US ! i"
    using assms by (auto simp: position_None list_all_length)
  then show ?thesis using None assms by (simp add: latency_bucket_def)
next
  case (Some j)
  then have j: "j < 9" "m \<le> LATENCY_BUCKET_UPPER_US ! j"
    "\<forall>k<j. \<not> m \<le> LATENCY_BUCKET_UPPER_US ! k"
    by (auto simp: position_Some)
  have "j \<le> i \<longleftrightarrow> m \<le> LATENCY_BUCKET_UPPER_US ! i"
  proof
    assume "j \<le> i"
    then have "LATENCY_BUCKET_UPPER_US ! j \<le> LATENCY_BUCKET_UPPER_US ! i"
      using upper_sorted assms by (intro sorted_nth_mono) simp_all
    with j(2) show "m \<le> LATENCY_BUCKET_UPPER_US ! i" by (rule order_trans)
  next
    assume "m \<le> LATENCY_BUCKET_UPPER_US ! i"
    with j(3) show "j \<le> i" by (meson not_le)
  qed
  then show ?thesis using Some by (simp add: latency_bucket_def)
qed

lemma latency_bucket_less: "latency_bucket m < 10"
  by (auto simp: latency_bucket_def position_Some split: option.splits)

lemma record_all_length [simp]: "length (h_buckets (record_all ds)) = 10"
  by (induction ds rule: rev_induct)
     (simp_all add: LatencyHistogram_record_def Let_def, simp add: record_all_def LatencyHistogram_default_def)

lemma record_all_max: "d \<in> set ds \<Longrightarrow> micros_of d \<le> h_max_us (record_all ds)"
  by (induction ds rule: rev_induct) (auto simp: LatencyHistogram_record_def Let_def le_max_iff_disj)

lemma record_all_samples: "h_samples (record_all ds) = word_of_nat (length ds)"
  by (induction ds rule: rev_induct)
     (simp_all add: LatencyHistogram_record_def Let_def, simp add: record_all_def LatencyHistogram_default_def)

lemma record_all_bucket:
  assumes "i < 10"
  shows "h_buckets (record_all ds) ! i = word_of_nat (length (filter (\<lambda>d. bucket_of d = i) ds))"
proof (induction ds rule: rev_induct)
  case Nil
  then show ?case using assms by (simp add: record_all_def LatencyHistogram_default_def)
next
  case (snoc d ds)
  then show ?case
    using assms latency_bucket_less [of "micros_of d"]
    by (simp add: LatencyHistogram_record_def Let_def bucket_of_def nth_list_update)
qed

lemma bucket_counts_unat:
  assumes "i < 10" "length ds < 2 ^ 64"
  shows "unat (h_buckets (record_all ds) ! i) = length (filter (\<lambda>d. bucket_of d = i) ds)"
proof -
  have "length (filter (\<lambda>d. bucket_of d = i) ds) < 2 ^ 64"
    using assms(2) length_filter_le [of "\<lambda>d. bucket_of d = i" ds] by linarith
  then show ?thesis by (simp add: record_all_bucket [OF assms(1)] unat_of_nat)
qed

lemma filter_le_Suc:
  "length (filter (\<lambda>x. f x < Suc i) xs) =
     length (filter (\<lambda>x. f x < i) xs) + length (filter (\<lambda>x. f x = i) xs)"
  for f :: "'a \<Rightarrow> nat"
  by (induction xs) auto

text \<open>The scan stops at the first bucket whose cumulative count reaches the target.\<close>

lemma p99_scan_stops:
  fixes f :: "'a \<Rightarrow> nat"
  assumes "\<And>j. j < length counts \<Longrightarrow> unat (counts ! j) = length (filter (\<lambda>d. f d = i + j) ds)"
    and "cum = length (filter (\<lambda>d. f d < i) ds)"
    and "length ds \<le> usize_max" "0 < target" "target \<le> length (filter (\<lambda>d. f d < i + length counts) ds)"
    and "counts \<noteq> []"
  shows "\<exists>k. i \<le> k \<and> k < i + length counts \<and> target \<le> length (filter (\<lambda>d. f d < Suc k) ds) \<and>
    p99_scan i cum target mx counts =
      (if k < length LATENCY_BUCKET_UPPER_US then LATENCY_BUCKET_UPPER_US ! k else mx)"
  using assms
proof (induction counts arbitrary: i cum)
  case (Cons c counts)
  have "unat c = length (filter (\<lambda>d. f d = i) ds)" using Cons.prems(1) [of 0] by simp
  then have exact: "saturating_add cum (unat c) = length (filter (\<lambda>d. f d < Suc i) ds)"
    using Cons.prems(2,3) length_filter_le [of "\<lambda>d. f d < Suc i" ds] filter_le_Suc [of f i ds]
    by (simp add: saturating_add_def)
  show ?case
  proof (cases "target \<le> length (filter (\<lambda>d. f d < Suc i) ds)")
    case True
    then show ?thesis using Cons.prems(4) exact by (intro exI [of _ i]) (simp add: Let_def)
  next
    case False
    then have ne: "counts \<noteq> []" using Cons.prems(5) by auto
    have "\<exists>k. Suc i \<le> k \<and> k < Suc i + length counts \<and>
        target \<le> length (filter (\<lambda>d. f d < Suc k) ds) \<and>
        p99_scan (Suc i) (saturating_add cum (unat c)) target mx counts =
          (if k < length LATENCY_BUCKET_UPPER_US then LATENCY_BUCKET_UPPER_US ! k else mx)"
    proof (rule Cons.IH)
      show "\<And>j. j < length counts \<Longrightarrow>
          unat (counts ! j) = length (filter (\<lambda>d. f d = Suc i + j) ds)"
        using Cons.prems(1) [of "Suc j" for j] by simp
    qed (use Cons.prems exact ne in simp_all)
    then obtain k where k: "Suc i \<le> k" "k < Suc i + length counts"
        "target \<le> length (filter (\<lambda>d. f d < Suc k) ds)"
        "p99_scan (Suc i) (saturating_add cum (unat c)) target mx counts =
          (if k < length LATENCY_BUCKET_UPPER_US then LATENCY_BUCKET_UPPER_US ! k else mx)"
      by blast
    have "p99_scan i cum target mx (c # counts) =
        p99_scan (Suc i) (saturating_add cum (unat c)) target mx counts"
      using False exact by (simp add: Let_def)
    with k show ?thesis by (intro exI [of _ k]) simp
  qed
qed simp

lemma filter_true_length: "(\<And>x. x \<in> set xs \<Longrightarrow> P x) \<Longrightarrow> length (filter P xs) = length xs"
  by (simp add: filter_True)

lemma filter_length_mono:
  "(\<And>x. x \<in> set xs \<Longrightarrow> P x \<Longrightarrow> Q x) \<Longrightarrow> length (filter P xs) \<le> length (filter Q xs)"
  by (induction xs) auto

lemma p99_covers:
  assumes n: "99 * length ds + 99 \<le> usize_max" and ne: "ds \<noteq> []"
  shows "99 * length ds \<le>
    100 * length (filter (\<lambda>d. micros_of d \<le> hs_p99_us (LatencyHistogram_snapshot (record_all ds))) ds)"
proof -
  let ?h = "record_all ds" and ?len = "length ds"
  let ?p = "hs_p99_us (LatencyHistogram_snapshot ?h)"
  have small: "?len < 2 ^ 64" "?len \<le> usize_max" using n by (simp_all add: usize_max_def)
  have target: "p99_target (h_samples ?h) = (99 * ?len + 99) div 100"
    using n small(1)
    by (simp add: p99_target_def record_all_samples unat_of_nat saturating_add_def saturating_mul_def mult.commute)
  have all: "length (filter (\<lambda>d. bucket_of d < 10) ds) = ?len"
    by (simp add: filter_true_length bucket_of_def latency_bucket_less)
  have "\<exists>k. 0 \<le> k \<and> k < 0 + length (h_buckets ?h) \<and>
      (99 * ?len + 99) div 100 \<le> length (filter (\<lambda>d. bucket_of d < Suc k) ds) \<and>
      p99_scan 0 0 ((99 * ?len + 99) div 100) (h_max_us ?h) (h_buckets ?h) =
        (if k < length LATENCY_BUCKET_UPPER_US then LATENCY_BUCKET_UPPER_US ! k else h_max_us ?h)"
  proof (rule p99_scan_stops)
    show "\<And>j. j < length (h_buckets ?h) \<Longrightarrow>
        unat (h_buckets ?h ! j) = length (filter (\<lambda>d. bucket_of d = 0 + j) ds)"
      using small(1) by (simp add: bucket_counts_unat)
    show "(99 * ?len + 99) div 100 \<le> length (filter (\<lambda>d. bucket_of d < 0 + length (h_buckets ?h)) ds)"
      by (simp add: all)
    show "0 < (99 * ?len + 99) div 100" using ne by (cases ds) simp_all
    show "h_buckets ?h \<noteq> []" using record_all_length [of ds] by (metis length_greater_0_conv zero_less_numeral)
  qed (use small in simp_all)
  then obtain k where k: "k < 10" "(99 * ?len + 99) div 100 \<le> length (filter (\<lambda>d. bucket_of d < Suc k) ds)"
    "?p = (if k < 9 then LATENCY_BUCKET_UPPER_US ! k else h_max_us ?h)"
    by (auto simp: LatencyHistogram_snapshot_def target)
  have "length (filter (\<lambda>d. bucket_of d < Suc k) ds) \<le> length (filter (\<lambda>d. micros_of d \<le> ?p) ds)"
    by (rule filter_length_mono)
       (auto simp: k(3) record_all_max bucket_of_def latency_bucket_le less_Suc_eq_le)
  moreover have "99 * ?len \<le> 100 * ((99 * ?len + 99) div 100)"
    using div_mult_mod_eq [of "99 * ?len + 99" 100] mod_less_divisor [of 100 "99 * ?len + 99"]
    by linarith
  ultimately show ?thesis using k(2) by linarith
qed

section \<open>Log rotation: what is kept\<close>

definition no_faults :: fs_faults where
  "no_faults op = None"

definition log_content :: "directory \<Rightarrow> nat \<Rightarrow> string" where
  "log_content d i = (case d (log_path i) of None \<Rightarrow> [] | Some c \<Rightarrow> c)"

text \<open>The retained text, oldest file first.\<close>

definition retained :: "directory \<Rightarrow> nat \<Rightarrow> string" where
  "retained d n = concat (map (log_content d) (rev [0..<n]))"

text \<open>The files by their index, and what a record does to them: it goes behind the newest text, or, when that would exceed the
  limit of a file, becomes the newest text while only the oldest file is given up.\<close>

definition log_segments :: "directory \<Rightarrow> nat \<Rightarrow> string list" where
  "log_segments d n = map (log_content d) [0..<n]"

fun keep_segments :: "nat \<Rightarrow> string \<Rightarrow> string list \<Rightarrow> string list" where
  "keep_segments max_bytes r [] = []"
| "keep_segments max_bytes r (newest # older) =
     (if newest \<noteq> [] \<and> length newest + length r > max_bytes then r # butlast (newest # older) else (newest @ r) # older)"

definition writer_ok :: "RotatingWriter \<Rightarrow> directory \<Rightarrow> bool" where
  "writer_ok w d \<longleftrightarrow> rw_open w \<and> 0 < rw_file_count w \<and> 0 < rw_max_bytes w \<and>
     rw_max_bytes w < usize_max \<and> rw_bytes w = length (log_content d 0) \<and>
     (\<forall>i < rw_file_count w. length (log_content d i) \<le> rw_max_bytes w)"

lemma log_path_inject [simp]: "log_path i = log_path j \<longleftrightarrow> i = j"
  by (simp add: log_path_def)

lemma shift_logs_ok:
  assumes "d (log_path m) = None"
  shows "\<exists>d'. shift_logs no_faults m d = (None, d') \<and> d' (log_path 0) = None \<and>
    (\<forall>i<m. d' (log_path (Suc i)) = d (log_path i))"
  using assms
proof (induction m arbitrary: d)
  case (Suc m)
  obtain d1 where d1: "rename_log no_faults (log_path m) (log_path (m + 1)) d = (None, d1)"
    and at: "d1 (log_path m) = None" "d1 (log_path (Suc m)) = d (log_path m)"
    and low: "\<forall>i<m. d1 (log_path i) = d (log_path i)"
    using Suc.prems by (cases "d (log_path m)") (auto simp: rename_log_def no_faults_def)
  from Suc.IH [of d1] at(1) obtain d' where d': "shift_logs no_faults m d1 = (None, d')"
    "d' (log_path 0) = None" "\<forall>i<m. d' (log_path (Suc i)) = d1 (log_path i)" by blast
  have frame: "snd (shift_logs no_faults n e) (log_path (Suc m)) = e (log_path (Suc m))" if "n \<le> m" for n e
    using that
    by (induction n arbitrary: e) (auto simp: rename_log_def no_faults_def split: option.splits)
  have "d' (log_path (Suc m)) = d (log_path m)"
    using frame [of m d1] d'(1) at(2) by simp
  with d' d1 low show ?case by (auto simp: less_Suc_eq)
qed simp

lemma rotate_files_ok:
  assumes "0 < n"
  shows "\<exists>d'. rotate_files no_faults n d = (None, d') \<and> d' (log_path 0) = None \<and>
    (\<forall>i. Suc i < n \<longrightarrow> d' (log_path (Suc i)) = d (log_path i))"
proof (cases "n = 1")
  case True
  then show ?thesis
    by (cases "d (log_path 0)") (auto simp: rotate_files_def remove_log_def no_faults_def)
next
  case False
  then obtain m where n: "n = Suc m" "0 < m" using assms by (cases n) auto
  obtain d1 where d1: "remove_log no_faults (log_path m) d = (None, d1)" "d1 (log_path m) = None"
    "\<forall>i<m. d1 (log_path i) = d (log_path i)"
    by (cases "d (log_path m)") (auto simp: remove_log_def no_faults_def)
  from shift_logs_ok [of d1 m] d1(2) obtain d' where "shift_logs no_faults m d1 = (None, d')"
    "d' (log_path 0) = None" "\<forall>i<m. d' (log_path (Suc i)) = d1 (log_path i)" by blast
  with d1 n show ?thesis by (auto simp: rotate_files_def)
qed

lemma rotate_ok:
  assumes "writer_ok w d"
  shows "\<exists>d'. rotate no_faults w d = (None, w\<lparr>rw_bytes := 0\<rparr>, d') \<and> log_content d' 0 = [] \<and>
    (\<forall>i. Suc i < rw_file_count w \<longrightarrow> log_content d' (Suc i) = log_content d i)"
proof -
  from rotate_files_ok [of "rw_file_count w" d] assms obtain d' where
    d': "rotate_files no_faults (rw_file_count w) d = (None, d')" "d' (log_path 0) = None"
    "\<forall>i. Suc i < rw_file_count w \<longrightarrow> d' (log_path (Suc i)) = d (log_path i)"
    by (auto simp: writer_ok_def)
  moreover have "w\<lparr>rw_open := True, rw_bytes := 0\<rparr> = w\<lparr>rw_bytes := 0\<rparr>"
    using assms by (cases w) (simp add: writer_ok_def)
  ultimately show ?thesis
    by (simp add: rotate_def open_log_def no_faults_def log_content_def)
qed

lemma retained_Suc: "retained d (Suc n) = log_content d n @ retained d n"
  by (simp add: retained_def)

lemma retained_shift:
  assumes "\<forall>i. Suc i < n \<longrightarrow> log_content d' (Suc i) = log_content d i"
    and "log_content d' 0 = r" "0 < n"
  shows "retained d n @ r = log_content d (n - 1) @ retained d' n"
proof -
  have "retained d m @ r = retained d' (Suc m)" if "Suc m \<le> n" for m
    using that by (induction m) (use assms in \<open>auto simp: retained_Suc\<close>, simp add: retained_def)
  from this [of "n - 1"] \<open>0 < n\<close> retained_Suc [of d "n - 1"] show ?thesis by simp
qed

lemma retained_append:
  assumes "\<forall>i. 0 < i \<longrightarrow> log_content d' i = log_content d i"
    and "log_content d' 0 = log_content d 0 @ r" "0 < n"
  shows "retained d' n = retained d n @ r"
  using assms(3)
proof (induction n)
  case (Suc n)
  then show ?case
    using assms by (cases n) (simp_all add: retained_Suc, simp add: retained_def)
qed simp

lemma log_segments_Suc: "log_segments d (Suc n) = log_content d 0 # map (\<lambda>i. log_content d (Suc i)) [0..<n]"
  unfolding log_segments_def by (simp add: upt_conv_Cons map_Suc_upt [symmetric] comp_def del: upt_Suc)

lemma segments_shift:
  assumes "\<forall>i. Suc i < n \<longrightarrow> log_content d' (Suc i) = log_content d i" "log_content d' 0 = r" "0 < n"
  shows "log_segments d' n = r # butlast (log_segments d n)"
proof -
  obtain m where m: "n = Suc m" using assms(3) by (cases n) auto
  have "map (\<lambda>i. log_content d' (Suc i)) [0..<m] = map (log_content d) [0..<m]" using assms(1) m by simp
  then have "log_segments d' (Suc m) = r # map (log_content d) [0..<m]" by (simp add: log_segments_Suc assms(2))
  then show ?thesis by (simp add: m log_segments_def)
qed

lemma segments_append:
  assumes "\<forall>i. 0 < i \<longrightarrow> log_content d' i = log_content d i" "log_content d' 0 = log_content d 0 @ r" "0 < n"
  shows "log_segments d' n = (log_content d 0 @ r) # tl (log_segments d n)"
  using assms by (cases n) (simp_all add: log_segments_Suc)

lemma write_record_ok:
  assumes ok: "writer_ok w d" and r: "length r \<le> rw_max_bytes w"
  shows "\<exists>b w' d' dropped. write_record no_faults r w d = (Inr b, w', d') \<and> writer_ok w' d' \<and>
    rw_file_count w' = rw_file_count w \<and> rw_max_bytes w' = rw_max_bytes w \<and>
    retained d (rw_file_count w) @ r = dropped @ retained d' (rw_file_count w) \<and>
    log_segments d' (rw_file_count w) = keep_segments (rw_max_bytes w) r (log_segments d (rw_file_count w))"
proof (cases "rw_bytes w > 0 \<and> saturating_add (rw_bytes w) (length r) > rw_max_bytes w")
  case True
  let ?n = "rw_file_count w"
  from rotate_ok [OF ok] obtain d1 where d1: "rotate no_faults w d = (None, w\<lparr>rw_bytes := 0\<rparr>, d1)"
    "log_content d1 0 = []" "\<forall>i. Suc i < ?n \<longrightarrow> log_content d1 (Suc i) = log_content d i" by blast
  let ?d = "d1(log_path 0 \<mapsto> r)" and ?w = "w\<lparr>rw_bytes := length r\<rparr>"
  have c0: "log_content ?d 0 = r" "\<And>i. log_content ?d (Suc i) = log_content d1 (Suc i)"
    by (simp_all add: log_content_def)
  have "write_record no_faults r w d = (Inr True, ?w, ?d)"
    using True ok d1 r
    by (simp add: write_record_def append_record_def no_faults_def writer_ok_def saturating_add_def
        log_content_def)
  moreover have "writer_ok ?w ?d"
    using ok r c0 d1(3) by (auto simp: writer_ok_def less_Suc_eq_0_disj gr0_conv_Suc) (metis Suc_lessD not0_implies_Suc c0)
  moreover have "retained d ?n @ r = log_content d (?n - 1) @ retained ?d ?n"
    using c0 d1(3) ok by (intro retained_shift) (simp_all add: writer_ok_def)
  moreover have "log_segments ?d ?n = keep_segments (rw_max_bytes w) r (log_segments d ?n)"
  proof -
    obtain m where m: "?n = Suc m" using ok by (cases ?n) (auto simp: writer_ok_def)
    have "log_content d 0 \<noteq> []" "length (log_content d 0) + length r > rw_max_bytes w"
      using True ok by (auto simp: writer_ok_def saturating_add_def)
    then have "keep_segments (rw_max_bytes w) r (log_segments d ?n) = r # butlast (log_segments d ?n)"
      by (simp add: m log_segments_Suc)
    with segments_shift [of ?n ?d d r] c0 d1(3) m show ?thesis by simp
  qed
  ultimately show ?thesis by (intro exI [of _ True] exI [of _ ?w] exI [of _ ?d]) auto
next
  case False
  let ?n = "rw_file_count w"
  let ?d = "d(log_path 0 \<mapsto> log_content d 0 @ r)"
  let ?w = "w\<lparr>rw_bytes := saturating_add (rw_bytes w) (length r)\<rparr>"
  have c0: "log_content ?d 0 = log_content d 0 @ r" "\<And>i. 0 < i \<Longrightarrow> log_content ?d i = log_content d i"
    by (simp_all add: log_content_def)
  have sz: "rw_bytes w + length r \<le> rw_max_bytes w"
    using False r ok by (auto simp: saturating_add_def writer_ok_def not_less)
  have "write_record no_faults r w d = (Inr False, ?w, ?d)"
    using False ok
    by (auto simp: write_record_def append_record_def no_faults_def writer_ok_def log_content_def)
  moreover have "writer_ok ?w ?d"
    using ok sz c0 by (auto simp: writer_ok_def saturating_add_def gr0_conv_Suc)
      (metis c0 length_append not_gr_zero)
  moreover have "retained d ?n @ r = [] @ retained ?d ?n"
    using c0 ok retained_append [of ?d d r ?n] by (simp add: writer_ok_def)
  moreover have "log_segments ?d ?n = keep_segments (rw_max_bytes w) r (log_segments d ?n)"
  proof -
    obtain m where m: "?n = Suc m" using ok by (cases ?n) (auto simp: writer_ok_def)
    have "\<not> length (log_content d 0) + length r > rw_max_bytes w" using sz ok by (simp add: writer_ok_def)
    then have "keep_segments (rw_max_bytes w) r (log_segments d ?n) = (log_content d 0 @ r) # tl (log_segments d ?n)"
      by (simp add: m log_segments_Suc)
    with segments_append [of ?d d r ?n] c0 m show ?thesis by simp
  qed
  ultimately show ?thesis by (intro exI [of _ False] exI [of _ ?w] exI [of _ ?d]) auto
qed

fun write_records :: "fs_faults \<Rightarrow> string list \<Rightarrow> RotatingWriter \<Rightarrow> directory
    \<Rightarrow> (io_kind + unit) \<times> RotatingWriter \<times> directory" where
  "write_records faults [] w d = (Inr (), w, d)"
| "write_records faults (r # rs) w d =
     (case write_record faults r w d of
        (Inl k, w', d') \<Rightarrow> (Inl k, w', d')
      | (Inr _, w', d') \<Rightarrow> write_records faults rs w' d')"

lemma write_records_ok:
  assumes "writer_ok w d" "list_all (\<lambda>r. length r \<le> rw_max_bytes w) rs"
  shows "\<exists>w' d' dropped. write_records no_faults rs w d = (Inr (), w', d') \<and> writer_ok w' d' \<and>
    rw_file_count w' = rw_file_count w \<and> rw_max_bytes w' = rw_max_bytes w \<and>
    retained d (rw_file_count w) @ concat rs = dropped @ retained d' (rw_file_count w) \<and>
    log_segments d' (rw_file_count w) = fold (keep_segments (rw_max_bytes w)) rs (log_segments d (rw_file_count w))"
  using assms
proof (induction rs arbitrary: w d)
  case (Cons r rs)
  then obtain b w1 d1 x where one: "write_record no_faults r w d = (Inr b, w1, d1)" "writer_ok w1 d1"
    "rw_file_count w1 = rw_file_count w" "rw_max_bytes w1 = rw_max_bytes w"
    "retained d (rw_file_count w) @ r = x @ retained d1 (rw_file_count w)"
    "log_segments d1 (rw_file_count w) = keep_segments (rw_max_bytes w) r (log_segments d (rw_file_count w))"
    using write_record_ok [of w d r] by auto
  with Cons.IH [of w1 d1] Cons.prems obtain w' d' y where
    "write_records no_faults rs w1 d1 = (Inr (), w', d')" "writer_ok w' d'"
    "rw_file_count w' = rw_file_count w" "rw_max_bytes w' = rw_max_bytes w"
    "retained d1 (rw_file_count w) @ concat rs = y @ retained d' (rw_file_count w)"
    "log_segments d' (rw_file_count w) = fold (keep_segments (rw_max_bytes w)) rs (log_segments d1 (rw_file_count w))" by auto
  moreover have "retained d (rw_file_count w) @ concat (r # rs) =
      x @ (retained d1 (rw_file_count w) @ concat rs)"
    using one(5) by (metis append_assoc concat.simps(2))
  ultimately show ?case using one(1,6)
    by (intro exI [of _ w'] exI [of _ d'] exI [of _ "x @ y"]) simp
qed simp

lemma length_retained_le:
  "(\<forall>i<n. length (log_content d i) \<le> k) \<Longrightarrow> length (retained d n) \<le> n * k"
  by (induction n) (simp_all add: retained_Suc add_mono, simp add: retained_def)

section \<open>Redaction: what leaves the process\<close>

lemma redacted_redact_value: "redacted (redact_value env v)"
  by (induction env v rule: redact_value.induct) (auto simp: list_all_iff split: if_splits)

lemma plain_keys: "\<not> sensitive_key ''timestamp_unix_ms''" "\<not> sensitive_key ''kind''" "\<not> sensitive_key ''fields''"
  by code_simp+

section \<open>Properties\<close>

text \<open>The reported 99th percentile is a true upper bound: whatever durations were recorded, at
  least 99 percent of them are no larger than the percentile of the snapshot (as long as the
  sample counter has not come near its width).\<close>

theorem latency_p99_is_upper_bound:
  assumes "99 * length ds + 99 \<le> usize_max" "ds \<noteq> []"
  shows "99 * length ds \<le>
    100 * length (filter (\<lambda>d. micros_of d \<le> hs_p99_us (LatencyHistogram_snapshot (record_all ds))) ds)"
  using assms by (rule p99_covers)

text \<open>C4. The rotating log is a bounded sequence of texts.  After any records that fit a file, with a working file system,
  the files hold exactly what the sequence holds: a record goes behind the newest text, and only when that would
  exceed the limit is a new text begun, every other text moves up by one file and the oldest one is given up.  So the
  retained files, read oldest first, are a tail of everything written that ends with the newest record, no file
  exceeds the limit, and the total stays below the count of the files times that limit.\<close>

theorem log_rotation_keeps_bounded_tail:
  assumes "writer_ok w d" "list_all (\<lambda>r. length r \<le> rw_max_bytes w) rs"
  shows "\<exists>w' d'. write_records no_faults rs w d = (Inr (), w', d') \<and> writer_ok w' d' \<and>
    log_segments d' (rw_file_count w) = fold (keep_segments (rw_max_bytes w)) rs (log_segments d (rw_file_count w)) \<and>
    suffix (retained d' (rw_file_count w)) (retained d (rw_file_count w) @ concat rs) \<and>
    length (retained d' (rw_file_count w)) \<le> rw_file_count w * rw_max_bytes w"
proof -
  from write_records_ok [OF assms] obtain w' d' dropped where
    r: "write_records no_faults rs w d = (Inr (), w', d')" and ok: "writer_ok w' d'"
    "rw_file_count w' = rw_file_count w" "rw_max_bytes w' = rw_max_bytes w"
    and eq: "retained d (rw_file_count w) @ concat rs = dropped @ retained d' (rw_file_count w)"
    and kept: "log_segments d' (rw_file_count w) = fold (keep_segments (rw_max_bytes w)) rs (log_segments d (rw_file_count w))"
    by blast
  have "length (retained d' (rw_file_count w)) \<le> rw_file_count w * rw_max_bytes w"
    using ok by (intro length_retained_le) (simp add: writer_ok_def)
  with r ok(1) eq kept show ?thesis by (auto simp: suffix_def)
qed

text \<open>Two files of four bytes: the first record moves to the older file when the second does not fit behind it.\<close>

theorem log_rotation_keeps_bounded_tail_witness:
  "\<exists>w' d'. write_records no_faults [''abc'', ''de'']
      \<lparr>rw_open = True, rw_bytes = 0, rw_max_bytes = 4, rw_file_count = 2\<rparr> Map.empty = (Inr (), w', d') \<and>
    log_segments d' 2 = [''de'', ''abc'']"
proof -
  have "log_segments Map.empty 2 = [[], []]" by (simp add: log_segments_def log_content_def eval_nat_numeral)
  then show ?thesis
    using log_rotation_keeps_bounded_tail
      [of "\<lparr>rw_open = True, rw_bytes = 0, rw_max_bytes = 4, rw_file_count = 2\<rparr>" Map.empty "[''abc'', ''de'']"]
    by (auto simp: writer_ok_def log_content_def usize_max_def)
qed

end
