(* ===== verification/HevUdp.thy ===== *)
theory HevUdp
  imports Prelude
begin

text \<open>
  The wire format of \<^verbatim>\<open>udp.rs\<close>: socket addresses and SOCKS endpoints (RFC 1928 address encoding)
  and the HEV UDP-in-TCP frames, with their pure decoder, stream reader and writer.  A domain name
  is the byte string of a Rust \<^verbatim>\<open>String\<close>, so a well-formed one is valid UTF-8; name resolution is a
  parameter.
\<close>

section \<open>Addresses\<close>

datatype SocketAddr =
    V4 (v4_octets: bytes) (v4_port: u16)
  | V6 (v6_octets: bytes) (v6_port: u16) (v6_flowinfo: u32) (v6_scope: u32)

datatype Endpoint = Socket SocketAddr | Domain (dom_host: bytes) (dom_port: u16)

definition SOCKS_ATYP_IPV4 :: u8 where "SOCKS_ATYP_IPV4 = 1"
definition SOCKS_ATYP_DOMAIN :: u8 where "SOCKS_ATYP_DOMAIN = 3"
definition SOCKS_ATYP_IPV6 :: u8 where "SOCKS_ATYP_IPV6 = 4"
definition MAX_UDP_PAYLOAD :: nat where "MAX_UDP_PAYLOAD = 65507"
definition MAX_DOMAIN_LEN :: nat where "MAX_DOMAIN_LEN = 255"
definition VIRTUAL_DESKTOP_STREAMER_PORTS :: "u16 list" where
  "VIRTUAL_DESKTOP_STREAMER_PORTS = [38810, 38820, 38830, 38840]"

lemmas atyp_defs = SOCKS_ATYP_IPV4_def SOCKS_ATYP_DOMAIN_def SOCKS_ATYP_IPV6_def

datatype HevFrameError =
    HE_Truncated
  | HE_TruncatedAddress
  | HE_PayloadTooLarge nat
  | HE_InvalidHeaderLength nat
  | HE_HeaderTooLarge nat
  | HE_LengthMismatch (he_expected: nat) (he_actual: nat)
  | HE_UnsupportedAddressType u8
  | HE_InvalidDomainLength nat
  | HE_InvalidDomain
  | HE_Io io_kind

fun socket_is_ipv4 :: "SocketAddr \<Rightarrow> bool" where
  "socket_is_ipv4 (V4 _ _) = True"
| "socket_is_ipv4 (V6 _ _ _ _) = False"

fun socket_port :: "SocketAddr \<Rightarrow> u16" where
  "socket_port (V4 _ p) = p"
| "socket_port (V6 _ p _ _) = p"

text \<open>\<^verbatim>\<open>IpAddr::is_loopback\<close>.\<close>

definition is_loopback :: "SocketAddr \<Rightarrow> bool" where
  "is_loopback a =
     (case a of
        V4 ip _ \<Rightarrow> ip ! 0 = 127
      | V6 ip _ _ _ \<Rightarrow> ip = replicate 15 0 @ [1])"

fun encode_endpoint :: "Endpoint \<Rightarrow> HevFrameError + bytes" where
  "encode_endpoint (Socket (V4 ip port)) = Inr ([SOCKS_ATYP_IPV4] @ ip @ u16_be port)"
| "encode_endpoint (Socket (V6 ip port _ _)) = Inr ([SOCKS_ATYP_IPV6] @ ip @ u16_be port)"
| "encode_endpoint (Domain host port) =
     (if host = [] \<or> length host > MAX_DOMAIN_LEN then Inl (HE_InvalidDomainLength (length host))
      else Inr ([SOCKS_ATYP_DOMAIN, word_of_nat (length host)] @ host @ u16_be port))"

definition decode_endpoint :: "bytes \<Rightarrow> HevFrameError + (Endpoint \<times> nat)" where
  "decode_endpoint input =
     (case input of
        [] \<Rightarrow> Inl HE_TruncatedAddress
      | atyp # _ \<Rightarrow>
          if atyp = SOCKS_ATYP_IPV4 then
            (if length input < 7 then Inl HE_TruncatedAddress
             else Inr (Socket (V4 (subslice 1 5 input) (be_u16 (subslice 5 7 input))), 7))
          else if atyp = SOCKS_ATYP_IPV6 then
            (if length input < 19 then Inl HE_TruncatedAddress
             else Inr (Socket (V6 (subslice 1 17 input) (be_u16 (subslice 17 19 input)) 0 0), 19))
          else if atyp = SOCKS_ATYP_DOMAIN then
            (if length input < 2 then Inl HE_TruncatedAddress
             else
               let len = unat (input ! 1) in
               if len = 0 \<or> len > MAX_DOMAIN_LEN \<or> length input < len + 4
               then Inl (HE_InvalidDomainLength len)
               else if \<not> utf8_valid (subslice 2 (2 + len) input) then Inl HE_InvalidDomain
               else Inr (Domain (subslice 2 (2 + len) input)
                           (be_u16 (subslice (2 + len) (4 + len) input)), len + 4))
          else Inl (HE_UnsupportedAddressType atyp))"

section \<open>Frames\<close>

record HevUdpFrame =
  hev_endpoint :: Endpoint
  hev_payload :: bytes

definition encoded_len :: "HevUdpFrame \<Rightarrow> HevFrameError + nat" where
  "encoded_len f =
     (if length (hev_payload f) > MAX_UDP_PAYLOAD
      then Inl (HE_PayloadTooLarge (length (hev_payload f)))
      else
        (case encode_endpoint (hev_endpoint f) of
           Inl e \<Rightarrow> Inl e
         | Inr address \<Rightarrow>
             let header_len = 3 + length address in
             if header_len > 255 then Inl (HE_HeaderTooLarge header_len)
             else Inr (header_len + length (hev_payload f))))"

definition encode_into :: "HevUdpFrame \<Rightarrow> bytes \<Rightarrow> HevFrameError + bytes" where
  "encode_into f output =
     (if length (hev_payload f) > MAX_UDP_PAYLOAD
      then Inl (HE_PayloadTooLarge (length (hev_payload f)))
      else
        (case encode_endpoint (hev_endpoint f) of
           Inl e \<Rightarrow> Inl e
         | Inr address \<Rightarrow>
             let header_len = 3 + length address in
             if header_len > 255 then Inl (HE_HeaderTooLarge header_len)
             else Inr (output @ u16_be (word_of_nat (length (hev_payload f))) @
                  [word_of_nat header_len] @ address @ hev_payload f)))"

definition HevUdpFrame_encode :: "HevUdpFrame \<Rightarrow> HevFrameError + bytes" where
  "HevUdpFrame_encode f =
     (case encoded_len f of Inl e \<Rightarrow> Inl e | Inr _ \<Rightarrow> encode_into f [])"

definition HevUdpFrame_decode :: "bytes \<Rightarrow> HevFrameError + HevUdpFrame" where
  "HevUdpFrame_decode input =
     (if length input < 3 then Inl HE_Truncated
      else
        let payload_len = unat (be_u16 (subslice 0 2 input)) in
        if payload_len > MAX_UDP_PAYLOAD then Inl (HE_PayloadTooLarge payload_len)
        else
          let header_len = unat (input ! 2) in
          if header_len < 3 \<or> header_len > length input then Inl (HE_InvalidHeaderLength header_len)
          else
            (case checked_add header_len payload_len of
               None \<Rightarrow> Inl (HE_PayloadTooLarge payload_len)
             | Some expected \<Rightarrow>
                 if length input \<noteq> expected then Inl (HE_LengthMismatch expected (length input))
                 else
                   (case decode_endpoint (subslice 3 header_len input) of
                      Inl e \<Rightarrow> Inl e
                    | Inr (endpoint, consumed) \<Rightarrow>
                        if consumed + 3 \<noteq> header_len then Inl (HE_InvalidHeaderLength header_len)
                        else Inr \<lparr>hev_endpoint = endpoint, hev_payload = drop header_len input\<rparr>)))"

definition HevUdpFrame_read_from :: "byte_stream \<Rightarrow> HevFrameError + (HevUdpFrame \<times> byte_stream)" where
  "HevUdpFrame_read_from reader =
     (case read_exact 3 reader of
        Inl k \<Rightarrow> Inl (HE_Io k)
      | Inr (prefix, reader) \<Rightarrow>
          let payload_len = unat (be_u16 (subslice 0 2 prefix)) in
          if payload_len > MAX_UDP_PAYLOAD then Inl (HE_PayloadTooLarge payload_len)
          else
            let header_len = unat (prefix ! 2) in
            if header_len < 3 then Inl (HE_InvalidHeaderLength header_len)
            else
              (case checked_add header_len payload_len of
                 None \<Rightarrow> Inl (HE_PayloadTooLarge payload_len)
               | Some total_len \<Rightarrow>
                   (case read_exact (total_len - 3) reader of
                      Inl k \<Rightarrow> Inl (HE_Io k)
                    | Inr (body, reader) \<Rightarrow>
                        (case HevUdpFrame_decode (prefix @ body) of
                           Inl e \<Rightarrow> Inl e
                         | Inr f \<Rightarrow> Inr (f, reader)))))"

definition HevUdpFrame_write_to :: "HevUdpFrame \<Rightarrow> byte_sink \<Rightarrow> HevFrameError + byte_sink" where
  "HevUdpFrame_write_to f writer =
     (case HevUdpFrame_encode f of
        Inl e \<Rightarrow> Inl e
      | Inr bs \<Rightarrow> (case write_all bs writer of Inl k \<Rightarrow> Inl (HE_Io k) | Inr w \<Rightarrow> Inr w))"

text \<open>Name resolution: \<open>lookup\<close> stands for the operating system's resolver.  An address list that
  comes back empty is \<^verbatim>\<open>Unresolved\<close>.\<close>

datatype UdpRelayError =
    UE_Frame HevFrameError
  | UE_Io io_kind
  | UE_Unresolved bytes
  | UE_Task
  | UE_WriterClosed
  | UE_WriterShutdownTimeout

fun Endpoint_resolve :: "(bytes \<Rightarrow> u16 \<Rightarrow> io_kind + SocketAddr list) \<Rightarrow> Endpoint \<Rightarrow> UdpRelayError + SocketAddr"
where
  "Endpoint_resolve lookup (Socket address) = Inr address"
| "Endpoint_resolve lookup (Domain host port) =
     (case lookup host port of
        Inl k \<Rightarrow> Inl (UE_Io k)
      | Inr [] \<Rightarrow> Inl (UE_Unresolved host)
      | Inr (a # _) \<Rightarrow> Inr a)"

section \<open>Well-formedness\<close>

text \<open>Addresses of the right width; \<open>plain\<close> endpoints are those the format can express: an IPv6
  address without flow label and scope, and a domain short enough for the one-byte header length.\<close>

fun endpoint_wf :: "Endpoint \<Rightarrow> bool" where
  "endpoint_wf (Socket (V4 ip _)) = (length ip = 4)"
| "endpoint_wf (Socket (V6 ip _ flow scope)) = (length ip = 16 \<and> flow = 0 \<and> scope = 0)"
| "endpoint_wf (Domain host _) = (0 < length host \<and> length host \<le> MAX_DOMAIN_LEN \<and> utf8_valid host)"

fun endpoint_len :: "Endpoint \<Rightarrow> nat" where
  "endpoint_len (Socket (V4 _ _)) = 7"
| "endpoint_len (Socket (V6 _ _ _ _)) = 19"
| "endpoint_len (Domain host _) = length host + 4"

definition hev_frame_wf :: "HevUdpFrame \<Rightarrow> bool" where
  "hev_frame_wf f \<longleftrightarrow> endpoint_wf (hev_endpoint f) \<and> endpoint_len (hev_endpoint f) + 3 \<le> 255 \<and>
     length (hev_payload f) \<le> MAX_UDP_PAYLOAD"

section \<open>Endpoints: round trip\<close>

lemma encode_endpoint_wf:
  "endpoint_wf e \<Longrightarrow> \<exists>bs. encode_endpoint e = Inr bs \<and> length bs = endpoint_len e"
  by (cases e rule: endpoint_wf.cases) auto

lemma unat_domain_len: "n \<le> MAX_DOMAIN_LEN \<Longrightarrow> unat (word_of_nat n :: u8) = n"
  by (simp add: MAX_DOMAIN_LEN_def unat_of_nat)

lemma decode_encode_endpoint:
  assumes "endpoint_wf e" "encode_endpoint e = Inr bs"
  shows "decode_endpoint (bs @ rest) = Inr (e, endpoint_len e)"
  using assms
proof (cases e rule: endpoint_wf.cases)
  case (1 ip port)
  then have "bs = 1 # ip @ u16_be port" "length ip = 4" using assms by (simp_all add: atyp_defs)
  then show ?thesis using 1 by (simp add: decode_endpoint_def atyp_defs subslice_def)
next
  case (2 ip port flow scope)
  then have "bs = 4 # ip @ u16_be port" "length ip = 16" using assms by (simp_all add: atyp_defs)
  then show ?thesis using 2 assms by (simp add: decode_endpoint_def atyp_defs subslice_def)
next
  case (3 host port)
  then have "bs = 3 # word_of_nat (length host) # host @ u16_be port" "length host \<le> MAX_DOMAIN_LEN"
    "0 < length host" "utf8_valid host"
    using assms by (auto simp: atyp_defs split: if_splits)
  then show ?thesis using 3
    by (simp add: decode_endpoint_def atyp_defs subslice_def unat_domain_len Let_def)
qed

lemma encode_decode_endpoint:
  assumes "decode_endpoint input = Inr (e, n)"
  shows "endpoint_wf e \<and> n = endpoint_len e \<and> n \<le> length input \<and>
    encode_endpoint e = Inr (take n input)"
proof -
  from assms obtain a xs where input: "input = a # xs"
    by (cases input) (auto simp: decode_endpoint_def)
  have hd: "[a] = subslice 0 1 input" by (simp add: input subslice_def)
  consider "a = SOCKS_ATYP_IPV4" | "a = SOCKS_ATYP_IPV6" | "a = SOCKS_ATYP_DOMAIN"
    using assms by (auto simp: decode_endpoint_def input split: if_splits)
  then show ?thesis
  proof cases
    case 1
    then have e: "e = Socket (V4 (subslice 1 5 input) (be_u16 (subslice 5 7 input)))" "n = 7"
      and len: "7 \<le> length input"
      using assms by (auto simp: decode_endpoint_def input split: if_splits)
    have "[a] @ subslice 1 5 input @ subslice 5 7 input = take 7 input"
      using hd subslice_join [of 1 5 7 input] subslice_join [of 0 1 7 input]
      by (simp flip: subslice_take)
    with e len show ?thesis by (simp add: uN_be_be_uN flip: 1)
  next
    case 2
    then have e: "e = Socket (V6 (subslice 1 17 input) (be_u16 (subslice 17 19 input)) 0 0)" "n = 19"
      and len: "19 \<le> length input"
      using assms by (auto simp: decode_endpoint_def atyp_defs input split: if_splits)
    have "[a] @ subslice 1 17 input @ subslice 17 19 input = take 19 input"
      using hd subslice_join [of 1 17 19 input] subslice_join [of 0 1 19 input]
      by (simp flip: subslice_take)
    with e len show ?thesis by (simp add: uN_be_be_uN flip: 2)
  next
    case 3
    let ?len = "unat (input ! 1)"
    have e: "e = Domain (subslice 2 (2 + ?len) input) (be_u16 (subslice (2 + ?len) (4 + ?len) input))"
      "n = ?len + 4" and len: "?len + 4 \<le> length input" "0 < ?len" "?len \<le> MAX_DOMAIN_LEN"
      and u: "utf8_valid (subslice 2 (2 + ?len) input)"
      using assms 3 by (auto simp: decode_endpoint_def atyp_defs input Let_def not_less split: if_splits)
    have "[a, input ! 1] = subslice 0 2 input"
      using len by (cases xs) (simp_all add: input subslice_def)
    then have "[a, input ! 1] @ subslice 2 (2 + ?len) input @ subslice (2 + ?len) (4 + ?len) input
        = subslice 0 (4 + ?len) input"
      using subslice_join [of 2 "2 + ?len" "4 + ?len" input] subslice_join [of 0 2 "4 + ?len" input]
      by simp
    moreover have hl: "length (subslice 2 (2 + ?len) input) = ?len" using len by simp
    moreover from hl have "subslice 2 (2 + ?len) input \<noteq> []" using len(2) by (metis list.size(3) nat_neq_iff)
    ultimately show ?thesis using e len u
      by (simp add: uN_be_be_uN subslice_take add.commute flip: 3)
  qed
qed

section \<open>Frames: the codec laws\<close>

lemma HevUdpFrame_encode_Inr:
  "HevUdpFrame_encode f = Inr bs \<longleftrightarrow>
     (\<exists>address. length (hev_payload f) \<le> MAX_UDP_PAYLOAD \<and> encode_endpoint (hev_endpoint f) = Inr address \<and>
       3 + length address \<le> 255 \<and>
       bs = u16_be (word_of_nat (length (hev_payload f))) @ [word_of_nat (3 + length address)] @
         address @ hev_payload f)"
  by (cases "encode_endpoint (hev_endpoint f)")
     (auto simp: HevUdpFrame_encode_def encoded_len_def encode_into_def Let_def)

lemma encoded_len_correct: "encode_into f out = Inr bs \<Longrightarrow> encoded_len f = Inr (length bs - length out)"
  by (auto simp: encode_into_def encoded_len_def Let_def split: if_splits sum.splits)

lemma encode_into_append:
  "encode_into f out = (case HevUdpFrame_encode f of Inl e \<Rightarrow> Inl e | Inr bs \<Rightarrow> Inr (out @ bs))"
  by (auto simp: encode_into_def HevUdpFrame_encode_def encoded_len_def Let_def split: sum.splits)

lemma unat_udp_len: "n \<le> MAX_UDP_PAYLOAD \<Longrightarrow> unat (word_of_nat n :: u16) = n"
  by (simp add: MAX_UDP_PAYLOAD_def unat_of_nat)

lemma HevUdpFrame_decode_Inr:
  "HevUdpFrame_decode input = Inr f \<longleftrightarrow>
     3 \<le> length input \<and> unat (be_u16 (subslice 0 2 input)) \<le> MAX_UDP_PAYLOAD \<and>
     3 \<le> unat (input ! 2) \<and>
     length input = unat (input ! 2) + unat (be_u16 (subslice 0 2 input)) \<and>
     (\<exists>e. decode_endpoint (subslice 3 (unat (input ! 2)) input) = Inr (e, unat (input ! 2) - 3) \<and>
        f = \<lparr>hev_endpoint = e, hev_payload = drop (unat (input ! 2)) input\<rparr>)"
proof -
  have "unat (input ! 2) + unat (be_u16 (subslice 0 2 input)) \<le> usize_max"
    using unsigned_less [of "be_u16 (subslice 0 2 input)", where 'a = nat]
    by (simp add: usize_max_def) (use unat_byte_less [of "input ! 2"] in linarith)
  then show ?thesis
    by (auto simp: HevUdpFrame_decode_def Let_def checked_add_def split: sum.splits if_splits)
qed

lemma hev_dec_enc:
  assumes wf: "hev_frame_wf f" and enc: "HevUdpFrame_encode f = Inr bs"
  shows "HevUdpFrame_decode bs = Inr f"
proof -
  from enc obtain address where p: "length (hev_payload f) \<le> MAX_UDP_PAYLOAD"
    and a: "encode_endpoint (hev_endpoint f) = Inr address" "3 + length address \<le> 255"
    and bs: "bs = u16_be (word_of_nat (length (hev_payload f))) @ [word_of_nat (3 + length address)] @
         address @ hev_payload f"
    by (auto simp: HevUdpFrame_encode_Inr)
  have wfe: "endpoint_wf (hev_endpoint f)" using wf by (simp add: hev_frame_wf_def)
  then have al: "length address = endpoint_len (hev_endpoint f)"
    using encode_endpoint_wf a(1) by fastforce
  have h: "unat (bs ! 2) = 3 + length address"
    using a(2) unat_domain_len [of "3 + length address"]
    by (simp add: bs nth_append MAX_DOMAIN_LEN_def)
  have s: "subslice 0 2 bs = u16_be (word_of_nat (length (hev_payload f)))"
    "subslice 3 (3 + length address) bs = address" "drop (3 + length address) bs = hev_payload f"
    by (simp_all add: bs subslice_def)
  have "decode_endpoint address = Inr (hev_endpoint f, endpoint_len (hev_endpoint f))"
    using decode_encode_endpoint [OF wfe a(1), of "[]"] by simp
  then show ?thesis
    unfolding HevUdpFrame_decode_Inr h s using p al by (simp add: unat_udp_len bs)
qed

lemma hev_enc_dec:
  assumes "HevUdpFrame_decode bs = Inr f"
  shows "hev_frame_wf f \<and> HevUdpFrame_encode f = Inr bs"
proof -
  let ?h = "unat (bs ! 2)" and ?p = "unat (be_u16 (subslice 0 2 bs))"
  from assms obtain e where d: "3 \<le> length bs" "?p \<le> MAX_UDP_PAYLOAD" "3 \<le> ?h" "length bs = ?h + ?p"
    and e: "decode_endpoint (subslice 3 ?h bs) = Inr (e, ?h - 3)"
    and f: "f = \<lparr>hev_endpoint = e, hev_payload = drop ?h bs\<rparr>"
    unfolding HevUdpFrame_decode_Inr by blast
  have w: "endpoint_wf e" "?h - 3 = endpoint_len e" and enc: "encode_endpoint e = Inr (subslice 3 ?h bs)"
    using encode_decode_endpoint [OF e] d by (simp_all add: subslice_def)
  have "u16_be (be_u16 (subslice 0 2 bs)) = subslice 0 2 bs"
    using d(1) by (simp add: uN_be_be_uN)
  moreover have "(word_of_nat ?p :: u16) = be_u16 (subslice 0 2 bs)" "(word_of_nat ?h :: u8) = bs ! 2"
    by simp_all
  moreover from this(2) have "3 + word_of_nat (endpoint_len e) = bs ! 2"
    using w(2) d(3) by (metis (no_types, lifting) add.commute le_add_diff_inverse2 of_nat_add of_nat_numeral)
  moreover have "bs = subslice 0 2 bs @ [bs ! 2] @ subslice 3 ?h bs @ drop ?h bs"
  proof -
    have "[bs ! 2] = subslice 2 3 bs" using d(1) subslice_one [of 2 bs] by (simp add: eval_nat_numeral)
    then have "subslice 0 2 bs @ [bs ! 2] @ subslice 3 ?h bs = subslice 0 ?h bs"
      using subslice_join [of 2 3 ?h bs] subslice_join [of 0 2 ?h bs] d(3) by simp
    then show ?thesis by (metis append_assoc append_take_drop_id subslice_take)
  qed
  moreover have "length (drop ?h bs) = ?p" "length (subslice 3 ?h bs) = ?h - 3"
    using d by simp_all
  moreover have "?h \<le> 255" using unat_byte_less [of "bs ! 2"] by linarith
  ultimately show ?thesis
    using f w enc d by (auto simp: hev_frame_wf_def HevUdpFrame_encode_Inr)
qed

lemma hev_rd_enc:
  assumes "hev_frame_wf f" "HevUdpFrame_encode f = Inr bs" "pending s = bs @ rest"
  shows "HevUdpFrame_read_from s = Inr (f, s\<lparr>pending := rest\<rparr>)"
proof -
  have dec: "HevUdpFrame_decode bs = Inr f" using assms(1,2) by (rule hev_dec_enc)
  let ?h = "unat (bs ! 2)" and ?p = "unat (be_u16 (subslice 0 2 bs))"
  have d: "3 \<le> length bs" "?p \<le> MAX_UDP_PAYLOAD" "3 \<le> ?h" "length bs = ?h + ?p"
    using dec unfolding HevUdpFrame_decode_Inr by auto
  have r1: "read_exact 3 s = Inr (take 3 bs, s\<lparr>pending := drop 3 bs @ rest\<rparr>)"
    using assms(3) d(1) by (simp add: read_exact_def)
  have r2: "read_exact (?h + ?p - 3) (s\<lparr>pending := drop 3 bs @ rest\<rparr>) =
      Inr (drop 3 bs, s\<lparr>pending := rest\<rparr>)"
    using d by (simp add: read_exact_def)
  have sl: "subslice 0 2 (take 3 bs) = subslice 0 2 bs" "take 3 bs ! 2 = bs ! 2"
    by (simp_all add: subslice_def)
  have "checked_add ?h ?p = Some (?h + ?p)"
    using unat_byte_less [of "bs ! 2"] d(2)
    by (simp add: checked_add_def usize_max_def MAX_UDP_PAYLOAD_def)
       (use unat_byte_less [of "bs ! 2"] in linarith)
  with d r2 dec show ?thesis
    by (simp add: HevUdpFrame_read_from_def r1 sl Let_def)
qed

lemma hev_rd_dec:
  assumes "HevUdpFrame_read_from s = Inr (f, s')"
  shows "\<exists>bs. HevUdpFrame_decode bs = Inr f \<and> pending s = bs @ pending s' \<and>
    s' = s\<lparr>pending := pending s'\<rparr>"
proof -
  from assms obtain prefix t n body where
    h: "read_exact 3 s = Inr (prefix, t)" and b: "read_exact n t = Inr (body, s')" and
    dec: "HevUdpFrame_decode (prefix @ body) = Inr f"
    by (auto simp: HevUdpFrame_read_from_def Let_def split: sum.splits if_splits option.splits)
  from read_exact_InrD [OF h] read_exact_InrD [OF b] dec show ?thesis
    by (intro exI [of _ "prefix @ body"]) (auto intro: byte_stream_advance)
qed

lemma HevUdpFrame_write_to_ok:
  "HevUdpFrame_encode f = Inr bs \<Longrightarrow> broken w = None \<Longrightarrow>
     HevUdpFrame_write_to f w = Inr (w\<lparr>written := written w @ bs\<rparr>)"
  by (simp add: HevUdpFrame_write_to_def write_all_def)

interpretation hev: framed_channel HevUdpFrame_encode HevUdpFrame_decode HevUdpFrame_read_from
  hev_frame_wf HevUdpFrame_write_to
proof unfold_locales
  show "\<exists>bs. HevUdpFrame_encode m = Inr bs" if "hev_frame_wf m" for m
    using that encode_endpoint_wf [of "hev_endpoint m"]
    by (auto simp: hev_frame_wf_def HevUdpFrame_encode_Inr)
qed (fact hev_dec_enc hev_enc_dec hev_rd_enc hev_rd_dec HevUdpFrame_write_to_ok)+

section \<open>Properties\<close>

text \<open>C6. A HEV UDP frame decodes from a byte string exactly when it is well formed and the byte
  string is its encoding, so the address type, the header length byte and the payload length
  leave no second reading of a frame; and the length the relay budgets for a frame before
  encoding it is the length it encodes to.\<close>

theorem hev_codec_exact:
  "(HevUdpFrame_decode bs = Inr f \<longleftrightarrow> hev_frame_wf f \<and> HevUdpFrame_encode f = Inr bs) \<and>
   (HevUdpFrame_encode f = Inr bs \<longrightarrow> encoded_len f = Inr (length bs))"
  using hev.dec_iff encoded_len_correct [of f "[]"] encode_into_append [of f "[]"] by auto

definition sample_frame :: HevUdpFrame where
  "sample_frame = \<lparr>hev_endpoint = Socket (V4 [127, 0, 0, 1] 53), hev_payload = [1, 2, 3]\<rparr>"

theorem hev_codec_exact_witness:
  "encoded_len sample_frame = Inr 13"
proof -
  have "HevUdpFrame_encode sample_frame =
      Inr (u16_be 3 @ [10] @ [SOCKS_ATYP_IPV4, 127, 0, 0, 1] @ u16_be 53 @ [1, 2, 3])"
    by (simp add: HevUdpFrame_encode_Inr sample_frame_def MAX_UDP_PAYLOAD_def)
  with hev_codec_exact [of "u16_be 3 @ [10] @ [SOCKS_ATYP_IPV4, 127, 0, 0, 1] @ u16_be 53 @ [1, 2, 3]" sample_frame]
  show ?thesis by simp
qed

text \<open>Datagrams written one after the other to the UDP-in-TCP stream are read back as the same
  sequence of datagrams, and what follows stays on the stream.\<close>

theorem hev_stream_roundtrip:
  assumes "list_all hev_frame_wf fs" "broken w = None"
  shows "\<exists>bs. write_frames HevUdpFrame_write_to fs w = Inr (w\<lparr>written := written w @ bs\<rparr>) \<and>
    (\<forall>s rest. pending s = bs @ rest \<longrightarrow>
       read_frames HevUdpFrame_read_from (length fs) s = Inr (fs, s\<lparr>pending := rest\<rparr>))"
  using assms by (rule hev.stream_roundtrip)

end
