(* ===== verification/Pool.thy ===== *)
theory Pool
  imports Prelude
begin

text \<open>
  Pools of concurrent components that share one global state: the host runs many SOCKS sessions and
  UDP associations at a time, and what they share is a set of atomic counters.  A component is a
  step relation on the pair of the shared state and its own state; a pool interleaves the steps of
  its members in any order.  The interface \<open>shared_gauge\<close> says that a counter of the shared state
  moves by exactly what the acting member acquires or gives up, and gives the pool invariant.
\<close>

section \<open>Interleaving\<close>

text \<open>\<open>env\<close> is what the rest of the host may do to the shared state between two steps.\<close>

inductive pool_step ::
  "('g \<Rightarrow> 'g \<Rightarrow> bool) \<Rightarrow> ('g \<Rightarrow> 'g \<times> 'a \<Rightarrow> bool) \<Rightarrow> ('g \<times> 'a \<Rightarrow> 'g \<times> 'a \<Rightarrow> bool) \<Rightarrow>
     'g \<times> 'a list \<Rightarrow> 'g \<times> 'a list \<Rightarrow> bool"
  for env start step where
  pool_env: "env g g' \<Longrightarrow> pool_step env start step (g, as) (g', as)"
| pool_spawn: "start g (g', a) \<Longrightarrow> pool_step env start step (g, as) (g', as @ [a])"
| pool_move: "i < length as \<Longrightarrow> step (g, as ! i) (g', a') \<Longrightarrow>
    pool_step env start step (g, as) (g', as[i := a'])"

inductive pool_reachable ::
  "('g \<Rightarrow> 'g \<Rightarrow> bool) \<Rightarrow> ('g \<Rightarrow> 'g \<times> 'a \<Rightarrow> bool) \<Rightarrow> ('g \<times> 'a \<Rightarrow> 'g \<times> 'a \<Rightarrow> bool) \<Rightarrow> 'g \<Rightarrow>
     'g \<times> 'a list \<Rightarrow> bool"
  for env start step g0 where
  pool_init: "pool_reachable env start step g0 (g0, [])"
| pool_next: "pool_reachable env start step g0 s \<Longrightarrow> pool_step env start step s s' \<Longrightarrow>
    pool_reachable env start step g0 s'"

text \<open>Nothing but the members touches the shared state.\<close>

definition no_env :: "'g \<Rightarrow> 'g \<Rightarrow> bool" where
  "no_env g g' \<longleftrightarrow> False"

lemma sum_list_map_update:
  fixes f :: "'a \<Rightarrow> nat"
  assumes "i < length xs"
  shows "sum_list (map f (xs[i := y])) + f (xs ! i) = sum_list (map f xs) + f y"
  using assms
proof (induction xs arbitrary: i)
  case (Cons x xs)
  then show ?case by (cases i) auto
qed simp

lemma member_le_sum_list_map:
  fixes f :: "'a \<Rightarrow> nat"
  shows "i < length xs \<Longrightarrow> f (xs ! i) \<le> sum_list (map f xs)"
  by (simp add: member_le_sum_list)

section \<open>Invariants of the members\<close>

text \<open>A property of the members that a start establishes and every step keeps, whatever the other
  members did to the shared state in between.\<close>

locale member_invariant =
  fixes env :: "'g \<Rightarrow> 'g \<Rightarrow> bool"
    and start :: "'g \<Rightarrow> 'g \<times> 'a \<Rightarrow> bool"
    and step :: "'g \<times> 'a \<Rightarrow> 'g \<times> 'a \<Rightarrow> bool"
    and inv :: "'a \<Rightarrow> bool"
  assumes start_inv: "start g (g', a) \<Longrightarrow> inv a"
    and step_inv: "inv a \<Longrightarrow> step (g, a) (g', a') \<Longrightarrow> inv a'"
begin

lemma pool_step_inv:
  "pool_step env start step s s' \<Longrightarrow> list_all inv (snd s) \<Longrightarrow> list_all inv (snd s')"
proof (induction rule: pool_step.induct)
  case (pool_env g g' as)
  then show ?case by simp
next
  case (pool_spawn g g' a as)
  then show ?case using start_inv by simp
next
  case (pool_move i as g g' a')
  then have "inv a'" using step_inv [of "as ! i" g g' a'] by (simp add: list_all_length)
  with pool_move show ?case by (auto simp: list_all_length nth_list_update)
qed

lemma pool_inv: "pool_reachable env start step g0 s \<Longrightarrow> list_all inv (snd s)"
  by (induction rule: pool_reachable.induct) (auto dest: pool_step_inv)

end

section \<open>Shared gauges\<close>

text \<open>\<open>gauge\<close> is a counter of the shared state, \<open>held\<close> what a member accounts for, and \<open>ok\<close> a condition
  on the shared state that the moves keep.\<close>

locale shared_gauge =
  fixes env :: "'g \<Rightarrow> 'g \<Rightarrow> bool"
    and start :: "'g \<Rightarrow> 'g \<times> 'a \<Rightarrow> bool"
    and step :: "'g \<times> 'a \<Rightarrow> 'g \<times> 'a \<Rightarrow> bool"
    and ok :: "'g \<Rightarrow> bool"
    and gauge :: "'g \<Rightarrow> nat"
    and held :: "'a \<Rightarrow> nat"
  assumes env_gauge: "env g g' \<Longrightarrow> ok g \<Longrightarrow> ok g' \<and> gauge g' = gauge g"
    and start_gauge: "start g (g', a) \<Longrightarrow> ok g \<Longrightarrow> ok g' \<and> gauge g' = gauge g + held a"
    and step_gauge: "step (g, a) (g', a') \<Longrightarrow> ok g \<Longrightarrow> held a \<le> gauge g \<Longrightarrow>
        ok g' \<and> gauge g' + held a = gauge g + held a'"
begin

definition balanced_pool :: "'g \<times> 'a list \<Rightarrow> bool" where
  "balanced_pool s \<longleftrightarrow> ok (fst s) \<and> gauge (fst s) = sum_list (map held (snd s))"

lemma member_held: "balanced_pool (g, as) \<Longrightarrow> i < length as \<Longrightarrow> held (as ! i) \<le> gauge g"
  using member_le_sum_list_map [of i as held] by (simp add: balanced_pool_def)

lemma pool_step_balanced:
  "pool_step env start step s s' \<Longrightarrow> balanced_pool s \<Longrightarrow> balanced_pool s'"
proof (induction rule: pool_step.induct)
  case (pool_env g g' as)
  then show ?case using env_gauge [of g g'] by (simp add: balanced_pool_def)
next
  case (pool_spawn g g' a as)
  then show ?case using start_gauge [of g g' a] by (simp add: balanced_pool_def)
next
  case (pool_move i as g g' a')
  then have "ok g' \<and> gauge g' + held (as ! i) = gauge g + held a'"
    using step_gauge [of g "as ! i" g' a'] member_held [of g as i] by (simp add: balanced_pool_def)
  then show ?case
    using sum_list_map_update [of i as held a'] pool_move by (simp add: balanced_pool_def)
qed

text \<open>The gauge is the sum of what the members hold, at every moment of every interleaving.\<close>

lemma pool_balanced:
  "pool_reachable env start step g0 s \<Longrightarrow> ok g0 \<Longrightarrow> gauge g0 = 0 \<Longrightarrow> balanced_pool s"
  by (induction rule: pool_reachable.induct) (auto simp: balanced_pool_def [of "(g0, [])"] dest: pool_step_balanced)

lemma pool_gauge:
  "pool_reachable env start step g0 s \<Longrightarrow> ok g0 \<Longrightarrow> gauge g0 = 0 \<Longrightarrow>
     ok (fst s) \<and> gauge (fst s) = sum_list (map held (snd s))"
  using pool_balanced [of g0 s] by (simp add: balanced_pool_def)

text \<open>When nobody holds anything the counter is back at zero: nothing leaks.\<close>

lemma pool_gauge_drained:
  assumes "pool_reachable env start step g0 s" "ok g0" "gauge g0 = 0" "\<forall>a \<in> set (snd s). held a = 0"
  shows "gauge (fst s) = 0"
  using pool_gauge [OF assms(1-3)] assms(4) by (simp add: sum_list_eq_0_iff)

end

text \<open>A gauge with a limit that no start and no step exceeds.\<close>

locale limited_gauge = shared_gauge +
  fixes limit :: "'a \<Rightarrow> nat"
  assumes env_limit: "env g g' \<Longrightarrow> limit g' = limit g"
    and start_limit: "start g (g', a) \<Longrightarrow> limit g' = limit g \<and> (gauge g \<le> limit g \<longrightarrow> gauge g' \<le> limit g')"
    and step_limit: "step (g, a) (g', a') \<Longrightarrow> held a \<le> gauge g \<Longrightarrow> limit g' = limit g \<and>
        (gauge g \<le> limit g \<longrightarrow> gauge g' \<le> limit g')"
begin

lemma pool_limit:
  assumes "pool_reachable env start step g0 s" "ok g0" "gauge g0 = 0"
  shows "limit (fst s) = limit g0 \<and> gauge (fst s) \<le> limit g0"
  using assms(1)
proof (induction rule: pool_reachable.induct)
  case pool_init
  then show ?case using assms(3) by simp
next
  case (pool_next s s')
  have bal: "balanced_pool s" using pool_balanced [OF pool_next.hyps(1) assms(2,3)] .
  from pool_next.hyps(2) show ?case
  proof (cases rule: pool_step.cases)
    case (pool_env g g' as)
    then show ?thesis
      using env_limit [of g g'] env_gauge [of g g'] pool_next.IH bal by (simp add: balanced_pool_def)
  next
    case (pool_spawn g g' a as)
    then show ?thesis using start_limit [of g g' a] pool_next.IH by simp
  next
    case (pool_move i as g g' a')
    then show ?thesis
      using step_limit [of g "as ! i" g' a'] member_held [of g as i] bal pool_next.IH by simp
  qed
qed

end

end
