(* ===== verification/UdpRelay.thy ===== *)
theory UdpRelay
  imports Pool HevUdp Diagnostics
begin

text \<open>
  The forwarding half of \<^verbatim>\<open>udp.rs\<close>: the byte budget with its reservations, the bounded request
  queue, and \<^verbatim>\<open>relay_fwd_udp\<close> as the interleaving of its three tasks (the frame reader, the reply
  writer and the select loop) with the sockets, the clock and the resolver as the environment.
  Each step ends at an await point of its task.  A reservation is the number of bytes it accounts
  for; dropping the value that carries it gives the bytes back to both counters.
\<close>

section \<open>Configuration and statistics\<close>

definition DEFAULT_ASSOCIATION_BYTE_BUDGET :: nat where "DEFAULT_ASSOCIATION_BYTE_BUDGET = 256 * 1024"
definition DEFAULT_GLOBAL_QUEUE_BYTE_BUDGET :: nat where
  "DEFAULT_GLOBAL_QUEUE_BYTE_BUDGET = 8 * 1024 * 1024"
definition MAX_WRITE_BATCH_BYTES :: nat where "MAX_WRITE_BATCH_BYTES = 255 + MAX_UDP_PAYLOAD"
definition WRITER_SHUTDOWN_TIMEOUT :: duration where "WRITER_SHUTDOWN_TIMEOUT = 1000000000"

record FwdUdpConfig =
  fc_queue_capacity :: nat
  fc_max_queue_age :: duration
  fc_idle_timeout :: duration
  fc_association_byte_budget :: nat

definition FwdUdpConfig_default :: FwdUdpConfig where
  "FwdUdpConfig_default = \<lparr>fc_queue_capacity = 64, fc_max_queue_age = 10 * 1000000,
     fc_idle_timeout = 130 * 1000000000,
     fc_association_byte_budget = DEFAULT_ASSOCIATION_BYTE_BUDGET\<rparr>"

record UdpStats =
  us_active_flows :: nat
  us_tx_datagrams :: u64
  us_tx_bytes :: u64
  us_rx_datagrams :: u64
  us_rx_bytes :: u64
  us_dropped_queue_age :: u64
  us_dropped_queue_full :: u64
  us_malformed_frames :: u64
  us_queued_bytes :: nat
  us_max_queued_bytes :: nat
  us_queue_residence :: LatencyHistogram

definition UdpStatsInner_new :: "nat \<Rightarrow> UdpStats" where
  "UdpStatsInner_new max_queued_bytes = \<lparr>us_active_flows = 0, us_tx_datagrams = 0, us_tx_bytes = 0,
     us_rx_datagrams = 0, us_rx_bytes = 0, us_dropped_queue_age = 0, us_dropped_queue_full = 0,
     us_malformed_frames = 0, us_queued_bytes = 0, us_max_queued_bytes = max_queued_bytes,
     us_queue_residence = LatencyHistogram_default\<rparr>"

definition UdpStats_default :: UdpStats where
  "UdpStats_default = UdpStatsInner_new DEFAULT_GLOBAL_QUEUE_BYTE_BUDGET"

record UdpStatsSnapshot =
  uss_active_flows :: nat
  uss_tx_datagrams :: u64
  uss_tx_bytes :: u64
  uss_rx_datagrams :: u64
  uss_rx_bytes :: u64
  uss_dropped_queue_age :: u64
  uss_dropped_queue_full :: u64
  uss_malformed_frames :: u64
  uss_queued_bytes :: nat
  uss_queue_residence_us :: LatencyHistogramSnapshot

definition UdpStats_snapshot :: "UdpStats \<Rightarrow> UdpStatsSnapshot" where
  "UdpStats_snapshot s = \<lparr>uss_active_flows = us_active_flows s, uss_tx_datagrams = us_tx_datagrams s,
     uss_tx_bytes = us_tx_bytes s, uss_rx_datagrams = us_rx_datagrams s, uss_rx_bytes = us_rx_bytes s,
     uss_dropped_queue_age = us_dropped_queue_age s, uss_dropped_queue_full = us_dropped_queue_full s,
     uss_malformed_frames = us_malformed_frames s, uss_queued_bytes = us_queued_bytes s,
     uss_queue_residence_us = LatencyHistogram_snapshot (us_queue_residence s)\<rparr>"

definition drop_queue_full :: "UdpStats \<Rightarrow> UdpStats" where
  "drop_queue_full s = s\<lparr>us_dropped_queue_full := us_dropped_queue_full s + 1\<rparr>"

definition drop_queue_age :: "UdpStats \<Rightarrow> UdpStats" where
  "drop_queue_age s = s\<lparr>us_dropped_queue_age := us_dropped_queue_age s + 1\<rparr>"

definition record_residence :: "duration \<Rightarrow> UdpStats \<Rightarrow> UdpStats" where
  "record_residence age s =
     s\<lparr>us_queue_residence := LatencyHistogram_record age (us_queue_residence s)\<rparr>"

section \<open>The byte budget\<close>

type_synonym QueueReservation = nat

record QueueBudget =
  qb_association_bytes :: nat
  qb_association_limit :: nat

definition try_reserve :: "nat \<Rightarrow> nat \<Rightarrow> nat \<Rightarrow> nat option" where
  "try_reserve counter limit n =
     (case checked_add counter n of
        Some total_bytes \<Rightarrow> if total_bytes \<le> limit then Some total_bytes else None
      | None \<Rightarrow> None)"

text \<open>The result is the reservation, if both counters had room, with the new counters.\<close>

definition QueueBudget_reserve ::
  "nat \<Rightarrow> UdpStats \<times> QueueBudget \<Rightarrow> QueueReservation option \<times> UdpStats \<times> QueueBudget" where
  "QueueBudget_reserve n sb =
     (let (s, b) = sb in
      case try_reserve (qb_association_bytes b) (qb_association_limit b) n of
        None \<Rightarrow> (None, s, b)
      | Some association_bytes \<Rightarrow>
          (case try_reserve (us_queued_bytes s) (us_max_queued_bytes s) n of
             None \<Rightarrow> (None, s, b\<lparr>qb_association_bytes := association_bytes - n\<rparr>)
           | Some queued_bytes \<Rightarrow>
               (Some n, s\<lparr>us_queued_bytes := queued_bytes\<rparr>,
                b\<lparr>qb_association_bytes := association_bytes\<rparr>)))"

definition QueueReservation_drop ::
  "QueueReservation \<Rightarrow> UdpStats \<times> QueueBudget \<Rightarrow> UdpStats \<times> QueueBudget" where
  "QueueReservation_drop n sb =
     (let (s, b) = sb in
      (s\<lparr>us_queued_bytes := us_queued_bytes s - n\<rparr>,
       b\<lparr>qb_association_bytes := qb_association_bytes b - n\<rparr>))"

definition accounted_frame_bytes :: "HevUdpFrame \<Rightarrow> nat" where
  "accounted_frame_bytes f = saturating_add (length (hev_payload f)) 64"

section \<open>Queues\<close>

record QueuedFrame =
  qf_frame :: HevUdpFrame
  qf_queued_at :: instant
  qf_reservation :: QueueReservation

type_synonym QueuedReply = QueuedFrame

datatype EnqueueResult = Queued | Dropped | Closed

text \<open>\<^verbatim>\<open>try_queue_request\<close>: the queue holds at most \<open>capacity\<close> entries, and \<open>rx_open\<close> says whether
  its receiver still exists.  A frame that is not queued is dropped together with its reservation.\<close>

definition try_queue_request ::
  "nat \<Rightarrow> bool \<Rightarrow> HevUdpFrame \<Rightarrow> instant \<Rightarrow> (HevFrameError + QueuedFrame) list \<Rightarrow> UdpStats \<times> QueueBudget
     \<Rightarrow> EnqueueResult \<times> (HevFrameError + QueuedFrame) list \<times> UdpStats \<times> QueueBudget" where
  "try_queue_request capacity rx_open frame now requests sb =
     (case QueueBudget_reserve (accounted_frame_bytes frame) sb of
        (None, s, b) \<Rightarrow> (Dropped, requests, drop_queue_full s, b)
      | (Some reservation, s, b) \<Rightarrow>
          if \<not> rx_open then (Closed, requests, QueueReservation_drop reservation (s, b))
          else if capacity \<le> length requests
          then (let (s, b) = QueueReservation_drop reservation (s, b) in
                (Dropped, requests, drop_queue_full s, b))
          else (Queued, requests @ [Inr \<lparr>qf_frame = frame, qf_queued_at = now,
                  qf_reservation = reservation\<rparr>], s, b))"

section \<open>The association\<close>

datatype ReaderState = R_Reading | R_Reporting HevFrameError | R_Done

text \<open>The reply writer waits for a first reply, handles the \<open>n\<close>-th reply of a batch, or is between
  two replies; a batch carries one reservation per frame it holds.\<close>

datatype WriterState =
    W_Waiting
  | W_Handling (w_taken: nat) (w_batch: bytes) (w_reservations: "QueueReservation list") (w_reply: QueuedReply)
  | W_Between (w_taken: nat) (w_batch: bytes) (w_reservations: "QueueReservation list")
  | W_Finished "UdpRelayError + unit"
  | W_Cancelled

text \<open>The select loop, the request whose endpoint it is resolving, the shutdown after the loop
  broke with a result, and the returned association.\<close>

datatype MainState =
    M_Selecting
  | M_Forwarding QueuedFrame
  | M_Joining "UdpRelayError + unit"
  | M_Returned "UdpRelayError + unit"

record Association =
  as_config :: FwdUdpConfig
  as_budget :: QueueBudget
  as_input :: byte_stream
  as_reader :: ReaderState
  as_requests :: "(HevFrameError + QueuedFrame) list"
  as_replies :: "QueuedReply list"
  as_writer :: WriterState
  as_output :: byte_sink
  as_main :: MainState
  as_idle_at :: instant
  as_sent :: "(SocketAddr \<times> bytes) list"

type_synonym relay = "UdpStats \<times> Association"

definition drop_reserved :: "nat \<Rightarrow> relay \<Rightarrow> relay" where
  "drop_reserved n r =
     (let (s, a) = r; (s, b) = QueueReservation_drop n (s, as_budget a) in (s, a\<lparr>as_budget := b\<rparr>))"

definition request_reserved :: "HevFrameError + QueuedFrame \<Rightarrow> nat" where
  "request_reserved x = (case x of Inl _ \<Rightarrow> 0 | Inr q \<Rightarrow> qf_reservation q)"

fun writer_reserved :: "WriterState \<Rightarrow> nat" where
  "writer_reserved (W_Handling _ _ rs reply) = sum_list rs + qf_reservation reply"
| "writer_reserved (W_Between _ _ rs) = sum_list rs"
| "writer_reserved _ = 0"

fun main_reserved :: "MainState \<Rightarrow> nat" where
  "main_reserved (M_Forwarding q) = qf_reservation q"
| "main_reserved _ = 0"

definition reply_open :: "Association \<Rightarrow> bool" where
  "reply_open a \<longleftrightarrow> (case as_main a of M_Selecting \<Rightarrow> True | M_Forwarding _ \<Rightarrow> True | _ \<Rightarrow> False)"

definition request_open :: "Association \<Rightarrow> bool" where
  "request_open a \<longleftrightarrow> (case as_main a of M_Returned _ \<Rightarrow> False | _ \<Rightarrow> True)"

definition writer_finished :: "Association \<Rightarrow> bool" where
  "writer_finished a \<longleftrightarrow> (case as_writer a of W_Finished _ \<Rightarrow> True | W_Cancelled \<Rightarrow> True | _ \<Rightarrow> False)"

text \<open>The start of \<^verbatim>\<open>relay_fwd_udp\<close>, once both host sockets are bound.\<close>

definition relay_start :: "FwdUdpConfig \<Rightarrow> byte_stream \<Rightarrow> byte_sink \<Rightarrow> instant \<Rightarrow> UdpStats \<Rightarrow> relay" where
  "relay_start config reader writer now s =
     (s\<lparr>us_active_flows := us_active_flows s + 1\<rparr>,
      \<lparr>as_config = config,
       as_budget = \<lparr>qb_association_bytes = 0, qb_association_limit = fc_association_byte_budget config\<rparr>,
       as_input = reader, as_reader = R_Reading, as_requests = [], as_replies = [],
       as_writer = W_Waiting, as_output = writer, as_main = M_Selecting,
       as_idle_at = now + fc_idle_timeout config, as_sent = []\<rparr>)"

section \<open>The reader task\<close>

definition reader_step :: "instant \<Rightarrow> relay \<Rightarrow> relay" where
  "reader_step now r =
     (let (s, a) = r in
      case as_reader a of
        R_Reading \<Rightarrow>
          (case HevUdpFrame_read_from (as_input a) of
             Inr (frame, input) \<Rightarrow>
               (let (outcome, requests, s, b) =
                      try_queue_request (fc_queue_capacity (as_config a))
                        (request_open a) frame now (as_requests a) (s, as_budget a)
                in (s, a\<lparr>as_input := input, as_requests := requests, as_budget := b,
                     as_reader := (if outcome = Closed then R_Done else R_Reading)\<rparr>))
           | Inl (HE_Io UnexpectedEof) \<Rightarrow> (s, a\<lparr>as_reader := R_Done\<rparr>)
           | Inl error \<Rightarrow>
               (s\<lparr>us_malformed_frames := us_malformed_frames s + 1\<rparr>, a\<lparr>as_reader := R_Reporting error\<rparr>))
      | R_Reporting error \<Rightarrow>
          if length (as_requests a) < fc_queue_capacity (as_config a)
          then (s, a\<lparr>as_requests := as_requests a @ [Inl error], as_reader := R_Done\<rparr>)
          else (s, a)
      | R_Done \<Rightarrow> (s, a))"

section \<open>The reply writer\<close>

text \<open>A writer that returns drops its batch, the reply in hand and the receiver with every reply
  still queued.\<close>

definition writer_return :: "WriterState \<Rightarrow> relay \<Rightarrow> relay" where
  "writer_return final r =
     (let (s, a) = drop_reserved (writer_reserved (as_writer (snd r)) +
              sum_list (map qf_reservation (as_replies (snd r)))) r
      in (s, a\<lparr>as_writer := final, as_replies := []\<rparr>))"

definition writer_take :: "nat \<Rightarrow> bytes \<Rightarrow> QueueReservation list \<Rightarrow> relay \<Rightarrow> relay" where
  "writer_take n batch reservations r =
     (let (s, a) = r in
      (s, a\<lparr>as_replies := tl (as_replies a),
           as_writer := W_Handling n batch reservations (hd (as_replies a))\<rparr>))"

text \<open>The body of the batch loop for one reply: too old, flush before it would overflow the batch,
  no room in the budget, or appended.  The reply's own reservation is given back last.\<close>

definition writer_append :: "nat \<Rightarrow> bytes \<Rightarrow> QueueReservation list \<Rightarrow> QueuedReply \<Rightarrow> nat \<Rightarrow> relay \<Rightarrow> relay" where
  "writer_append n batch reservations reply len r =
     (let (s, a) = r in
      case QueueBudget_reserve len (s, as_budget a) of
        (None, s, b) \<Rightarrow>
          drop_reserved (qf_reservation reply)
            (drop_queue_full s, a\<lparr>as_budget := b, as_writer := W_Between n batch reservations\<rparr>)
      | (Some batch_reservation, s, b) \<Rightarrow>
          (case encode_into (qf_frame reply) batch of
             Inl e \<Rightarrow> writer_return (W_Finished (Inl (UE_Frame e)))
               (s, a\<lparr>as_budget := b,
                    as_writer := W_Handling n batch (reservations @ [batch_reservation]) reply\<rparr>)
           | Inr batch \<Rightarrow>
               drop_reserved (qf_reservation reply)
                 (s, a\<lparr>as_budget := b,
                      as_writer := W_Between n batch (reservations @ [batch_reservation])\<rparr>)))"

definition writer_handle :: "instant \<Rightarrow> nat \<Rightarrow> bytes \<Rightarrow> QueueReservation list \<Rightarrow> QueuedReply \<Rightarrow> relay \<Rightarrow> relay"
where
  "writer_handle now n batch reservations reply r =
     (let (s, a) = r; queue_age = now - qf_queued_at reply; s = record_residence queue_age s in
      if queue_age > fc_max_queue_age (as_config a)
      then drop_reserved (qf_reservation reply)
             (drop_queue_age s, a\<lparr>as_writer := W_Between n batch reservations\<rparr>)
      else
        (case encoded_len (qf_frame reply) of
           Inl e \<Rightarrow> writer_return (W_Finished (Inl (UE_Frame e))) (s, a)
         | Inr len \<Rightarrow>
             if batch \<noteq> [] \<and> saturating_add (length batch) len > MAX_WRITE_BATCH_BYTES
             then
               (case write_all batch (as_output a) of
                  Inl k \<Rightarrow> writer_return (W_Finished (Inl (UE_Io k))) (s, a)
                | Inr output \<Rightarrow>
                    writer_append n [] [] reply len
                      (drop_reserved (sum_list reservations)
                         (s, a\<lparr>as_output := output, as_writer := W_Handling n [] [] reply\<rparr>)))
             else writer_append n batch reservations reply len (s, a)))"

text \<open>The end of a batch: whatever it holds is written, then its reservations are dropped.\<close>

definition writer_flush :: "bytes \<Rightarrow> QueueReservation list \<Rightarrow> relay \<Rightarrow> relay" where
  "writer_flush batch reservations r =
     (let (s, a) = r in
      if batch = [] then drop_reserved (sum_list reservations) (s, a\<lparr>as_writer := W_Waiting\<rparr>)
      else
        (case write_all batch (as_output a) of
           Inl k \<Rightarrow> writer_return (W_Finished (Inl (UE_Io k))) (s, a)
         | Inr output \<Rightarrow> drop_reserved (sum_list reservations)
             (s, a\<lparr>as_output := output, as_writer := W_Waiting\<rparr>)))"

definition writer_step :: "instant \<Rightarrow> relay \<Rightarrow> relay" where
  "writer_step now r =
     (let (s, a) = r in
      case as_writer a of
        W_Waiting \<Rightarrow>
          if as_replies a \<noteq> [] then writer_take 1 [] [] (s, a)
          else if \<not> reply_open a then writer_return (W_Finished (Inr ())) (s, a)
          else (s, a)
      | W_Handling n batch reservations reply \<Rightarrow> writer_handle now n batch reservations reply (s, a)
      | W_Between n batch reservations \<Rightarrow>
          if n < 8 \<and> as_replies a \<noteq> [] then writer_take (n + 1) batch reservations (s, a)
          else writer_flush batch reservations (s, a)
      | _ \<Rightarrow> (s, a))"

section \<open>The select loop\<close>

definition writer_abort :: "relay \<Rightarrow> relay" where
  "writer_abort r = (if writer_finished (snd r) then r else writer_return W_Cancelled r)"

text \<open>Returning drops the receiver of the request queue, aborts both tasks and ends the flow.\<close>

definition main_return :: "UdpRelayError + unit \<Rightarrow> relay \<Rightarrow> relay" where
  "main_return result r =
     (let (s, a) = writer_abort r;
          (s, a) = drop_reserved (main_reserved (as_main a) + sum_list (map request_reserved (as_requests a))) (s, a)
      in (s\<lparr>us_active_flows := us_active_flows s - 1\<rparr>,
          a\<lparr>as_reader := R_Done, as_requests := [], as_main := M_Returned result\<rparr>))"

text \<open>Leaving the loop aborts the reader and closes the reply queue; after a failure the writer is
  aborted as well.\<close>

definition main_break :: "UdpRelayError + unit \<Rightarrow> relay \<Rightarrow> relay" where
  "main_break result r =
     (let (s, a) = r; r = (s, a\<lparr>as_reader := R_Done, as_main := M_Joining result\<rparr>) in
      case result of Inl _ \<Rightarrow> writer_abort r | Inr _ \<Rightarrow> r)"

definition reset_idle :: "instant \<Rightarrow> Association \<Rightarrow> Association" where
  "reset_idle now a = a\<lparr>as_idle_at := now + fc_idle_timeout (as_config a)\<rparr>"

text \<open>The request branch up to the resolution of the endpoint; the queue age is read twice, at
  \<open>now\<close> and at \<open>now'\<close>.\<close>

definition main_request :: "instant \<Rightarrow> instant \<Rightarrow> relay \<Rightarrow> relay" where
  "main_request now now' r =
     (let (s, a) = r in
      case as_requests a of
        [] \<Rightarrow> if as_reader a = R_Done then main_break (Inr ()) (s, a) else (s, a)
      | Inl error # requests \<Rightarrow> main_break (Inl (UE_Frame error)) (s, a\<lparr>as_requests := requests\<rparr>)
      | Inr request # requests \<Rightarrow>
          (let a = reset_idle now (a\<lparr>as_requests := requests\<rparr>);
               queue_age = now - qf_queued_at request;
               s = record_residence queue_age s
           in if queue_age > fc_max_queue_age (as_config a) \<or>
                 now' - qf_queued_at request > fc_max_queue_age (as_config a)
              then drop_reserved (qf_reservation request) (drop_queue_age s, a)
              else (s, a\<lparr>as_main := M_Forwarding request\<rparr>)))"

text \<open>The rest of the branch: \<open>resolved\<close> is \<open>None\<close> when the resolution ran into its deadline, and
  \<open>send_error\<close> is the failure of \<^verbatim>\<open>send_to\<close>, if it fails.  Both failures leave the function.\<close>

definition main_forward ::
  "(UdpRelayError + SocketAddr) option \<Rightarrow> io_kind option \<Rightarrow> QueuedFrame \<Rightarrow> relay \<Rightarrow> relay" where
  "main_forward resolved send_error request r =
     (let (s, a) = r in
      case resolved of
        None \<Rightarrow> drop_reserved (qf_reservation request) (drop_queue_age s, a\<lparr>as_main := M_Selecting\<rparr>)
      | Some (Inl error) \<Rightarrow> main_return (Inl error) (s, a)
      | Some (Inr target) \<Rightarrow>
          (case send_error of
             Some k \<Rightarrow> main_return (Inl (UE_Io k)) (s, a)
           | None \<Rightarrow>
               drop_reserved (qf_reservation request)
                 (s\<lparr>us_tx_datagrams := us_tx_datagrams s + 1,
                    us_tx_bytes := us_tx_bytes s + word_of_nat (length (hev_payload (qf_frame request)))\<rparr>,
                  a\<lparr>as_main := M_Selecting,
                    as_sent := as_sent a @ [(target, hev_payload (qf_frame request))]\<rparr>)))"

text \<open>A datagram (or an error) from one of the two host sockets; both branches do the same.\<close>

definition main_receive :: "instant \<Rightarrow> io_kind + (SocketAddr \<times> bytes) \<Rightarrow> relay \<Rightarrow> relay" where
  "main_receive now received r =
     (let (s, a) = r in
      case received of
        Inl k \<Rightarrow> main_return (Inl (UE_Io k)) (s, a)
      | Inr (source, payload) \<Rightarrow>
          (let a = reset_idle now a;
               s = s\<lparr>us_rx_datagrams := us_rx_datagrams s + 1,
                     us_rx_bytes := us_rx_bytes s + word_of_nat (length payload)\<rparr>
           in case QueueBudget_reserve (saturating_add (length payload) 64) (s, as_budget a) of
                (None, s, b) \<Rightarrow> (drop_queue_full s, a\<lparr>as_budget := b\<rparr>)
              | (Some reservation, s, b) \<Rightarrow>
                  if writer_finished a \<or> fc_queue_capacity (as_config a) \<le> length (as_replies a)
                  then (let (s, b) = QueueReservation_drop reservation (s, b) in
                        (drop_queue_full s, a\<lparr>as_budget := b\<rparr>))
                  else (s, a\<lparr>as_budget := b, as_replies := as_replies a @
                         [\<lparr>qf_frame = \<lparr>hev_endpoint = Socket source, hev_payload = payload\<rparr>,
                           qf_queued_at = now, qf_reservation = reservation\<rparr>]\<rparr>)))"

text \<open>The shutdown: the writer has a second to finish, and the result of the loop comes first.\<close>

definition join_result :: "UdpRelayError + unit \<Rightarrow> WriterState \<Rightarrow> UdpRelayError + unit" where
  "join_result relay_result writer =
     (case relay_result of
        Inl e \<Rightarrow> Inl e
      | Inr _ \<Rightarrow> (case writer of W_Finished result \<Rightarrow> result | _ \<Rightarrow> Inr ()))"

definition main_join :: "bool \<Rightarrow> UdpRelayError + unit \<Rightarrow> relay \<Rightarrow> relay" where
  "main_join deadline_passed relay_result r =
     (if writer_finished (snd r)
      then main_return (join_result relay_result (as_writer (snd r))) r
      else if deadline_passed then main_return (Inl UE_WriterShutdownTimeout) r
      else r)"

section \<open>The relay as a step relation\<close>

text \<open>What the environment may do: time passes, a socket delivers at most a full datagram, the
  resolver answers or runs out of time.  The carrier of an association either takes every batch or fails every
  batch, at once: a carrier that blocks in the middle of a batch, and the abort of the tasks when the whole
  association is dropped from outside, are not steps of the model.\<close>

inductive relay_step ::
  "(bytes \<Rightarrow> u16 \<Rightarrow> io_kind + SocketAddr list) \<Rightarrow> relay \<Rightarrow> relay \<Rightarrow> bool" for lookup where
  rs_reader: "relay_step lookup (s, a) (reader_step now (s, a))"
| rs_writer: "relay_step lookup (s, a) (writer_step now (s, a))"
| rs_request: "as_main a = M_Selecting \<Longrightarrow> now \<le> now' \<Longrightarrow>
    relay_step lookup (s, a) (main_request now now' (s, a))"
| rs_forward: "as_main a = M_Forwarding q \<Longrightarrow>
    resolved \<in> {None, Some (Endpoint_resolve lookup (hev_endpoint (qf_frame q)))} \<Longrightarrow>
    relay_step lookup (s, a) (main_forward resolved send_error q (s, a))"
| rs_receive: "as_main a = M_Selecting \<Longrightarrow>
    (\<forall>source payload. received = Inr (source, payload) \<longrightarrow> length payload \<le> MAX_UDP_PAYLOAD) \<Longrightarrow>
    relay_step lookup (s, a) (main_receive now received (s, a))"
| rs_writer_closed: "as_main a = M_Selecting \<Longrightarrow> writer_finished a \<Longrightarrow>
    relay_step lookup (s, a) (main_break (Inl UE_WriterClosed) (s, a))"
| rs_idle: "as_main a = M_Selecting \<Longrightarrow> as_idle_at a \<le> now \<Longrightarrow>
    relay_step lookup (s, a) (main_break (Inr ()) (s, a))"
| rs_join: "as_main a = M_Joining result \<Longrightarrow>
    relay_step lookup (s, a) (main_join deadline_passed result (s, a))"

text \<open>The sink of a new association counts the bytes from its start.\<close>

definition relay_spawn :: "UdpStats \<Rightarrow> relay \<Rightarrow> bool" where
  "relay_spawn s r \<longleftrightarrow>
     (\<exists>config reader writer now. written writer = [] \<and> r = relay_start config reader writer now s)"


section \<open>Accounting\<close>

text \<open>Everything an association holds a reservation for.\<close>

definition assoc_reserved :: "Association \<Rightarrow> nat" where
  "assoc_reserved a = sum_list (map request_reserved (as_requests a)) +
     sum_list (map qf_reservation (as_replies a)) + writer_reserved (as_writer a) +
     main_reserved (as_main a)"

definition assoc_bytes :: "Association \<Rightarrow> nat" where
  "assoc_bytes a = qb_association_bytes (as_budget a)"

definition assoc_limit :: "Association \<Rightarrow> nat" where
  "assoc_limit a = qb_association_limit (as_budget a)"

text \<open>A counter that moves by exactly what its owner acquires and gives up.\<close>

definition balanced :: "nat \<Rightarrow> nat \<Rightarrow> nat \<Rightarrow> nat \<Rightarrow> bool" where
  "balanced x h x' h' \<longleftrightarrow> (h \<le> x \<longrightarrow> x' + h = x + h')"

definition relay_balanced :: "relay \<Rightarrow> relay \<Rightarrow> bool" where
  "relay_balanced r r' \<longleftrightarrow>
     balanced (us_queued_bytes (fst r)) (assoc_reserved (snd r))
       (us_queued_bytes (fst r')) (assoc_reserved (snd r')) \<and>
     balanced (assoc_bytes (snd r)) (assoc_reserved (snd r))
       (assoc_bytes (snd r')) (assoc_reserved (snd r')) \<and>
     us_max_queued_bytes (fst r') = us_max_queued_bytes (fst r) \<and>
     (us_queued_bytes (fst r) \<le> us_max_queued_bytes (fst r) \<longrightarrow>
        us_queued_bytes (fst r') \<le> us_max_queued_bytes (fst r)) \<and>
     assoc_limit (snd r') = assoc_limit (snd r) \<and>
     (assoc_bytes (snd r) \<le> assoc_limit (snd r) \<longrightarrow> assoc_bytes (snd r') \<le> assoc_limit (snd r))"

lemma QueueBudget_reserve_Some:
  "QueueBudget_reserve n (s, b) = (Some k, s', b') \<Longrightarrow> k = n \<and>
     s' = s\<lparr>us_queued_bytes := us_queued_bytes s + n\<rparr> \<and>
     b' = b\<lparr>qb_association_bytes := qb_association_bytes b + n\<rparr> \<and>
     us_queued_bytes s + n \<le> us_max_queued_bytes s \<and>
     qb_association_bytes b + n \<le> qb_association_limit b"
  by (auto simp: QueueBudget_reserve_def try_reserve_def checked_add_def split: option.splits if_splits)

lemma QueueBudget_reserve_None:
  "QueueBudget_reserve n (s, b) = (None, s', b') \<Longrightarrow> s' = s \<and> b' = b"
  by (auto simp: QueueBudget_reserve_def try_reserve_def checked_add_def split: option.splits if_splits)

lemma QueueBudget_reserve_cases:
  obtains (full) "QueueBudget_reserve n (s, b) = (None, s, b)"
  | (reserved) "QueueBudget_reserve n (s, b) =
      (Some n, s\<lparr>us_queued_bytes := us_queued_bytes s + n\<rparr>,
       b\<lparr>qb_association_bytes := qb_association_bytes b + n\<rparr>)"
    "us_queued_bytes s + n \<le> us_max_queued_bytes s"
    "qb_association_bytes b + n \<le> qb_association_limit b"
  by (cases "QueueBudget_reserve n (s, b)")
     (metis QueueBudget_reserve_None QueueBudget_reserve_Some not_None_eq)

lemmas account_defs = assoc_reserved_def assoc_bytes_def assoc_limit_def balanced_def relay_balanced_def
lemmas drop_defs = drop_reserved_def QueueReservation_drop_def drop_queue_full_def drop_queue_age_def
  record_residence_def reset_idle_def

lemma writer_return_balanced:
  "writer_reserved final = 0 \<Longrightarrow> relay_balanced r (writer_return final r)"
  by (cases r) (auto simp: writer_return_def account_defs drop_defs)

lemma relay_balanced_refl [simp]: "relay_balanced r r"
  by (simp add: account_defs)

lemma relay_balanced_trans: "relay_balanced r r' \<Longrightarrow> relay_balanced r' r'' \<Longrightarrow> relay_balanced r r''"
  by (auto simp: relay_balanced_def balanced_def)

lemma writer_append_balanced:
  assumes "as_writer a = W_Handling n batch rs reply"
  shows "relay_balanced (s, a) (writer_append n batch rs reply len (s, a))"
proof (cases rule: QueueBudget_reserve_cases [of len s "as_budget a"])
  case full
  then show ?thesis using assms by (auto simp: writer_append_def account_defs drop_defs)
next
  case reserved
  show ?thesis
  proof (cases "encode_into (qf_frame reply) batch")
    case (Inr b)
    with reserved assms show ?thesis by (auto simp: writer_append_def account_defs drop_defs)
  next
    case (Inl e)
    let ?r = "(s\<lparr>us_queued_bytes := us_queued_bytes s + len\<rparr>,
      a\<lparr>as_budget := as_budget a\<lparr>qb_association_bytes := qb_association_bytes (as_budget a) + len\<rparr>,
        as_writer := W_Handling n batch (rs @ [len]) reply\<rparr>)"
    have "relay_balanced (s, a) ?r" using reserved(2,3) assms by (auto simp: account_defs)
    from relay_balanced_trans [OF this writer_return_balanced, of "W_Finished (Inl (UE_Frame e))"]
    show ?thesis using Inl reserved(1) by (simp add: writer_append_def)
  qed
qed


text \<open>Statistics that are not part of the accounting do not matter to it.\<close>

lemma relay_balanced_stats:
  "us_queued_bytes s' = us_queued_bytes s \<Longrightarrow> us_max_queued_bytes s' = us_max_queued_bytes s \<Longrightarrow>
     relay_balanced (s', a) r \<Longrightarrow> relay_balanced (s, a) r"
  by (simp add: account_defs)

lemma writer_handle_balanced:
  assumes "as_writer a = W_Handling n batch rs reply"
  shows "relay_balanced (s, a) (writer_handle now n batch rs reply (s, a))"
proof -
  let ?s = "record_residence (now - qf_queued_at reply) s"
  let ?flush = "\<lambda>w. drop_reserved (sum_list rs)
      (?s, a\<lparr>as_output := w, as_writer := W_Handling n [] [] reply\<rparr>)"
  have flush: "relay_balanced (?s, a) (?flush w)" for w
    using assms by (auto simp: account_defs drop_defs)
  have after_flush: "relay_balanced (?flush w) (writer_append n [] [] reply len (?flush w))" for w len
  proof -
    obtain t c where r: "?flush w = (t, c)" by fastforce
    then have "as_writer c = W_Handling n [] [] reply" by (auto simp: drop_defs)
    then show ?thesis unfolding r by (rule writer_append_balanced)
  qed
  have aged: "relay_balanced (?s, a) (drop_reserved (qf_reservation reply)
      (drop_queue_age ?s, a\<lparr>as_writer := W_Between n batch rs\<rparr>))"
    using assms by (auto simp: account_defs drop_defs)
  have "relay_balanced (?s, a) (writer_handle now n batch rs reply (s, a))"
    using aged writer_append_balanced [OF assms] relay_balanced_trans [OF flush after_flush]
    by (auto simp: writer_handle_def Let_def writer_return_balanced split: sum.split)
  then show ?thesis by (rule relay_balanced_stats [rotated 2]) (simp_all add: record_residence_def)
qed

lemma writer_flush_balanced:
  assumes "as_writer a = W_Between n batch rs"
  shows "relay_balanced (s, a) (writer_flush batch rs (s, a))"
proof -
  have "relay_balanced (s, a) (drop_reserved (sum_list rs) (s, a\<lparr>as_output := w, as_writer := W_Waiting\<rparr>))" for w
    using assms by (auto simp: account_defs drop_defs)
  from this [of "as_output a"] this show ?thesis
    by (auto simp: writer_flush_def writer_return_balanced split: sum.split)
qed

lemma writer_take_balanced:
  assumes "as_replies a \<noteq> []" "writer_reserved (as_writer a) = sum_list rs"
  shows "relay_balanced (s, a) (writer_take n batch rs (s, a))"
  using assms by (cases "as_replies a") (auto simp: writer_take_def account_defs)

lemma writer_step_balanced: "relay_balanced (s, a) (writer_step now (s, a))"
  by (cases "as_writer a")
     (auto simp: writer_step_def writer_return_balanced
       intro!: writer_take_balanced writer_flush_balanced writer_handle_balanced)

lemma try_queue_request_balanced:
  assumes "try_queue_request c rx f now (as_requests a) (s, as_budget a) = (outcome, q, s', b)"
  shows "relay_balanced (s, a) (s', a\<lparr>as_input := i, as_requests := q, as_budget := b, as_reader := d\<rparr>)"
  using assms
  by (cases rule: QueueBudget_reserve_cases [of "accounted_frame_bytes f" s "as_budget a"])
     (auto simp: try_queue_request_def account_defs drop_defs request_reserved_def split: if_splits)

lemma reader_step_balanced: "relay_balanced (s, a) (reader_step now (s, a))"
proof (cases "as_reader a")
  case R_Reading
  show ?thesis
  proof (cases "HevUdpFrame_read_from (as_input a)")
    case (Inr p)
    obtain frame i where "p = (frame, i)" by fastforce
    moreover obtain x q s' b where "try_queue_request (fc_queue_capacity (as_config a)) (request_open a)
        frame now (as_requests a) (s, as_budget a) = (x, q, s', b)" by (metis prod_cases4)
    ultimately show ?thesis
      using R_Reading Inr try_queue_request_balanced [of _ _ _ _ a s x q s' b]
      by (simp add: reader_step_def)
  next
    case (Inl e)
    with R_Reading show ?thesis
      by (auto simp: reader_step_def account_defs split: HevFrameError.split io_kind.split)
  qed
qed (auto simp: reader_step_def account_defs request_reserved_def)

lemma writer_abort_balanced: "relay_balanced r (writer_abort r)"
  by (simp add: writer_abort_def writer_return_balanced)

lemma main_break_balanced: "as_main a = M_Selecting \<Longrightarrow> relay_balanced (s, a) (main_break result (s, a))"
proof -
  assume m: "as_main a = M_Selecting"
  let ?r = "(s, a\<lparr>as_reader := R_Done, as_main := M_Joining result\<rparr>)"
  have "relay_balanced (s, a) ?r" using m by (simp add: account_defs)
  with relay_balanced_trans [OF this writer_abort_balanced] show ?thesis
    by (auto simp: main_break_def Let_def split: sum.split)
qed

lemma main_return_balanced: "relay_balanced r (main_return result r)"
proof -
  obtain s a where r: "writer_abort r = (s, a)" by fastforce
  have "relay_balanced (s, a) (main_return result r)"
    by (auto simp: main_return_def r account_defs drop_defs)
  with writer_abort_balanced [of r] show ?thesis by (auto simp: r intro: relay_balanced_trans)
qed

lemma main_request_balanced:
  assumes "as_main a = M_Selecting"
  shows "relay_balanced (s, a) (main_request now now' (s, a))"
proof (cases "as_requests a")
  case Nil
  with assms show ?thesis by (simp add: main_request_def main_break_balanced)
next
  case (Cons x xs)
  show ?thesis
  proof (cases x)
    case (Inl e)
    have "relay_balanced (s, a) (s, a\<lparr>as_requests := xs\<rparr>)"
      using Cons Inl by (simp add: account_defs request_reserved_def)
    moreover have "relay_balanced (s, a\<lparr>as_requests := xs\<rparr>)
        (main_break (Inl (UE_Frame e)) (s, a\<lparr>as_requests := xs\<rparr>))"
      using assms by (intro main_break_balanced) simp
    ultimately show ?thesis using Cons Inl by (auto simp: main_request_def intro: relay_balanced_trans)
  next
    case (Inr q)
    with Cons assms show ?thesis
      by (auto simp: main_request_def Let_def account_defs drop_defs request_reserved_def)
  qed
qed

lemma main_forward_balanced:
  assumes "as_main a = M_Forwarding q"
  shows "relay_balanced (s, a) (main_forward resolved send_error q (s, a))"
proof -
  have "relay_balanced (s, a) (drop_reserved (qf_reservation q) (drop_queue_age s, a\<lparr>as_main := M_Selecting\<rparr>))"
    using assms by (auto simp: account_defs drop_defs)
  moreover have "relay_balanced (s, a) (drop_reserved (qf_reservation q)
      (s\<lparr>us_tx_datagrams := x, us_tx_bytes := y\<rparr>, a\<lparr>as_main := M_Selecting, as_sent := z\<rparr>))" for x y z
    using assms by (auto simp: account_defs drop_defs)
  ultimately show ?thesis
    by (auto simp: main_forward_def main_return_balanced split: option.split sum.split)
qed

lemma main_receive_balanced: "relay_balanced (s, a) (main_receive now received (s, a))"
proof (cases received)
  case (Inl k)
  then show ?thesis by (simp add: main_receive_def main_return_balanced)
next
  case (Inr p)
  obtain source payload where p: "p = (source, payload)" by fastforce
  let ?s = "s\<lparr>us_rx_datagrams := us_rx_datagrams s + 1,
    us_rx_bytes := us_rx_bytes s + word_of_nat (length payload)\<rparr>"
  show ?thesis
    by (cases rule: QueueBudget_reserve_cases [of "saturating_add (length payload) 64" ?s "as_budget a"])
       (simp_all add: main_receive_def Inr p Let_def account_defs drop_defs)
qed

lemma main_join_balanced: "relay_balanced r (main_join d result r)"
  by (simp add: main_join_def main_return_balanced)

lemma relay_step_balanced: "relay_step lookup r r' \<Longrightarrow> relay_balanced r r'"
  by (induction rule: relay_step.induct)
     (simp_all add: reader_step_balanced writer_step_balanced main_request_balanced
       main_forward_balanced main_receive_balanced main_break_balanced main_join_balanced)


section \<open>Queues, batches and the reply stream\<close>

text \<open>A byte string that is a sequence of complete encoded frames.\<close>

definition framed :: "bytes \<Rightarrow> bool" where
  "framed bs \<longleftrightarrow> (\<exists>fs. (\<forall>f \<in> set fs. \<exists>e. HevUdpFrame_encode f = Inr e) \<and>
     bs = concat (map (\<lambda>f. projr (HevUdpFrame_encode f)) fs))"

fun writer_ok :: "WriterState \<Rightarrow> bool" where
  "writer_ok (W_Handling n batch _ _) = (n \<le> 8 \<and> length batch \<le> MAX_WRITE_BATCH_BYTES \<and> framed batch)"
| "writer_ok (W_Between n batch _) = (n \<le> 8 \<and> length batch \<le> MAX_WRITE_BATCH_BYTES \<and> framed batch)"
| "writer_ok _ = True"

definition assoc_shape :: "Association \<Rightarrow> bool" where
  "assoc_shape a \<longleftrightarrow>
     length (as_requests a) \<le> fc_queue_capacity (as_config a) \<and>
     length (as_replies a) \<le> fc_queue_capacity (as_config a) \<and>
     (writer_finished a \<longrightarrow> as_replies a = []) \<and>
     (\<forall>result. as_main a = M_Returned result \<longrightarrow>
        writer_finished a \<and> as_requests a = [] \<and> as_reader a = R_Done) \<and>
     writer_ok (as_writer a) \<and> framed (written (as_output a))"

lemma framed_Nil [simp]: "framed []"
  unfolding framed_def by (rule exI [of _ "[]"]) simp

lemma framed_append: "framed a \<Longrightarrow> framed b \<Longrightarrow> framed (a @ b)"
proof -
  assume "framed a" "framed b"
  then obtain fs gs where
    "\<forall>f \<in> set fs. \<exists>e. HevUdpFrame_encode f = Inr e" "a = concat (map (\<lambda>f. projr (HevUdpFrame_encode f)) fs)"
    "\<forall>f \<in> set gs. \<exists>e. HevUdpFrame_encode f = Inr e" "b = concat (map (\<lambda>f. projr (HevUdpFrame_encode f)) gs)"
    unfolding framed_def by blast
  then show ?thesis unfolding framed_def by (intro exI [of _ "fs @ gs"]) auto
qed

lemma framed_encode: "HevUdpFrame_encode f = Inr bs \<Longrightarrow> framed bs"
  unfolding framed_def by (rule exI [of _ "[f]"]) simp

lemma framed_encode_into: "framed batch \<Longrightarrow> encode_into f batch = Inr bs \<Longrightarrow> framed bs"
  by (auto simp: encode_into_append intro: framed_append framed_encode split: sum.splits)

lemma encoded_len_bound: "encoded_len f = Inr len \<Longrightarrow> len \<le> MAX_WRITE_BATCH_BYTES"
  by (auto simp: encoded_len_def MAX_WRITE_BATCH_BYTES_def Let_def split: sum.splits if_splits)

lemma encode_into_length:
  "encoded_len f = Inr len \<Longrightarrow> encode_into f batch = Inr bs \<Longrightarrow> length bs = length batch + len"
  using encoded_len_correct [of f batch bs]
  by (auto simp: encode_into_def Let_def split: sum.splits if_splits)

lemma drop_reserved_pair:
  "drop_reserved n (s, a) = (s\<lparr>us_queued_bytes := us_queued_bytes s - n\<rparr>,
     a\<lparr>as_budget := (as_budget a)\<lparr>qb_association_bytes := qb_association_bytes (as_budget a) - n\<rparr>\<rparr>)"
  by (simp add: drop_reserved_def QueueReservation_drop_def)

lemmas shape_defs = assoc_shape_def writer_finished_def

lemma assoc_shape_budget [simp]: "assoc_shape (a\<lparr>as_budget := b\<rparr>) = assoc_shape a"
  by (simp add: shape_defs)

lemma writer_return_shape:
  "assoc_shape a \<Longrightarrow> final \<in> {W_Cancelled, W_Finished x} \<Longrightarrow> assoc_shape (snd (writer_return final (s, a)))"
  by (auto simp: writer_return_def drop_reserved_pair shape_defs)

lemma writer_append_shape:
  assumes "assoc_shape a" "as_writer a = W_Handling n batch rs reply"
    "encoded_len (qf_frame reply) = Inr len" "length batch + len \<le> MAX_WRITE_BATCH_BYTES"
  shows "assoc_shape (snd (writer_append n batch rs reply len (s, a)))"
proof (cases rule: QueueBudget_reserve_cases [of len s "as_budget a"])
  case full
  then show ?thesis using assms by (simp add: writer_append_def drop_reserved_pair shape_defs)
next
  case reserved
  show ?thesis
  proof (cases "encode_into (qf_frame reply) batch")
    case (Inr b)
    with assms have "framed b" "length b \<le> MAX_WRITE_BATCH_BYTES"
      using framed_encode_into [of batch "qf_frame reply" b] encode_into_length [of "qf_frame reply" len batch b]
      by (simp_all add: shape_defs)
    with assms reserved Inr show ?thesis by (simp add: writer_append_def drop_reserved_pair shape_defs)
  next
    case (Inl e)
    with assms reserved show ?thesis
      by (simp add: writer_append_def) (rule writer_return_shape, auto simp: shape_defs)
  qed
qed


lemma writer_handle_shape:
  assumes "assoc_shape a" "as_writer a = W_Handling n batch rs reply"
  shows "assoc_shape (snd (writer_handle now n batch rs reply (s, a)))"
proof -
  have aged: "assoc_shape (a\<lparr>as_writer := W_Between n batch rs\<rparr>)"
    using assms by (simp add: shape_defs)
  have flushed: "assoc_shape (a\<lparr>as_output := w, as_writer := W_Handling n [] [] reply\<rparr>)"
    if "write_all batch (as_output a) = Inr w" for w
    using that assms by (auto simp: shape_defs write_all_def framed_append split: option.splits)
  have room: "length batch + len \<le> MAX_WRITE_BATCH_BYTES"
    if "encoded_len (qf_frame reply) = Inr len"
      "batch = [] \<or> saturating_add (length batch) len \<le> MAX_WRITE_BATCH_BYTES" for len
    using that encoded_len_bound [OF that(1)]
    by (auto simp: saturating_add_def MAX_WRITE_BATCH_BYTES_def MAX_UDP_PAYLOAD_def usize_max_def)
  show ?thesis
    using assms(1) aged flushed room writer_append_shape [OF assms] encoded_len_bound
    by (auto simp: writer_handle_def Let_def drop_reserved_pair not_less
        intro!: writer_return_shape writer_append_shape split: sum.split)
qed

lemma writer_flush_shape:
  assumes "assoc_shape a" "as_writer a = W_Between n batch rs"
  shows "assoc_shape (snd (writer_flush batch rs (s, a)))"
proof -
  have "assoc_shape (a\<lparr>as_writer := W_Waiting\<rparr>)" using assms by (simp add: shape_defs)
  moreover have "assoc_shape (a\<lparr>as_output := w, as_writer := W_Waiting\<rparr>)"
    if "write_all batch (as_output a) = Inr w" for w
    using that assms by (auto simp: shape_defs write_all_def framed_append split: option.splits)
  ultimately show ?thesis using assms(1)
    by (auto simp: writer_flush_def drop_reserved_pair intro!: writer_return_shape split: sum.split)
qed

lemma writer_step_shape:
  assumes "assoc_shape a"
  shows "assoc_shape (snd (writer_step now (s, a)))"
proof (cases "as_writer a")
  case W_Waiting
  with assms show ?thesis
    by (auto simp: writer_step_def writer_take_def intro!: writer_return_shape) (auto simp: shape_defs)
next
  case (W_Between n batch rs)
  with assms have "n < 8 \<Longrightarrow> as_replies a \<noteq> [] \<Longrightarrow> assoc_shape (snd (writer_take (n + 1) batch rs (s, a)))"
    by (auto simp: shape_defs writer_take_def)
  with assms W_Between show ?thesis by (auto simp: writer_step_def intro: writer_flush_shape)
qed (use assms writer_handle_shape in \<open>auto simp: writer_step_def\<close>)

lemma try_queue_request_length:
  "try_queue_request c rx f now q sb = (outcome, q', sb') \<Longrightarrow> length q \<le> c \<Longrightarrow> length q' \<le> c"
  by (auto simp: try_queue_request_def Let_def split: prod.splits option.splits if_splits)

lemma try_queue_request_closed:
  "try_queue_request c False f now q sb = (outcome, q', sb') \<Longrightarrow> q' = q"
  by (auto simp: try_queue_request_def Let_def split: prod.splits option.splits if_splits)

lemma reader_step_shape:
  assumes "assoc_shape a"
  shows "assoc_shape (snd (reader_step now (s, a)))"
proof (cases "as_reader a")
  case R_Reading
  with assms have main: "\<forall>result. as_main a \<noteq> M_Returned result" by (auto simp: shape_defs)
  show ?thesis
  proof (cases "HevUdpFrame_read_from (as_input a)")
    case (Inr p)
    then show ?thesis using R_Reading assms main
      by (auto simp: reader_step_def shape_defs try_queue_request_length split: prod.splits)
  next
    case (Inl e)
    with R_Reading assms main show ?thesis
      by (auto simp: reader_step_def shape_defs split: HevFrameError.split io_kind.split)
  qed
qed (use assms in \<open>auto simp: reader_step_def shape_defs\<close>)


lemma writer_abort_shape:
  assumes "assoc_shape a"
  shows "assoc_shape (snd (writer_abort (s, a)))" "writer_finished (snd (writer_abort (s, a)))"
proof -
  show "assoc_shape (snd (writer_abort (s, a)))"
    using assms writer_return_shape [of a W_Cancelled] by (simp add: writer_abort_def)
  show "writer_finished (snd (writer_abort (s, a)))"
    by (auto simp: writer_abort_def writer_return_def drop_reserved_pair writer_finished_def)
qed

lemma main_return_shape: "assoc_shape a \<Longrightarrow> assoc_shape (snd (main_return result (s, a)))"
proof -
  assume "assoc_shape a"
  moreover obtain s' a' where "writer_abort (s, a) = (s', a')" by fastforce
  ultimately have "assoc_shape a'" "writer_finished a'" "main_return result (s, a) =
      (let (s, a) = drop_reserved (main_reserved (as_main a') + sum_list (map request_reserved (as_requests a'))) (s', a')
      in (s\<lparr>us_active_flows := us_active_flows s - 1\<rparr>,
          a\<lparr>as_reader := R_Done, as_requests := [], as_main := M_Returned result\<rparr>))"
    using writer_abort_shape [of a s] by (simp_all add: main_return_def)
  then show ?thesis by (simp add: drop_reserved_pair shape_defs)
qed

lemma main_break_shape: "assoc_shape a \<Longrightarrow> assoc_shape (snd (main_break result (s, a)))"
proof -
  assume "assoc_shape a"
  then have "assoc_shape (a\<lparr>as_reader := R_Done, as_main := M_Joining result\<rparr>)"
    by (simp add: shape_defs)
  then show ?thesis by (auto simp: main_break_def Let_def writer_abort_shape split: sum.split)
qed

lemma main_request_shape:
  assumes "assoc_shape a" "as_main a = M_Selecting"
  shows "assoc_shape (snd (main_request now now' (s, a)))"
proof (cases "as_requests a")
  case Nil
  with assms show ?thesis by (simp add: main_request_def main_break_shape)
next
  case (Cons x xs)
  with assms have "assoc_shape (a\<lparr>as_requests := xs\<rparr>)" "\<And>q. assoc_shape (a\<lparr>as_requests := xs, as_idle_at := t, as_main := M_Forwarding q\<rparr>)"
    "assoc_shape (a\<lparr>as_requests := xs, as_idle_at := t\<rparr>)" for t
    by (simp_all add: shape_defs)
  with Cons show ?thesis
    by (auto simp: main_request_def Let_def drop_reserved_pair reset_idle_def main_break_shape split: sum.split)
qed

lemma main_forward_shape:
  assumes "assoc_shape a"
  shows "assoc_shape (snd (main_forward resolved send_error q (s, a)))"
proof -
  have "assoc_shape (a\<lparr>as_main := M_Selecting\<rparr>)" "assoc_shape (a\<lparr>as_main := M_Selecting, as_sent := z\<rparr>)" for z
    using assms by (simp_all add: shape_defs)
  then show ?thesis using assms
    by (auto simp: main_forward_def drop_reserved_pair main_return_shape split: option.split sum.split)
qed

lemma main_receive_shape:
  assumes "assoc_shape a" "as_main a = M_Selecting"
  shows "assoc_shape (snd (main_receive now received (s, a)))"
proof (cases received)
  case (Inl k)
  with assms show ?thesis by (simp add: main_receive_def main_return_shape)
next
  case (Inr p)
  have "assoc_shape (a\<lparr>as_idle_at := t\<rparr>)" for t using assms by (simp add: shape_defs)
  moreover have "assoc_shape (a\<lparr>as_idle_at := t, as_budget := b, as_replies := as_replies a @ [q]\<rparr>)"
    if "\<not> writer_finished a" "length (as_replies a) < fc_queue_capacity (as_config a)" for t b q
    using that assms by (auto simp: shape_defs)
  moreover have "writer_finished (a\<lparr>as_idle_at := t\<rparr>) = writer_finished a" for t
    by (simp add: writer_finished_def)
  ultimately show ?thesis using Inr
    by (auto simp: main_receive_def Let_def reset_idle_def QueueReservation_drop_def split: prod.split option.split)
qed

lemma relay_step_shape: "relay_step lookup r r' \<Longrightarrow> assoc_shape (snd r) \<Longrightarrow> assoc_shape (snd r')"
  by (induction rule: relay_step.induct)
     (simp_all add: reader_step_shape writer_step_shape main_request_shape main_forward_shape
       main_receive_shape main_break_shape main_join_def main_return_shape)

definition assoc_inv :: "Association \<Rightarrow> bool" where
  "assoc_inv a \<longleftrightarrow> assoc_shape a \<and> assoc_bytes a = assoc_reserved a \<and> assoc_bytes a \<le> assoc_limit a"

lemma relay_step_inv:
  assumes "assoc_inv a" "relay_step lookup (s, a) (s', a')"
  shows "assoc_inv a'"
  using assms(1) relay_step_shape [OF assms(2)] relay_step_balanced [OF assms(2)]
  by (simp add: assoc_inv_def relay_balanced_def balanced_def)

lemma relay_spawn_start:
  "relay_spawn s (s', a) \<Longrightarrow> assoc_inv a \<and> s' = s\<lparr>us_active_flows := us_active_flows s + 1\<rparr> \<and>
     assoc_reserved a = 0 \<and> as_main a = M_Selecting"
  by (auto simp: relay_spawn_def relay_start_def assoc_inv_def account_defs shape_defs)

text \<open>The number of associations that have not returned.\<close>

definition flow_held :: "Association \<Rightarrow> nat" where
  "flow_held a = (case as_main a of M_Returned _ \<Rightarrow> 0 | _ \<Rightarrow> 1)"

interpretation relays: member_invariant no_env relay_spawn "relay_step lookup" assoc_inv
  by unfold_locales (auto dest: relay_spawn_start relay_step_inv)

interpretation queued: limited_gauge no_env relay_spawn "relay_step lookup" "\<lambda>_. True" us_queued_bytes assoc_reserved
  us_max_queued_bytes
proof unfold_locales
  show "True \<and> us_queued_bytes s' + assoc_reserved a = us_queued_bytes s + assoc_reserved a'"
    if "relay_step lookup (s, a) (s', a')" "assoc_reserved a \<le> us_queued_bytes s" for s a s' a'
    using relay_step_balanced [OF that(1)] that(2) by (simp add: relay_balanced_def balanced_def)
  show "us_max_queued_bytes s' = us_max_queued_bytes s \<and>
      (us_queued_bytes s \<le> us_max_queued_bytes s \<longrightarrow> us_queued_bytes s' \<le> us_max_queued_bytes s')"
    if "relay_step lookup (s, a) (s', a')" for s a s' a'
    using relay_step_balanced [OF that] by (simp add: relay_balanced_def)
qed (auto simp: no_env_def dest: relay_spawn_start)


section \<open>Flows\<close>

text \<open>Only the return of the association changes the flow counter, and only the main task changes
  its own state.\<close>

definition flow_kept :: "relay \<Rightarrow> relay \<Rightarrow> bool" where
  "flow_kept r r' \<longleftrightarrow> us_active_flows (fst r') = us_active_flows (fst r) \<and>
     flow_held (snd r') = flow_held (snd r)"

lemma QueueBudget_reserve_flows:
  "QueueBudget_reserve n (s, b) = (x, s', b') \<Longrightarrow> us_active_flows s' = us_active_flows s"
  using QueueBudget_reserve_None [of n s b s' b'] QueueBudget_reserve_Some [of n s b _ s' b']
  by (cases x) auto

lemma writer_return_flow: "flow_kept r (writer_return final r)"
  by (cases r) (simp add: writer_return_def drop_reserved_pair flow_kept_def flow_held_def)

lemma writer_append_flow: "flow_kept (s, a) (writer_append n batch rs reply len (s, a))"
proof (cases rule: QueueBudget_reserve_cases [of len s "as_budget a"])
  case full
  then show ?thesis by (simp add: writer_append_def drop_reserved_pair drop_queue_full_def flow_kept_def flow_held_def)
next
  case reserved
  then show ?thesis
    by (cases "encode_into (qf_frame reply) batch")
       (simp_all add: writer_append_def writer_return_def drop_reserved_pair flow_kept_def flow_held_def)
qed

lemma flow_kept_trans: "flow_kept r r' \<Longrightarrow> flow_kept r' r'' \<Longrightarrow> flow_kept r r''"
  by (simp add: flow_kept_def)

lemma writer_handle_flow: "flow_kept (s, a) (writer_handle now n batch rs reply (s, a))"
proof -
  let ?s = "record_residence (now - qf_queued_at reply) s"
  have 1: "flow_kept (s, a) (drop_reserved m (?s, a\<lparr>as_output := w, as_writer := x\<rparr>))"
    "flow_kept (s, a) (drop_reserved m (drop_queue_age ?s, a\<lparr>as_writer := x\<rparr>))"
    "flow_kept (s, a) (?s, a)" for m w x
    by (simp_all add: drop_reserved_pair drop_defs flow_kept_def flow_held_def)
  have 2: "flow_kept (s, a) (writer_append n [] [] reply len (drop_reserved m (?s, a\<lparr>as_output := w, as_writer := x\<rparr>)))"
    for len m w x
    by (rule flow_kept_trans [OF 1(1) [where m = m and w = w and x = x]])
       (simp add: drop_reserved_pair writer_append_flow)
  show ?thesis
    using 1 2 flow_kept_trans [OF 1(3) writer_append_flow] flow_kept_trans [OF 1(3) writer_return_flow]
    by (auto simp: writer_handle_def Let_def split: sum.split)
qed

lemma writer_step_flow: "flow_kept (s, a) (writer_step now (s, a))"
proof -
  have "flow_kept (s, a) (writer_flush batch rs (s, a))" for batch rs
    by (auto simp: writer_flush_def drop_reserved_pair flow_kept_def flow_held_def writer_return_def
        split: sum.split)
  moreover have "flow_kept (s, a) (writer_take n batch rs (s, a))" "flow_kept (s, a) (s, a)" for n batch rs
    by (simp_all add: writer_take_def flow_kept_def flow_held_def)
  ultimately show ?thesis
    by (auto simp: writer_step_def writer_handle_flow writer_return_flow split: WriterState.split)
qed

lemma reader_step_flow: "flow_kept (s, a) (reader_step now (s, a))"
proof -
  have "us_active_flows s' = us_active_flows s"
    if "try_queue_request c rx f now q (s, b) = (x, q', s', b')" for c rx f q b x q' s' b'
    using that by (auto simp: try_queue_request_def drop_queue_full_def QueueReservation_drop_def
        dest: QueueBudget_reserve_flows split: prod.splits option.splits if_splits)
  then show ?thesis
    by (auto simp: reader_step_def flow_kept_def flow_held_def
        split: ReaderState.split sum.split prod.split HevFrameError.split io_kind.split)
qed

lemma main_return_flow:
  "us_active_flows (fst (main_return result r)) = us_active_flows (fst r) - 1 \<and>
   flow_held (snd (main_return result r)) = 0"
proof -
  obtain s a where r: "writer_abort r = (s, a)" by fastforce
  have "flow_kept r (s, a)"
    using writer_return_flow [of r W_Cancelled] by (auto simp: writer_abort_def flow_kept_def simp flip: r)
  then show ?thesis
    by (simp add: main_return_def r drop_reserved_pair flow_kept_def flow_held_def)
qed

lemma main_break_flow:
  "as_main a = M_Selecting \<Longrightarrow> flow_kept (s, a) (main_break result (s, a))"
  using writer_return_flow [of "(s, a\<lparr>as_reader := R_Done, as_main := M_Joining result\<rparr>)" W_Cancelled]
  by (cases result) (auto simp: main_break_def writer_abort_def flow_kept_def flow_held_def Let_def)

lemma main_request_flow:
  assumes "as_main a = M_Selecting"
  shows "flow_kept (s, a) (main_request now now' (s, a))"
proof (cases "as_requests a")
  case Nil
  have "flow_kept (s, a) (s, a)" by (simp add: flow_kept_def)
  with Nil assms show ?thesis by (simp add: main_request_def main_break_flow)
next
  case (Cons x xs)
  have "flow_kept (s, a) (main_break y (s, a\<lparr>as_requests := xs\<rparr>))" for y
    by (rule flow_kept_trans [of _ "(s, a\<lparr>as_requests := xs\<rparr>)"])
       (use assms main_break_flow [of "a\<lparr>as_requests := xs\<rparr>"] in \<open>auto simp: flow_kept_def flow_held_def\<close>)
  with Cons assms show ?thesis
    by (auto simp: main_request_def Let_def drop_reserved_pair drop_defs flow_kept_def flow_held_def
        split: sum.split)
qed

text \<open>A step either keeps the flow or returns an association that had one.\<close>

definition flow_step :: "relay \<Rightarrow> relay \<Rightarrow> bool" where
  "flow_step r r' \<longleftrightarrow> flow_kept r r' \<or>
     flow_held (snd r) = 1 \<and> us_active_flows (fst r') = us_active_flows (fst r) - 1 \<and>
     flow_held (snd r') = 0"

lemma main_return_flow_step:
  "flow_held (snd r) = 1 \<Longrightarrow> flow_step r (main_return result r)"
  using main_return_flow [of result r] by (simp add: flow_step_def)

lemma main_forward_flow:
  assumes "as_main a = M_Forwarding q"
  shows "flow_step (s, a) (main_forward resolved send_error q (s, a))"
proof -
  have h: "flow_held a = 1" using assms by (simp add: flow_held_def)
  have "flow_kept (s, a) (drop_reserved n (drop_queue_age s, a\<lparr>as_main := M_Selecting\<rparr>))"
    "flow_kept (s, a) (drop_reserved n (s\<lparr>us_tx_datagrams := x, us_tx_bytes := y\<rparr>,
       a\<lparr>as_main := M_Selecting, as_sent := z\<rparr>))" for n x y z
    using assms by (simp_all add: drop_reserved_pair drop_queue_age_def flow_kept_def flow_held_def)
  then show ?thesis using main_return_flow_step [of "(s, a)"] h
    by (auto simp: main_forward_def flow_step_def split: option.split sum.split)
qed

lemma main_receive_flow:
  assumes "as_main a = M_Selecting"
  shows "flow_step (s, a) (main_receive now received (s, a))"
proof (cases received)
  case (Inl k)
  with assms main_return_flow_step [of "(s, a)"] show ?thesis
    by (simp add: main_receive_def flow_held_def)
next
  case (Inr p)
  obtain source payload where p: "p = (source, payload)" by fastforce
  let ?s = "s\<lparr>us_rx_datagrams := us_rx_datagrams s + 1,
    us_rx_bytes := us_rx_bytes s + word_of_nat (length payload)\<rparr>"
  have "flow_kept (s, a) (main_receive now received (s, a))"
    by (cases rule: QueueBudget_reserve_cases [of "saturating_add (length payload) 64" ?s "as_budget a"])
       (simp_all add: main_receive_def Inr p Let_def flow_kept_def flow_held_def drop_defs)
  then show ?thesis by (simp add: flow_step_def)
qed

lemma main_join_flow:
  assumes "as_main a = M_Joining result"
  shows "flow_step (s, a) (main_join d result (s, a))"
  using main_return_flow_step [of "(s, a)"] assms
  by (auto simp: main_join_def flow_held_def flow_step_def flow_kept_def)

lemma relay_step_flow: "relay_step lookup r r' \<Longrightarrow> flow_step r r'"
proof (induction rule: relay_step.induct)
  case (rs_forward a q resolved s send_error)
  then show ?case by (simp add: main_forward_flow)
next
  case (rs_receive a received s now)
  then show ?case by (simp add: main_receive_flow)
next
  case (rs_join a result s deadline_passed)
  then show ?case by (simp add: main_join_flow)
qed (simp_all add: flow_step_def reader_step_flow writer_step_flow main_request_flow main_break_flow)

interpretation flows: shared_gauge no_env relay_spawn "relay_step lookup" "\<lambda>_. True" us_active_flows flow_held
proof unfold_locales
  show "True \<and> us_active_flows s' = us_active_flows s" if "no_env s s'" for s s' :: UdpStats
    using that by (simp add: no_env_def)
  show "True \<and> us_active_flows s' = us_active_flows s + flow_held a" if "relay_spawn s (s', a)" for s s' a
    using relay_spawn_start [OF that] by (simp add: flow_held_def)
  show "True \<and> us_active_flows s' + flow_held a = us_active_flows s + flow_held a'"
    if "relay_step lookup (s, a) (s', a')" "flow_held a \<le> us_active_flows s" for s a s' a'
    using relay_step_flow [OF that(1)] that(2) by (auto simp: flow_step_def flow_kept_def)
qed

section \<open>Shutdown\<close>

fun writer_work :: "WriterState \<Rightarrow> nat" where
  "writer_work W_Waiting = 1"
| "writer_work (W_Between _ _ _) = 2"
| "writer_work (W_Handling _ _ _ _) = 3"
| "writer_work _ = 0"

text \<open>The steps the writer still needs once no reply can be added.\<close>

definition shutdown_work :: "Association \<Rightarrow> nat" where
  "shutdown_work a = (if writer_finished a then 0 else writer_work (as_writer a) + 3 * length (as_replies a))"

definition writer_run :: "instant \<Rightarrow> nat \<Rightarrow> relay \<Rightarrow> relay" where
  "writer_run now n r = (writer_step now ^^ n) r"

lemma writer_return_projs [simp]:
  "as_main (snd (writer_return final r)) = as_main (snd r)"
  "as_writer (snd (writer_return final r)) = final"
  by (cases r; simp add: writer_return_def drop_reserved_pair)+

text \<open>Handling a reply ends between two replies, with the queue untouched, or ends the writer.\<close>

definition writer_progress :: "nat \<Rightarrow> Association \<Rightarrow> relay \<Rightarrow> bool" where
  "writer_progress n a r \<longleftrightarrow> as_main (snd r) = as_main a \<and>
     (writer_finished (snd r) \<or>
      (\<exists>batch rs. as_writer (snd r) = W_Between n batch rs) \<and> as_replies (snd r) = as_replies a)"

lemma writer_return_progress:
  "as_main a = as_main a' \<Longrightarrow> writer_progress n a' (writer_return (W_Finished x) (s, a))"
  by (simp add: writer_progress_def writer_finished_def)

lemma writer_append_progress:
  assumes "as_main a = as_main a'" "as_replies a = as_replies a'"
  shows "writer_progress n a' (writer_append n batch rs reply len (s, a))"
  by (cases rule: QueueBudget_reserve_cases [of len s "as_budget a"];
      cases "encode_into (qf_frame reply) batch")
     (use assms in \<open>simp_all add: writer_append_def drop_reserved_pair writer_progress_def writer_finished_def\<close>)

lemma writer_handle_progress: "writer_progress n a (writer_handle now n batch rs reply (s, a))"
proof -
  have "writer_progress n a (drop_reserved m (t, a\<lparr>as_writer := W_Between n batch rs\<rparr>))" for m t
    by (simp add: drop_reserved_pair writer_progress_def)
  then show ?thesis
    by (auto simp: writer_handle_def Let_def writer_append_progress writer_return_progress
        drop_reserved_pair [of "sum_list rs"] split: sum.split)
qed

lemma writer_step_work:
  assumes "\<not> reply_open a" "\<not> writer_finished a"
  shows "shutdown_work (snd (writer_step now (s, a))) < shutdown_work a \<and>
    as_main (snd (writer_step now (s, a))) = as_main a"
proof (cases "as_writer a")
  case W_Waiting
  with assms show ?thesis
    by (cases "as_replies a")
       (simp_all add: writer_step_def writer_take_def shutdown_work_def writer_finished_def)
next
  case (W_Handling n batch rs reply)
  with assms writer_handle_progress [of n a now batch rs reply s] show ?thesis
    by (auto simp: writer_step_def shutdown_work_def writer_progress_def)
next
  case (W_Between n batch rs)
  with assms show ?thesis
    by (cases "as_replies a")
       (auto simp: writer_step_def writer_take_def writer_flush_def shutdown_work_def
         writer_finished_def drop_reserved_pair split: sum.split)
qed (use assms in \<open>simp_all add: writer_finished_def\<close>)

lemma writer_run_finishes:
  assumes "\<not> reply_open a" "shutdown_work a \<le> n"
  shows "writer_finished (snd (writer_run now n (s, a))) \<and>
    as_main (snd (writer_run now n (s, a))) = as_main a"
  using assms
proof (induction n arbitrary: s a)
  case 0
  then show ?case
    by (cases "as_writer a") (auto simp: writer_run_def shutdown_work_def writer_finished_def split: if_splits)
next
  case (Suc n)
  obtain s' a' where r: "writer_step now (s, a) = (s', a')" by fastforce
  have "as_main a' = as_main a \<and> shutdown_work a' \<le> n"
  proof (cases "writer_finished a")
    case True
    then have "(s', a') = (s, a)"
      using r by (auto simp: writer_step_def writer_finished_def split: WriterState.splits)
    then show ?thesis using True by (simp add: shutdown_work_def)
  next
    case False
    with writer_step_work [OF Suc.prems(1) False, of now s] Suc.prems(2) r show ?thesis by simp
  qed
  moreover from this Suc.prems(1) have "\<not> reply_open a'" by (simp add: reply_open_def)
  moreover have "writer_run now (Suc n) (s, a) = writer_run now n (s', a')"
    by (simp only: writer_run_def funpow_Suc_right comp_apply r)
  ultimately show ?case using Suc.IH [of a' s'] by simp
qed


section \<open>A concrete association\<close>

text \<open>One association of a host with a budget of 1000 bytes, just started, after a three-byte datagram
  arrived from the network, and after it went idle and was joined.\<close>

definition demo_start :: relay where
  "demo_start = relay_start FwdUdpConfig_default \<lparr>pending = [], closing = UnexpectedEof\<rparr>
     \<lparr>written = [], broken = None\<rparr> 0 (UdpStatsInner_new 1000)"

definition demo_received :: relay where
  "demo_received = main_receive 5 (Inr (V4 [127, 0, 0, 1] 53, [1, 2, 3])) demo_start"

definition demo_returned :: relay where
  "demo_returned = main_join True (Inr ()) (main_break (Inr ()) demo_received)"

lemmas demo_simps = demo_start_def relay_start_def UdpStatsInner_new_def FwdUdpConfig_default_def
  DEFAULT_ASSOCIATION_BYTE_BUDGET_def

lemma demo_received_value:
  "demo_received = (let (s, a) = demo_start in
     (s\<lparr>us_rx_datagrams := 1, us_rx_bytes := 3, us_queued_bytes := 67\<rparr>,
      a\<lparr>as_idle_at := 5 + 130 * 1000000000,
        as_budget := \<lparr>qb_association_bytes = 67, qb_association_limit = 256 * 1024\<rparr>,
        as_replies := [\<lparr>qf_frame = \<lparr>hev_endpoint = Socket (V4 [127, 0, 0, 1] 53), hev_payload = [1, 2, 3]\<rparr>,
          qf_queued_at = 5, qf_reservation = 67\<rparr>]\<rparr>))"
  by (simp add: demo_received_def main_receive_def demo_simps Let_def reset_idle_def writer_finished_def
      QueueBudget_reserve_def try_reserve_def checked_add_def saturating_add_def usize_max_def)

lemma pool_step_single:
  "relay_step lookup r r' \<Longrightarrow> pool_step no_env relay_spawn (relay_step lookup) (fst r, [snd r]) (fst r', [snd r'])"
  using pool_move [of 0 "[snd r]" "relay_step lookup" "fst r" "fst r'" "snd r'" no_env relay_spawn] by simp

lemma demo_reachable:
  "pool_reachable no_env relay_spawn (relay_step lookup) (UdpStatsInner_new 1000) (fst demo_received, [snd demo_received])"
  "pool_reachable no_env relay_spawn (relay_step lookup) (UdpStatsInner_new 1000) (fst demo_returned, [snd demo_returned])"
proof -
  have spawn: "relay_spawn (UdpStatsInner_new 1000) (fst demo_start, snd demo_start)"
    unfolding relay_spawn_def demo_start_def prod.collapse
    by (intro exI [of _ FwdUdpConfig_default] exI [of _ "\<lparr>pending = [], closing = UnexpectedEof\<rparr>"]
        exI [of _ "\<lparr>written = [], broken = None\<rparr>"] exI [of _ 0]) simp
  have started: "pool_reachable no_env relay_spawn (relay_step lookup) (UdpStatsInner_new 1000)
      (fst demo_start, [snd demo_start])"
    using pool_next [OF pool_init pool_spawn [of relay_spawn, OF spawn, where env = no_env and as = "[]"]] by simp
  have "relay_step lookup demo_start demo_received"
    unfolding demo_received_def
    using rs_receive [of "snd demo_start" "Inr (V4 [127, 0, 0, 1] 53, [1, 2, 3])" lookup "fst demo_start" 5]
    by (simp add: demo_simps MAX_UDP_PAYLOAD_def)
  from pool_next [OF started pool_step_single [OF this]]
  show r: "pool_reachable no_env relay_spawn (relay_step lookup) (UdpStatsInner_new 1000) (fst demo_received, [snd demo_received])" .
  let ?b = "main_break (Inr ()) demo_received"
  have "relay_step lookup demo_received ?b"
    using rs_idle [of "snd demo_received" "5 + 130 * 1000000000" lookup "fst demo_received"]
    by (simp add: demo_received_value demo_simps)
  moreover have "relay_step lookup ?b demo_returned"
    unfolding demo_returned_def
    using rs_join [of "snd ?b" "Inr ()" lookup "fst ?b" True]
    by (simp add: main_break_def Let_def split: prod.split)
  ultimately show "pool_reachable no_env relay_spawn (relay_step lookup) (UdpStatsInner_new 1000) (fst demo_returned, [snd demo_returned])"
    using pool_next [OF pool_next [OF r pool_step_single] pool_step_single] by blast
qed

section \<open>Properties\<close>

text \<open>C7. Whatever the interleaving of any number of associations, the bytes an association has
  reserved are exactly what its queues, its write batch and the request in hand hold and stay
  within its budget; the global counter is the sum over all associations and stays within the
  global budget; and the flow counter is the number of associations that have not returned.\<close>

theorem udp_budget_invariant:
  assumes "pool_reachable no_env relay_spawn (relay_step lookup) (UdpStatsInner_new limit) (s, as)"
  shows "(\<forall>a \<in> set as. assoc_bytes a = assoc_reserved a \<and> assoc_bytes a \<le> assoc_limit a) \<and>
    us_queued_bytes s = sum_list (map assoc_bytes as) \<and> us_queued_bytes s \<le> limit \<and>
    us_active_flows s = length (filter (\<lambda>a. \<forall>result. as_main a \<noteq> M_Returned result) as)"
proof -
  have members: "\<forall>a \<in> set as. assoc_inv a"
    using relays.pool_inv [OF assms] by (simp add: list_all_iff)
  then have "sum_list (map assoc_reserved as) = sum_list (map assoc_bytes as)"
    by (intro arg_cong [where f = sum_list]) (auto simp: assoc_inv_def)
  moreover have "us_queued_bytes s = sum_list (map assoc_reserved as)" "us_queued_bytes s \<le> limit"
    using queued.pool_gauge [OF assms] queued.pool_limit [OF assms] by (simp_all add: UdpStatsInner_new_def)
  moreover have "us_active_flows s = sum_list (map flow_held as)"
    using flows.pool_gauge [OF assms] by (simp add: UdpStatsInner_new_def)
  moreover have "sum_list (map flow_held as) =
      length (filter (\<lambda>a. \<forall>result. as_main a \<noteq> M_Returned result) as)"
    by (induction as) (auto simp: flow_held_def split: MainState.split)
  ultimately show ?thesis using members by (auto simp: assoc_inv_def)
qed

theorem udp_budget_invariant_witness:
  "us_queued_bytes (fst demo_received) = 67 \<and> assoc_reserved (snd demo_received) = 67 \<and>
   us_active_flows (fst demo_received) = 1"
  using udp_budget_invariant [OF demo_reachable(1) [of "\<lambda>_ _. Inr []"]]
  by (simp add: demo_received_value demo_simps assoc_bytes_def)

text \<open>Once every association has returned, by whichever path (idle, end of stream, malformed
  frame, failed resolution or socket, failed writer, shutdown deadline), nothing is accounted
  for any more: both counters and the flow counter are back at zero.\<close>

theorem udp_budget_returned:
  assumes "pool_reachable no_env relay_spawn (relay_step lookup) (UdpStatsInner_new limit) (s, as)"
    and "\<forall>a \<in> set as. \<exists>result. as_main a = M_Returned result"
  shows "us_queued_bytes s = 0 \<and> us_active_flows s = 0 \<and> (\<forall>a \<in> set as. assoc_bytes a = 0)"
proof -
  have members: "\<forall>a \<in> set as. assoc_inv a"
    using relays.pool_inv [OF assms(1)] by (simp add: list_all_iff)
  have none: "assoc_reserved a = 0" if "a \<in> set as" for a
    using members assms(2) that
    by (cases "as_writer a") (auto simp: assoc_inv_def assoc_reserved_def shape_defs)
  have "\<forall>a \<in> set as. flow_held a = 0" using assms(2) by (auto simp: flow_held_def)
  then have "us_queued_bytes s = 0" "us_active_flows s = 0"
    using queued.pool_gauge_drained [OF assms(1)] flows.pool_gauge_drained [OF assms(1)] none
    by (simp_all add: UdpStatsInner_new_def)
  with members none show ?thesis by (auto simp: assoc_inv_def)
qed

text \<open>The queues of an association never exceed the configured capacity, a write batch never
  exceeds its bound, and what has been written to the tunnel is at every moment a sequence of
  complete frames.\<close>

theorem udp_queues_bounded:
  assumes "pool_reachable no_env relay_spawn (relay_step lookup) s0 (s, as)" "a \<in> set as"
  shows "length (as_requests a) \<le> fc_queue_capacity (as_config a) \<and>
    length (as_replies a) \<le> fc_queue_capacity (as_config a) \<and>
    (\<forall>n batch rs. as_writer a = W_Between n batch rs \<longrightarrow> length batch \<le> MAX_WRITE_BATCH_BYTES) \<and>
    framed (written (as_output a))"
  using relays.pool_inv [OF assms(1)] assms(2)
  by (auto simp: list_all_iff assoc_inv_def assoc_shape_def)

text \<open>A request is forwarded only fresh: the select loop takes it for forwarding exactly when
  both readings of its queue age are within the limit, and otherwise drops it, counts the drop
  and returns its reservation; either way the idle deadline moves.\<close>

theorem udp_stale_requests_dropped:
  assumes "as_main a = M_Selecting" "as_requests a = Inr q # rest"
  shows "as_main (snd (main_request now now' (s, a))) =
      (if now - qf_queued_at q \<le> fc_max_queue_age (as_config a) \<and>
          now' - qf_queued_at q \<le> fc_max_queue_age (as_config a)
       then M_Forwarding q else M_Selecting) \<and>
    us_dropped_queue_age (fst (main_request now now' (s, a))) = us_dropped_queue_age s +
      (if as_main (snd (main_request now now' (s, a))) = M_Selecting then 1 else 0) \<and>
    as_sent (snd (main_request now now' (s, a))) = as_sent a \<and>
    as_idle_at (snd (main_request now now' (s, a))) = now + fc_idle_timeout (as_config a)"
  using assms
  by (auto simp: main_request_def Let_def drop_reserved_pair drop_defs)

text \<open>C8. The shutdown ends: once the select loop has broken, the writer is finished after a number
  of its own steps that the queue bounds, and the association then returns, with the error of
  the loop if it had one and the result of the writer otherwise.\<close>

theorem udp_shutdown_terminates:
  assumes "as_main a = M_Joining result" "3 * length (as_replies a) + 3 \<le> n"
  shows "\<exists>w. as_writer (snd (writer_run now n (s, a))) = w \<and>
    as_main (snd (main_join False result (writer_run now n (s, a)))) = M_Returned (join_result result w)"
proof -
  have "\<not> reply_open a" using assms(1) by (simp add: reply_open_def)
  moreover have "shutdown_work a \<le> n"
    using assms(2) by (cases "as_writer a") (auto simp: shutdown_work_def)
  ultimately have "writer_finished (snd (writer_run now n (s, a)))"
    using writer_run_finishes by blast
  then show ?thesis
    by (cases "writer_run now n (s, a)")
       (simp add: main_join_def main_return_def writer_abort_def drop_reserved_pair)
qed


theorem udp_shutdown_terminates_witness:
  "\<exists>result. as_main (snd (main_join False (Inr ()) (writer_run 6 6
     (fst demo_received, (snd demo_received)\<lparr>as_main := M_Joining (Inr ())\<rparr>)))) = M_Returned result"
  using udp_shutdown_terminates [of "(snd demo_received)\<lparr>as_main := M_Joining (Inr ())\<rparr>" "Inr ()" 6 6 "fst demo_received"]
  by (auto simp: demo_received_value demo_simps)

end
