(* ===== verification/SocksWire.thy ===== *)
theory SocksWire
  imports HevUdp RustText
begin

text \<open>
  The SOCKS5 wire of \<^verbatim>\<open>socks.rs\<close>: errors, commands, the request decoder, the stream reader of a
  request, the authentication negotiation, replies and the handshake of \<^verbatim>\<open>SocksServer::handle\<close> up to
  the point where a request is admitted.  A client connection is its input stream and its output
  sink; an operation returns its result together with the connection, so that the bytes an error
  path writes are part of the model.
\<close>

section \<open>Commands and errors\<close>

definition SOCKS_VERSION :: u8 where "SOCKS_VERSION = 5"
definition AUTH_NONE :: u8 where "AUTH_NONE = 0"
definition AUTH_UNACCEPTABLE :: u8 where "AUTH_UNACCEPTABLE = 0xff"
definition CMD_CONNECT :: u8 where "CMD_CONNECT = 1"
definition CMD_FWD_UDP :: u8 where "CMD_FWD_UDP = 5"

lemmas socks_consts = SOCKS_VERSION_def AUTH_NONE_def AUTH_UNACCEPTABLE_def CMD_CONNECT_def CMD_FWD_UDP_def

datatype SocksCommand = Connect | FwdUdp

datatype SocksCommandPolicy = ConnectOnly | FwdUdpOnly

fun SocksCommandPolicy_allows :: "SocksCommandPolicy \<Rightarrow> SocksCommand \<Rightarrow> bool" where
  "SocksCommandPolicy_allows ConnectOnly Connect = True"
| "SocksCommandPolicy_allows FwdUdpOnly FwdUdp = True"
| "SocksCommandPolicy_allows _ _ = False"

datatype SocksError =
    SE_NonLoopbackBind SocketAddr
  | SE_Malformed string
  | SE_NoAcceptableAuthentication
  | SE_UnsupportedCommand u8
  | SE_CommandNotAllowed SocksCommand SocksCommandPolicy
  | SE_UnsupportedAddressType u8
  | SE_ConnectTimeout
  | SE_Resolve UdpRelayError
  | SE_Connect (se_kind: io_kind) (se_local_port: "u16 option")
  | SE_HandshakeTimeout
  | SE_RelayInactive
  | SE_Frame HevFrameError
  | SE_Udp UdpRelayError
  | SE_Io io_kind

fun SocksError_category :: "SocksError \<Rightarrow> string" where
  "SocksError_category (SE_NonLoopbackBind _) = ''non_loopback_bind''"
| "SocksError_category (SE_Malformed _) = ''malformed''"
| "SocksError_category SE_NoAcceptableAuthentication = ''authentication''"
| "SocksError_category (SE_UnsupportedCommand _) = ''unsupported_command''"
| "SocksError_category (SE_CommandNotAllowed _ _) = ''command_not_allowed''"
| "SocksError_category (SE_UnsupportedAddressType _) = ''unsupported_address_type''"
| "SocksError_category SE_ConnectTimeout = ''connect_timeout''"
| "SocksError_category (SE_Resolve _) = ''resolve''"
| "SocksError_category (SE_Connect _ _) = ''tcp_connect''"
| "SocksError_category SE_HandshakeTimeout = ''handshake_timeout''"
| "SocksError_category SE_RelayInactive = ''relay_inactive''"
| "SocksError_category (SE_Frame _) = ''udp_frame''"
| "SocksError_category (SE_Udp _) = ''udp_relay''"
| "SocksError_category (SE_Io _) = ''io''"

fun is_local_refusal :: "SocksError \<Rightarrow> bool" where
  "is_local_refusal (SE_Connect ConnectionRefused (Some _)) = True"
| "is_local_refusal _ = False"

section \<open>Requests\<close>

record SocksRequest =
  sr_command :: SocksCommand
  sr_destination :: Endpoint

definition SocksRequest_decode :: "bytes \<Rightarrow> SocksError + SocksRequest" where
  "SocksRequest_decode input =
     (if length input < 4 then Inl (SE_Malformed ''truncated request'')
      else if input ! 0 \<noteq> SOCKS_VERSION \<or> input ! 2 \<noteq> 0
      then Inl (SE_Malformed ''invalid version or reserved byte'')
      else
        (case (if input ! 1 = CMD_CONNECT then Inr Connect
               else if input ! 1 = CMD_FWD_UDP then Inr FwdUdp
               else Inl (SE_UnsupportedCommand (input ! 1))) of
           Inl e \<Rightarrow> Inl e
         | Inr command \<Rightarrow>
             (case decode_endpoint (drop 3 input) of
                Inl e \<Rightarrow> Inl (SE_Frame e)
              | Inr (destination, consumed) \<Rightarrow>
                  if consumed + 3 \<noteq> length input then Inl (SE_Malformed ''trailing request bytes'')
                  else Inr \<lparr>sr_command = command, sr_destination = destination\<rparr>)))"

definition read_request :: "byte_stream \<Rightarrow> SocksError + (SocksRequest \<times> byte_stream)" where
  "read_request reader =
     (case read_exact 4 reader of
        Inl k \<Rightarrow> Inl (SE_Io k)
      | Inr (prefix, reader) \<Rightarrow>
          let atyp = prefix ! 3;
              finish = (\<lambda>encoded tail_len reader.
                case read_exact tail_len reader of
                  Inl k \<Rightarrow> Inl (SE_Io k)
                | Inr (tail, reader) \<Rightarrow>
                    (case SocksRequest_decode (encoded @ tail) of
                       Inl e \<Rightarrow> Inl e | Inr r \<Rightarrow> Inr (r, reader)))
          in if atyp = SOCKS_ATYP_IPV4 then finish prefix (4 + 2) reader
             else if atyp = SOCKS_ATYP_IPV6 then finish prefix (16 + 2) reader
             else if atyp = SOCKS_ATYP_DOMAIN then
               (case read_exact 1 reader of
                  Inl k \<Rightarrow> Inl (SE_Io k)
                | Inr (len_bytes, reader) \<Rightarrow>
                    let len = unat (hd len_bytes) in
                    if len = 0 \<or> len > MAX_DOMAIN_LEN then Inl (SE_Malformed ''invalid domain length'')
                    else finish (prefix @ [word_of_nat len]) (len + 2) reader)
             else Inl (SE_UnsupportedAddressType atyp))"

section \<open>The client connection\<close>

record client_io =
  cl_in :: byte_stream
  cl_out :: byte_sink

definition client_read :: "nat \<Rightarrow> client_io \<Rightarrow> (SocksError + bytes) \<times> client_io" where
  "client_read n c =
     (case read_exact n (cl_in c) of
        Inl k \<Rightarrow> (Inl (SE_Io k), c)
      | Inr (bs, s) \<Rightarrow> (Inr bs, c\<lparr>cl_in := s\<rparr>))"

definition client_write :: "bytes \<Rightarrow> client_io \<Rightarrow> (SocksError + unit) \<times> client_io" where
  "client_write bs c =
     (case write_all bs (cl_out c) of
        Inl k \<Rightarrow> (Inl (SE_Io k), c)
      | Inr w \<Rightarrow> (Inr (), c\<lparr>cl_out := w\<rparr>))"

definition negotiate_auth :: "client_io \<Rightarrow> (SocksError + unit) \<times> client_io" where
  "negotiate_auth c =
     (case client_read 2 c of
        (Inl e, c) \<Rightarrow> (Inl e, c)
      | (Inr header, c) \<Rightarrow>
          if header ! 0 \<noteq> SOCKS_VERSION \<or> header ! 1 = 0
          then (Inl (SE_Malformed ''invalid authentication greeting''), c)
          else
            (case client_read (unat (header ! 1)) c of
               (Inl e, c) \<Rightarrow> (Inl e, c)
             | (Inr methods, c) \<Rightarrow>
                 let selected = (if AUTH_NONE \<in> set methods then AUTH_NONE else AUTH_UNACCEPTABLE) in
                 (case client_write [SOCKS_VERSION, selected] c of
                    (Inl e, c) \<Rightarrow> (Inl e, c)
                  | (Inr _, c) \<Rightarrow>
                      if selected = AUTH_UNACCEPTABLE then (Inl SE_NoAcceptableAuthentication, c)
                      else (Inr (), c))))"

definition write_reply :: "u8 \<Rightarrow> Endpoint \<Rightarrow> client_io \<Rightarrow> (SocksError + unit) \<times> client_io" where
  "write_reply reply endpoint c =
     (case encode_endpoint endpoint of
        Inl e \<Rightarrow> (Inl (SE_Frame e), c)
      | Inr address \<Rightarrow> client_write ([SOCKS_VERSION, reply, 0] @ address) c)"

definition unspecified_v4 :: Endpoint where
  "unspecified_v4 = Socket (V4 [0, 0, 0, 0] 0)"

definition localhost_v4 :: Endpoint where
  "localhost_v4 = Socket (V4 [127, 0, 0, 1] 0)"

text \<open>A reply that is best effort: its failure is ignored.\<close>

definition refuse :: "u8 \<Rightarrow> client_io \<Rightarrow> client_io" where
  "refuse code c = snd (write_reply code unspecified_v4 c)"

section \<open>The handshake\<close>

text \<open>The greeting and the request under the handshake timeout.  A peer that keeps the connection
  open without sending the rest, or without draining what is written to it, leaves the operation
  waiting until the timeout: \<open>stalled\<close> says that the connection is of that kind.\<close>

definition read_handshake :: "client_io \<Rightarrow> (SocksError + SocksRequest) \<times> client_io" where
  "read_handshake c =
     (case negotiate_auth c of
        (Inl e, c) \<Rightarrow> (Inl e, c)
      | (Inr _, c) \<Rightarrow>
          (case read_request (cl_in c) of
             Inl e \<Rightarrow> (Inl e, c)
           | Inr (request, s) \<Rightarrow> (Inr request, c\<lparr>cl_in := s\<rparr>)))"

definition handshake :: "bool \<Rightarrow> client_io \<Rightarrow> (SocksError + SocksRequest) \<times> client_io" where
  "handshake stalled c =
     (case read_handshake c of
        (Inl (SE_Io k), c) \<Rightarrow> (Inl (if stalled then SE_HandshakeTimeout else SE_Io k), c)
      | r \<Rightarrow> r)"

text \<open>The first half of \<^verbatim>\<open>handle\<close>: the handshake, the replies to what it cannot serve, and the
  policy of the listener.\<close>

definition admit_request ::
  "SocksCommandPolicy \<Rightarrow> bool \<Rightarrow> client_io \<Rightarrow> (SocksError + SocksRequest) \<times> client_io" where
  "admit_request policy stalled c =
     (case handshake stalled c of
        (Inl (SE_UnsupportedCommand x), c) \<Rightarrow> (Inl (SE_UnsupportedCommand x), refuse 7 c)
      | (Inl (SE_UnsupportedAddressType x), c) \<Rightarrow> (Inl (SE_UnsupportedAddressType x), refuse 8 c)
      | (Inl e, c) \<Rightarrow> (Inl e, c)
      | (Inr request, c) \<Rightarrow>
          if SocksCommandPolicy_allows policy (sr_command request) then (Inr request, c)
          else (Inl (SE_CommandNotAllowed (sr_command request) policy), refuse 7 c))"

section \<open>The request codec\<close>

text \<open>What a client sends for a request, the reference the decoder is compared with.\<close>

fun command_byte :: "SocksCommand \<Rightarrow> u8" where
  "command_byte Connect = CMD_CONNECT"
| "command_byte FwdUdp = CMD_FWD_UDP"

definition request_bytes :: "SocksRequest \<Rightarrow> SocksError + bytes" where
  "request_bytes r =
     (case encode_endpoint (sr_destination r) of
        Inl e \<Rightarrow> Inl (SE_Frame e)
      | Inr address \<Rightarrow> Inr ([SOCKS_VERSION, command_byte (sr_command r), 0] @ address))"

definition request_wf :: "SocksRequest \<Rightarrow> bool" where
  "request_wf r \<longleftrightarrow> endpoint_wf (sr_destination r)"


lemma command_byte_cases:
  "x = CMD_CONNECT \<longleftrightarrow> x = command_byte Connect" "x = CMD_FWD_UDP \<longleftrightarrow> x = command_byte FwdUdp"
  by simp_all

lemma request_dec_enc:
  assumes "request_wf r" "request_bytes r = Inr bs"
  shows "SocksRequest_decode bs = Inr r"
proof -
  from assms obtain address where a: "encode_endpoint (sr_destination r) = Inr address"
    and bs: "bs = [SOCKS_VERSION, command_byte (sr_command r), 0] @ address"
    by (auto simp: request_bytes_def split: sum.splits)
  have wf: "endpoint_wf (sr_destination r)" using assms(1) by (simp add: request_wf_def)
  have "decode_endpoint address = Inr (sr_destination r, endpoint_len (sr_destination r))"
    "length address = endpoint_len (sr_destination r)"
    using decode_encode_endpoint [OF wf a, of "[]"] encode_endpoint_wf [OF wf] a by auto
  moreover have "0 < endpoint_len (sr_destination r)" by (cases "sr_destination r" rule: endpoint_len.cases) auto
  ultimately show ?thesis
    by (cases "sr_command r") (auto simp: SocksRequest_decode_def bs socks_consts)
qed

lemma request_enc_dec:
  assumes "SocksRequest_decode bs = Inr r"
  shows "request_wf r \<and> request_bytes r = Inr bs"
proof -
  from assms obtain command e n where len: "4 \<le> length bs" and hd: "bs ! 0 = SOCKS_VERSION" "bs ! 2 = 0"
    "bs ! 1 = command_byte command"
    and d: "decode_endpoint (drop 3 bs) = Inr (e, n)" "n + 3 = length bs"
    and r: "r = \<lparr>sr_command = command, sr_destination = e\<rparr>"
    by (auto simp: SocksRequest_decode_def command_byte_cases not_less simp del: command_byte.simps
        split: if_splits sum.splits)
  have "endpoint_wf e" "encode_endpoint e = Inr (drop 3 bs)"
    using encode_decode_endpoint [OF d(1)] d(2) by auto
  moreover have "bs = [bs ! 0, bs ! 1, bs ! 2] @ drop 3 bs"
    using len by (cases bs; cases "tl bs"; cases "tl (tl bs)") auto
  ultimately show ?thesis using hd by (simp add: r request_wf_def request_bytes_def)
qed

text \<open>How many bytes follow the four-byte prefix.\<close>

lemma encode_endpoint_shape:
  assumes "endpoint_wf e" "encode_endpoint e = Inr address"
  obtains (v4) "address ! 0 = SOCKS_ATYP_IPV4" "length address = 7"
  | (v6) "address ! 0 = SOCKS_ATYP_IPV6" "length address = 19"
  | (name) n where "address ! 0 = SOCKS_ATYP_DOMAIN" "address ! 1 = word_of_nat n" "0 < n"
      "n \<le> MAX_DOMAIN_LEN" "length address = n + 4"
proof (cases e rule: endpoint_wf.cases)
  case (3 host port)
  then have "address = SOCKS_ATYP_DOMAIN # word_of_nat (length host) # host @ u16_be port"
    "0 < length host" "length host \<le> MAX_DOMAIN_LEN"
    using assms by (auto split: if_splits)
  then show ?thesis using name [of "length host"] by simp
qed (use assms v4 v6 in auto)

lemma request_rd_enc:
  assumes wf: "request_wf r" and enc: "request_bytes r = Inr bs" and s: "pending s = bs @ rest"
  shows "read_request s = Inr (r, s\<lparr>pending := rest\<rparr>)"
proof -
  have dec: "SocksRequest_decode bs = Inr r" using wf enc by (rule request_dec_enc)
  from enc obtain address where a: "encode_endpoint (sr_destination r) = Inr address"
    and bs: "bs = [SOCKS_VERSION, command_byte (sr_command r), 0] @ address"
    by (auto simp: request_bytes_def split: sum.splits)
  have wfe: "endpoint_wf (sr_destination r)" using wf by (simp add: request_wf_def)
  then obtain x xs where ax: "address = x # xs"
    using encode_endpoint_wf [OF wfe] a by (cases address; cases "sr_destination r" rule: endpoint_len.cases) auto
  have r4: "read_exact 4 s = Inr ([SOCKS_VERSION, command_byte (sr_command r), 0, x], s\<lparr>pending := xs @ rest\<rparr>)"
    using s by (simp add: read_exact_def bs ax)
  from wfe a show ?thesis
  proof (cases rule: encode_endpoint_shape)
    case v4
    with r4 dec show ?thesis by (simp add: read_request_def ax bs Let_def read_exact_def)
  next
    case v6
    with r4 dec show ?thesis by (simp add: read_request_def ax bs Let_def read_exact_def atyp_defs)
  next
    case (name n)
    then obtain y ys where xs: "xs = y # ys" by (cases xs) (auto simp: ax)
    have "unat y = n" using name xs unat_domain_len [of n] by (simp add: ax)
    with name r4 dec show ?thesis
      by (auto simp: read_request_def ax bs xs Let_def read_exact_def atyp_defs)
  qed
qed

lemma request_rd_dec:
  assumes "read_request s = Inr (r, s')"
  shows "\<exists>bs. SocksRequest_decode bs = Inr r \<and> pending s = bs @ pending s' \<and> s' = s\<lparr>pending := pending s'\<rparr>"
proof -
  from assms obtain prefix t where r4: "read_exact 4 s = Inr (prefix, t)"
    by (auto simp: read_request_def split: sum.splits)
  note rs = read_exact_InrD [OF r4]
  consider (fixed) n tail where "read_exact n t = Inr (tail, s')" "SocksRequest_decode (prefix @ tail) = Inr r"
    | (name) lb u n tail where "read_exact 1 t = Inr (lb, u)" "read_exact n u = Inr (tail, s')"
      "SocksRequest_decode (prefix @ [word_of_nat (unat (hd lb))] @ tail) = Inr r"
    using assms r4 by (auto simp: read_request_def Let_def split: sum.splits if_splits)
  then show ?thesis
  proof cases
    case fixed
    from read_exact_InrD [OF fixed(1)] rs fixed(2) show ?thesis
      by (intro exI [of _ "prefix @ tail"]) (auto intro: byte_stream_advance)
  next
    case name
    from read_exact_InrD [OF name(1)] have "[hd lb] = lb" by (cases lb) auto
    with read_exact_InrD [OF name(1)] read_exact_InrD [OF name(2)] rs name(3) show ?thesis
      by (intro exI [of _ "prefix @ lb @ tail"]) (auto intro: byte_stream_advance)
  qed
qed

interpretation socks: framed_codec request_bytes SocksRequest_decode read_request request_wf
proof unfold_locales
  show "\<exists>bs. request_bytes m = Inr bs" if "request_wf m" for m
    using that encode_endpoint_wf [of "sr_destination m"] by (auto simp: request_wf_def request_bytes_def)
qed (fact request_dec_enc request_enc_dec request_rd_enc request_rd_dec)+


section \<open>Replies\<close>

definition refusal_bytes :: "u8 \<Rightarrow> bytes" where
  "refusal_bytes code = [SOCKS_VERSION, code, 0, SOCKS_ATYP_IPV4, 0, 0, 0, 0, 0, 0]"

lemma u16_be_small: "n < 256 \<Longrightarrow> u16_be (word_of_nat n) = [0, word_of_nat n]"
proof -
  assume n: "n < 256"
  then have "unat (word_of_nat n :: u16) = n" by (simp add: unat_of_nat)
  moreover have "be_bytes 2 n = [word_of_nat (n div 256), word_of_nat n]"
    by (simp only: numeral_2_eq_2 be_bytes.simps append.simps)
  ultimately show ?thesis using n by (simp add: u16_be_def)
qed

lemma refuse_writes:
  "broken (cl_out c) = None \<Longrightarrow>
     refuse code c = c\<lparr>cl_out := (cl_out c)\<lparr>written := written (cl_out c) @ refusal_bytes code\<rparr>\<rparr>"
  by (simp add: refuse_def write_reply_def unspecified_v4_def client_write_def write_all_def
      refusal_bytes_def u16_be_small [of 0, simplified])

lemma refuse_broken: "broken (cl_out c) = Some k \<Longrightarrow> refuse code c = c"
  by (simp add: refuse_def write_reply_def unspecified_v4_def client_write_def write_all_def)

lemma negotiate_auth_greeting:
  assumes "pending (cl_in c) = [SOCKS_VERSION, word_of_nat (length methods)] @ methods @ rest"
    and "0 < length methods" "length methods < 256" "broken (cl_out c) = None"
  shows "negotiate_auth c =
    (if AUTH_NONE \<in> set methods then Inr () else Inl SE_NoAcceptableAuthentication,
     c\<lparr>cl_in := (cl_in c)\<lparr>pending := rest\<rparr>,
       cl_out := (cl_out c)\<lparr>written := written (cl_out c) @
         [SOCKS_VERSION, if AUTH_NONE \<in> set methods then AUTH_NONE else AUTH_UNACCEPTABLE]\<rparr>\<rparr>)"
proof -
  have n: "unat (word_of_nat (length methods) :: u8) = length methods"
    using assms(3) by (simp add: unat_of_nat)
  then have nz: "(word_of_nat (length methods) :: u8) \<noteq> 0"
    using assms(2) by (metis less_irrefl unsigned_0)
  show ?thesis
    using assms n nz
    by (simp add: negotiate_auth_def client_read_def read_exact_def client_write_def write_all_def
        Let_def socks_consts)
qed

section \<open>Properties\<close>

text \<open>A byte string decodes to a SOCKS request exactly when it is the encoding of that
  well-formed request: version, reserved byte, command, address and length are all checked.\<close>

theorem socks_request_exact:
  "SocksRequest_decode bs = Inr r \<longleftrightarrow> request_wf r \<and> request_bytes r = Inr bs"
  by (rule socks.dec_iff)

text \<open>The stream reader of a request takes exactly the bytes of the request: it returns a request
  and leaves \<open>rest\<close> on the stream if and only if the stream starts with the encoding of that
  well-formed request, so the first byte of the tunnelled payload is never lost or misread.\<close>

theorem socks_request_stream:
  "read_request s = Inr (r, s\<lparr>pending := rest\<rparr>) \<longleftrightarrow>
     request_wf r \<and> (\<exists>bs. request_bytes r = Inr bs \<and> pending s = bs @ rest)"
  using socks.rd_enc socks.rd_dec [of s r "s\<lparr>pending := rest\<rparr>"] socks.enc_dec by auto

text \<open>The handshake with a client that offers authentication methods and sends a well-formed
  request.  Without the anonymous method the client gets the refusal of the method and nothing
  else; with it, a command the listener serves is admitted with only the method reply written,
  and any other command is refused with reply code 7 and an error naming the policy.\<close>

theorem socks_handshake_policy:
  assumes "pending (cl_in c) = [SOCKS_VERSION, word_of_nat (length methods)] @ methods @ bs @ rest"
    and "0 < length methods" "length methods < 256" "broken (cl_out c) = None"
    and "request_wf r" "request_bytes r = Inr bs"
  shows "admit_request policy stalled c =
    (if AUTH_NONE \<notin> set methods
     then (Inl SE_NoAcceptableAuthentication,
           c\<lparr>cl_in := (cl_in c)\<lparr>pending := bs @ rest\<rparr>,
             cl_out := (cl_out c)\<lparr>written := written (cl_out c) @ [SOCKS_VERSION, AUTH_UNACCEPTABLE]\<rparr>\<rparr>)
     else if SocksCommandPolicy_allows policy (sr_command r)
     then (Inr r, c\<lparr>cl_in := (cl_in c)\<lparr>pending := rest\<rparr>,
             cl_out := (cl_out c)\<lparr>written := written (cl_out c) @ [SOCKS_VERSION, AUTH_NONE]\<rparr>\<rparr>)
     else (Inl (SE_CommandNotAllowed (sr_command r) policy),
           c\<lparr>cl_in := (cl_in c)\<lparr>pending := rest\<rparr>,
             cl_out := (cl_out c)\<lparr>written := written (cl_out c) @ [SOCKS_VERSION, AUTH_NONE] @
               refusal_bytes 7\<rparr>\<rparr>))"
proof -
  have "read_request ((cl_in c)\<lparr>pending := bs @ rest\<rparr>) = Inr (r, (cl_in c)\<lparr>pending := rest\<rparr>)"
    using assms(5,6) socks.rd_enc [of r bs "(cl_in c)\<lparr>pending := bs @ rest\<rparr>" rest] by simp
  then show ?thesis
    using negotiate_auth_greeting [OF assms(1-4)] assms(4)
    by (simp add: admit_request_def handshake_def read_handshake_def refuse_writes)
qed

definition dns_request :: SocksRequest where
  "dns_request = \<lparr>sr_command = Connect, sr_destination = Socket (V4 [1, 1, 1, 1] 53)\<rparr>"

definition demo_client :: client_io where
  "demo_client = \<lparr>cl_in = \<lparr>pending = [5, 1, 0, 5, 1, 0, 1, 1, 1, 1, 1, 0, 53], closing = UnexpectedEof\<rparr>,
     cl_out = \<lparr>written = [], broken = None\<rparr>\<rparr>"

lemma dns_request_bytes: "request_bytes dns_request = Inr [5, 1, 0, 1, 1, 1, 1, 1, 0, 53]"
  using u16_be_small [of 53]
  by (simp add: request_bytes_def dns_request_def socks_consts atyp_defs)

end
