(* ===== verification/RelayGate.thy ===== *)
theory RelayGate
  imports Prelude
begin

text \<open>
  The relay gate of \<^verbatim>\<open>socks.rs\<close>: a watch channel with an enabled flag, an activation flag and a
  generation.  A SOCKS session is admitted with the generation of an enabled gate as its lease and
  is dropped when it sees the gate disabled or in another generation.  A watch channel shows only
  the latest state, so the generation is what makes a disable followed by an enable visible.
\<close>

section \<open>State and operations\<close>

record RelayGateState =
  rg_enabled :: bool
  rg_awaiting_activation :: bool
  rg_generation :: u64

definition RelayGateState_default :: RelayGateState where
  "RelayGateState_default = \<lparr>rg_enabled = False, rg_awaiting_activation = False, rg_generation = 0\<rparr>"

definition set_enabled :: "bool \<Rightarrow> RelayGateState \<Rightarrow> RelayGateState" where
  "set_enabled enabled g =
     (if rg_enabled g = enabled \<and> \<not> rg_awaiting_activation g then g
      else g\<lparr>rg_enabled := enabled, rg_awaiting_activation := False,
             rg_generation := saturating_inc64 (rg_generation g)\<rparr>)"

definition wait_for_activation :: "RelayGateState \<Rightarrow> RelayGateState" where
  "wait_for_activation g =
     (if rg_enabled g \<or> rg_awaiting_activation g then g
      else g\<lparr>rg_awaiting_activation := True, rg_generation := saturating_inc64 (rg_generation g)\<rparr>)"

definition invalidate_and_wait_for_activation :: "RelayGateState \<Rightarrow> RelayGateState" where
  "invalidate_and_wait_for_activation g =
     (if \<not> rg_enabled g \<and> rg_awaiting_activation g then g
      else g\<lparr>rg_enabled := False, rg_awaiting_activation := True,
             rg_generation := saturating_inc64 (rg_generation g)\<rparr>)"

definition active_generation :: "RelayGateState \<Rightarrow> u64 option" where
  "active_generation g = (if rg_enabled g then Some (rg_generation g) else None)"

text \<open>\<^verbatim>\<open>wait_for_invalidation\<close> returns at the first state it sees for which this is false.\<close>

definition lease_valid :: "u64 \<Rightarrow> RelayGateState \<Rightarrow> bool" where
  "lease_valid generation g \<longleftrightarrow> rg_enabled g \<and> rg_generation g = generation"

text \<open>The loop over the states the receiver observes; it does not return on a prefix of states that
  all keep the lease.\<close>

fun wait_for_invalidation :: "u64 \<Rightarrow> RelayGateState list \<Rightarrow> RelayGateState option" where
  "wait_for_invalidation generation [] = None"
| "wait_for_invalidation generation (g # observed) =
     (if \<not> rg_enabled g \<or> rg_generation g \<noteq> generation then Some g
      else wait_for_invalidation generation observed)"

section \<open>Runs of the gate\<close>

datatype gate_op = SetEnabled bool | WaitForActivation | InvalidateAndWait

fun gate_apply :: "gate_op \<Rightarrow> RelayGateState \<Rightarrow> RelayGateState" where
  "gate_apply (SetEnabled enabled) g = set_enabled enabled g"
| "gate_apply WaitForActivation g = wait_for_activation g"
| "gate_apply InvalidateAndWait g = invalidate_and_wait_for_activation g"

definition gate_run :: "gate_op list \<Rightarrow> RelayGateState \<Rightarrow> RelayGateState" where
  "gate_run ops g = fold gate_apply ops g"

definition gate_inv :: "RelayGateState \<Rightarrow> bool" where
  "gate_inv g \<longleftrightarrow> \<not> (rg_enabled g \<and> rg_awaiting_activation g)"

lemmas gate_defs = set_enabled_def wait_for_activation_def invalidate_and_wait_for_activation_def

lemma gate_run_simps [simp]:
  "gate_run [] g = g" "gate_run (x # ops) g = gate_run ops (gate_apply x g)"
  "gate_run (ops @ ops') g = gate_run ops' (gate_run ops g)"
  by (simp_all add: gate_run_def)

lemma gate_apply_inv: "gate_inv g \<Longrightarrow> gate_inv (gate_apply x g)"
  by (cases x) (auto simp: gate_inv_def gate_defs)

text \<open>An operation keeps the whole state or advances the generation.\<close>

lemma gate_apply_generation:
  "gate_apply x g = g \<or> unat (rg_generation (gate_apply x g)) = min usize_max (unat (rg_generation g) + 1)"
  by (cases x) (auto simp: gate_defs unat_saturating_inc64)

lemma gate_run_generation:
  assumes "unat (rg_generation g) + length ops \<le> usize_max"
  shows "(gate_run ops g = g \<or> unat (rg_generation g) < unat (rg_generation (gate_run ops g))) \<and>
    unat (rg_generation (gate_run ops g)) \<le> unat (rg_generation g) + length ops"
  using assms
proof (induction ops arbitrary: g)
  case (Cons x ops)
  let ?g = "gate_apply x g"
  from gate_apply_generation [of x g] Cons.prems
  have step: "?g = g \<or> unat (rg_generation ?g) = unat (rg_generation g) + 1" by auto
  then have "unat (rg_generation ?g) + length ops \<le> usize_max" using Cons.prems by auto
  from Cons.IH [OF this] step show ?case by auto
qed simp

lemma wait_for_invalidation_Some:
  "wait_for_invalidation n gs \<noteq> None \<longleftrightarrow> (\<exists>g \<in> set gs. \<not> lease_valid n g)"
  by (induction gs) (auto simp: lease_valid_def)

section \<open>Properties\<close>

text \<open>A lease cannot be revived: if some state after the lease was taken does not carry it, then
  no later state does, whatever the runtime does with the gate, as long as the 64-bit generation
  does not saturate.  A session that wakes up late therefore still sees the invalidation.\<close>

theorem lease_never_revived:
  assumes "lease_valid n g" "\<not> lease_valid n (gate_run ops g)"
    and "unat n + length ops + length ops' \<le> usize_max"
  shows "\<not> lease_valid n (gate_run ops' (gate_run ops g)) \<and>
    wait_for_invalidation n [gate_run ops' (gate_run ops g)] \<noteq> None"
proof -
  let ?h = "gate_run ops g"
  have n: "rg_generation g = n" using assms(1) by (simp add: lease_valid_def)
  have 1: "?h = g \<or> unat n < unat (rg_generation ?h)" "unat (rg_generation ?h) \<le> unat n + length ops"
    using gate_run_generation [of g ops] assms(3) n by auto
  with assms(1,2) have later: "unat n < unat (rg_generation ?h)" by auto
  moreover have "gate_run ops' ?h = ?h \<or> unat (rg_generation ?h) < unat (rg_generation (gate_run ops' ?h))"
    using gate_run_generation [of ?h ops'] 1(2) assms(3) by simp
  ultimately have "rg_generation (gate_run ops' ?h) \<noteq> n" by auto
  then show ?thesis by (simp add: lease_valid_def)
qed

end
