(* ===== verification/Candidates.thy ===== *)
theory Candidates
  imports HevUdp "HOL-Library.Sublist"
begin

text \<open>
  The duplicate-connection handling of \<^verbatim>\<open>socks.rs\<close>: Virtual Desktop dials every address of the PC at
  once, the Streamer accepts one connection per port, and the refused duplicates join the accepted
  flow as candidates.  \<open>StreamerCandidates\<close> holds the current group of each port (groups live in a
  store, because the accepted flow keeps a reference to a group that a newer accept replaces and
  closes), and \<^verbatim>\<open>settle_candidates\<close> is a loop that is modelled as a decision, a poll and the handling
  of one event per round.  Sockets are opaque handles; what was written to each is logged.
\<close>

section \<open>Flow observation\<close>

datatype FlowEndpoint = Quest | Streamer
datatype FlowTerminalEvent = ReadEof | ReadError | WriteError

fun FlowEndpoint_as_str :: "FlowEndpoint \<Rightarrow> string" where
  "FlowEndpoint_as_str Quest = ''quest''"
| "FlowEndpoint_as_str Streamer = ''streamer''"

fun FlowTerminalEvent_as_str :: "FlowTerminalEvent \<Rightarrow> string" where
  "FlowTerminalEvent_as_str ReadEof = ''read_eof''"
| "FlowTerminalEvent_as_str ReadError = ''read_error''"
| "FlowTerminalEvent_as_str WriteError = ''write_error''"

type_synonym FlowTerminal = "FlowEndpoint \<times> FlowTerminalEvent"

text \<open>Only the first terminal event of a flow is kept.\<close>

definition FlowObservation_record ::
  "FlowEndpoint \<Rightarrow> FlowTerminalEvent \<Rightarrow> FlowTerminal option \<Rightarrow> FlowTerminal option" where
  "FlowObservation_record endpoint event first_terminal =
     (case first_terminal of None \<Rightarrow> Some (endpoint, event) | Some t \<Rightarrow> Some t)"

section \<open>Groups\<close>

type_synonym socket = nat

definition CANDIDATE_JOIN_WINDOW :: duration where "CANDIDATE_JOIN_WINDOW = 500 * 1000000"
definition CANDIDATE_DECISION_TIMEOUT :: duration where "CANDIDATE_DECISION_TIMEOUT = 250 * 1000000"
definition CANDIDATE_UNRESOLVED_LIMIT :: duration where "CANDIDATE_UNRESOLVED_LIMIT = 10 * 1000000000"
definition CANDIDATE_REPLAY_LIMIT :: nat where "CANDIDATE_REPLAY_LIMIT = 64 * 1024"

record CandidateGroup =
  cg_bound :: SocketAddr
  cg_join_deadline :: instant
  cg_joins :: "socket list option"

definition CandidateGroup_new :: "SocketAddr \<Rightarrow> instant \<Rightarrow> CandidateGroup" where
  "CandidateGroup_new bound now =
     \<lparr>cg_bound = bound, cg_join_deadline = now + CANDIDATE_JOIN_WINDOW, cg_joins = Some []\<rparr>"

definition is_joinable :: "instant \<Rightarrow> CandidateGroup \<Rightarrow> bool" where
  "is_joinable now g \<longleftrightarrow> now < cg_join_deadline g \<and> cg_joins g \<noteq> None"

text \<open>A join that comes too late hands the connection back, and it is closed.\<close>

definition CandidateGroup_join :: "instant \<Rightarrow> socket \<Rightarrow> CandidateGroup \<Rightarrow> (socket + unit) \<times> CandidateGroup" where
  "CandidateGroup_join now client g =
     (if now \<ge> cg_join_deadline g then (Inl client, g)
      else
        (case cg_joins g of
           None \<Rightarrow> (Inl client, g)
         | Some pending_joins \<Rightarrow> (Inr (), g\<lparr>cg_joins := Some (pending_joins @ [client])\<rparr>)))"

definition take_joined :: "CandidateGroup \<Rightarrow> socket list \<times> CandidateGroup" where
  "take_joined g =
     (case cg_joins g of None \<Rightarrow> ([], g) | Some joined \<Rightarrow> (joined, g\<lparr>cg_joins := Some []\<rparr>))"

definition CandidateGroup_close :: "CandidateGroup \<Rightarrow> CandidateGroup" where
  "CandidateGroup_close g = g\<lparr>cg_joins := None\<rparr>"

section \<open>The groups of the Streamer ports\<close>

record StreamerCandidates =
  sc_store :: "CandidateGroup list"
  sc_groups :: "nat option list"

definition StreamerCandidates_default :: StreamerCandidates where
  "StreamerCandidates_default =
     \<lparr>sc_store = [], sc_groups = replicate (length VIRTUAL_DESKTOP_STREAMER_PORTS) None\<rparr>"

definition streamer_port_index :: "u16 \<Rightarrow> nat option" where
  "streamer_port_index destination_port = position (\<lambda>port. port = destination_port) VIRTUAL_DESKTOP_STREAMER_PORTS"

definition close_group :: "nat \<Rightarrow> StreamerCandidates \<Rightarrow> StreamerCandidates" where
  "close_group ref st = st\<lparr>sc_store := (sc_store st)[ref := CandidateGroup_close (sc_store st ! ref)]\<rparr>"

text \<open>The lease is the reference of the new group; dropping it closes the group.\<close>

definition StreamerCandidates_open ::
  "u16 \<Rightarrow> SocketAddr \<Rightarrow> instant \<Rightarrow> StreamerCandidates \<Rightarrow> nat option \<times> StreamerCandidates" where
  "StreamerCandidates_open destination_port bound now st =
     (case streamer_port_index destination_port of
        None \<Rightarrow> (None, st)
      | Some index \<Rightarrow>
          let fresh = length (sc_store st);
              previous = sc_groups st ! index;
              st = st\<lparr>sc_store := sc_store st @ [CandidateGroup_new bound now],
                      sc_groups := (sc_groups st)[index := Some fresh]\<rparr>
          in (Some fresh, case previous of None \<Rightarrow> st | Some p \<Rightarrow> close_group p st))"

definition StreamerCandidates_joinable :: "u16 \<Rightarrow> instant \<Rightarrow> StreamerCandidates \<Rightarrow> nat option" where
  "StreamerCandidates_joinable destination_port now st =
     (case streamer_port_index destination_port of
        None \<Rightarrow> None
      | Some index \<Rightarrow>
          (case sc_groups st ! index of
             None \<Rightarrow> None
           | Some ref \<Rightarrow> if is_joinable now (sc_store st ! ref) then Some ref else None))"

definition candidates_inv :: "StreamerCandidates \<Rightarrow> bool" where
  "candidates_inv st \<longleftrightarrow>
     length (sc_groups st) = length VIRTUAL_DESKTOP_STREAMER_PORTS \<and>
     (\<forall>i < length (sc_groups st). \<forall>g. sc_groups st ! i = Some g \<longrightarrow> g < length (sc_store st)) \<and>
     (\<forall>i < length (sc_groups st). \<forall>j < length (sc_groups st). \<forall>g.
        sc_groups st ! i = Some g \<longrightarrow> sc_groups st ! j = Some g \<longrightarrow> i = j) \<and>
     (\<forall>g < length (sc_store st). cg_joins (sc_store st ! g) \<noteq> None \<longrightarrow> Some g \<in> set (sc_groups st))"

section \<open>Settling\<close>

record Candidate =
  ca_client :: socket
  ca_arrival :: nat
  ca_delivered :: nat

record ChosenCandidate =
  ch_client :: socket
  ch_arrival :: nat
  ch_client_prefix :: bytes
  ch_delivered :: nat
  ch_upstream_suffix :: bytes

record CandidateSettlement =
  cs_arrivals :: nat
  cs_outcome :: string
  cs_chosen :: "ChosenCandidate option"

datatype CandidateEvent = EvJoined | EvUpstream | EvReadable nat | EvWritable nat | EvDeadline

text \<open>The local variables of the loop, the observation, and the log of what each socket was sent.\<close>

record Settling =
  se_candidates :: "Candidate list"
  se_arrivals :: nat
  se_replay :: bytes
  se_upstream_closed :: bool
  se_decision_deadline :: "instant option"
  se_give_up :: instant
  se_join_deadline :: instant
  se_observed :: "FlowTerminal option"
  se_sent :: "socket \<Rightarrow> bytes"

definition settle_start :: "CandidateGroup \<Rightarrow> socket \<Rightarrow> instant \<Rightarrow> FlowTerminal option \<Rightarrow> Settling" where
  "settle_start cgroup first now observed =
     \<lparr>se_candidates = [\<lparr>ca_client = first, ca_arrival = 0, ca_delivered = 0\<rparr>], se_arrivals = 1,
      se_replay = [], se_upstream_closed = False, se_decision_deadline = None,
      se_give_up = now + CANDIDATE_UNRESOLVED_LIMIT, se_join_deadline = cg_join_deadline cgroup,
      se_observed = observed, se_sent = (\<lambda>_. [])\<rparr>"

text \<open>The \<^verbatim>\<open>for\<close> loop over the connections that joined since the last round.\<close>

fun settle_join :: "socket list \<Rightarrow> Settling \<Rightarrow> Settling" where
  "settle_join [] st = st"
| "settle_join (client # joined) st =
     settle_join joined
       (st\<lparr>se_candidates := se_candidates st @
             [\<lparr>ca_client = client, ca_arrival = se_arrivals st, ca_delivered = 0\<rparr>],
           se_arrivals := se_arrivals st + 1\<rparr>)"

definition remove_at :: "nat \<Rightarrow> 'a list \<Rightarrow> 'a list" where
  "remove_at i xs = take i xs @ drop (Suc i) xs"

definition choose_candidate ::
  "Candidate list \<Rightarrow> nat \<Rightarrow> bytes \<Rightarrow> bytes \<Rightarrow> nat \<Rightarrow> string \<Rightarrow> CandidateSettlement" where
  "choose_candidate candidates index client_prefix replay arrivals outcome =
     (let chosen = candidates ! index in
      \<lparr>cs_arrivals = arrivals, cs_outcome = outcome,
       cs_chosen = Some \<lparr>ch_client = ca_client chosen, ch_arrival = ca_arrival chosen,
         ch_client_prefix = client_prefix, ch_delivered = ca_delivered chosen,
         ch_upstream_suffix = drop (ca_delivered chosen) replay\<rparr>\<rparr>)"

definition exhausted :: "Settling \<Rightarrow> bool" where
  "exhausted st \<longleftrightarrow> se_upstream_closed st \<or> length (se_replay st) \<ge> CANDIDATE_REPLAY_LIMIT"

text \<open>The deadline of the round, or the settlement; the state changes where the decision deadline is
  set and where the end of the flow is recorded.\<close>

definition settle_decide :: "instant \<Rightarrow> Settling \<Rightarrow> (CandidateSettlement + instant) \<times> Settling" where
  "settle_decide now st =
     (let joining = now < se_join_deadline st; candidates = se_candidates st in
      if candidates = [] \<and> \<not> joining
      then (Inl \<lparr>cs_arrivals = se_arrivals st, cs_outcome = ''all_closed'', cs_chosen = None\<rparr>,
            st\<lparr>se_observed := FlowObservation_record Quest ReadEof (se_observed st)\<rparr>)
      else if length candidates = 1 \<and> (\<not> joining \<or> exhausted st)
      then (Inl (choose_candidate candidates 0 [] (se_replay st) (se_arrivals st)
                   (if se_arrivals st > 1 then ''sole_survivor'' else ''single'')), st)
      else if length candidates \<le> 1 then (Inr (se_join_deadline st), st)
      else
        let st = (if exhausted st \<and> se_decision_deadline st = None
                  then st\<lparr>se_decision_deadline := Some (now + CANDIDATE_DECISION_TIMEOUT)\<rparr> else st);
            deadline = (case se_decision_deadline st of
                          None \<Rightarrow> se_give_up st | Some decision \<Rightarrow> min decision (se_give_up st))
        in if now \<ge> deadline
           then (Inl (choose_candidate candidates 0 [] (se_replay st) (se_arrivals st) ''timeout''), st)
           else (Inr deadline, st))"

text \<open>What is ready when the loop polls, in the order it looks.\<close>

record readiness =
  rd_joined :: bool
  rd_upstream :: bool
  rd_readable :: "nat \<Rightarrow> bool"
  rd_writable :: "nat \<Rightarrow> bool"
  rd_slept :: bool

definition read_upstream :: "Settling \<Rightarrow> bool" where
  "read_upstream st \<longleftrightarrow> \<not> se_upstream_closed st \<and> length (se_replay st) < CANDIDATE_REPLAY_LIMIT"

fun poll_candidates :: "readiness \<Rightarrow> bytes \<Rightarrow> nat \<Rightarrow> Candidate list \<Rightarrow> CandidateEvent option" where
  "poll_candidates rd replay index [] = None"
| "poll_candidates rd replay index (c # cs) =
     (if rd_readable rd index then Some (EvReadable index)
      else if ca_delivered c < length replay \<and> rd_writable rd index then Some (EvWritable index)
      else poll_candidates rd replay (Suc index) cs)"

definition poll_event :: "readiness \<Rightarrow> Settling \<Rightarrow> CandidateEvent option" where
  "poll_event rd st =
     (if rd_joined rd then Some EvJoined
      else if read_upstream st \<and> rd_upstream rd then Some EvUpstream
      else
        (case poll_candidates rd (se_replay st) 0 (se_candidates st) of
           Some ev \<Rightarrow> Some ev
         | None \<Rightarrow> if rd_slept rd then Some EvDeadline else None))"

text \<open>The handling of an event.  \<open>got\<close> is the result of \<^verbatim>\<open>try_read\<close> and \<open>put\<close> the result of
  \<^verbatim>\<open>try_write\<close>; a round ends with a settlement or with the next state.\<close>

definition settle_event ::
  "CandidateEvent \<Rightarrow> io_kind + bytes \<Rightarrow> io_kind + nat \<Rightarrow> Settling \<Rightarrow> CandidateSettlement + Settling" where
  "settle_event ev got put st =
     (case ev of
        EvJoined \<Rightarrow> Inr st
      | EvDeadline \<Rightarrow> Inr st
      | EvUpstream \<Rightarrow>
          (case got of
             Inr bs \<Rightarrow>
               if bs = [] then Inr (st\<lparr>se_upstream_closed := True,
                 se_observed := FlowObservation_record Streamer ReadEof (se_observed st)\<rparr>)
               else Inr (st\<lparr>se_replay := se_replay st @ bs\<rparr>)
           | Inl WouldBlock \<Rightarrow> Inr st
           | Inl _ \<Rightarrow> Inr (st\<lparr>se_upstream_closed := True,
                 se_observed := FlowObservation_record Streamer ReadError (se_observed st)\<rparr>))
      | EvReadable index \<Rightarrow>
          (case got of
             Inr bs \<Rightarrow>
               if bs = [] then Inr (st\<lparr>se_candidates := remove_at index (se_candidates st)\<rparr>)
               else Inl (choose_candidate (se_candidates st) index bs (se_replay st) (se_arrivals st)
                           ''client_data'')
           | Inl WouldBlock \<Rightarrow> Inr st
           | Inl _ \<Rightarrow> Inr (st\<lparr>se_candidates := remove_at index (se_candidates st)\<rparr>))
      | EvWritable index \<Rightarrow>
          (case put of
             Inr n \<Rightarrow>
               (let c = se_candidates st ! index in
                Inr (st\<lparr>se_candidates := (se_candidates st)[index := c\<lparr>ca_delivered := ca_delivered c + n\<rparr>],
                        se_sent := (se_sent st)(ca_client c := se_sent st (ca_client c) @
                          take n (drop (ca_delivered c) (se_replay st)))\<rparr>))
           | Inl WouldBlock \<Rightarrow> Inr st
           | Inl _ \<Rightarrow> Inr (st\<lparr>se_candidates := remove_at index (se_candidates st)\<rparr>)))"


section \<open>Rounds\<close>

text \<open>What the sockets may do: a read returns at most what there is room for, a write takes at most
  what it is offered, and a connection that joins has not been used before.\<close>

fun event_ok :: "CandidateEvent \<Rightarrow> io_kind + bytes \<Rightarrow> io_kind + nat \<Rightarrow> Settling \<Rightarrow> bool" where
  "event_ok EvUpstream (Inr bs) put st =
     (length bs \<le> min (CANDIDATE_REPLAY_LIMIT - length (se_replay st)) (16 * 1024))"
| "event_ok (EvReadable _) (Inr bs) put st = (length bs \<le> 16 * 1024)"
| "event_ok (EvWritable index) got (Inr n) st =
     (n \<le> length (se_replay st) - ca_delivered (se_candidates st ! index))"
| "event_ok _ _ _ _ = True"

definition joins_ok :: "socket list \<Rightarrow> Settling \<Rightarrow> bool" where
  "joins_ok joined st \<longleftrightarrow> distinct joined \<and>
     (\<forall>j \<in> set joined. se_sent st j = [] \<and> j \<notin> ca_client ` set (se_candidates st))"

inductive settle_round :: "Settling \<Rightarrow> Settling \<Rightarrow> bool" where
  round: "joins_ok joined st \<Longrightarrow> settle_decide now (settle_join joined st) = (Inr deadline, st') \<Longrightarrow>
    poll_event rd st' = Some ev \<Longrightarrow> event_ok ev got put st' \<Longrightarrow>
    settle_event ev got put st' = Inr st'' \<Longrightarrow> settle_round st st''"

inductive settle_reachable :: "Settling \<Rightarrow> Settling \<Rightarrow> bool" for st0 where
  settle_refl: "settle_reachable st0 st0"
| settle_next: "settle_reachable st0 st \<Longrightarrow> settle_round st st' \<Longrightarrow> settle_reachable st0 st'"

text \<open>The last round of the loop, with the state in which it returned.\<close>

inductive settles :: "Settling \<Rightarrow> CandidateSettlement \<Rightarrow> Settling \<Rightarrow> bool" where
  settles_decided: "joins_ok joined st \<Longrightarrow> settle_decide now (settle_join joined st) = (Inl s, st') \<Longrightarrow>
    settles st s st'"
| settles_on_data: "joins_ok joined st \<Longrightarrow> settle_decide now (settle_join joined st) = (Inr deadline, st') \<Longrightarrow>
    poll_event rd st' = Some ev \<Longrightarrow> event_ok ev got put st' \<Longrightarrow>
    settle_event ev got put st' = Inl s \<Longrightarrow> settles st s st'"

inductive_cases settlesE: "settles st s st'"

section \<open>The invariant of the loop\<close>

definition candidate_ok :: "Settling \<Rightarrow> Candidate \<Rightarrow> bool" where
  "candidate_ok st c \<longleftrightarrow> ca_delivered c \<le> length (se_replay st) \<and>
     se_sent st (ca_client c) = take (ca_delivered c) (se_replay st) \<and> ca_arrival c < se_arrivals st"

definition settle_inv :: "Settling \<Rightarrow> bool" where
  "settle_inv st \<longleftrightarrow>
     length (se_replay st) \<le> CANDIDATE_REPLAY_LIMIT \<and>
     (\<forall>x. prefix (se_sent st x) (se_replay st)) \<and>
     list_all (candidate_ok st) (se_candidates st) \<and>
     distinct (map ca_client (se_candidates st)) \<and>
     sorted_wrt (<) (map ca_arrival (se_candidates st))"

lemma settle_inv_start: "settle_inv (settle_start g first now obs)"
  by (simp add: settle_inv_def settle_start_def candidate_ok_def)

lemma remove_at_subset: "set (remove_at i xs) \<subseteq> set xs"
  by (auto simp: remove_at_def dest: in_set_takeD in_set_dropD)

lemma remove_at_simps [simp]:
  "remove_at i [] = []" "remove_at 0 (x # xs) = xs" "remove_at (Suc i) (x # xs) = x # remove_at i xs"
  by (simp_all add: remove_at_def)

lemma map_remove_at: "map f (remove_at i xs) = remove_at i (map f xs)"
  by (simp add: remove_at_def take_map drop_map)

lemma sorted_wrt_remove_at: "sorted_wrt P xs \<Longrightarrow> sorted_wrt P (remove_at i xs)"
proof (induction xs arbitrary: i)
  case (Cons x xs)
  then show ?case using remove_at_subset [of _ xs] by (cases i) auto
qed simp

lemma distinct_remove_at: "distinct xs \<Longrightarrow> distinct (remove_at i xs)"
  using sorted_wrt_remove_at [of "(\<noteq>)" xs i] by (simp add: distinct_conv_nth sorted_wrt_iff_nth_less) (metis linorder_neqE_nat)

lemma settle_inv_remove:
  assumes "settle_inv st"
  shows "settle_inv (st\<lparr>se_candidates := remove_at i (se_candidates st)\<rparr>)"
  using assms remove_at_subset [of i "se_candidates st"]
  by (auto simp: settle_inv_def list_all_iff candidate_ok_def map_remove_at
      intro: sorted_wrt_remove_at distinct_remove_at)

lemma settle_inv_join: "settle_inv st \<Longrightarrow> joins_ok joined st \<Longrightarrow> settle_inv (settle_join joined st)"
proof (induction joined arbitrary: st)
  case (Cons c joined)
  let ?st = "st\<lparr>se_candidates := se_candidates st @
      [\<lparr>ca_client = c, ca_arrival = se_arrivals st, ca_delivered = 0\<rparr>], se_arrivals := se_arrivals st + 1\<rparr>"
  have "settle_inv ?st"
    using Cons.prems by (auto simp: settle_inv_def joins_ok_def list_all_iff candidate_ok_def sorted_wrt_append)
  moreover have "joins_ok joined ?st" using Cons.prems by (auto simp: joins_ok_def)
  ultimately show ?case using Cons.IH by simp
qed simp

lemma settle_inv_decide: "settle_inv st \<Longrightarrow> settle_inv (snd (settle_decide now st))"
  by (auto simp: settle_decide_def Let_def settle_inv_def candidate_ok_def list_all_iff)


text \<open>The events that change what has been read or sent.\<close>

lemma settle_inv_read:
  assumes "settle_inv st" "length bs \<le> CANDIDATE_REPLAY_LIMIT - length (se_replay st)"
  shows "settle_inv (st\<lparr>se_replay := se_replay st @ bs\<rparr>)"
  using assms by (auto simp: settle_inv_def list_all_iff candidate_ok_def)

lemma settle_inv_write:
  assumes "settle_inv st" "i < length (se_candidates st)" "c = se_candidates st ! i"
    and "n \<le> length (se_replay st) - ca_delivered c"
  shows "settle_inv (st\<lparr>se_candidates := (se_candidates st)[i := c\<lparr>ca_delivered := ca_delivered c + n\<rparr>],
    se_sent := (se_sent st)(ca_client c := se_sent st (ca_client c) @ take n (drop (ca_delivered c) (se_replay st)))\<rparr>)"
    (is "settle_inv ?st")
proof -
  let ?cs = "se_candidates st" and ?c = "c\<lparr>ca_delivered := ca_delivered c + n\<rparr>"
  have ok: "candidate_ok st c" using assms by (simp add: settle_inv_def list_all_length)
  then have sent: "se_sent st (ca_client c) @ take n (drop (ca_delivered c) (se_replay st)) =
      take (ca_delivered c + n) (se_replay st)"
    by (simp add: candidate_ok_def take_add)
  have maps: "map ca_client (?cs[i := ?c]) = map ca_client ?cs" "map ca_arrival (?cs[i := ?c]) = map ca_arrival ?cs"
    using assms(2,3) by (simp_all add: map_update list_update_same_conv)
  have "candidate_ok ?st x" if "x \<in> set (?cs[i := ?c])" for x
  proof -
    from that obtain j where j: "j < length ?cs" "x = ?cs[i := ?c] ! j" by (auto simp: in_set_conv_nth)
    show ?thesis
    proof (cases "j = i")
      case True
      then show ?thesis using j ok assms(4) by (auto simp: candidate_ok_def take_add)
    next
      case False
      then have "x = ?cs ! j" using j by simp
      moreover have "ca_client (?cs ! j) \<noteq> ca_client (?cs ! i)"
        using False j(1) assms(1,2) by (simp add: settle_inv_def distinct_conv_nth)
      ultimately show ?thesis using assms j(1) by (simp add: settle_inv_def list_all_length candidate_ok_def)
    qed
  qed
  then show ?thesis
    using assms(1) maps by (simp add: settle_inv_def list_all_iff sent take_is_prefix)
qed

lemma poll_candidates_index:
  "poll_candidates rd replay k cs = Some ev \<Longrightarrow>
     \<exists>j < length cs. ev = EvReadable (k + j) \<and> rd_readable rd (k + j) \<or>
       ev = EvWritable (k + j) \<and> ca_delivered (cs ! j) < length replay"
proof (induction cs arbitrary: k)
  case (Cons c cs)
  show ?case
  proof (cases "rd_readable rd k \<or> ca_delivered c < length replay \<and> rd_writable rd k")
    case True
    then show ?thesis using Cons.prems by (intro exI [of _ 0]) (auto split: if_splits)
  next
    case False
    then have "poll_candidates rd replay (Suc k) cs = Some ev" using Cons.prems by (auto split: if_splits)
    from Cons.IH [OF this] obtain j where "j < length cs"
      "ev = EvReadable (Suc k + j) \<and> rd_readable rd (Suc k + j) \<or> ev = EvWritable (Suc k + j) \<and> ca_delivered (cs ! j) < length replay"
      by blast
    then show ?thesis by (intro exI [of _ "Suc j"]) auto
  qed
qed simp

lemma poll_event_index:
  "poll_event rd st = Some (EvReadable i) \<Longrightarrow> i < length (se_candidates st)"
  "poll_event rd st = Some (EvWritable i) \<Longrightarrow> i < length (se_candidates st)"
  by (auto simp: poll_event_def split: if_splits option.splits dest!: poll_candidates_index)

lemma settle_inv_event:
  assumes "settle_inv st" "poll_event rd st = Some ev" "event_ok ev got put st"
    and "settle_event ev got put st = Inr st'"
  shows "settle_inv st'"
proof -
  have obs: "settle_inv (st\<lparr>se_upstream_closed := True, se_observed := x\<rparr>)" for x
    using assms(1) by (auto simp: settle_inv_def list_all_iff candidate_ok_def)
  show ?thesis
  proof (cases ev)
    case EvUpstream
    then show ?thesis using assms obs settle_inv_read [OF assms(1)]
      by (cases got) (auto simp: settle_event_def split: if_splits io_kind.splits)
  next
    case (EvReadable i)
    then show ?thesis using assms settle_inv_remove [OF assms(1)]
      by (cases got) (auto simp: settle_event_def split: if_splits io_kind.splits)
  next
    case (EvWritable i)
    then have "i < length (se_candidates st)" using assms(2) poll_event_index by blast
    then show ?thesis using EvWritable assms settle_inv_remove [OF assms(1)] settle_inv_write [OF assms(1)]
      by (cases put) (auto simp: settle_event_def Let_def split: if_splits io_kind.splits)
  qed (use assms in \<open>auto simp: settle_event_def\<close>)
qed

lemma settle_inv_round: "settle_round st st' \<Longrightarrow> settle_inv st \<Longrightarrow> settle_inv st'"
proof (induction rule: settle_round.induct)
  case (round joined st now deadline st' rd ev got put st'')
  then have "settle_inv st'" using settle_inv_decide [OF settle_inv_join, of st joined now] by simp
  with round show ?case using settle_inv_event by blast
qed

lemma settle_reachable_inv: "settle_reachable st0 st \<Longrightarrow> settle_inv st0 \<Longrightarrow> settle_inv st"
  by (induction rule: settle_reachable.induct) (auto dest: settle_inv_round)


section \<open>Settlements\<close>

lemma choose_candidate_delivers:
  assumes "settle_inv st" "i < length (se_candidates st)"
    and "cs_chosen (choose_candidate (se_candidates st) i pre (se_replay st) n out) = Some ch"
  shows "ch_client ch \<in> ca_client ` set (se_candidates st) \<and>
    se_sent st (ch_client ch) @ ch_upstream_suffix ch = se_replay st \<and>
    length (se_sent st (ch_client ch)) = ch_delivered ch"
proof -
  have "candidate_ok st (se_candidates st ! i)" using assms(1,2) by (simp add: settle_inv_def list_all_length)
  then show ?thesis using assms(2,3) by (auto simp: choose_candidate_def Let_def candidate_ok_def)
qed

lemma settle_decide_chosen:
  assumes "settle_decide now st = (Inl s, st')" "cs_chosen s = Some ch"
  shows "se_candidates st \<noteq> [] \<and> se_candidates st' = se_candidates st \<and> se_replay st' = se_replay st \<and>
    se_sent st' = se_sent st \<and>
    (\<exists>out. s = choose_candidate (se_candidates st') 0 [] (se_replay st') (se_arrivals st) out)"
proof -
  have ne: "se_candidates st \<noteq> []" using assms by (auto simp: settle_decide_def Let_def split: if_splits)
  show ?thesis using assms ne by (simp add: settle_decide_def Let_def split: if_splits) auto
qed

lemma settle_event_chosen:
  "settle_event ev got put st = Inl s \<Longrightarrow> \<exists>i bs. ev = EvReadable i \<and> got = Inr bs \<and> bs \<noteq> [] \<and>
     s = choose_candidate (se_candidates st) i bs (se_replay st) (se_arrivals st) ''client_data''"
  by (cases ev; cases got; cases put)
     (auto simp: settle_event_def Let_def split: if_splits io_kind.splits)

text \<open>Every choice is a choice among the candidates of the state in which the loop returned.\<close>

lemma settles_choice:
  assumes "settles st s st'" "settle_inv st" "cs_chosen s = Some ch"
  obtains i pre n out where "settle_inv st'" "i < length (se_candidates st')"
    "s = choose_candidate (se_candidates st') i pre (se_replay st') n out"
    "pre = [] \<Longrightarrow> i = 0"
  using assms(1)
proof (cases rule: settles.cases)
  case (settles_decided joined now)
  then have "settle_inv st'" using settle_inv_decide [OF settle_inv_join, of st joined now] assms(2) by simp
  moreover from settle_decide_chosen [OF settles_decided(2) assms(3)] obtain out where
    "s = choose_candidate (se_candidates st') 0 [] (se_replay st') (se_arrivals (settle_join joined st)) out"
    "se_candidates st' \<noteq> []" by auto
  ultimately show ?thesis using that [of 0 "[]"] by simp
next
  case (settles_on_data joined now deadline rd ev got put)
  then have "settle_inv st'" using settle_inv_decide [OF settle_inv_join, of st joined now] assms(2) by simp
  moreover from settle_event_chosen [OF settles_on_data(5)] obtain i bs where "ev = EvReadable i" "bs \<noteq> []"
    "s = choose_candidate (se_candidates st') i bs (se_replay st') (se_arrivals st') ''client_data''" by blast
  ultimately show ?thesis using that poll_event_index(1) settles_on_data(3) by blast
qed

section \<open>Groups of a port\<close>

text \<open>The store and the current groups after an accept.\<close>

lemma open_effect:
  assumes inv: "candidates_inv st" and i: "streamer_port_index port = Some i"
    and op: "StreamerCandidates_open port bound now st = (lease, st')"
  shows "i < length (sc_groups st)" and "lease = Some (length (sc_store st))"
    and "sc_groups st' = (sc_groups st)[i := Some (length (sc_store st))]"
    and "length (sc_store st') = Suc (length (sc_store st))"
    and "sc_store st' ! length (sc_store st) = CandidateGroup_new bound now"
    and "k < length (sc_store st) \<Longrightarrow> sc_store st' ! k =
      (if sc_groups st ! i = Some k then CandidateGroup_close (sc_store st ! k) else sc_store st ! k)"
proof -
  show l: "i < length (sc_groups st)"
    using i inv by (auto simp: streamer_port_index_def position_Some candidates_inv_def)
  have "\<And>q. sc_groups st ! i = Some q \<Longrightarrow> q < length (sc_store st)"
    using inv l by (auto simp: candidates_inv_def)
  then show "lease = Some (length (sc_store st))"
    "sc_groups st' = (sc_groups st)[i := Some (length (sc_store st))]"
    "length (sc_store st') = Suc (length (sc_store st))"
    "sc_store st' ! length (sc_store st) = CandidateGroup_new bound now"
    "k < length (sc_store st) \<Longrightarrow> sc_store st' ! k =
      (if sc_groups st ! i = Some k then CandidateGroup_close (sc_store st ! k) else sc_store st ! k)"
    using op i by (auto simp: StreamerCandidates_open_def Let_def close_group_def nth_append
        nth_list_update split: option.splits)
qed

lemma open_inv:
  assumes inv: "candidates_inv st" and i: "streamer_port_index port = Some i"
    and op: "StreamerCandidates_open port bound now st = (lease, st')"
  shows "candidates_inv st'"
proof -
  note e = open_effect [OF assms]
  have refs: "g < length (sc_store st)" if "sc_groups st ! j = Some g" "j < length (sc_groups st)" for j g
    using inv that by (auto simp: candidates_inv_def)
  have "Some k \<in> set (sc_groups st')"
    if k: "k < length (sc_store st')" "cg_joins (sc_store st' ! k) \<noteq> None" for k
  proof (cases "k = length (sc_store st)")
    case True
    then show ?thesis using e(1,3) by (auto simp: set_conv_nth intro!: exI [of _ i])
  next
    case False
    then have k': "k < length (sc_store st)" using k(1) e(4) by simp
    then have "sc_groups st ! i \<noteq> Some k" "cg_joins (sc_store st ! k) \<noteq> None"
      using k(2) e(6) by (auto simp: CandidateGroup_close_def split: if_splits)
    then obtain j where "j < length (sc_groups st)" "sc_groups st ! j = Some k" "j \<noteq> i"
      using inv k' by (auto simp: candidates_inv_def in_set_conv_nth) metis
    then show ?thesis using e(3) by (auto simp: in_set_conv_nth intro!: exI [of _ j])
  qed
  moreover have "i' = j'" if "i' < length (sc_groups st)" "j' < length (sc_groups st)"
    "sc_groups st' ! i' = Some g" "sc_groups st' ! j' = Some g" for i' j' g
  proof -
    have new: "sc_groups st' ! j = (if j = i then Some (length (sc_store st)) else sc_groups st ! j)" for j
      using e(1,3) by simp
    have "sc_groups st ! i' = Some g \<Longrightarrow> sc_groups st ! j' = Some g \<Longrightarrow> i' = j'"
      using inv that(1,2) by (auto simp: candidates_inv_def)
    then show ?thesis using that new [of i'] new [of j'] refs [of i' g] refs [of j' g] by (auto split: if_splits)
  qed
  moreover have "g < length (sc_store st')" if "i' < length (sc_groups st)" "sc_groups st' ! i' = Some g" for i' g
    using that refs [of i' g] e(1,3,4) by (cases "i' = i") auto
  ultimately show ?thesis using inv e(3) by (auto simp: candidates_inv_def)
qed

section \<open>A concrete settlement\<close>

text \<open>One connection, on which data arrives within the join window.\<close>

definition demo_settling :: Settling where
  "demo_settling = settle_start (CandidateGroup_new (V4 [127, 0, 0, 1] 38810) 0) 7 0 None"

definition demo_settlement :: CandidateSettlement where
  "demo_settlement = choose_candidate [\<lparr>ca_client = 7, ca_arrival = 0, ca_delivered = 0\<rparr>] 0 [1, 2] [] 1 ''client_data''"

lemma demo_settles: "settles demo_settling demo_settlement demo_settling"
proof (rule settles_on_data [of "[]" _ 0 CANDIDATE_JOIN_WINDOW _
      "\<lparr>rd_joined = False, rd_upstream = False, rd_readable = (\<lambda>_. True), rd_writable = (\<lambda>_. False), rd_slept = False\<rparr>"
      "EvReadable 0" "Inr [1, 2]" "Inl WouldBlock"])
  show "settle_decide 0 (settle_join [] demo_settling) = (Inr CANDIDATE_JOIN_WINDOW, demo_settling)"
    by (simp add: demo_settling_def settle_start_def settle_decide_def CandidateGroup_new_def
        CANDIDATE_JOIN_WINDOW_def exhausted_def CANDIDATE_REPLAY_LIMIT_def)
qed (simp_all add: joins_ok_def demo_settling_def settle_start_def poll_event_def read_upstream_def
    settle_event_def demo_settlement_def)

section \<open>Properties\<close>

text \<open>C9. Whichever candidate is chosen, it receives the Streamer's bytes exactly once and in order:
  what was already written to its socket followed by the suffix still to be sent is everything
  read from the Streamer; and no connection, chosen or not, was ever sent anything but a prefix
  of that stream.\<close>

theorem settlement_delivers_stream:
  assumes "settle_reachable (settle_start g first now0 obs) st" "settles st s st'"
    and "cs_chosen s = Some ch"
  shows "se_sent st' (ch_client ch) @ ch_upstream_suffix ch = se_replay st' \<and>
    length (se_sent st' (ch_client ch)) = ch_delivered ch \<and>
    (\<forall>x. prefix (se_sent st' x) (se_replay st'))"
proof -
  have "settle_inv st" using settle_reachable_inv [OF assms(1) settle_inv_start] .
  with assms(2) obtain i pre n out where "settle_inv st'" "i < length (se_candidates st')"
    and s: "s = choose_candidate (se_candidates st') i pre (se_replay st') n out"
    using settles_choice assms(3) by metis
  with choose_candidate_delivers [of st' i pre n out ch] assms(3) show ?thesis
    by (auto simp: settle_inv_def)
qed

theorem settlement_delivers_stream_witness:
  "se_sent demo_settling 7 @ ch_upstream_suffix (the (cs_chosen demo_settlement)) = se_replay demo_settling"
  using settlement_delivers_stream [OF settle_refl demo_settles [unfolded demo_settling_def]]
  by (simp add: demo_settlement_def demo_settling_def choose_candidate_def)

text \<open>A candidate is chosen either because Virtual Desktop wrote on it, and then the bytes it
  wrote are handed on, or it is the earliest arrival among the connections still open.\<close>

theorem settlement_choice:
  assumes "settle_reachable (settle_start g first now0 obs) st" "settles st s st'"
    and "cs_chosen s = Some ch"
  shows "ch_client_prefix ch \<noteq> [] \<and> cs_outcome s = ''client_data'' \<or>
    ch_client_prefix ch = [] \<and> (\<forall>c \<in> set (se_candidates st'). ch_arrival ch \<le> ca_arrival c)"
  using assms(2)
proof (cases rule: settles.cases)
  case (settles_decided joined now)
  have "settle_inv st" using settle_reachable_inv [OF assms(1) settle_inv_start] .
  then have inv: "settle_inv st'"
    using settle_inv_decide [OF settle_inv_join, of st joined now] settles_decided by simp
  from settle_decide_chosen [OF settles_decided(2) assms(3)] obtain out where
    "s = choose_candidate (se_candidates st') 0 [] (se_replay st') (se_arrivals (settle_join joined st)) out"
    "se_candidates st' \<noteq> []" by auto
  moreover from this(2) inv have "\<forall>c \<in> set (se_candidates st'). ca_arrival (se_candidates st' ! 0) \<le> ca_arrival c"
    by (cases "se_candidates st'") (auto simp: settle_inv_def less_imp_le)
  ultimately show ?thesis using assms(3) by (auto simp: choose_candidate_def Let_def)
next
  case (settles_on_data joined now deadline rd ev got put)
  from settle_event_chosen [OF settles_on_data(5)] obtain i bs where "bs \<noteq> []"
    "s = choose_candidate (se_candidates st') i bs (se_replay st') (se_arrivals st') ''client_data''" by blast
  then show ?thesis using assms(3) by (auto simp: choose_candidate_def Let_def)
qed

text \<open>C10. The loop never waits past its limits and never spins: a round that goes on waits for a
  deadline in the future, and once the join window and the overall limit have passed the next
  round settles.  After the replay buffer is full or the Streamer has closed, two or more
  candidates get at most the decision timeout.\<close>

theorem settlement_deadlines:
  "(case fst (settle_decide now st) of
      Inr deadline \<Rightarrow> now < deadline \<and> deadline \<le> max (se_join_deadline st) (se_give_up st) \<and>
        (exhausted st \<and> 2 \<le> length (se_candidates st) \<and> se_decision_deadline st = None \<longrightarrow>
           deadline \<le> now + CANDIDATE_DECISION_TIMEOUT)
    | Inl s \<Rightarrow> (cs_chosen s = None) = (se_candidates st = [])) \<and>
   (max (se_join_deadline st) (se_give_up st) \<le> now \<longrightarrow> (\<exists>s. fst (settle_decide now st) = Inl s))"
proof -
  have "se_candidates st = [] \<or> length (se_candidates st) = 1 \<or> 2 \<le> length (se_candidates st)"
    by (cases "se_candidates st"; cases "tl (se_candidates st)") auto
  then show ?thesis
    by (elim disjE; cases "se_decision_deadline st")
       (auto simp: settle_decide_def Let_def choose_candidate_def)
qed


theorem settlement_deadlines_witness:
  "\<exists>s. fst (settle_decide CANDIDATE_UNRESOLVED_LIMIT demo_settling) = Inl s"
  using settlement_deadlines [where now = CANDIDATE_UNRESOLVED_LIMIT and st = demo_settling]
  by (simp add: demo_settling_def settle_start_def CandidateGroup_new_def CANDIDATE_JOIN_WINDOW_def
      CANDIDATE_UNRESOLVED_LIMIT_def)

text \<open>A newer accept on a Streamer port takes the port over: the group it opens is the only one
  of that port that can be joined, and only within its window; the group it replaces is closed,
  so a late duplicate of the previous attempt can no longer reach the earlier flow.  The other
  ports keep their groups.\<close>

theorem newest_group_owns_port:
  assumes "candidates_inv st" "streamer_port_index port = Some i"
    and "StreamerCandidates_open port bound now st = (lease, st')"
  shows "candidates_inv st' \<and> lease = Some (length (sc_store st)) \<and>
    StreamerCandidates_joinable port later st' =
      (if later < now + CANDIDATE_JOIN_WINDOW then lease else None) \<and>
    (\<forall>old. sc_groups st ! i = Some old \<longrightarrow> \<not> is_joinable later (sc_store st' ! old)) \<and>
    (\<forall>port' j. streamer_port_index port' = Some j \<longrightarrow> j \<noteq> i \<longrightarrow>
       StreamerCandidates_joinable port' later st' = StreamerCandidates_joinable port' later st)"
proof -
  note e = open_effect [OF assms]
  have "sc_groups st' ! i = lease" using e(1-3) by simp
  then have "StreamerCandidates_joinable port later st' =
      (if later < now + CANDIDATE_JOIN_WINDOW then lease else None)"
    using assms(2) e(2,5)
    by (simp add: StreamerCandidates_joinable_def is_joinable_def CandidateGroup_new_def)
  moreover have "\<not> is_joinable later (sc_store st' ! old)" if "sc_groups st ! i = Some old" for old
    using that e(1) e(6) [of old] assms(1)
    by (auto simp: is_joinable_def CandidateGroup_close_def candidates_inv_def)
  moreover have "StreamerCandidates_joinable port' later st' = StreamerCandidates_joinable port' later st"
    if j: "streamer_port_index port' = Some j" "j \<noteq> i" for port' j
  proof -
    have "j < length (sc_groups st)"
      using j(1) assms(1) by (auto simp: streamer_port_index_def position_Some candidates_inv_def)
    then have "sc_store st' ! g = sc_store st ! g" if "sc_groups st ! j = Some g" for g
      using that e(1) e(6) [of g] assms(1) j(2) by (auto simp: candidates_inv_def)
    then show ?thesis using j e(3) by (simp add: StreamerCandidates_joinable_def split: option.split)
  qed
  ultimately show ?thesis using open_inv [OF assms] e(2) by blast
qed

end
