(* ===== verification/SocksServer.thy ===== *)
theory SocksServer
  imports Pool SocksWire RelayGate Candidates UdpRelay
begin

text \<open>
  The SOCKS server of \<^verbatim>\<open>socks.rs\<close>: the Virtual Desktop flow monitor, the observed relay of a flow,
  \<^verbatim>\<open>handle_connect\<close> and \<^verbatim>\<open>handle\<close>, and \<^verbatim>\<open>serve_on\<close> as a pool of sessions that share the relay gate, the
  connection permits and the counters.  The operating system (name resolution, local-address
  probing, connecting, copying) is a record of answers that the definitions take as an argument.
\<close>

section \<open>The Virtual Desktop flow monitor\<close>

text \<open>The counters are arrays over the four Streamer ports.\<close>

record VirtualDesktopFlowMonitor =
  vd_active :: "nat \<Rightarrow> nat"
  vd_forwarding :: "nat \<Rightarrow> nat"

record VirtualDesktopFlowGuard =
  fg_index :: nat
  fg_forwarded :: bool

record VirtualDesktopFlowSnapshot =
  vs_connected :: bool
  vs_active_ports :: nat
  vs_active_flows :: "nat list"

definition VirtualDesktopFlowMonitor_default :: VirtualDesktopFlowMonitor where
  "VirtualDesktopFlowMonitor_default = \<lparr>vd_active = (\<lambda>_. 0), vd_forwarding = (\<lambda>_. 0)\<rparr>"

definition flow_begin ::
  "u16 \<Rightarrow> VirtualDesktopFlowMonitor \<Rightarrow> VirtualDesktopFlowGuard option \<times> VirtualDesktopFlowMonitor" where
  "flow_begin destination_port m =
     (case position (\<lambda>port. port = destination_port) VIRTUAL_DESKTOP_STREAMER_PORTS of
        None \<Rightarrow> (None, m)
      | Some index \<Rightarrow>
          (Some \<lparr>fg_index = index, fg_forwarded = False\<rparr>,
           m\<lparr>vd_active := (vd_active m)(index := vd_active m index + 1)\<rparr>))"

definition mark_forwarded ::
  "VirtualDesktopFlowGuard \<Rightarrow> VirtualDesktopFlowMonitor \<Rightarrow> VirtualDesktopFlowGuard \<times> VirtualDesktopFlowMonitor"
where
  "mark_forwarded g m =
     (if fg_forwarded g then (g, m)
      else (g\<lparr>fg_forwarded := True\<rparr>,
            m\<lparr>vd_forwarding := (vd_forwarding m)(fg_index g := vd_forwarding m (fg_index g) + 1)\<rparr>))"

definition flow_drop :: "VirtualDesktopFlowGuard \<Rightarrow> VirtualDesktopFlowMonitor \<Rightarrow> VirtualDesktopFlowMonitor" where
  "flow_drop g m =
     (let m = (if fg_forwarded g
               then m\<lparr>vd_forwarding := (vd_forwarding m)(fg_index g := vd_forwarding m (fg_index g) - 1)\<rparr>
               else m)
      in m\<lparr>vd_active := (vd_active m)(fg_index g := vd_active m (fg_index g) - 1)\<rparr>)"

definition flow_snapshot :: "VirtualDesktopFlowMonitor \<Rightarrow> VirtualDesktopFlowSnapshot" where
  "flow_snapshot m =
     (let ports = [0..<length VIRTUAL_DESKTOP_STREAMER_PORTS];
          active_flows = map (vd_active m) ports; forwarding_flows = map (vd_forwarding m) ports
      in \<lparr>vs_connected = list_all (\<lambda>count. count > 0) forwarding_flows,
          vs_active_ports = length (filter (\<lambda>count. count > 0) active_flows),
          vs_active_flows = active_flows\<rparr>)"

section \<open>Observed I/O\<close>

datatype 'a poll = Pending | Ready "io_kind + 'a"

text \<open>A read that is ready without new bytes in the buffer is the end of the stream.\<close>

definition observe_read ::
  "FlowEndpoint \<Rightarrow> nat \<Rightarrow> nat \<Rightarrow> unit poll \<Rightarrow> FlowTerminal option \<Rightarrow> FlowTerminal option" where
  "observe_read endpoint filled_before filled_after result obs =
     (case result of
        Ready (Inr _) \<Rightarrow> if filled_after = filled_before then FlowObservation_record endpoint ReadEof obs else obs
      | Ready (Inl _) \<Rightarrow> FlowObservation_record endpoint ReadError obs
      | Pending \<Rightarrow> obs)"

definition observe_error :: "FlowEndpoint \<Rightarrow> FlowTerminalEvent \<Rightarrow> unit poll \<Rightarrow> FlowTerminal option \<Rightarrow> FlowTerminal option"
where
  "observe_error endpoint event result obs =
     (case result of Ready (Inl _) \<Rightarrow> FlowObservation_record endpoint event obs | _ \<Rightarrow> obs)"

text \<open>A flush and a shutdown that fail end the flow like a failed write.\<close>

definition observe_flush :: "FlowEndpoint \<Rightarrow> unit poll \<Rightarrow> FlowTerminal option \<Rightarrow> FlowTerminal option" where
  "observe_flush endpoint result obs = observe_error endpoint WriteError result obs"

definition observe_shutdown :: "FlowEndpoint \<Rightarrow> unit poll \<Rightarrow> FlowTerminal option \<Rightarrow> FlowTerminal option" where
  "observe_shutdown endpoint result obs = observe_error endpoint WriteError result obs"

type_synonym observed_flow = "FlowTerminal option \<times> VirtualDesktopFlowGuard option \<times> VirtualDesktopFlowMonitor"

definition observe_write :: "FlowEndpoint \<Rightarrow> nat poll \<Rightarrow> observed_flow \<Rightarrow> observed_flow" where
  "observe_write endpoint result f =
     (let (obs, flow, m) = f in
      case result of
        Ready (Inr n) \<Rightarrow>
          if n > 0 then
            (case flow of
               Some g \<Rightarrow> (let (g, m) = mark_forwarded g m in (obs, Some g, m))
             | None \<Rightarrow> (obs, None, m))
          else (obs, flow, m)
      | Ready (Inl _) \<Rightarrow> (FlowObservation_record endpoint WriteError obs, flow, m)
      | Pending \<Rightarrow> (obs, flow, m))"

text \<open>\<^verbatim>\<open>relay_flow\<close>: the bytes read before the choice go first, each write may fail, then the two
  directions are copied; the totals count both.\<close>

definition relay_flow ::
  "bytes \<Rightarrow> bytes \<Rightarrow> io_kind option \<Rightarrow> io_kind option \<Rightarrow> io_kind + (u64 \<times> u64) \<Rightarrow> io_kind + (u64 \<times> u64)" where
  "relay_flow client_prefix upstream_suffix prefix_error suffix_error copied =
     (case prefix_error of
        Some k \<Rightarrow> Inl k
      | None \<Rightarrow>
          (case suffix_error of
             Some k \<Rightarrow> Inl k
           | None \<Rightarrow>
               (case copied of
                  Inl k \<Rightarrow> Inl k
                | Inr (from_client, from_upstream) \<Rightarrow>
                    Inr (from_client + word_of_nat (length client_prefix),
                         from_upstream + word_of_nat (length upstream_suffix)))))"

section \<open>Server state\<close>

record SocksStats =
  st_accepted :: u64
  st_rejected :: u64
  st_active :: nat
  st_tcp_tx_bytes :: u64
  st_tcp_rx_bytes :: u64

definition SocksStats_default :: SocksStats where
  "SocksStats_default = \<lparr>st_accepted = 0, st_rejected = 0, st_active = 0, st_tcp_tx_bytes = 0,
     st_tcp_rx_bytes = 0\<rparr>"

record SocksStatsSnapshot =
  sn_accepted_connections :: u64
  sn_rejected_connections :: u64
  sn_active_connections :: nat
  sn_tcp_tx_bytes :: u64
  sn_tcp_rx_bytes :: u64
  sn_udp :: UdpStatsSnapshot
  sn_virtual_desktop :: VirtualDesktopFlowSnapshot

record SocksConfig =
  co_bind :: SocketAddr
  co_command_policy :: SocksCommandPolicy
  co_max_connections :: nat
  co_handshake_timeout :: duration
  co_connect_timeout :: duration
  co_fwd_udp :: FwdUdpConfig


definition SocksConfig_default :: SocksConfig where
  "SocksConfig_default = \<lparr>co_bind = V4 [127, 0, 0, 1] SOCKS_PORT, co_command_policy = ConnectOnly,
     co_max_connections = 64, co_handshake_timeout = 3 * 1000000000, co_connect_timeout = 10 * 1000000000,
     co_fwd_udp = FwdUdpConfig_default\<rparr>"

text \<open>What the sessions of a server share; \<open>so_events\<close> is the diagnostics log, if there is one.\<close>

record SocksState =
  so_config :: SocksConfig
  so_stats :: SocksStats
  so_udp_stats :: UdpStats
  so_flows :: VirtualDesktopFlowMonitor
  so_candidates :: StreamerCandidates
  so_events :: "(string \<times> json) list option"
  so_gate :: "RelayGateState option"
  so_permits :: nat

text \<open>\<^verbatim>\<open>SocksServer::new\<close> followed by \<^verbatim>\<open>with_diagnostics\<close> and \<^verbatim>\<open>with_relay_gate\<close>; the permits are those
  \<^verbatim>\<open>serve_on\<close> creates.\<close>

definition SocksServer_new ::
  "SocksConfig \<Rightarrow> (string \<times> json) list option \<Rightarrow> RelayGateState option \<Rightarrow> SocksError + SocksState" where
  "SocksServer_new config diagnostics relay_gate =
     (if \<not> is_loopback (co_bind config) then Inl (SE_NonLoopbackBind (co_bind config))
      else if co_max_connections config = 0 \<or> fc_queue_capacity (co_fwd_udp config) = 0 \<or>
              fc_association_byte_budget (co_fwd_udp config) = 0
      then Inl (SE_Malformed ''capacity must be non-zero'')
      else Inr \<lparr>so_config = config, so_stats = SocksStats_default, so_udp_stats = UdpStats_default,
                so_flows = VirtualDesktopFlowMonitor_default,
                so_candidates = StreamerCandidates_default, so_events = diagnostics,
                so_gate = relay_gate, so_permits = co_max_connections config\<rparr>)"

text \<open>The counters are read first, with the parts of the UDP relay and of the flow monitor empty.\<close>

definition SocksStats_snapshot :: "SocksStats \<Rightarrow> SocksStatsSnapshot" where
  "SocksStats_snapshot st =
     \<lparr>sn_accepted_connections = st_accepted st, sn_rejected_connections = st_rejected st,
      sn_active_connections = st_active st, sn_tcp_tx_bytes = st_tcp_tx_bytes st, sn_tcp_rx_bytes = st_tcp_rx_bytes st,
      sn_udp = UdpStats_snapshot UdpStats_default,
      sn_virtual_desktop = \<lparr>vs_connected = False, vs_active_ports = 0, vs_active_flows = replicate (length VIRTUAL_DESKTOP_STREAMER_PORTS) 0\<rparr>\<rparr>"

definition SocksServer_stats :: "SocksState \<Rightarrow> SocksStatsSnapshot" where
  "SocksServer_stats s =
     (SocksStats_snapshot (so_stats s))
       \<lparr>sn_udp := UdpStats_snapshot (so_udp_stats s), sn_virtual_desktop := flow_snapshot (so_flows s)\<rparr>"

definition record_event :: "string \<Rightarrow> json \<Rightarrow> SocksState \<Rightarrow> SocksState" where
  "record_event kind fs s = s\<lparr>so_events := map_option (\<lambda>evs. evs @ [(kind, fs)]) (so_events s)\<rparr>"

text \<open>The \<^verbatim>\<open>Debug\<close> form of an error kind; the kinds the host does not distinguish are all \<^verbatim>\<open>Other\<close> here.\<close>

fun kind_debug :: "io_kind \<Rightarrow> string" where
  "kind_debug UnexpectedEof = ''UnexpectedEof''"
| "kind_debug ConnectionReset = ''ConnectionReset''"
| "kind_debug ConnectionRefused = ''ConnectionRefused''"
| "kind_debug WouldBlock = ''WouldBlock''"
| "kind_debug NotFound = ''NotFound''"
| "kind_debug InvalidInput = ''InvalidInput''"
| "kind_debug OtherIo = ''Other''"

definition diagnostic_fields :: "SocksError \<Rightarrow> json" where
  "diagnostic_fields e =
     (case e of
        SE_Connect kind local_port \<Rightarrow>
          JObject [(''category'', JString (SocksError_category e)), (''error_kind'', JString (kind_debug kind)),
            (''local_destination_port'',
             case local_port of None \<Rightarrow> JNull | Some p \<Rightarrow> JNumber (uint p))]
      | _ \<Rightarrow> JObject [(''category'', JString (SocksError_category e))])"


section \<open>CONNECT\<close>

fun endpoint_port :: "Endpoint \<Rightarrow> u16" where
  "endpoint_port (Socket address) = socket_port address"
| "endpoint_port (Domain _ port) = port"

fun set_port :: "u16 \<Rightarrow> SocketAddr \<Rightarrow> SocketAddr" where
  "set_port p (V4 ip _) = V4 ip p"
| "set_port p (V6 ip _ flow scope) = V6 ip p flow scope"

fun socket_ip :: "SocketAddr \<Rightarrow> bool \<times> bytes" where
  "socket_ip (V4 ip _) = (True, ip)"
| "socket_ip (V6 ip _ _ _) = (False, ip)"

text \<open>A network adapter as Windows lists it; an address entry that is not a usable IPv4 socket address
  is \<open>None\<close>.  Elsewhere than on Windows the list is empty.\<close>

record Adapter =
  ad_if_type :: u32
  ad_up :: bool
  ad_has_gateway :: bool
  ad_metric :: u32
  ad_unicast :: "bytes option list"

definition IF_TYPE_ETHERNET_CSMACD :: u32 where "IF_TYPE_ETHERNET_CSMACD = 6"
definition IF_TYPE_IEEE80211 :: u32 where "IF_TYPE_IEEE80211 = 71"

definition adapter_eligible :: "Adapter \<Rightarrow> bool" where
  "adapter_eligible a \<longleftrightarrow> ad_up a \<and> ad_if_type a \<in> {IF_TYPE_ETHERNET_CSMACD, IF_TYPE_IEEE80211} \<and> ad_has_gateway a"

definition address_eligible :: "bytes \<Rightarrow> bool" where
  "address_eligible ip \<longleftrightarrow> ip ! 0 \<noteq> 127 \<and> ip \<noteq> [0, 0, 0, 0]"

definition select_address :: "u32 \<Rightarrow> bytes option \<Rightarrow> (u32 \<times> bytes) option \<Rightarrow> (u32 \<times> bytes) option" where
  "select_address metric address selected =
     (case address of
        Some candidate \<Rightarrow>
          if address_eligible candidate \<and>
             (case selected of None \<Rightarrow> True | Some (best, _) \<Rightarrow> metric < best)
          then Some (metric, candidate) else selected
      | None \<Rightarrow> selected)"

definition select_adapter :: "Adapter \<Rightarrow> (u32 \<times> bytes) option \<Rightarrow> (u32 \<times> bytes) option" where
  "select_adapter a selected =
     (if adapter_eligible a then fold (select_address (ad_metric a)) (ad_unicast a) selected else selected)"

definition physical_lan_ipv4_target :: "Adapter list \<Rightarrow> u16 \<Rightarrow> SocketAddr option" where
  "physical_lan_ipv4_target adapters destination_port =
     map_option (\<lambda>(_, address). V4 address destination_port) (fold select_adapter adapters None)"

text \<open>The answers of the operating system: name resolution, whether a socket can be bound to an
  address, the network adapters, the
  outcome of connecting (the local address of the stream), whether the connect timeout expires,
  and the failures of the calls on the connected sockets.\<close>

text \<open>A new TCP socket of one family; on Windows a connect to the host itself does without repeated SYNs, if the stack knows
  that option.\<close>

record tcp_socket =
  tk_v6 :: bool
  tk_syn_retransmissions :: bool

record connect_env =
  ce_lookup :: "bytes \<Rightarrow> u16 \<Rightarrow> io_kind + SocketAddr list"
  ce_bindable :: "SocketAddr \<Rightarrow> bool"
  ce_adapters :: "Adapter list"
  ce_socket :: "bool \<Rightarrow> io_kind option"
  ce_windows :: bool
  ce_syn_option :: bool
  ce_connect :: "tcp_socket \<Rightarrow> SocketAddr \<Rightarrow> io_kind + SocketAddr"
  ce_timeout :: bool
  ce_client_nodelay :: "io_kind option"
  ce_upstream_nodelay :: "io_kind option"
  ce_local_addr :: "io_kind option"

definition socket_address_is_local :: "(SocketAddr \<Rightarrow> bool) \<Rightarrow> SocketAddr \<Rightarrow> bool" where
  "socket_address_is_local bindable target = bindable (set_port 0 target)"

text \<open>The future under the connect timeout: the bound address, whether the target was replaced by the
  physical LAN address, and whether the destination is one of the host's own addresses.\<close>

definition connect_target :: "connect_env \<Rightarrow> u16 \<Rightarrow> bool \<Rightarrow> SocketAddr \<Rightarrow> SocketAddr" where
  "connect_target env destination_port canonical_local_target resolved_target =
     (if canonical_local_target
      then (case physical_lan_ipv4_target (ce_adapters env) destination_port of Some a \<Rightarrow> a | None \<Rightarrow> resolved_target)
      else resolved_target)"

definition disable_syn_retransmissions :: "connect_env \<Rightarrow> tcp_socket \<Rightarrow> tcp_socket" where
  "disable_syn_retransmissions env sock =
     (if ce_windows env \<and> ce_syn_option env then sock\<lparr>tk_syn_retransmissions := False\<rparr> else sock)"

definition connect_upstream :: "connect_env \<Rightarrow> SocketAddr \<Rightarrow> bool \<Rightarrow> io_kind + SocketAddr" where
  "connect_upstream env target local_target =
     (let v6 = (case target of V4 _ _ \<Rightarrow> False | V6 _ _ _ _ \<Rightarrow> True) in
      case ce_socket env v6 of
        Some kind \<Rightarrow> Inl kind
      | None \<Rightarrow>
          let sock = \<lparr>tk_v6 = v6, tk_syn_retransmissions = True\<rparr> in
          ce_connect env (if local_target then disable_syn_retransmissions env sock else sock) target)"

definition connect_attempt :: "connect_env \<Rightarrow> Endpoint \<Rightarrow> SocksError + (SocketAddr \<times> bool \<times> bool)" where
  "connect_attempt env destination =
     (let destination_port = endpoint_port destination;
          vd_streamer_flow = (destination_port \<in> set VIRTUAL_DESKTOP_STREAMER_PORTS) in
      case Endpoint_resolve (ce_lookup env) destination of
        Inl e \<Rightarrow> Inl (SE_Resolve e)
      | Inr resolved_target \<Rightarrow>
          let local_target = socket_address_is_local (ce_bindable env) resolved_target;
              target = connect_target env destination_port (vd_streamer_flow \<and> local_target) resolved_target
          in case connect_upstream env target local_target of
               Inl kind \<Rightarrow> Inl (SE_Connect kind (if local_target then Some destination_port else None))
             | Inr bound \<Rightarrow> Inr (bound, socket_ip target \<noteq> socket_ip resolved_target, local_target))"

datatype connect_result =
    ConnectFailed SocksError
  | ConnectJoined nat
  | ConnectFlow SocketAddr "nat option" "VirtualDesktopFlowGuard option"

text \<open>A refused duplicate joins the accepted flow: it is told the connect succeeded, and if the group
  closed in the meantime the refusal stands.\<close>

definition join_streamer_candidate ::
  "connect_env \<Rightarrow> instant \<Rightarrow> socket \<Rightarrow> nat \<Rightarrow> SocksError \<Rightarrow> client_io \<Rightarrow> SocksState
     \<Rightarrow> connect_result \<times> client_io \<times> SocksState" where
  "join_streamer_candidate env now sock ref refusal c s =
     (case ce_client_nodelay env of
        Some k \<Rightarrow> (ConnectFailed (SE_Io k), c, s)
      | None \<Rightarrow>
          (let g = sc_store (so_candidates s) ! ref in
           case write_reply 0 (Socket (cg_bound g)) c of
             (Inl e, c) \<Rightarrow> (ConnectFailed e, c, s)
           | (Inr _, c) \<Rightarrow>
               (case CandidateGroup_join now sock g of
                  (Inl _, _) \<Rightarrow> (ConnectFailed refusal, c, s)
                | (Inr _, g) \<Rightarrow>
                    (ConnectJoined ref, c, s\<lparr>so_candidates := (so_candidates s)
                       \<lparr>sc_store := (sc_store (so_candidates s))[ref := g]\<rparr>\<rparr>))))"

definition connect_refused ::
  "connect_env \<Rightarrow> instant \<Rightarrow> instant \<Rightarrow> socket \<Rightarrow> u16 \<Rightarrow> SocksError \<Rightarrow> client_io \<Rightarrow> SocksState
     \<Rightarrow> connect_result \<times> client_io \<times> SocksState" where
  "connect_refused env now later sock destination_port error c s =
     (case (if destination_port \<in> set VIRTUAL_DESKTOP_STREAMER_PORTS \<and> is_local_refusal error
            then StreamerCandidates_joinable destination_port now (so_candidates s) else None) of
        Some ref \<Rightarrow> join_streamer_candidate env later sock ref error c s
      | None \<Rightarrow> (ConnectFailed error, refuse 5 c, s))"

text \<open>An accepted connect: the group is opened before the reply, and closed again if the reply fails.\<close>

definition connect_accepted ::
  "connect_env \<Rightarrow> instant \<Rightarrow> u16 \<Rightarrow> SocketAddr \<Rightarrow> bool \<Rightarrow> bool \<Rightarrow> client_io \<Rightarrow> SocksState
     \<Rightarrow> connect_result \<times> client_io \<times> SocksState" where
  "connect_accepted env now destination_port bound canonicalized local_target c s =
     (let vd_streamer_flow = (destination_port \<in> set VIRTUAL_DESKTOP_STREAMER_PORTS);
          port_field = JObject [(''destination_port'', JNumber (uint destination_port))];
          s = (if canonicalized then record_event ''vd_streamer_local_target_canonicalized'' port_field s else s)
      in case (ce_client_nodelay env, ce_upstream_nodelay env, ce_local_addr env) of
           (Some k, _, _) \<Rightarrow> (ConnectFailed (SE_Io k), c, s)
         | (None, Some k, _) \<Rightarrow> (ConnectFailed (SE_Io k), c, s)
         | (None, None, Some k) \<Rightarrow> (ConnectFailed (SE_Io k), c, s)
         | (None, None, None) \<Rightarrow>
             (let (lease, cands) =
                    (if vd_streamer_flow \<and> local_target
                     then StreamerCandidates_open destination_port bound now (so_candidates s)
                     else (None, so_candidates s));
                  s = s\<lparr>so_candidates := cands\<rparr>
              in case write_reply 0 (Socket bound) c of
                   (Inl e, c) \<Rightarrow>
                     (ConnectFailed e, c,
                      case lease of None \<Rightarrow> s
                      | Some ref \<Rightarrow> s\<lparr>so_candidates := close_group ref (so_candidates s)\<rparr>)
                 | (Inr _, c) \<Rightarrow>
                     (let (flow, m) = flow_begin destination_port (so_flows s);
                          s = s\<lparr>so_flows := m\<rparr>;
                          s = (if vd_streamer_flow then record_event ''vd_streamer_flow_opened'' port_field s else s)
                      in (ConnectFlow bound lease flow, c, s))))"

text \<open>\<open>now\<close> is when the outcome of the attempt is known, \<open>later\<close> when a refused duplicate joins.\<close>

definition connect_open ::
  "connect_env \<Rightarrow> instant \<Rightarrow> instant \<Rightarrow> socket \<Rightarrow> Endpoint \<Rightarrow> client_io \<Rightarrow> SocksState
     \<Rightarrow> connect_result \<times> client_io \<times> SocksState" where
  "connect_open env now later sock destination c s =
     (if ce_timeout env then (ConnectFailed SE_ConnectTimeout, refuse 4 c, s)
      else
        (case connect_attempt env destination of
           Inl error \<Rightarrow> connect_refused env now later sock (endpoint_port destination) error c s
         | Inr (bound, canonicalized, local_target) \<Rightarrow>
             connect_accepted env now (endpoint_port destination) bound canonicalized local_target c s))"

section \<open>The end of a flow\<close>

definition record_candidate_settlement :: "u16 \<Rightarrow> CandidateSettlement \<Rightarrow> SocksState \<Rightarrow> SocksState" where
  "record_candidate_settlement destination_port st s =
     (if cs_arrivals st < 2 then s
      else record_event ''vd_streamer_candidates_settled''
             (JObject [(''destination_port'', JNumber (uint destination_port)),
                (''candidates'', JNumber (int (cs_arrivals st))),
                (''chosen_arrival'',
                 case cs_chosen st of None \<Rightarrow> JNull | Some ch \<Rightarrow> JNumber (int (ch_arrival ch))),
                (''outcome'', JString (cs_outcome st))]) s)"

text \<open>What the flow transferred: the settlement adds what the chosen connection had already received,
  and a settlement without a choice transfers nothing.  \<open>relay\<close> is the result of \<open>relay_flow\<close> on
  the chosen prefix and suffix.\<close>

definition flow_transfer ::
  "CandidateSettlement option \<Rightarrow> (bytes \<Rightarrow> bytes \<Rightarrow> io_kind + (u64 \<times> u64)) \<Rightarrow> io_kind + (u64 \<times> u64)" where
  "flow_transfer settlement relay =
     (case settlement of
        None \<Rightarrow> relay [] []
      | Some st \<Rightarrow>
          (case cs_chosen st of
             None \<Rightarrow> Inr (0, 0)
           | Some ch \<Rightarrow>
               (case relay (ch_client_prefix ch) (ch_upstream_suffix ch) of
                  Inl k \<Rightarrow> Inl k
                | Inr (from_client, from_upstream) \<Rightarrow>
                    Inr (from_client, from_upstream + word_of_nat (ch_delivered ch)))))"

definition flow_ended_fields ::
  "u16 \<Rightarrow> u64 \<Rightarrow> FlowTerminal option \<Rightarrow> io_kind + (u64 \<times> u64) \<Rightarrow> json" where
  "flow_ended_fields destination_port duration_ms first_terminal transfer =
     (let side = (case first_terminal of None \<Rightarrow> ''unknown'' | Some (e, _) \<Rightarrow> FlowEndpoint_as_str e);
          event = (case first_terminal of None \<Rightarrow> ''unknown'' | Some (_, e) \<Rightarrow> FlowTerminalEvent_as_str e)
      in JObject (case transfer of
           Inr (from_client, from_upstream) \<Rightarrow>
             [(''destination_port'', JNumber (uint destination_port)), (''duration_ms'', JNumber (uint duration_ms)),
              (''first_terminal_event'', JString event), (''first_terminal_side'', JString side),
              (''outcome'', JString ''eof''), (''tx_bytes'', JNumber (uint from_client)),
              (''rx_bytes'', JNumber (uint from_upstream))]
         | Inl k \<Rightarrow>
             [(''destination_port'', JNumber (uint destination_port)), (''duration_ms'', JNumber (uint duration_ms)),
              (''error_category'', JString (kind_debug k)),
              (''first_terminal_event'', JString event), (''first_terminal_side'', JString side),
              (''outcome'', JString ''io_error'')]))"

text \<open>After the settlement: the lease is dropped, the settlement recorded, and a flow whose chosen
  connection has already received data counts as forwarding.\<close>

definition connect_settled ::
  "u16 \<Rightarrow> nat option \<Rightarrow> CandidateSettlement option \<Rightarrow> VirtualDesktopFlowGuard option \<Rightarrow> SocksState
     \<Rightarrow> VirtualDesktopFlowGuard option \<times> SocksState" where
  "connect_settled destination_port lease settlement flow s =
     (let s = (case lease of None \<Rightarrow> s
               | Some ref \<Rightarrow> s\<lparr>so_candidates := close_group ref (so_candidates s)\<rparr>)
      in case settlement of
           None \<Rightarrow> (flow, s)
         | Some st \<Rightarrow>
             (let s = record_candidate_settlement destination_port st s in
              case (cs_chosen st, flow) of
                (Some ch, Some g) \<Rightarrow>
                  if ch_delivered ch > 0
                  then (let (g, m) = mark_forwarded g (so_flows s) in (Some g, s\<lparr>so_flows := m\<rparr>))
                  else (flow, s)
              | _ \<Rightarrow> (flow, s)))"

text \<open>The rest of \<^verbatim>\<open>handle_connect\<close> once the flow is over; \<open>flow\<close> is its guard as the relay left it, and
  it is dropped at the end.\<close>

definition connect_close ::
  "u16 \<Rightarrow> u64 \<Rightarrow> VirtualDesktopFlowGuard option \<Rightarrow> CandidateSettlement option \<Rightarrow> FlowTerminal option
     \<Rightarrow> (bytes \<Rightarrow> bytes \<Rightarrow> io_kind + (u64 \<times> u64)) \<Rightarrow> SocksState \<Rightarrow> (SocksError + unit) \<times> SocksState" where
  "connect_close destination_port duration_ms flow settlement first_terminal relay s =
     (let transfer = flow_transfer settlement relay;
          s = (if destination_port \<in> set VIRTUAL_DESKTOP_STREAMER_PORTS
               then record_event ''vd_streamer_flow_ended''
                      (flow_ended_fields destination_port duration_ms first_terminal transfer) s
               else s);
          s = (case flow of None \<Rightarrow> s | Some g \<Rightarrow> s\<lparr>so_flows := flow_drop g (so_flows s)\<rparr>)
      in case transfer of
           Inl k \<Rightarrow> (Inl (SE_Io k), s)
         | Inr (from_client, from_upstream) \<Rightarrow>
             (Inr (), s\<lparr>so_stats := (so_stats s)
                \<lparr>st_tcp_tx_bytes := st_tcp_tx_bytes (so_stats s) + from_client,
                 st_tcp_rx_bytes := st_tcp_rx_bytes (so_stats s) + from_upstream\<rparr>\<rparr>))"


section \<open>A session\<close>

datatype handled = HandleFailed SocksError | HandleConnect connect_result | HandleFwdUdp

text \<open>\<^verbatim>\<open>handle\<close> up to the transfer: a CONNECT goes to \<open>connect_open\<close>, a forwarded UDP association is
  acknowledged with the loopback address and continues as \<open>relay_start\<close>.\<close>

definition handle ::
  "connect_env \<Rightarrow> bool \<Rightarrow> instant \<Rightarrow> instant \<Rightarrow> socket \<Rightarrow> client_io \<Rightarrow> SocksState \<Rightarrow> handled \<times> client_io \<times> SocksState" where
  "handle env stalled now later sock c s =
     (case admit_request (co_command_policy (so_config s)) stalled c of
        (Inl e, c) \<Rightarrow> (HandleFailed e, c, s)
      | (Inr request, c) \<Rightarrow>
          (case sr_command request of
             Connect \<Rightarrow>
               (let (x, c, s) = connect_open env now later sock (sr_destination request) c s in (HandleConnect x, c, s))
           | FwdUdp \<Rightarrow>
               (case write_reply 0 localhost_v4 c of
                  (Inl e, c) \<Rightarrow> (HandleFailed e, c, s)
                | (Inr _, c) \<Rightarrow> (HandleFwdUdp, c, s))))"

datatype session =
    S_Rejected
  | S_Admitted (s_lease: "u64 option")
  | S_Serving (s_lease: "u64 option")
  | S_Finishing "SocksError + unit"
  | S_Ended

definition reject_connection :: "string \<Rightarrow> SocksState \<Rightarrow> SocksState" where
  "reject_connection category s =
     record_event ''socks_connection_error'' (JObject [(''category'', JString category)])
       (s\<lparr>so_stats := (so_stats s)\<lparr>st_rejected := st_rejected (so_stats s) + 1\<rparr>\<rparr>)"

definition admit_connection :: "u64 option \<Rightarrow> SocksState \<Rightarrow> SocksState \<times> session" where
  "admit_connection lease s =
     (if so_permits s = 0 then (reject_connection ''capacity'' s, S_Rejected)
      else (s\<lparr>so_permits := so_permits s - 1,
             so_stats := (so_stats s)\<lparr>st_accepted := st_accepted (so_stats s) + 1\<rparr>\<rparr>, S_Admitted lease))"

definition accept_connection :: "SocksState \<Rightarrow> SocksState \<times> session" where
  "accept_connection s =
     (case so_gate s of
        None \<Rightarrow> admit_connection None s
      | Some g \<Rightarrow>
          (case active_generation g of
             None \<Rightarrow> (reject_connection ''relay_inactive'' s, S_Rejected)
           | Some generation \<Rightarrow> admit_connection (Some generation) s))"

definition session_begin :: "u64 option \<Rightarrow> SocksState \<Rightarrow> SocksState \<times> session" where
  "session_begin lease s =
     (s\<lparr>so_stats := (so_stats s)\<lparr>st_active := st_active (so_stats s) + 1\<rparr>\<rparr>, S_Serving lease)"

definition session_finish :: "SocksError + unit \<Rightarrow> SocksState \<Rightarrow> SocksState \<times> session" where
  "session_finish result s =
     (s\<lparr>so_stats := (so_stats s)\<lparr>st_active := st_active (so_stats s) - 1\<rparr>\<rparr>, S_Finishing result)"

definition session_release :: "SocksError + unit \<Rightarrow> SocksState \<Rightarrow> SocksState \<times> session" where
  "session_release result s =
     (let s = s\<lparr>so_permits := so_permits s + 1\<rparr> in
      (case result of
         Inl e \<Rightarrow> record_event ''socks_connection_error'' (diagnostic_fields e) s
       | Inr _ \<Rightarrow> s, S_Ended))"

text \<open>While a session is served its handler may do anything to the shared state except touch the
  configuration, the gate, the permits and the count of active sessions.\<close>

definition handler_frame :: "SocksState \<Rightarrow> SocksState \<Rightarrow> bool" where
  "handler_frame s s' \<longleftrightarrow> so_config s' = so_config s \<and> so_gate s' = so_gate s \<and>
     so_permits s' = so_permits s \<and> st_active (so_stats s') = st_active (so_stats s)"

inductive session_step :: "SocksState \<times> session \<Rightarrow> SocksState \<times> session \<Rightarrow> bool" where
  ss_begin: "session_step (s, S_Admitted lease) (session_begin lease s)"
| ss_work: "handler_frame s s' \<Longrightarrow> session_step (s, S_Serving lease) (s', S_Serving lease)"
| ss_finish: "session_step (s, S_Serving lease) (session_finish result s)"
| ss_invalidated: "so_gate s = Some g \<Longrightarrow> wait_for_invalidation generation [g] \<noteq> None \<Longrightarrow>
    session_step (s, S_Serving (Some generation)) (session_finish (Inl SE_RelayInactive) s)"
| ss_release: "session_step (s, S_Finishing result) (session_release result s)"

definition session_accept :: "SocksState \<Rightarrow> SocksState \<times> session \<Rightarrow> bool" where
  "session_accept s r \<longleftrightarrow> r = accept_connection s"

text \<open>The runtime changes the gate at any time.\<close>

definition gate_env :: "SocksState \<Rightarrow> SocksState \<Rightarrow> bool" where
  "gate_env s s' \<longleftrightarrow> (\<exists>x. s' = s\<lparr>so_gate := map_option (gate_apply x) (so_gate s)\<rparr>)"

section \<open>Accounting of sessions\<close>

fun serving :: "session \<Rightarrow> nat" where
  "serving (S_Serving _) = 1"
| "serving _ = 0"

fun permit_held :: "session \<Rightarrow> nat" where
  "permit_held S_Rejected = 0"
| "permit_held S_Ended = 0"
| "permit_held _ = 1"

definition permits_used :: "SocksState \<Rightarrow> nat" where
  "permits_used s = co_max_connections (so_config s) - so_permits s"

lemmas session_defs = session_begin_def session_finish_def session_release_def admit_connection_def
  reject_connection_def record_event_def handler_frame_def permits_used_def accept_connection_def Let_def

lemma handle_frame: "handle env stalled now later sock c s = (x, c', s') \<Longrightarrow> handler_frame s s'"
  by (auto simp: handle_def connect_open_def connect_refused_def connect_accepted_def
      join_streamer_candidate_def record_event_def handler_frame_def Let_def
      split: prod.splits sum.splits option.splits SocksCommand.splits if_splits)

definition permits_ok :: "SocksState \<Rightarrow> bool" where
  "permits_ok s \<longleftrightarrow> so_permits s \<le> co_max_connections (so_config s)"

interpretation active: shared_gauge gate_env session_accept session_step "\<lambda>_. True"
  "\<lambda>s. st_active (so_stats s)" serving
proof unfold_locales
  show "True \<and> st_active (so_stats s') + serving a = st_active (so_stats s) + serving a'"
    if "session_step (s, a) (s', a')" "serving a \<le> st_active (so_stats s)" for s a s' a'
    using that by (cases rule: session_step.cases) (auto simp: session_defs split: sum.splits)
qed (auto simp: gate_env_def session_accept_def session_defs split: option.splits if_splits)

interpretation permits: limited_gauge gate_env session_accept session_step permits_ok permits_used permit_held
  "\<lambda>s. co_max_connections (so_config s)"
proof unfold_locales
  show "permits_ok s' \<and> permits_used s' = permits_used s + permit_held a"
    if "session_accept s (s', a)" "permits_ok s" for s s' a
    using that by (auto simp: session_accept_def session_defs permits_ok_def split: option.splits if_splits)
  show "permits_ok s' \<and> permits_used s' + permit_held a = permits_used s + permit_held a'"
    if "session_step (s, a) (s', a')" "permits_ok s" "permit_held a \<le> permits_used s" for s a s' a'
    using that by (cases rule: session_step.cases) (auto simp: session_defs permits_ok_def split: sum.splits)
  show "co_max_connections (so_config s') = co_max_connections (so_config s) \<and>
      (permits_used s \<le> co_max_connections (so_config s) \<longrightarrow> permits_used s' \<le> co_max_connections (so_config s'))"
    if "session_step (s, a) (s', a')" for s a s' a'
    using that by (cases rule: session_step.cases) (auto simp: session_defs split: sum.splits)
  show "co_max_connections (so_config s') = co_max_connections (so_config s) \<and>
      (permits_used s \<le> co_max_connections (so_config s) \<longrightarrow> permits_used s' \<le> co_max_connections (so_config s'))"
    if "session_accept s (s', a)" for s s' a
    using that by (auto simp: session_accept_def session_defs split: option.splits if_splits)
qed (auto simp: gate_env_def permits_used_def permits_ok_def)

section \<open>Flows of the monitor\<close>

text \<open>A flow of a Streamer port, from its guard to the drop of the guard.\<close>

datatype vd_flow = FlowOpen VirtualDesktopFlowGuard | FlowDropped

inductive flow_move :: "VirtualDesktopFlowMonitor \<times> vd_flow \<Rightarrow> VirtualDesktopFlowMonitor \<times> vd_flow \<Rightarrow> bool" where
  fm_mark: "mark_forwarded g m = (g', m') \<Longrightarrow> flow_move (m, FlowOpen g) (m', FlowOpen g')"
| fm_drop: "flow_move (m, FlowOpen g) (flow_drop g m, FlowDropped)"

definition flow_spawn :: "VirtualDesktopFlowMonitor \<Rightarrow> VirtualDesktopFlowMonitor \<times> vd_flow \<Rightarrow> bool" where
  "flow_spawn m r \<longleftrightarrow> (\<exists>port g m'. flow_begin port m = (Some g, m') \<and> r = (m', FlowOpen g))"

fun flow_on :: "nat \<Rightarrow> vd_flow \<Rightarrow> nat" where
  "flow_on i (FlowOpen g) = (if fg_index g = i then 1 else 0)"
| "flow_on i FlowDropped = 0"

fun flow_forwarding :: "nat \<Rightarrow> vd_flow \<Rightarrow> nat" where
  "flow_forwarding i (FlowOpen g) = (if fg_index g = i \<and> fg_forwarded g then 1 else 0)"
| "flow_forwarding i FlowDropped = 0"

lemmas flow_defs = flow_begin_def mark_forwarded_def flow_drop_def flow_spawn_def Let_def

interpretation vd_active: shared_gauge no_env flow_spawn flow_move "\<lambda>_. True" "\<lambda>m. vd_active m i" "flow_on i"
proof unfold_locales
  show "True \<and> vd_active m' i + flow_on i a = vd_active m i + flow_on i a'"
    if "flow_move (m, a) (m', a')" "flow_on i a \<le> vd_active m i" for m a m' a'
    using that by (cases rule: flow_move.cases) (auto simp: flow_defs split: if_splits)
qed (auto simp: no_env_def flow_defs split: option.splits)

interpretation vd_forwarding: shared_gauge no_env flow_spawn flow_move "\<lambda>_. True" "\<lambda>m. vd_forwarding m i"
  "flow_forwarding i"
proof unfold_locales
  show "True \<and> vd_forwarding m' i + flow_forwarding i a = vd_forwarding m i + flow_forwarding i a'"
    if "flow_move (m, a) (m', a')" "flow_forwarding i a \<le> vd_forwarding m i" for m a m' a'
    using that by (cases rule: flow_move.cases) (auto simp: flow_defs split: if_splits)
qed (auto simp: no_env_def flow_defs split: option.splits)


section \<open>The physical LAN address\<close>

lemma select_address_best:
  "fold (select_address metric) as sel = Some (m, ip) \<Longrightarrow>
     sel = Some (m, ip) \<or> m = metric \<and> Some ip \<in> set as \<and> address_eligible ip"
proof (induction as arbitrary: sel)
  case (Cons a as)
  then have "fold (select_address metric) as (select_address metric a sel) = Some (m, ip)" by simp
  from Cons.IH [OF this] show ?case
    by (auto simp: select_address_def split: option.splits if_splits)
qed simp

lemma select_address_minimal:
  "fold (select_address metric) as sel = r \<Longrightarrow>
     (\<forall>m ip. sel = Some (m, ip) \<longrightarrow> (\<exists>m' ip'. r = Some (m', ip') \<and> m' \<le> m)) \<and>
     ((\<exists>ip. Some ip \<in> set as \<and> address_eligible ip) \<longrightarrow> (\<exists>m' ip'. r = Some (m', ip') \<and> m' \<le> metric))"
proof (induction as arbitrary: sel)
  case (Cons a as)
  then have r: "fold (select_address metric) as (select_address metric a sel) = r" by simp
  have step: "sel = Some (m, ip) \<Longrightarrow> \<exists>m' ip'. select_address metric a sel = Some (m', ip') \<and> m' \<le> m"
    "a = Some ip' \<Longrightarrow> address_eligible ip' \<Longrightarrow> \<exists>m' ip'. select_address metric a sel = Some (m', ip') \<and> m' \<le> metric"
    for m ip ip'
    by (auto simp: select_address_def split: option.splits)
  show ?case using Cons.IH [OF r] step by (auto intro: order_trans) (meson order_trans)+
qed auto

lemma select_adapter_best:
  "fold select_adapter as sel = Some (m, ip) \<Longrightarrow> sel = Some (m, ip) \<or>
     (\<exists>a \<in> set as. adapter_eligible a \<and> ad_metric a = m \<and> Some ip \<in> set (ad_unicast a) \<and> address_eligible ip)"
proof (induction as arbitrary: sel)
  case (Cons a as)
  then have "fold select_adapter as (select_adapter a sel) = Some (m, ip)" by simp
  from Cons.IH [OF this] show ?case
    by (auto simp: select_adapter_def dest!: select_address_best split: if_splits)
qed simp

lemma select_adapter_minimal:
  "fold select_adapter as sel = r \<Longrightarrow>
     (\<forall>m ip. sel = Some (m, ip) \<longrightarrow> (\<exists>m' ip'. r = Some (m', ip') \<and> m' \<le> m)) \<and>
     (\<forall>a \<in> set as. \<forall>ip. adapter_eligible a \<and> Some ip \<in> set (ad_unicast a) \<and> address_eligible ip \<longrightarrow>
        (\<exists>m' ip'. r = Some (m', ip') \<and> m' \<le> ad_metric a))"
proof (induction as arbitrary: sel)
  case (Cons a as)
  then have r: "fold select_adapter as (select_adapter a sel) = r" by simp
  note step = select_address_minimal [of "ad_metric a" "ad_unicast a" sel, OF refl]
  have "\<exists>m' ip'. r = Some (m', ip') \<and> m' \<le> m" if "sel = Some (m, ip)" for m ip
    using Cons.IH [OF r] step that
    by (cases "adapter_eligible a") (fastforce simp: select_adapter_def intro: order_trans)+
  moreover have "\<exists>m' ip'. r = Some (m', ip') \<and> m' \<le> ad_metric a"
    if "adapter_eligible a" "Some ip \<in> set (ad_unicast a)" "address_eligible ip" for ip
    using Cons.IH [OF r] step that by (fastforce simp: select_adapter_def intro: order_trans)
  ultimately show ?case using Cons.IH [OF r] by auto
qed auto

text \<open>The address that replaces a local Streamer target belongs to an adapter that is up, physical and
  routed, and no other such adapter with a usable address has a smaller metric.\<close>

lemma physical_lan_ipv4_target_best:
  assumes "physical_lan_ipv4_target adapters port = Some target"
  shows "\<exists>a ip. a \<in> set adapters \<and> target = V4 ip port \<and> adapter_eligible a \<and> Some ip \<in> set (ad_unicast a) \<and>
    address_eligible ip \<and>
    (\<forall>b \<in> set adapters. \<forall>ip'. adapter_eligible b \<and> Some ip' \<in> set (ad_unicast b) \<and> address_eligible ip' \<longrightarrow>
       ad_metric a \<le> ad_metric b)"
proof -
  from assms obtain m ip where f: "fold select_adapter adapters None = Some (m, ip)" and t: "target = V4 ip port"
    by (auto simp: physical_lan_ipv4_target_def)
  from select_adapter_best [OF f] obtain a where
    "a \<in> set adapters" "adapter_eligible a" "ad_metric a = m" "Some ip \<in> set (ad_unicast a)" "address_eligible ip"
    by auto
  with select_adapter_minimal [OF f] t show ?thesis by blast
qed

section \<open>Replies of CONNECT\<close>

definition success_bytes :: "SocketAddr \<Rightarrow> bytes" where
  "success_bytes bound = [SOCKS_VERSION, 0, 0] @ projr (encode_endpoint (Socket bound))"

lemma write_reply_success:
  "broken (cl_out c) = None \<Longrightarrow> write_reply 0 (Socket bound) c =
     (Inr (), c\<lparr>cl_out := (cl_out c)\<lparr>written := written (cl_out c) @ success_bytes bound\<rparr>\<rparr>)"
  by (cases bound) (simp_all add: write_reply_def client_write_def write_all_def success_bytes_def)

text \<open>Whether a failed attempt is offered to the accepted flow of its port.\<close>

definition duplicate_of :: "u16 \<Rightarrow> instant \<Rightarrow> SocksError \<Rightarrow> SocksState \<Rightarrow> nat option" where
  "duplicate_of port now e s =
     (if port \<in> set VIRTUAL_DESKTOP_STREAMER_PORTS \<and> is_local_refusal e
      then StreamerCandidates_joinable port now (so_candidates s) else None)"

definition connect_reply :: "u16 \<Rightarrow> instant \<Rightarrow> SocksState \<Rightarrow> connect_result \<Rightarrow> bytes" where
  "connect_reply port now s x =
     (case x of
        ConnectFlow bound _ _ \<Rightarrow> success_bytes bound
      | ConnectJoined ref \<Rightarrow> success_bytes (cg_bound (sc_store (so_candidates s) ! ref))
      | ConnectFailed e \<Rightarrow>
          if e = SE_ConnectTimeout then refusal_bytes 4
          else (case duplicate_of port now e s of
                  Some ref \<Rightarrow> success_bytes (cg_bound (sc_store (so_candidates s) ! ref))
                | None \<Rightarrow> refusal_bytes 5))"

lemma connect_attempt_error: "connect_attempt env d \<noteq> Inl SE_ConnectTimeout"
  by (auto simp: connect_attempt_def Let_def split: sum.splits)

section \<open>Concrete servers\<close>

definition demo_server :: SocksState where
  "demo_server = projr (SocksServer_new SocksConfig_default (Some []) (Some (set_enabled True RelayGateState_default)))"

lemma demo_server_new:
  "SocksServer_new SocksConfig_default (Some []) (Some (set_enabled True RelayGateState_default)) = Inr demo_server"
  by (simp add: demo_server_def SocksServer_new_def SocksConfig_default_def is_loopback_def
      FwdUdpConfig_default_def DEFAULT_ASSOCIATION_BYTE_BUDGET_def)

lemma demo_server_reachable:
  "pool_reachable gate_env session_accept session_step demo_server
     (fst (accept_connection demo_server), [snd (accept_connection demo_server)])"
proof -
  have "session_accept demo_server (fst (accept_connection demo_server), snd (accept_connection demo_server))"
    by (simp add: session_accept_def)
  from pool_next [OF pool_init pool_spawn [of session_accept, OF this, where env = gate_env and as = "[]"]]
  show ?thesis by simp
qed

lemmas demo_server_simps = demo_server_def SocksServer_new_def SocksConfig_default_def is_loopback_def
  FwdUdpConfig_default_def DEFAULT_ASSOCIATION_BYTE_BUDGET_def set_enabled_def RelayGateState_default_def

section \<open>Properties\<close>

text \<open>C11. However sessions are accepted, served, finished and cancelled, and whatever the runtime does
  with the gate, the active-connection counter is the number of sessions being served, at most
  the configured maximum is admitted at a time, and the permits left over account for the rest:
  no permit is lost and none is handed out twice.\<close>

theorem sessions_bounded:
  assumes "SocksServer_new config diagnostics gate = Inr s0"
    and "pool_reachable gate_env session_accept session_step s0 (s, sessions)"
  shows "st_active (so_stats s) = sum_list (map serving sessions) \<and>
    sum_list (map permit_held sessions) + so_permits s = co_max_connections config \<and>
    st_active (so_stats s) \<le> co_max_connections config"
proof -
  have s0: "so_permits s0 = co_max_connections config" "so_config s0 = config" "st_active (so_stats s0) = 0"
    using assms(1) by (auto simp: SocksServer_new_def SocksStats_default_def split: if_splits)
  then have "permits_ok s0" "permits_used s0 = 0" by (simp_all add: permits_ok_def permits_used_def)
  note pg = permits.pool_gauge [OF assms(2) this] permits.pool_limit [OF assms(2) this]
  have "st_active (so_stats s) = sum_list (map serving sessions)"
    using active.pool_gauge [OF assms(2)] s0(3) by simp
  moreover have "sum_list (map serving sessions) \<le> sum_list (map permit_held sessions)"
    by (rule sum_list_mono) (metis le0 serving.elims permit_held.simps(4) order_refl)
  moreover have "sum_list (map permit_held sessions) + so_permits s = co_max_connections config"
    using pg s0(2) by (auto simp: permits_used_def permits_ok_def)
  ultimately show ?thesis by linarith
qed

theorem sessions_bounded_witness:
  "so_permits (fst (accept_connection demo_server)) = 63"
proof -
  have "snd (accept_connection demo_server) = S_Admitted (Some 1)"
    by (simp add: demo_server_simps session_defs active_generation_def saturating_inc64_def)
  with sessions_bounded [OF demo_server_new demo_server_reachable] show ?thesis
    by (simp add: SocksConfig_default_def)
qed

text \<open>A connection is admitted only while the relay is active, and then with the current
  generation as its lease; a session whose lease the gate no longer carries can at once be ended
  with the relay-inactive error, which gives up its place among the active sessions.\<close>

theorem inactive_relay_admits_nothing:
  assumes "so_gate s = Some g"
  shows "(snd (accept_connection s) = S_Admitted lease \<longrightarrow>
      (\<exists>n. lease = Some n \<and> lease_valid n g) \<and> 0 < so_permits s) \<and>
    (\<not> rg_enabled g \<longrightarrow> snd (accept_connection s) = S_Rejected \<and>
      st_rejected (so_stats (fst (accept_connection s))) = st_rejected (so_stats s) + 1) \<and>
    (\<not> lease_valid n g \<longrightarrow>
      session_step (s, S_Serving (Some n)) (session_finish (Inl SE_RelayInactive) s))"
proof (intro conjI impI)
  show "session_step (s, S_Serving (Some n)) (session_finish (Inl SE_RelayInactive) s)" if "\<not> lease_valid n g"
    using that assms by (intro ss_invalidated [of s g]) (simp_all add: lease_valid_def)
qed (use assms in \<open>auto simp: session_defs active_generation_def lease_valid_def split: if_splits\<close>)

text \<open>The Virtual Desktop snapshot reports a connection exactly when every one of the four Streamer
  ports has an open flow that has forwarded data, and its active flows are the open flows of each
  port, in every interleaving of flows that begin, forward and end.\<close>

theorem vd_snapshot_exact:
  assumes "pool_reachable no_env flow_spawn flow_move VirtualDesktopFlowMonitor_default (m, flows)"
  shows "(vs_connected (flow_snapshot m) \<longleftrightarrow>
      (\<forall>i < 4. \<exists>g. FlowOpen g \<in> set flows \<and> fg_index g = i \<and> fg_forwarded g)) \<and>
    (\<forall>i < 4. vs_active_flows (flow_snapshot m) ! i =
      length (filter (\<lambda>f. \<exists>g. f = FlowOpen g \<and> fg_index g = i) flows))"
proof -
  have ports: "length VIRTUAL_DESKTOP_STREAMER_PORTS = 4" by (simp add: VIRTUAL_DESKTOP_STREAMER_PORTS_def)
  have "vd_forwarding m i = sum_list (map (flow_forwarding i) flows)" for i
    using vd_forwarding.pool_gauge [OF assms] by (simp add: VirtualDesktopFlowMonitor_default_def)
  moreover have "0 < sum_list (map (flow_forwarding i) flows) \<longleftrightarrow>
      (\<exists>g. FlowOpen g \<in> set flows \<and> fg_index g = i \<and> fg_forwarded g)" for i
  proof -
    have "0 < flow_forwarding i f \<longleftrightarrow> (\<exists>g. f = FlowOpen g \<and> fg_index g = i \<and> fg_forwarded g)" for f
      by (cases f) auto
    then show ?thesis by (auto simp: sum_list_eq_0_iff simp flip: neq0_conv)
  qed
  moreover have "vd_active m i = sum_list (map (flow_on i) flows)" for i
    using vd_active.pool_gauge [OF assms] by (simp add: VirtualDesktopFlowMonitor_default_def)
  moreover have "sum_list (map (flow_on i) flows) =
      length (filter (\<lambda>f. \<exists>g. f = FlowOpen g \<and> fg_index g = i) flows)" for i
  proof (induction flows)
    case (Cons f fs)
    then show ?case by (cases f) auto
  qed simp
  ultimately show ?thesis
    by (auto simp: flow_snapshot_def Let_def ports list_all_length)
qed


text \<open>A CONNECT over a healthy client connection is answered exactly once: with success and the
  bound address when the flow is opened or the connection joins one, with code 4 when the attempt
  times out and with code 5 when it fails.  A refused local duplicate that found its group
  joinable has been told success with the address of the accepted flow, even if it then came too
  late to join.\<close>

theorem connect_answered_once:
  assumes "connect_open env now later sock d c s = (x, c', s')" "broken (cl_out c) = None"
    and "ce_client_nodelay env = None" "ce_upstream_nodelay env = None" "ce_local_addr env = None"
  shows "written (cl_out c') = written (cl_out c) @ connect_reply (endpoint_port d) now s x"
proof (cases "ce_timeout env")
  case True
  then show ?thesis using assms by (auto simp: connect_open_def connect_reply_def refuse_writes)
next
  case False
  show ?thesis
  proof (cases "connect_attempt env d")
    case (Inl e)
    then have e: "e \<noteq> SE_ConnectTimeout" using connect_attempt_error [of env d] by auto
    have r: "connect_refused env now later sock (endpoint_port d) e c s = (x, c', s')"
      using assms(1) False Inl by (simp add: connect_open_def)
    show ?thesis
    proof (cases "duplicate_of (endpoint_port d) now e s")
      case None
      then show ?thesis using r e assms(2)
        by (auto simp: connect_refused_def duplicate_of_def connect_reply_def refuse_writes)
    next
      case (Some ref)
      then have "join_streamer_candidate env later sock ref e c s = (x, c', s')"
        using r by (simp add: connect_refused_def duplicate_of_def)
      with Some e assms(2,3) show ?thesis
        by (auto simp: join_streamer_candidate_def Let_def write_reply_success connect_reply_def
            split: prod.splits sum.splits)
    qed
  next
    case (Inr p)
    with assms False show ?thesis
      by (cases p) (auto simp: connect_open_def connect_accepted_def Let_def write_reply_success
          connect_reply_def split: prod.splits if_splits)
  qed
qed


definition demo_env :: connect_env where
  "demo_env = \<lparr>ce_lookup = (\<lambda>_ _. Inr []), ce_bindable = (\<lambda>_. True), ce_adapters = [],
     ce_socket = (\<lambda>_. None), ce_windows = True, ce_syn_option = True, ce_connect = (\<lambda>_ _. Inl ConnectionRefused), ce_timeout = False, ce_client_nodelay = None,
     ce_upstream_nodelay = None, ce_local_addr = None\<rparr>"

text \<open>The destination of a CONNECT is the address it resolved to, except for a Streamer port on one
  of the host's own addresses, which may be replaced by the physical LAN address; and a failed
  connect carries a port number into the diagnostics only when the destination is one of the
  host's own addresses.\<close>

theorem connect_locality:
  assumes "Endpoint_resolve (ce_lookup env) d = Inr target"
  shows "(\<not> (ce_bindable env (set_port 0 target) \<and> endpoint_port d \<in> set VIRTUAL_DESKTOP_STREAMER_PORTS) \<longrightarrow>
      connect_attempt env d = map_sum (\<lambda>k. SE_Connect k
          (if ce_bindable env (set_port 0 target) then Some (endpoint_port d) else None))
        (\<lambda>bound. (bound, False, ce_bindable env (set_port 0 target)))
        (connect_upstream env target (ce_bindable env (set_port 0 target)))) \<and>
    (\<not> ce_bindable env (set_port 0 target) \<longrightarrow>
      (\<forall>e. connect_attempt env d = Inl e \<longrightarrow>
        (\<exists>k. diagnostic_fields e = JObject [(''category'', JString ''tcp_connect''),
           (''error_kind'', JString (kind_debug k)), (''local_destination_port'', JNull)])))"
  using assms
  by (auto simp: connect_attempt_def Let_def socket_address_is_local_def connect_target_def diagnostic_fields_def
      split: sum.splits)

end
