(* ===== verification/Control.thy ===== *)
theory Control
  imports Lifecycle Diagnostics HevUdp Pool
begin

text \<open>
  The control server of \<^verbatim>\<open>control.rs\<close>: the shared state of the server (the lifecycle machine, the
  active connection, the command lane, the metrics and what observers and requesters have been
  told), and one connection handler as a step relation: the HELLO handshake, the events of its
  biased select loop, the cleanup after the loop, and the early returns of the \<^verbatim>\<open>?\<close> operator, which
  leave the function without the cleanup.  The JSON texts are an argument, because \<^verbatim>\<open>serde_json\<close> is
  not part of the repository; the requesters of a stop are tickets.
\<close>

section \<open>Errors\<close>

text \<open>The texts a requester of a stop can be answered with.\<close>

datatype StopFailure =
    SF_Expired
  | SF_AlreadyPending
  | SF_Rejected TransitionError
  | SF_TimedOut
  | SF_ConnectionClosed

datatype ControlError =
    CE_NonLoopbackBind SocketAddr
  | CE_ExpectedHello
  | CE_StaleSession SessionId
  | CE_ReplacementDuringStop
  | CE_UnexpectedMessage MessageType
  | CE_UnsolicitedStopped
  | CE_ReadTimeout string
  | CE_InvalidHeartbeatPayload nat
  | CE_InvalidStartedPayload nat
  | CE_InvalidSuspendPayload nat
  | CE_CommandUnavailable
  | CE_CommandRejected StopFailure
  | CE_StopTimeout
  | CE_Protocol ProtocolError
  | CE_Transition TransitionError
  | CE_Json
  | CE_Io io_kind

fun ControlError_category :: "ControlError \<Rightarrow> string" where
  "ControlError_category (CE_NonLoopbackBind _) = ''non_loopback_bind''"
| "ControlError_category CE_ExpectedHello = ''expected_hello''"
| "ControlError_category (CE_StaleSession _) = ''stale_session''"
| "ControlError_category CE_ReplacementDuringStop = ''replacement_during_stop''"
| "ControlError_category (CE_UnexpectedMessage _) = ''unexpected_message''"
| "ControlError_category CE_UnsolicitedStopped = ''unsolicited_stopped''"
| "ControlError_category (CE_ReadTimeout _) = ''read_timeout''"
| "ControlError_category (CE_InvalidHeartbeatPayload _) = ''invalid_heartbeat_payload''"
| "ControlError_category (CE_InvalidStartedPayload _) = ''invalid_started_payload''"
| "ControlError_category (CE_InvalidSuspendPayload _) = ''invalid_suspend_payload''"
| "ControlError_category CE_CommandUnavailable = ''command_unavailable''"
| "ControlError_category (CE_CommandRejected _) = ''command_rejected''"
| "ControlError_category CE_StopTimeout = ''stop_timeout''"
| "ControlError_category (CE_Protocol _) = ''protocol''"
| "ControlError_category (CE_Transition _) = ''state_transition''"
| "ControlError_category CE_Json = ''json''"
| "ControlError_category (CE_Io _) = ''io''"

fun metrics_error_category :: "MetricsError \<Rightarrow> string" where
  "metrics_error_category (ME_InvalidLength _) = ''invalid_length''"
| "metrics_error_category (ME_UnsupportedVersion _) = ''unsupported_version''"
| "metrics_error_category (ME_UnsupportedFlags _) = ''unsupported_flags''"

section \<open>State\<close>

definition MAX_CONTROL_HANDLERS :: nat where "MAX_CONTROL_HANDLERS = 4"
definition CONTROL_TRANSPORT_LOST_REASON :: string where
  "CONTROL_TRANSPORT_LOST_REASON = ''control transport lost; VPN remains active''"
definition COMMAND_LANE_CAPACITY :: nat where "COMMAND_LANE_CAPACITY = 4"

type_synonym ticket = nat

record ControlCommand =
  cc_ticket :: ticket
  cc_deadline :: instant

record ControlMetrics =
  cm_connection_generation :: u64
  cm_heartbeats_echoed :: u64
  cm_invalid_heartbeats :: u64
  cm_invalid_metrics :: u64
  cm_heartbeat_echo_service :: LatencyHistogram
  cm_android :: "AndroidMetricsV1 option"

definition ControlMetrics_default :: ControlMetrics where
  "ControlMetrics_default = \<lparr>cm_connection_generation = 0, cm_heartbeats_echoed = 0, cm_invalid_heartbeats = 0,
     cm_invalid_metrics = 0, cm_heartbeat_echo_service = LatencyHistogram_default, cm_android = None\<rparr>"

record ControlMetricsSnapshot =
  cms_connection_generation :: u64
  cms_reconnects :: u64
  cms_heartbeats_echoed :: u64
  cms_invalid_heartbeats :: u64
  cms_invalid_metrics :: u64
  cms_heartbeat_echo_service_us :: LatencyHistogramSnapshot

definition ControlMetrics_snapshot :: "ControlMetrics \<Rightarrow> ControlMetricsSnapshot" where
  "ControlMetrics_snapshot m =
     \<lparr>cms_connection_generation = cm_connection_generation m,
      cms_reconnects = (if cm_connection_generation m = 0 then 0 else cm_connection_generation m - 1),
      cms_heartbeats_echoed = cm_heartbeats_echoed m, cms_invalid_heartbeats = cm_invalid_heartbeats m,
      cms_invalid_metrics = cm_invalid_metrics m,
      cms_heartbeat_echo_service_us = LatencyHistogram_snapshot (cm_heartbeat_echo_service m)\<rparr>"

text \<open>\<open>ct_cancelled\<close> is the watch of each connection epoch, \<open>ct_issued\<close> the number of stop requests put
  on the lane so far, \<open>ct_replies\<close> their answers, \<open>ct_published\<close> what the state observer has seen, and
  \<open>ct_wakes\<close> and \<open>ct_suspends\<close> count the calls of the other two observers.\<close>

record ControlState =
  ct_session :: SessionId
  ct_machine :: StateMachine
  ct_active :: "u64 option"
  ct_cancelled :: "u64 \<Rightarrow> bool"
  ct_metrics :: ControlMetrics
  ct_commands :: "ControlCommand list"
  ct_issued :: ticket
  ct_replies :: "(ticket \<times> (StopFailure + unit)) list"
  ct_published :: "StateSnapshot list"
  ct_wakes :: nat
  ct_suspends :: nat
  ct_events :: "(string \<times> json) list"
  ct_permits :: nat

definition ControlServer_new :: "SocketAddr \<Rightarrow> SessionId \<Rightarrow> ControlError + ControlState" where
  "ControlServer_new bind session_id =
     (if \<not> is_loopback bind then Inl (CE_NonLoopbackBind bind)
      else
        (case begin_start session_id StateMachine_new of
           Inl e \<Rightarrow> Inl (CE_Transition e)
         | Inr machine \<Rightarrow>
             Inr \<lparr>ct_session = session_id, ct_machine = machine, ct_active = None,
                  ct_cancelled = (\<lambda>_. False), ct_metrics = ControlMetrics_default, ct_commands = [],
                  ct_issued = 0, ct_replies = [], ct_published = [], ct_wakes = 0, ct_suspends = 0,
                  ct_events = [], ct_permits = MAX_CONTROL_HANDLERS\<rparr>))"

record PendingStop =
  ps_sender :: "ticket option"
  ps_deadline :: "instant option"

definition PendingStop_default :: PendingStop where
  "PendingStop_default = \<lparr>ps_sender = None, ps_deadline = None\<rparr>"

text \<open>A connection waits for its HELLO, is in its select loop, has left the loop with a result and has
  its cleanup ahead, has returned, or has given up its handler permit; a connection beyond the
  handler limit is dropped at once.\<close>

datatype conn_state =
    C_Handshake
  | C_Looping
  | C_Broken "ControlError + unit"
  | C_Returned "ControlError + unit"
  | C_Gone
  | C_Dropped

record Connection =
  cn_epoch :: u64
  cn_out :: byte_sink
  cn_pending :: PendingStop
  cn_suspended :: bool
  cn_state :: conn_state

type_synonym control = "ControlState \<times> Connection"

text \<open>The JSON texts the handlers send.\<close>

record json_texts =
  jt_hello_ack :: bytes
  jt_snapshot :: "StateSnapshot \<Rightarrow> bytes"

section \<open>Stop requests\<close>

definition send_reply :: "ticket \<Rightarrow> StopFailure + unit \<Rightarrow> ControlState \<Rightarrow> ControlState" where
  "send_reply t result st = st\<lparr>ct_replies := ct_replies st @ [(t, result)]\<rparr>"

definition is_pending :: "PendingStop \<Rightarrow> bool" where
  "is_pending p \<longleftrightarrow> ps_sender p \<noteq> None"

definition pending_resolve :: "StopFailure + unit \<Rightarrow> control \<Rightarrow> control" where
  "pending_resolve result r =
     (let (st, c) = r; p = cn_pending c in
      (case ps_sender p of None \<Rightarrow> st | Some t \<Rightarrow> send_reply t result st,
       c\<lparr>cn_pending := p\<lparr>ps_sender := None, ps_deadline := None\<rparr>\<rparr>))"

definition PendingStop_set :: "ControlCommand \<Rightarrow> PendingStop \<Rightarrow> PendingStop" where
  "PendingStop_set cmd p = p\<lparr>ps_sender := Some (cc_ticket cmd), ps_deadline := Some (cc_deadline cmd)\<rparr>"

definition PendingStop_complete :: "control \<Rightarrow> control" where
  "PendingStop_complete r = pending_resolve (Inr ()) r"

definition PendingStop_fail :: "StopFailure \<Rightarrow> control \<Rightarrow> control" where
  "PendingStop_fail reason r = pending_resolve (Inl reason) r"

text \<open>The first half of \<^verbatim>\<open>ControlHandle::request_stop\<close>, when the lane has room.\<close>

definition request_stop :: "instant \<Rightarrow> ControlState \<Rightarrow> ControlState" where
  "request_stop deadline st =
     (if length (ct_commands st) < COMMAND_LANE_CAPACITY
      then st\<lparr>ct_commands := ct_commands st @ [\<lparr>cc_ticket = ct_issued st, cc_deadline = deadline\<rparr>],
              ct_issued := ct_issued st + 1\<rparr>
      else st)"

text \<open>The second half: what the requester makes of the end of its wait, an answer, a sender that was
  dropped, or the deadline.\<close>

datatype stop_wait = SW_Answer "StopFailure + unit" | SW_Dropped | SW_Deadline

fun request_stop_result :: "stop_wait \<Rightarrow> ControlError + unit" where
  "request_stop_result (SW_Answer (Inr _)) = Inr ()"
| "request_stop_result (SW_Answer (Inl error)) = Inl (CE_CommandRejected error)"
| "request_stop_result SW_Dropped = Inl CE_CommandUnavailable"
| "request_stop_result SW_Deadline = Inl CE_StopTimeout"

section \<open>Publication and carrier loss\<close>

definition snapshot_json :: "StateSnapshot \<Rightarrow> json" where
  "snapshot_json s = JObject
     [(''state'', JString (case snap_state s of Stopped \<Rightarrow> ''stopped'' | Preparing \<Rightarrow> ''preparing''
         | Connected \<Rightarrow> ''connected'' | Degraded \<Rightarrow> ''degraded'' | Stopping \<Rightarrow> ''stopping''
         | ErrorState \<Rightarrow> ''error'')),
      (''session_id'', case snap_session s of None \<Rightarrow> JNull | Some x \<Rightarrow> JString x),
      (''missed_heartbeats'', JNumber (uint (snap_missed s))),
      (''reason'', case snap_reason s of None \<Rightarrow> JNull | Some x \<Rightarrow> JString x)]"

definition publish :: "ControlState \<Rightarrow> ControlState" where
  "publish st =
     (let s = snapshot (ct_machine st) in
      st\<lparr>ct_published := ct_published st @ [s], ct_events := ct_events st @ [(''lifecycle_state'', snapshot_json s)]\<rparr>)"

definition handle_transport_lost :: "string \<Rightarrow> ControlState \<Rightarrow> ControlState" where
  "handle_transport_lost reason st =
     (let m = transport_lost reason (ct_machine st) in
      st\<lparr>ct_machine := m, ct_published := ct_published st @ [snapshot m]\<rparr>)"

definition reset_transport :: "string \<Rightarrow> ControlState \<Rightarrow> ControlState" where
  "reset_transport reason st =
     handle_transport_lost reason
       (case ct_active st of
          None \<Rightarrow> st
        | Some epoch \<Rightarrow> st\<lparr>ct_cancelled := (ct_cancelled st)(epoch := True)\<rparr>)"

definition is_current_connection :: "ControlState \<Rightarrow> u64 \<Rightarrow> bool" where
  "is_current_connection st epoch \<longleftrightarrow> ct_active st = Some epoch"


section \<open>Leaving the handler\<close>

definition conn_break :: "ControlError + unit \<Rightarrow> control \<Rightarrow> control" where
  "conn_break result r = (let (st, c) = r in (st, c\<lparr>cn_state := C_Broken result\<rparr>))"

text \<open>The \<^verbatim>\<open>?\<close> operator: the function returns, the pending stop is dropped, nothing else happens.\<close>

definition conn_return :: "ControlError \<Rightarrow> control \<Rightarrow> control" where
  "conn_return e r =
     (let (st, c) = PendingStop_fail SF_ConnectionClosed r in (st, c\<lparr>cn_state := C_Returned (Inl e)\<rparr>))"

text \<open>The statements after one that may have left the loop.\<close>

definition conn_then :: "control \<Rightarrow> (control \<Rightarrow> control) \<Rightarrow> control" where
  "conn_then r k = (if cn_state (snd r) = C_Looping then k r else r)"

definition conn_write :: "Frame \<Rightarrow> control \<Rightarrow> control" where
  "conn_write f r =
     (let (st, c) = r in
      case Frame_write_to f (cn_out c) of
        Inl e \<Rightarrow> conn_return (CE_Protocol e) (st, c)
      | Inr w \<Rightarrow> (st, c\<lparr>cn_out := w\<rparr>))"

definition conn_publish :: "control \<Rightarrow> control" where
  "conn_publish r = (let (st, c) = r in (publish st, c))"

definition set_machine :: "StateMachine \<Rightarrow> ControlState \<Rightarrow> ControlState" where
  "set_machine m st = st\<lparr>ct_machine := m\<rparr>"

section \<open>Messages of the peer\<close>

definition on_started :: "json_texts \<Rightarrow> instant \<Rightarrow> Frame \<Rightarrow> control \<Rightarrow> control" where
  "on_started texts now f r =
     (let (st, c) = r; payload = fr_payload f in
      if payload \<noteq> [] \<and> payload \<noteq> STARTED_WAKE_PAYLOAD
      then conn_break (Inl (CE_InvalidStartedPayload (length payload))) (st, c)
      else if \<not> is_current_connection st (cn_epoch c) then conn_break (Inr ()) (st, c)
      else
        let authenticated_wake = (payload = STARTED_WAKE_PAYLOAD);
            accepted_start = (sm_state (ct_machine st) \<noteq> Stopping);
            wake = (authenticated_wake \<and> accepted_start)
        in case (if accepted_start then peer_started (fr_session f) now (ct_machine st)
                 else Inr (ct_machine st)) of
             Inl e \<Rightarrow> conn_return (CE_Transition e) (st, c)
           | Inr m \<Rightarrow>
               let st = set_machine m st;
                   st = (if wake then st\<lparr>ct_wakes := ct_wakes st + 1\<rparr> else st);
                   r = conn_publish (st, c\<lparr>cn_suspended := False\<rparr>)
               in if wake
                  then conn_write (Frame_new M_Status (fr_session f) (jt_snapshot texts (snapshot m))) r
                  else r)"

text \<open>\<open>service\<close> is the time from receiving the heartbeat to having written its echo.\<close>

definition on_heartbeat :: "instant \<Rightarrow> duration \<Rightarrow> Frame \<Rightarrow> control \<Rightarrow> control" where
  "on_heartbeat now service f r =
     (let (st, c) = r; mt = ct_metrics st in
      if length (fr_payload f) \<noteq> 16
      then conn_break (Inl (CE_InvalidHeartbeatPayload (length (fr_payload f))))
             (st\<lparr>ct_metrics := mt\<lparr>cm_invalid_heartbeats := cm_invalid_heartbeats mt + 1\<rparr>\<rparr>, c)
      else if \<not> is_current_connection st (cn_epoch c) then conn_break (Inr ()) (st, c)
      else
        let before = sm_state (ct_machine st) in
        case (if before \<noteq> Stopping then heartbeat (fr_session f) now (ct_machine st)
              else Inr (ct_machine st)) of
          Inl e \<Rightarrow> conn_return (CE_Transition e) (st, c)
        | Inr m \<Rightarrow>
            conn_then (conn_write (Frame_new M_Heartbeat (fr_session f) (fr_payload f)) (set_machine m st, c))
              (\<lambda>(st, c).
                let mt = ct_metrics st;
                    st = st\<lparr>ct_metrics := mt\<lparr>cm_heartbeats_echoed := cm_heartbeats_echoed mt + 1,
                      cm_heartbeat_echo_service :=
                        LatencyHistogram_record service (cm_heartbeat_echo_service mt)\<rparr>\<rparr>
                in if before \<noteq> sm_state m then conn_publish (st, c) else (st, c)))"

definition on_stopped :: "control \<Rightarrow> control" where
  "on_stopped r =
     (let (st, c) = r in
      if \<not> is_current_connection st (cn_epoch c) then conn_break (Inr ()) (st, c)
      else if \<not> is_pending (cn_pending c) \<or> sm_state (ct_machine st) \<noteq> Stopping
      then conn_break (Inl CE_UnsolicitedStopped) (st, c)
      else
        (case stopped (ct_machine st) of
           Inl e \<Rightarrow> conn_return (CE_Transition e) (st, c)
         | Inr m \<Rightarrow> conn_publish (PendingStop_complete (set_machine m st, c))))"

definition on_status :: "json_texts \<Rightarrow> Frame \<Rightarrow> control \<Rightarrow> control" where
  "on_status texts f r =
     (let (st, c) = r in
      if \<not> is_current_connection st (cn_epoch c) then conn_break (Inr ()) (st, c)
      else conn_write (Frame_new M_Status (fr_session f) (jt_snapshot texts (snapshot (ct_machine st)))) (st, c))"

definition on_metrics :: "Frame \<Rightarrow> control \<Rightarrow> control" where
  "on_metrics f r =
     (let (st, c) = r; mt = ct_metrics st in
      if \<not> is_current_connection st (cn_epoch c) then conn_break (Inr ()) (st, c)
      else
        (case AndroidMetricsV1_decode (fr_payload f) of
           Inr metrics \<Rightarrow> (st\<lparr>ct_metrics := mt\<lparr>cm_android := Some metrics\<rparr>\<rparr>, c)
         | Inl e \<Rightarrow>
             (st\<lparr>ct_metrics := mt\<lparr>cm_invalid_metrics := cm_invalid_metrics mt + 1\<rparr>,
                ct_events := ct_events st @ [(''android_metrics_malformed'',
                  JObject [(''category'', JString (metrics_error_category e))])]\<rparr>, c)))"

definition on_suspend :: "Frame \<Rightarrow> control \<Rightarrow> control" where
  "on_suspend f r =
     (let (st, c) = r; ack = Frame_new M_Suspended (fr_session f) [] in
      if fr_payload f \<noteq> [] then conn_break (Inl (CE_InvalidSuspendPayload (length (fr_payload f)))) (st, c)
      else if \<not> is_current_connection st (cn_epoch c) then conn_break (Inr ()) (st, c)
      else if sm_state (ct_machine st) = Stopping then conn_write ack (st, c)
      else
        (case peer_suspended (fr_session f) (ct_machine st) of
           Inl e \<Rightarrow> conn_return (CE_Transition e) (st, c)
         | Inr m \<Rightarrow>
             conn_write ack (conn_publish
               ((set_machine m st)\<lparr>ct_suspends := ct_suspends st + 1\<rparr>, c\<lparr>cn_suspended := True\<rparr>))))"

definition on_error :: "control \<Rightarrow> control" where
  "on_error r =
     (let (st, c) = r in
      if \<not> is_current_connection st (cn_epoch c) then conn_break (Inr ()) (st, c)
      else conn_publish (set_machine (fail ''Android peer reported an error'' (ct_machine st)) st, c))"

definition validate_session :: "Frame \<Rightarrow> ControlState \<Rightarrow> ControlError + unit" where
  "validate_session f st =
     (if fr_session f = ct_session st then Inr () else Inl (CE_StaleSession (fr_session f)))"

definition dispatch :: "json_texts \<Rightarrow> instant \<Rightarrow> duration \<Rightarrow> Frame \<Rightarrow> control \<Rightarrow> control" where
  "dispatch texts now service f r =
     (case fr_type f of
        M_Started \<Rightarrow> on_started texts now f r
      | M_Heartbeat \<Rightarrow> on_heartbeat now service f r
      | M_Stopped \<Rightarrow> on_stopped r
      | M_Status \<Rightarrow> on_status texts f r
      | M_Metrics \<Rightarrow> on_metrics f r
      | M_Suspend \<Rightarrow> on_suspend f r
      | M_Error \<Rightarrow> on_error r
      | other \<Rightarrow> conn_break (Inl (CE_UnexpectedMessage other)) r)"

text \<open>The frame branch: what the reader task delivered (\<open>None\<close> when it is gone), and whether it still
  takes the next read mode.\<close>

definition on_frame ::
  "json_texts \<Rightarrow> instant \<Rightarrow> duration \<Rightarrow> (ControlError + Frame) option \<Rightarrow> bool \<Rightarrow> control \<Rightarrow> control" where
  "on_frame texts now service received reader_gone r =
     (case received of
        None \<Rightarrow> conn_break (Inr ()) r
      | Some (Inl e) \<Rightarrow>
          if e = CE_Protocol (PE_Io UnexpectedEof) \<or> e = CE_Protocol (PE_Io ConnectionReset)
          then conn_break (Inr ()) r else conn_break (Inl e) r
      | Some (Inr f) \<Rightarrow>
          (case validate_session f (fst r) of
             Inl e \<Rightarrow> conn_return e r
           | Inr _ \<Rightarrow>
               conn_then (dispatch texts now service f r)
                 (\<lambda>r. if reader_gone then conn_break (Inr ()) r else r)))"

section \<open>The other branches of the loop\<close>

definition on_tick :: "instant \<Rightarrow> control \<Rightarrow> control" where
  "on_tick now r =
     (let (st, c) = r in
      if \<not> is_current_connection st (cn_epoch c) then conn_break (Inr ()) (st, c)
      else
        let m = tick now (ct_machine st); r = (set_machine m st, c) in
        if sm_state (ct_machine st) \<noteq> sm_state m then conn_publish r else r)"

text \<open>A command taken by a connection that is no longer current goes back to the lane.  A full lane is tried again until there is
  room or the deadline of the command has passed; \<open>later\<close> is when either happens.  The lane is never closed here: the
  connection belongs to the server that owns its receiver.\<close>

definition requeue_command :: "instant \<Rightarrow> ControlCommand \<Rightarrow> ControlState \<Rightarrow> ControlState" where
  "requeue_command later cmd st =
     (if later > cc_deadline cmd then send_reply (cc_ticket cmd) (Inl SF_Expired) st
      else st\<lparr>ct_commands := ct_commands st @ [cmd]\<rparr>)"

definition on_command :: "instant \<Rightarrow> instant \<Rightarrow> control \<Rightarrow> control" where
  "on_command now later r =
     (let (st, c) = r in
      case ct_commands st of
        [] \<Rightarrow> (st, c)
      | cmd # rest \<Rightarrow>
          let st = st\<lparr>ct_commands := rest\<rparr> in
          if now > cc_deadline cmd then (send_reply (cc_ticket cmd) (Inl SF_Expired) st, c)
          else if is_pending (cn_pending c)
          then (send_reply (cc_ticket cmd) (Inl SF_AlreadyPending) st, c)
          else if \<not> is_current_connection st (cn_epoch c)
          then conn_break (Inr ()) (requeue_command later cmd st, c)
          else
            (case begin_stop (ct_machine st) of
               Inl e \<Rightarrow> (send_reply (cc_ticket cmd) (Inl (SF_Rejected e)) st, c)
             | Inr m \<Rightarrow>
                 conn_write (Frame_new M_Stop (ct_session st) [])
                   (conn_publish (set_machine m st, c\<lparr>cn_pending := PendingStop_set cmd (cn_pending c)\<rparr>))))"

definition on_stop_deadline :: "control \<Rightarrow> control" where
  "on_stop_deadline r =
     (let (st, c) = PendingStop_fail SF_TimedOut r in
      conn_publish (set_machine
        (fail ''explicit stop timed out; VPN state is unverified'' (ct_machine st)) st, c))"

section \<open>The reader task\<close>

text \<open>\<open>arrival\<close> is what the stream gives to one read and after how long; \<open>None\<close> is a peer that stays silent.\<close>

definition CONTROL_HANDSHAKE_TIMEOUT :: duration where "CONTROL_HANDSHAKE_TIMEOUT = 3 * 1000000000"
definition CONTROL_FRAME_TIMEOUT :: duration where "CONTROL_FRAME_TIMEOUT = 4 * 1000000000"

datatype ControlReadMode = RM_Active | RM_Suspended

type_synonym arrival = "(duration \<times> (ProtocolError + Frame)) option"

definition read_frame_with_timeout :: "duration \<Rightarrow> string \<Rightarrow> arrival \<Rightarrow> ControlError + Frame" where
  "read_frame_with_timeout timeout phase arrival =
     (case arrival of
        None \<Rightarrow> Inl (CE_ReadTimeout phase)
      | Some (elapsed, received) \<Rightarrow>
          if elapsed > timeout then Inl (CE_ReadTimeout phase)
          else (case received of Inl e \<Rightarrow> Inl (CE_Protocol e) | Inr f \<Rightarrow> Inr f))"

definition control_read :: "ControlReadMode \<Rightarrow> arrival \<Rightarrow> (ControlError + Frame) option" where
  "control_read mode arrival =
     (case mode of
        RM_Active \<Rightarrow> Some (read_frame_with_timeout CONTROL_FRAME_TIMEOUT ''authenticated control frame'' arrival)
      | RM_Suspended \<Rightarrow>
          (case arrival of
             None \<Rightarrow> None
           | Some (_, Inl e) \<Rightarrow> Some (Inl (CE_Protocol e))
           | Some (_, Inr f) \<Rightarrow> Some (Inr f)))"

text \<open>The mode the handler sends to the reader after each frame, and the first one.\<close>

definition read_mode :: "Connection \<Rightarrow> ControlReadMode" where
  "read_mode c = (if cn_suspended c then RM_Suspended else RM_Active)"

text \<open>What the handler can receive: what a read gave, or the end of the reader.\<close>

definition delivered :: "Connection \<Rightarrow> (ControlError + Frame) option \<Rightarrow> bool" where
  "delivered c received \<longleftrightarrow> received = None \<or> (\<exists>arrival. received = control_read (read_mode c) arrival)"

section \<open>Opening and closing a connection\<close>

text \<open>The handshake with the first frame; \<open>Inl\<close> is the read error of a connection that sent none.\<close>

definition on_hello :: "json_texts \<Rightarrow> ControlError + Frame \<Rightarrow> control \<Rightarrow> control" where
  "on_hello texts received r =
     (let (st, c) = r in
      case received of
        Inl e \<Rightarrow> conn_return e (st, c)
      | Inr f \<Rightarrow>
          (case validate_session f st of
             Inl e \<Rightarrow> conn_return e (st, c)
           | Inr _ \<Rightarrow>
               if fr_type f \<noteq> M_Hello then conn_return CE_ExpectedHello (st, c)
               else if sm_state (ct_machine st) = Stopping then conn_return CE_ReplacementDuringStop (st, c)
               else
                 let mt = ct_metrics st; epoch = saturating_inc64 (cm_connection_generation mt);
                     cancelled = (case ct_active st of
                       None \<Rightarrow> ct_cancelled st | Some previous \<Rightarrow> (ct_cancelled st)(previous := True));
                     st = st\<lparr>ct_metrics := mt\<lparr>cm_connection_generation := cm_connection_generation mt + 1,
                            cm_android := None\<rparr>,
                          ct_active := Some epoch, ct_cancelled := cancelled(epoch := False)\<rparr>
                 in conn_write (Frame_new M_HelloAck (ct_session st) (jt_hello_ack texts))
                      (st, c\<lparr>cn_epoch := epoch, cn_state := C_Looping\<rparr>)))"

text \<open>After the loop; dropping the pending stop at the end answers a requester that is still waiting.\<close>

definition on_cleanup :: "ControlError + unit \<Rightarrow> control \<Rightarrow> control" where
  "on_cleanup result r =
     (let (st, c) = r;
          (st, c) =
            (if \<not> is_current_connection st (cn_epoch c) then (st, c)
             else
               let mt = ct_metrics st;
                   st = st\<lparr>ct_active := None, ct_metrics := mt\<lparr>cm_android := None\<rparr>\<rparr>
               in if is_pending (cn_pending c)
                  then
                    (let (st, c) = PendingStop_fail SF_ConnectionClosed (st, c) in
                     conn_publish (set_machine (fail
                       ''control transport was lost during explicit stop; VPN state is unverified''
                       (ct_machine st)) st, c))
                  else conn_publish (set_machine
                         (transport_lost CONTROL_TRANSPORT_LOST_REASON (ct_machine st)) st, c));
          (st, c) = PendingStop_fail SF_ConnectionClosed (st, c)
      in (st, c\<lparr>cn_state := C_Returned result\<rparr>))"

text \<open>\<^verbatim>\<open>serve_on\<close>, before its accept loop.\<close>

definition serve_on :: "SocketAddr \<Rightarrow> ControlState \<Rightarrow> ControlError + ControlState" where
  "serve_on address st = (if \<not> is_loopback address then Inl (CE_NonLoopbackBind address) else Inr (publish st))"

text \<open>The accept loop: at most four handlers, a connection beyond that is closed.\<close>

definition control_accept :: "byte_sink \<Rightarrow> ControlState \<Rightarrow> control" where
  "control_accept out st =
     (let c = \<lparr>cn_epoch = 0, cn_out = out, cn_pending = PendingStop_default, cn_suspended = False,
              cn_state = C_Handshake\<rparr>
      in if ct_permits st = 0 then (st, c\<lparr>cn_state := C_Dropped\<rparr>)
         else (st\<lparr>ct_permits := ct_permits st - 1\<rparr>, c))"

definition control_release :: "ControlError + unit \<Rightarrow> control \<Rightarrow> control" where
  "control_release result r =
     (let (st, c) = r; st = st\<lparr>ct_permits := ct_permits st + 1\<rparr> in
      (case result of
         Inl e \<Rightarrow> st\<lparr>ct_events := ct_events st @ [(''control_connection_error'',
                   JObject [(''category'', JString (ControlError_category e))])]\<rparr>
       | Inr _ \<Rightarrow> st, c\<lparr>cn_state := C_Gone\<rparr>))"

section \<open>The server as a step relation\<close>

text \<open>The select is biased: the cancellation of the connection is looked at first.  The carrier of a
  connection may break at any time.\<close>

inductive control_step :: "json_texts \<Rightarrow> control \<Rightarrow> control \<Rightarrow> bool" for texts where
  cs_hello: "cn_state c = C_Handshake \<Longrightarrow> 
    control_step texts (st, c)
      (on_hello texts (read_frame_with_timeout CONTROL_HANDSHAKE_TIMEOUT ''initial HELLO'' arrival) (st, c))"
| cs_carrier: "control_step texts (st, c) (st, c\<lparr>cn_out := (cn_out c)\<lparr>broken := Some kind\<rparr>\<rparr>)"
| cs_cancelled: "cn_state c = C_Looping \<Longrightarrow> ct_cancelled st (cn_epoch c) \<Longrightarrow>
    control_step texts (st, c) (conn_break (Inr ()) (st, c))"
| cs_tick: "cn_state c = C_Looping \<Longrightarrow> \<not> ct_cancelled st (cn_epoch c) \<Longrightarrow>
    control_step texts (st, c) (on_tick now (st, c))"
| cs_frame: "cn_state c = C_Looping \<Longrightarrow> \<not> ct_cancelled st (cn_epoch c) \<Longrightarrow> delivered c received \<Longrightarrow>
    control_step texts (st, c) (on_frame texts now service received reader_gone (st, c))"
| cs_command: "cn_state c = C_Looping \<Longrightarrow> \<not> ct_cancelled st (cn_epoch c) \<Longrightarrow>
    control_step texts (st, c) (on_command now later (st, c))"
| cs_deadline: "cn_state c = C_Looping \<Longrightarrow> \<not> ct_cancelled st (cn_epoch c) \<Longrightarrow>
    is_pending (cn_pending c) \<Longrightarrow> ps_deadline (cn_pending c) = Some deadline \<Longrightarrow> deadline \<le> now \<Longrightarrow>
    control_step texts (st, c) (on_stop_deadline (st, c))"
| cs_cleanup: "cn_state c = C_Broken result \<Longrightarrow> control_step texts (st, c) (on_cleanup result (st, c))"
| cs_release: "cn_state c = C_Returned result \<Longrightarrow> control_step texts (st, c) (control_release result (st, c))"

definition control_spawn :: "ControlState \<Rightarrow> control \<Rightarrow> bool" where
  "control_spawn st r \<longleftrightarrow> (\<exists>out. r = control_accept out st)"

text \<open>What the rest of the host does through a \<^verbatim>\<open>ControlHandle\<close>.\<close>

definition control_env :: "ControlState \<Rightarrow> ControlState \<Rightarrow> bool" where
  "control_env st st' \<longleftrightarrow> (\<exists>deadline. st' = request_stop deadline st) \<or>
     (\<exists>reason. reason \<noteq> HEADSET_SUSPENDED_REASON \<and>
        (st' = handle_transport_lost reason st \<or> st' = reset_transport reason st))"

end
