(* ===== verification/ControlLaws.thy ===== *)
theory ControlLaws
  imports Control
begin

text \<open>
  What the control server guarantees, in every interleaving of connections, of the runtime and of
  stop requests: the lifecycle machine only makes lifecycle steps, every stop request is in exactly
  one place and is answered once, handlers are bounded, and a superseded connection is inert.
\<close>

section \<open>Effects of the handlers\<close>

lemmas conn_defs = conn_break_def conn_return_def conn_then_def conn_write_def conn_publish_def publish_def
  set_machine_def PendingStop_fail_def PendingStop_complete_def pending_resolve_def send_reply_def Let_def

lemmas message_defs = dispatch_def on_started_def on_heartbeat_def on_stopped_def on_status_def on_metrics_def
  on_suspend_def on_error_def

lemmas branch_defs = on_tick_def on_command_def requeue_command_def on_stop_deadline_def

text \<open>What the branches of the loop leave alone.\<close>

definition conn_frame :: "control \<Rightarrow> control \<Rightarrow> bool" where
  "conn_frame r r' \<longleftrightarrow>
     ct_session (fst r') = ct_session (fst r) \<and> ct_permits (fst r') = ct_permits (fst r) \<and>
     ct_active (fst r') = ct_active (fst r) \<and>
     ct_cancelled (fst r') = ct_cancelled (fst r) \<and> ct_issued (fst r') = ct_issued (fst r) \<and>
     cm_connection_generation (ct_metrics (fst r')) = cm_connection_generation (ct_metrics (fst r)) \<and>
     cn_epoch (snd r') = cn_epoch (snd r) \<and>
     (cn_state (snd r) = C_Looping \<longrightarrow> cn_state (snd r') \<notin> {C_Handshake, C_Gone, C_Dropped})"

lemma conn_break_frame: "conn_frame r (conn_break x r)"
  by (cases r) (auto simp: conn_frame_def conn_defs)

lemma dispatch_frame: "conn_frame (st, c) (dispatch texts now service f (st, c))"
  by (cases "fr_type f")
     (auto simp: message_defs conn_frame_def conn_defs split: option.split sum.split)

text \<open>The frame branch is the dispatch with two more ways out.\<close>

lemma on_frame_cases:
  obtains (out) x where "on_frame texts now service received gone r = conn_break x r"
  | (stale) f where "received = Some (Inr f)" "fr_session f \<noteq> ct_session (fst r)"
      "on_frame texts now service received gone r = conn_return (CE_StaleSession (fr_session f)) r"
  | (served) f where "received = Some (Inr f)" "fr_session f = ct_session (fst r)"
      "on_frame texts now service received gone r = dispatch texts now service f r"
  | (gone) f where "received = Some (Inr f)" "fr_session f = ct_session (fst r)"
      "on_frame texts now service received gone r = conn_break (Inr ()) (dispatch texts now service f r)"
proof (cases received)
  case None
  then show ?thesis using out [of "Inr ()"] by (simp add: on_frame_def)
next
  case (Some x)
  show ?thesis
  proof (cases x)
    case (Inl e)
    then show ?thesis using Some out [of "Inr ()"] out [of "Inl e"]
      by (cases "e = CE_Protocol (PE_Io UnexpectedEof) \<or> e = CE_Protocol (PE_Io ConnectionReset)")
         (auto simp: on_frame_def)
  next
    case (Inr f)
    consider "fr_session f \<noteq> ct_session (fst r)"
      | "fr_session f = ct_session (fst r)" "gone" "cn_state (snd (dispatch texts now service f r)) = C_Looping"
      | "fr_session f = ct_session (fst r)" "\<not> gone \<or> cn_state (snd (dispatch texts now service f r)) \<noteq> C_Looping"
      by blast
    then show ?thesis
      using Some Inr stale [of f] served [of f] gone [of f]
      by cases (auto simp: on_frame_def validate_session_def conn_then_def)
  qed
qed

lemma conn_frame_trans: "cn_state (snd r) = C_Looping \<Longrightarrow> conn_frame r r' \<Longrightarrow> conn_frame r (conn_break x r')"
  by (cases r') (auto simp: conn_frame_def conn_break_def)

lemma on_frame_frame:
  assumes "cn_state c = C_Looping"
  shows "conn_frame (st, c) (on_frame texts now service received gone (st, c))"
proof (cases rule: on_frame_cases [of texts now service received gone "(st, c)"])
  case (stale f)
  then show ?thesis by (auto simp: conn_frame_def conn_defs split: option.split)
qed (use assms conn_break_frame dispatch_frame conn_frame_trans in \<open>auto\<close>)

lemma branch_frame:
  "conn_frame (st, c) (on_tick now (st, c))"
  "conn_frame (st, c) (on_command now later (st, c))"
  "conn_frame (st, c) (on_stop_deadline (st, c))"
  by (auto simp: branch_defs conn_frame_def conn_defs split: option.split sum.split list.split)

section \<open>The lifecycle machine of the server\<close>

definition machine_moves :: "StateMachine \<Rightarrow> StateMachine \<Rightarrow> bool" where
  "machine_moves m m' \<longleftrightarrow> m' = m \<or> sm_step m m'"

lemma machine_moves_intros [machine_intros]:
  "machine_moves m m"
  "peer_started s now m = Inr m' \<Longrightarrow> machine_moves m m'"
  "heartbeat s now m = Inr m' \<Longrightarrow> machine_moves m m'"
  "stopped m = Inr m' \<Longrightarrow> machine_moves m m'"
  "peer_suspended s m = Inr m' \<Longrightarrow> machine_moves m m'"
  "begin_stop m = Inr m' \<Longrightarrow> machine_moves m m'"
  "machine_moves m (tick now m)"
  "machine_moves m (fail reason m)"
  "reason \<noteq> HEADSET_SUSPENDED_REASON \<Longrightarrow> machine_moves m (transport_lost reason m)"
  by (auto simp: machine_moves_def intro: sm_step.intros)

lemma conn_break_projs [simp]:
  "fst (conn_break x r) = fst r" "cn_pending (snd (conn_break x r)) = cn_pending (snd r)"
  "cn_epoch (snd (conn_break x r)) = cn_epoch (snd r)" "cn_state (snd (conn_break x r)) = C_Broken x"
  by (cases r; simp add: conn_break_def)+

lemma conn_return_machine [simp]:
  "ct_machine (fst (conn_return e r)) = ct_machine (fst r)"
  by (cases r) (simp add: conn_defs split: option.split)

lemma dispatch_machine:
  "machine_moves (ct_machine st) (ct_machine (fst (dispatch texts now service f (st, c))))"
  by (cases "fr_type f")
     (auto simp: message_defs conn_defs intro: machine_intros split: option.split sum.split)

lemma on_frame_machine:
  "machine_moves (ct_machine st) (ct_machine (fst (on_frame texts now service received gone (st, c))))"
  by (cases rule: on_frame_cases [of texts now service received gone "(st, c)"])
     (auto simp: dispatch_machine intro: machine_intros)

lemma transport_lost_reason: "CONTROL_TRANSPORT_LOST_REASON \<noteq> HEADSET_SUSPENDED_REASON"
  by (simp add: CONTROL_TRANSPORT_LOST_REASON_def HEADSET_SUSPENDED_REASON_def)

lemma branch_machine:
  "machine_moves (ct_machine st) (ct_machine (fst (on_tick now (st, c))))"
  "machine_moves (ct_machine st) (ct_machine (fst (on_command now later (st, c))))"
  "machine_moves (ct_machine st) (ct_machine (fst (on_stop_deadline (st, c))))"
  "machine_moves (ct_machine st) (ct_machine (fst (on_cleanup result (st, c))))"
  "machine_moves (ct_machine st) (ct_machine (fst (on_hello texts first (st, c))))"
  "machine_moves (ct_machine st) (ct_machine (fst (control_release result (st, c))))"
  using transport_lost_reason
  by (auto simp: branch_defs on_cleanup_def on_hello_def control_release_def validate_session_def conn_defs
      intro: machine_intros split: option.split sum.split list.split)

lemma control_step_machine:
  "control_step texts r r' \<Longrightarrow> machine_moves (ct_machine (fst r)) (ct_machine (fst r'))"
  by (induction rule: control_step.induct) (simp_all add: branch_machine on_frame_machine machine_moves_intros)

lemma control_env_machine: "control_env st st' \<Longrightarrow> machine_moves (ct_machine st) (ct_machine st')"
  by (auto simp: control_env_def request_stop_def handle_transport_lost_def reset_transport_def Let_def
      intro: machine_intros split: option.split)

section \<open>Stop requests are conserved\<close>

text \<open>How often a stop request is on the lane or among the answers, and whether a connection holds it.\<close>

definition ticket_count :: "ticket \<Rightarrow> ControlState \<Rightarrow> nat" where
  "ticket_count t st = length (filter (\<lambda>cmd. cc_ticket cmd = t) (ct_commands st)) +
     length (filter (\<lambda>p. fst p = t) (ct_replies st))"

definition ticket_held :: "ticket \<Rightarrow> Connection \<Rightarrow> nat" where
  "ticket_held t c = (if ps_sender (cn_pending c) = Some t then 1 else 0)"

definition ticket_kept :: "ticket \<Rightarrow> control \<Rightarrow> control \<Rightarrow> bool" where
  "ticket_kept t r r' \<longleftrightarrow> ct_issued (fst r') = ct_issued (fst r) \<and>
     ticket_count t (fst r') + ticket_held t (snd r') = ticket_count t (fst r) + ticket_held t (snd r)"

lemmas ticket_defs = ticket_kept_def ticket_count_def ticket_held_def

lemma ticket_kept_leaf:
  "ct_issued st' = ct_issued st \<Longrightarrow> ct_commands st' = ct_commands st \<Longrightarrow> ct_replies st' = ct_replies st \<Longrightarrow>
     cn_pending c' = cn_pending c \<Longrightarrow> ticket_kept t (st, c) (st', c')"
  by (simp add: ticket_defs)

lemma ticket_kept_resolve: "ticket_kept t r r' \<Longrightarrow> ticket_kept t r (pending_resolve x r')"
  by (cases r'; cases "ps_sender (cn_pending (snd r'))")
     (auto simp: ticket_defs pending_resolve_def send_reply_def split: if_splits)

lemma ticket_kept_break: "ticket_kept t r r' \<Longrightarrow> ticket_kept t r (conn_break x r')"
  by (cases r') (simp add: ticket_defs conn_break_def)

lemma ticket_kept_publish: "ticket_kept t r r' \<Longrightarrow> ticket_kept t r (conn_publish r')"
  by (cases r') (simp add: ticket_defs conn_publish_def publish_def Let_def)

lemma ticket_kept_return: "ticket_kept t r r' \<Longrightarrow> ticket_kept t r (conn_return e r')"
  using ticket_kept_resolve [of t r r' "Inl SF_ConnectionClosed"]
  by (cases "pending_resolve (Inl SF_ConnectionClosed) r'")
     (simp add: conn_return_def PendingStop_fail_def ticket_defs)

lemma ticket_kept_machine: "ticket_kept t r (st, c) \<Longrightarrow> ticket_kept t r (set_machine m st, c)"
  by (simp add: ticket_defs set_machine_def)

lemma ticket_kept_write: "ticket_kept t r r' \<Longrightarrow> ticket_kept t r (conn_write f r')"
  by (cases r'; cases "Frame_write_to f (cn_out (snd r'))")
     (simp_all add: conn_write_def ticket_kept_return, simp add: ticket_defs)

lemma ticket_kept_then:
  "ticket_kept t r r' \<Longrightarrow> (\<And>st c. ticket_kept t r (st, c) \<Longrightarrow> ticket_kept t r (k (st, c))) \<Longrightarrow>
     ticket_kept t r (conn_then r' k)"
  by (cases r') (simp add: conn_then_def)

lemmas ticket_intros = ticket_kept_leaf ticket_kept_resolve ticket_kept_break ticket_kept_publish ticket_kept_return
  ticket_kept_write ticket_kept_then

lemma dispatch_ticket: "ticket_kept t (st, c) (dispatch texts now service f (st, c))"
proof (cases "fr_type f")
  case M_Heartbeat
  have "ticket_kept t (st, c) (st', c') \<Longrightarrow> ticket_kept t (st, c) (st'\<lparr>ct_metrics := m\<rparr>, c')" for st' c' m
    by (simp add: ticket_defs)
  moreover have "ticket_kept t (st, c) (set_machine m st, c)" "ticket_kept t (st, c) (st, c)" for m
    by (simp_all add: ticket_defs set_machine_def)
  ultimately show ?thesis using M_Heartbeat
    by (auto simp: dispatch_def on_heartbeat_def Let_def split: sum.split
        intro!: ticket_kept_break ticket_kept_publish ticket_kept_return ticket_kept_write ticket_kept_then)
qed (auto simp: message_defs Let_def set_machine_def PendingStop_complete_def intro!: ticket_intros split: sum.split)

lemma ticket_kept_refl: "ticket_kept t r r"
  by (simp add: ticket_kept_def)

lemma on_frame_ticket: "ticket_kept t (st, c) (on_frame texts now service received gone (st, c))"
  by (cases rule: on_frame_cases [of texts now service received gone "(st, c)"])
     (auto simp: dispatch_ticket ticket_kept_refl intro!: ticket_kept_break ticket_kept_return)

lemma on_command_ticket: "ticket_kept t (st, c) (on_command now later (st, c))"
proof (cases "ct_commands st")
  case (Cons cmd rest)
  let ?c = "c\<lparr>cn_pending := PendingStop_set cmd (cn_pending c)\<rparr>"
  have "ticket_kept t (st, c) (conn_write f (conn_publish (set_machine m (st\<lparr>ct_commands := rest\<rparr>), ?c)))"
    if "\<not> is_pending (cn_pending c)" for f m
    using that Cons
    by (intro ticket_kept_write ticket_kept_publish)
       (simp add: ticket_defs set_machine_def PendingStop_set_def is_pending_def)
  moreover have "ticket_kept t (st, c) (send_reply (cc_ticket cmd) x (st\<lparr>ct_commands := rest\<rparr>), c)" for x
    using Cons by (simp add: ticket_defs send_reply_def)
  moreover have "ticket_kept t (st, c) (conn_break (Inr ()) (requeue_command later cmd (st\<lparr>ct_commands := rest\<rparr>), c))"
    using Cons by (intro ticket_kept_break) (simp add: ticket_defs send_reply_def requeue_command_def)
  ultimately show ?thesis using Cons by (auto simp: on_command_def Let_def split: sum.split)
qed (simp add: on_command_def ticket_kept_refl)

lemma on_cleanup_ticket: "ticket_kept t (st, c) (on_cleanup result (st, c))"
proof -
  let ?st = "st\<lparr>ct_active := None, ct_metrics := (ct_metrics st)\<lparr>cm_android := None\<rparr>\<rparr>"
  have fin: "ticket_kept t r (let (st, c) = pending_resolve x r' in (st, c\<lparr>cn_state := y\<rparr>))"
    if "ticket_kept t r r'" for r r' x y
    using ticket_kept_resolve [OF that, of x] by (cases "pending_resolve x r'") (simp add: ticket_defs)
  have 1: "ticket_kept t (st, c) (conn_publish (set_machine m ?st, c))" for m
    by (intro ticket_kept_publish) (simp add: ticket_defs set_machine_def)
  have 2: "ticket_kept t (st, c) (let (st, c) = pending_resolve x (?st, c) in conn_publish (set_machine (m st) st, c))" for x m
  proof -
    have "ticket_kept t (st, c) (pending_resolve x (?st, c))"
      by (intro ticket_kept_resolve) (simp add: ticket_defs)
    then show ?thesis
      by (cases "pending_resolve x (?st, c)") (auto intro!: ticket_kept_publish ticket_kept_machine)
  qed
  show ?thesis
    using fin [OF ticket_kept_refl [of t "(st, c)"]] fin [OF 1] fin [OF 2]
    by (auto simp: on_cleanup_def Let_def PendingStop_fail_def split: prod.splits)
qed

lemma branch_ticket:
  "ticket_kept t (st, c) (on_tick now (st, c))"
  "ticket_kept t (st, c) (on_hello texts first (st, c))"
  "ticket_kept t (st, c) (control_release result (st, c))"
  by (auto simp: on_tick_def on_hello_def control_release_def validate_session_def Let_def set_machine_def
      intro!: ticket_intros split: sum.split option.split)

lemma on_stop_deadline_ticket: "ticket_kept t (st, c) (on_stop_deadline (st, c))"
  using ticket_kept_resolve [OF ticket_kept_refl, of t "(st, c)" "Inl SF_TimedOut"]
  by (cases "pending_resolve (Inl SF_TimedOut) (st, c)")
     (auto simp: on_stop_deadline_def PendingStop_fail_def intro!: ticket_kept_publish ticket_kept_machine)

lemma control_step_ticket: "control_step texts r r' \<Longrightarrow> ticket_kept t r r'"
  by (induction rule: control_step.induct) (simp_all add: branch_ticket on_frame_ticket
       on_command_ticket on_cleanup_ticket on_stop_deadline_ticket ticket_kept_break ticket_kept_refl ticket_kept_leaf)

text \<open>A request that was issued is in exactly one place.\<close>

definition ticket_limit :: "ticket \<Rightarrow> ControlState \<Rightarrow> nat" where
  "ticket_limit t st = (if t < ct_issued st then 1 else 0)"

interpretation tickets: shared_gauge control_env control_spawn "control_step texts"
  "\<lambda>st. ticket_count t st \<le> ticket_limit t st" "\<lambda>st. ticket_limit t st - ticket_count t st" "ticket_held t"
proof unfold_locales
  show "ticket_count t st' \<le> ticket_limit t st' \<and> ticket_limit t st' - ticket_count t st' = ticket_limit t st - ticket_count t st"
    if "control_env st st'" "ticket_count t st \<le> ticket_limit t st" for st st'
    using that
    by (auto simp: control_env_def request_stop_def handle_transport_lost_def reset_transport_def Let_def
        ticket_count_def ticket_limit_def split: option.splits if_splits)
  show "ticket_count t st' \<le> ticket_limit t st' \<and>
      ticket_limit t st' - ticket_count t st' = ticket_limit t st - ticket_count t st + ticket_held t c"
    if "control_spawn st (st', c)" "ticket_count t st \<le> ticket_limit t st" for st st' c
    using that by (auto simp: control_spawn_def control_accept_def Let_def ticket_count_def ticket_limit_def
        ticket_held_def PendingStop_default_def split: if_splits)
  show "ticket_count t st' \<le> ticket_limit t st' \<and>
      ticket_limit t st' - ticket_count t st' + ticket_held t c = ticket_limit t st - ticket_count t st + ticket_held t c'"
    if "control_step texts (st, c) (st', c')" "ticket_count t st \<le> ticket_limit t st"
      "ticket_held t c \<le> ticket_limit t st - ticket_count t st" for st c st' c'
    using control_step_ticket [OF that(1), of t] that(2,3)
    by (auto simp: ticket_kept_def ticket_limit_def split: if_splits)
qed

section \<open>Handler permits\<close>

definition handlers_used :: "ControlState \<Rightarrow> nat" where
  "handlers_used st = MAX_CONTROL_HANDLERS - ct_permits st"

definition handler_held :: "Connection \<Rightarrow> nat" where
  "handler_held c = (if cn_state c \<in> {C_Gone, C_Dropped} then 0 else 1)"

definition permits_ok :: "ControlState \<Rightarrow> bool" where
  "permits_ok st \<longleftrightarrow> ct_permits st \<le> MAX_CONTROL_HANDLERS"

lemma on_hello_frame:
  assumes "cn_state c = C_Handshake"
  shows "ct_permits (fst (on_hello texts first (st, c))) = ct_permits st \<and>
    handler_held (snd (on_hello texts first (st, c))) = 1"
  using assms
  by (auto simp: on_hello_def validate_session_def conn_defs handler_held_def split: sum.split option.split)

lemma on_cleanup_frame:
  "ct_permits (fst (on_cleanup result (st, c))) = ct_permits st"
  "cn_state (snd (on_cleanup result (st, c))) = C_Returned result"
  by (auto simp: on_cleanup_def conn_defs split: sum.split option.split)

text \<open>A step keeps the permits and the hold of its connection, or it is the release of both.\<close>

lemma conn_frame_handler:
  "conn_frame (st, c) r' \<Longrightarrow> cn_state c = C_Looping \<Longrightarrow>
     ct_permits (fst r') = ct_permits st \<and> handler_held (snd r') = handler_held c"
  by (auto simp: conn_frame_def handler_held_def)

lemma control_step_handler:
  assumes "control_step texts (st, c) (st', c')"
  shows "ct_permits st' = ct_permits st \<and> handler_held c' = handler_held c \<or>
    ct_permits st' = ct_permits st + 1 \<and> handler_held c = 1 \<and> handler_held c' = 0"
proof -
  have "ct_permits (fst r') = ct_permits (fst r) \<and> handler_held (snd r') = handler_held (snd r) \<or>
    ct_permits (fst r') = ct_permits (fst r) + 1 \<and> handler_held (snd r) = 1 \<and> handler_held (snd r') = 0"
    if "control_step texts r r'" for r r'
    using that
  proof (induction rule: control_step.induct)
    case (cs_hello c st received)
    then show ?case using on_hello_frame [OF cs_hello]  by (simp add: handler_held_def)
  next
    case (cs_cleanup c result st)
    then show ?case by (simp add: on_cleanup_frame handler_held_def)
  next
    case (cs_carrier st c kind)
    then show ?case by (simp add: handler_held_def)
  next
    case (cs_release c result st)
    then show ?case by (auto simp: control_release_def Let_def handler_held_def split: sum.split)
  qed (simp_all add: conn_frame_handler [OF branch_frame(1)] conn_frame_handler [OF branch_frame(2)]
      conn_frame_handler [OF branch_frame(3)] conn_frame_handler [OF conn_break_frame]
      conn_frame_handler [OF on_frame_frame])
  from this [OF assms] show ?thesis by simp
qed

lemma control_env_permits: "control_env st st' \<Longrightarrow> ct_permits st' = ct_permits st"
  by (auto simp: control_env_def request_stop_def handle_transport_lost_def reset_transport_def Let_def
      split: option.split)

interpretation handlers: limited_gauge control_env control_spawn "control_step texts" permits_ok handlers_used
  handler_held "\<lambda>_. MAX_CONTROL_HANDLERS"
proof unfold_locales
  show "permits_ok st' \<and> handlers_used st' = handlers_used st" if "control_env st st'" "permits_ok st" for st st'
    using control_env_permits [OF that(1)] that(2) by (simp add: permits_ok_def handlers_used_def)
  show "permits_ok st' \<and> handlers_used st' = handlers_used st + handler_held c"
    if "control_spawn st (st', c)" "permits_ok st" for st st' c
    using that by (auto simp: control_spawn_def control_accept_def Let_def permits_ok_def handlers_used_def
        handler_held_def split: if_splits)
  show "permits_ok st' \<and> handlers_used st' + handler_held c = handlers_used st + handler_held c'"
    if "control_step texts (st, c) (st', c')" "permits_ok st" "handler_held c \<le> handlers_used st" for st c st' c'
    using control_step_handler [OF that(1)] that(2,3) by (auto simp: permits_ok_def handlers_used_def)
qed (simp_all add: handlers_used_def)

section \<open>The pool of connections\<close>

abbreviation control_reachable :: "json_texts \<Rightarrow> ControlState \<Rightarrow> ControlState \<times> Connection list \<Rightarrow> bool" where
  "control_reachable texts \<equiv> pool_reachable control_env control_spawn (control_step texts)"

lemma begin_start_reachable: "begin_start session StateMachine_new = Inr m \<Longrightarrow> sm_reachable m"
  by (auto intro: reach_step [OF reach_new] step_begin_start)

lemma control_new_state:
  "ControlServer_new bind session = Inr st0 \<Longrightarrow>
     is_loopback bind \<and> sm_reachable (ct_machine st0) \<and> permits_ok st0 \<and> handlers_used st0 = 0 \<and>
     ct_session st0 = session \<and> sm_session (ct_machine st0) = Some session \<and>
     ct_issued st0 = 0 \<and> ct_commands st0 = [] \<and> ct_replies st0 = [] \<and> ct_active st0 = None \<and>
     cm_connection_generation (ct_metrics st0) = 0 \<and> ct_cancelled st0 = (\<lambda>_. False)"
  using begin_start_reachable [of session]
  by (auto simp: ControlServer_new_def permits_ok_def handlers_used_def ControlMetrics_default_def machine_simps
      split: if_splits sum.splits)

lemma machine_moves_reachable: "sm_reachable m \<Longrightarrow> machine_moves m m' \<Longrightarrow> sm_reachable m'"
  by (auto simp: machine_moves_def intro: reach_step)

lemma control_pool_step_machine:
  "pool_step control_env control_spawn (control_step texts) s s' \<Longrightarrow>
     machine_moves (ct_machine (fst s)) (ct_machine (fst s'))"
proof (induction rule: pool_step.induct)
  case (pool_env st st' cs)
  then show ?case by (simp add: control_env_machine)
next
  case (pool_spawn st st' c cs)
  then show ?case by (auto simp: control_spawn_def control_accept_def Let_def machine_moves_def split: if_splits)
next
  case (pool_move i cs st st' c')
  then show ?case using control_step_machine [of texts "(st, cs ! i)" "(st', c')"] by simp
qed

lemma control_pool_machine:
  assumes "control_reachable texts st0 s" "sm_reachable (ct_machine st0)"
  shows "sm_reachable (ct_machine (fst s))"
  using assms(1)
  by (induction rule: pool_reachable.induct)
     (auto simp: assms(2) dest: control_pool_step_machine intro: machine_moves_reachable)

end
