(* ===== verification/ControlProps.thy ===== *)
theory ControlProps
  imports ControlLaws
begin

text \<open>
  The promises of the control server to its requesters and to the host: answers to stop requests,
  superseded connections, and what an early return of a handler leaves behind.
\<close>

section \<open>Answers\<close>











section \<open>Pending stops\<close>

text \<open>Only a connection that has its cleanup ahead holds a requester.\<close>

definition pending_inv :: "Connection \<Rightarrow> bool" where
  "pending_inv c \<longleftrightarrow> ps_sender (cn_pending c) = None \<or> cn_state c = C_Looping \<or> (\<exists>x. cn_state c = C_Broken x)"

lemma conn_return_pending: "ps_sender (cn_pending (snd (conn_return e r))) = None"
  by (cases r) (simp add: conn_defs split: option.split)

lemma conn_write_state:
  "cn_state (snd (conn_write f r)) = cn_state (snd r) \<or> ps_sender (cn_pending (snd (conn_write f r))) = None"
  using conn_return_pending by (cases r) (auto simp: conn_write_def split: sum.split)

lemma dispatch_pending:
  "cn_state c = C_Looping \<Longrightarrow> pending_inv (snd (dispatch texts now service f (st, c)))"
  by (cases "fr_type f")
     (auto simp: message_defs conn_defs pending_inv_def split: option.splits sum.splits)

lemma pending_step:
  assumes "control_step texts r r'" "pending_inv (snd r)"
  shows "pending_inv (snd r')"
  using assms
proof (induction rule: control_step.induct)
  case (cs_frame c st received now service gone)
  show ?case
    by (cases rule: on_frame_cases [of texts now service received gone "(st, c)"])
       (use cs_frame dispatch_pending conn_return_pending in \<open>auto simp: pending_inv_def\<close>)
next
  case (cs_cleanup c result st)
  then show ?case by (auto simp: on_cleanup_def conn_defs pending_inv_def split: option.splits)
next
  case (cs_command c st now later)
  then show ?case
    by (auto simp: on_command_def conn_defs pending_inv_def split: option.splits sum.splits list.splits)
next
  case (cs_hello c st received)
  then show ?case
    by (auto simp: on_hello_def validate_session_def conn_defs pending_inv_def split: option.splits sum.splits)
qed (auto simp: on_tick_def on_stop_deadline_def control_release_def conn_defs pending_inv_def
    split: option.splits sum.splits)

interpretation pending: member_invariant control_env control_spawn "control_step texts" pending_inv
proof unfold_locales
  show "pending_inv c" if "control_spawn st (st', c)" for st st' c
    using that by (auto simp: control_spawn_def control_accept_def Let_def pending_inv_def PendingStop_default_def
        split: if_splits)
  show "pending_inv c'" if "pending_inv c" "control_step texts (st, c) (st', c')" for st c st' c'
    using pending_step [OF that(2)] that(1) by simp
qed

section \<open>Epochs\<close>
























section \<open>Superseded connections\<close>

text \<open>What the rest of the host sees of the server.\<close>

definition control_view :: "ControlState \<Rightarrow> StateMachine \<times> u64 option \<times> StateSnapshot list \<times> AndroidMetricsV1 option" where
  "control_view st = (ct_machine st, ct_active st, ct_published st, cm_android (ct_metrics st))"

lemma conn_return_view [simp]: "control_view (fst (conn_return e r)) = control_view (fst r)"
  by (cases r) (simp add: control_view_def conn_defs split: option.split)

lemma dispatch_not_current:
  "ct_active st \<noteq> Some (cn_epoch c) \<Longrightarrow> control_view (fst (dispatch texts now service f (st, c))) = control_view st \<and>
     (\<exists>x. cn_state (snd (dispatch texts now service f (st, c))) = C_Broken x)"
  by (cases "fr_type f")
     (auto simp: message_defs is_current_connection_def control_view_def conn_break_def Let_def)

lemma on_frame_not_current:
  assumes "ct_active st \<noteq> Some (cn_epoch c)"
  shows "control_view (fst (on_frame texts now service received gone (st, c))) = control_view st"
  by (cases rule: on_frame_cases [of texts now service received gone "(st, c)"])
     (use dispatch_not_current [OF assms, of texts now service] in \<open>auto\<close>)


lemma control_release_view [simp]: "control_view (fst (control_release result (st, c))) = control_view st"
  by (simp add: control_release_def control_view_def Let_def split: sum.split)


section \<open>A stop without a connection\<close>

text \<open>The machine is stopping and no handler is left that could report the outcome.\<close>

definition conn_closed :: "Connection \<Rightarrow> bool" where
  "conn_closed c \<longleftrightarrow> cn_state c \<noteq> C_Looping \<and> (\<forall>x. cn_state c \<noteq> C_Broken x)"

definition stop_orphaned :: "ControlState \<times> Connection list \<Rightarrow> bool" where
  "stop_orphaned s \<longleftrightarrow> sm_state (ct_machine (fst s)) = Stopping \<and> list_all conn_closed (snd s)"

lemma closed_step:
  assumes "control_step texts r r'" "sm_state (ct_machine (fst r)) = Stopping" "conn_closed (snd r)"
  shows "sm_state (ct_machine (fst r')) = Stopping \<and> conn_closed (snd r')"
  using assms
  by (induction rule: control_step.induct)
     (auto simp: conn_closed_def on_hello_def control_release_def conn_defs split: option.split sum.split)

lemma stop_orphaned_step:
  "pool_step control_env control_spawn (control_step texts) s s' \<Longrightarrow> stop_orphaned s \<Longrightarrow> stop_orphaned s'"
proof (induction rule: pool_step.induct)
  case (pool_env st st' cs)
  then show ?case
    by (auto simp: stop_orphaned_def control_env_def request_stop_def handle_transport_lost_def reset_transport_def
        transport_lost_def Let_def split: option.splits)
next
  case (pool_spawn st st' c cs)
  then show ?case
    by (auto simp: stop_orphaned_def control_spawn_def control_accept_def Let_def conn_closed_def split: if_splits)
next
  case (pool_move i cs st st' c')
  then show ?case using closed_step [OF pool_move(2)] by (auto simp: stop_orphaned_def list_all_length nth_list_update)
qed

lemma stop_orphaned_forever:
  assumes "(pool_step control_env control_spawn (control_step texts))\<^sup>*\<^sup>* s s'" "stop_orphaned s"
  shows "stop_orphaned s'"
  using assms by (induction rule: rtranclp_induct) (auto intro: stop_orphaned_step)

lemma on_command_write_fails:
  assumes "ct_commands st = cmd # rest" "now \<le> cc_deadline cmd" "\<not> is_pending (cn_pending c)"
    "ct_active st = Some (cn_epoch c)" "sm_state (ct_machine st) \<in> {Preparing, Connected, Degraded, ErrorState}"
    "broken (cn_out c) = Some kind"
  shows "sm_state (ct_machine (fst (on_command now later (st, c)))) = Stopping \<and>
    conn_closed (snd (on_command now later (st, c))) \<and>
    ct_replies (fst (on_command now later (st, c))) = ct_replies st @ [(cc_ticket cmd, Inl SF_ConnectionClosed)]"
  using assms
  by (auto simp: on_command_def is_current_connection_def begin_stop_def guard_defs conn_defs conn_closed_def
      Frame_write_to_def write_all_def PendingStop_set_def split: sum.split)

section \<open>A sample run\<close>

text \<open>A server that has just started, the handshake of a connection, and a connection as accepted.\<close>

definition sample_session :: SessionId where "sample_session = SessionId (replicate 16 7)"

definition sample_server :: ControlState where
  "sample_server = \<lparr>ct_session = sample_session,
     ct_machine = StateMachine_new\<lparr>sm_state := Preparing, sm_session := Some sample_session\<rparr>, ct_active = None,
     ct_cancelled = (\<lambda>_. False), ct_metrics = ControlMetrics_default, ct_commands = [], ct_issued = 0,
     ct_replies = [], ct_published = [], ct_wakes = 0, ct_suspends = 0, ct_events = [],
     ct_permits = MAX_CONTROL_HANDLERS\<rparr>"

definition sample_texts :: json_texts where
  "sample_texts = \<lparr>jt_hello_ack = [], jt_snapshot = (\<lambda>_. [])\<rparr>"

definition sample_hello :: Frame where "sample_hello = Frame_new M_Hello sample_session []"

definition sample_bind :: SocketAddr where "sample_bind = V4 [127, 0, 0, 1] 0"

definition sample_conn :: "u64 \<Rightarrow> byte_sink \<Rightarrow> conn_state \<Rightarrow> Connection" where
  "sample_conn epoch out x = \<lparr>cn_epoch = epoch, cn_out = out, cn_pending = PendingStop_default,
     cn_suspended = False, cn_state = x\<rparr>"

definition sample_sink :: byte_sink where "sample_sink = \<lparr>written = [], broken = None\<rparr>"

lemma sample_new: "ControlServer_new sample_bind sample_session = Inr sample_server"
  by (simp add: ControlServer_new_def sample_bind_def sample_server_def is_loopback_def begin_start_def guard_defs
      StateMachine_new_def)

lemma sample_spawn:
  assumes "control_reachable sample_texts sample_server (st, cs)" "0 < ct_permits st"
  shows "control_reachable sample_texts sample_server
    (st\<lparr>ct_permits := ct_permits st - 1\<rparr>, cs @ [sample_conn 0 sample_sink C_Handshake])"
proof (rule pool_next [OF assms(1)], rule pool_spawn)
  show "control_spawn st (st\<lparr>ct_permits := ct_permits st - 1\<rparr>, sample_conn 0 sample_sink C_Handshake)"
    using assms(2) by (auto simp: control_spawn_def control_accept_def sample_conn_def Let_def)
qed

lemma sample_greet:
  assumes "control_reachable sample_texts sample_server (st, cs)" "i < length cs"
    "cs ! i = sample_conn 0 sample_sink C_Handshake" "ct_session st = sample_session"
    "sm_state (ct_machine st) \<noteq> Stopping" "cm_connection_generation (ct_metrics st) = g" "g \<noteq> -1"
  shows "\<exists>out. broken out = None \<and> control_reachable sample_texts sample_server
    (st\<lparr>ct_metrics := (ct_metrics st)\<lparr>cm_connection_generation := g + 1, cm_android := None\<rparr>,
        ct_active := Some (g + 1),
        ct_cancelled := (case ct_active st of None \<Rightarrow> ct_cancelled st
          | Some previous \<Rightarrow> (ct_cancelled st)(previous := True))(g + 1 := False)\<rparr>,
     cs[i := sample_conn (g + 1) out C_Looping])"
proof -
  have "frame_wf (Frame_new M_HelloAck sample_session [])"
    by (simp add: frame_wf_def sample_session_def session_wf_def Frame_new_def MAX_PAYLOAD_LEN_def)
  then obtain bs where bs: "Frame_encode (Frame_new M_HelloAck sample_session []) = Inr bs"
    using gnr4.enc_total by blast
  have "on_hello sample_texts (Inr sample_hello) (st, cs ! i) =
    (st\<lparr>ct_metrics := (ct_metrics st)\<lparr>cm_connection_generation := g + 1, cm_android := None\<rparr>,
        ct_active := Some (g + 1),
        ct_cancelled := (case ct_active st of None \<Rightarrow> ct_cancelled st
          | Some previous \<Rightarrow> (ct_cancelled st)(previous := True))(g + 1 := False)\<rparr>,
     sample_conn (g + 1) \<lparr>written = bs, broken = None\<rparr> C_Looping)"
    using assms Frame_write_to_ok [OF bs, of sample_sink]
    by (simp add: on_hello_def validate_session_def sample_hello_def Frame_new_def sample_conn_def conn_defs
        sample_texts_def saturating_inc64_def sample_sink_def)
  moreover have "control_step sample_texts (st, cs ! i) (on_hello sample_texts (Inr sample_hello) (st, cs ! i))"
    using cs_hello [of "cs ! i" sample_texts st "Some (0, Inr sample_hello)"]
    by (simp add: assms(3) sample_conn_def read_frame_with_timeout_def)
  ultimately show ?thesis
    using pool_next [OF assms(1) pool_move [OF assms(2)]] by (intro exI [of _ "\<lparr>written = bs, broken = None\<rparr>"]) simp
qed

text \<open>Two connections: the second one has taken over from the first.\<close>

definition sample_opened :: ControlState where
  "sample_opened = sample_server\<lparr>ct_permits := 3,
     ct_metrics := ControlMetrics_default\<lparr>cm_connection_generation := 1\<rparr>, ct_active := Some 1\<rparr>"


lemma sample_accepted:
  "control_reachable sample_texts sample_server (sample_server\<lparr>ct_permits := 3\<rparr>, [sample_conn 0 sample_sink C_Handshake])"
  using sample_spawn [OF pool_init] by (simp add: sample_server_def MAX_CONTROL_HANDLERS_def)

lemma sample_first:
  "\<exists>out. broken out = None \<and>
     control_reachable sample_texts sample_server (sample_opened, [sample_conn 1 out C_Looping])"
  using sample_greet [OF sample_accepted, of 0 0]
  by (simp add: sample_server_def sample_opened_def StateMachine_new_def ControlMetrics_default_def fun_upd_idem)


text \<open>A connection whose carrier breaks, and a stop request on the lane.\<close>

lemma sample_stop_requested:
  "\<exists>out. control_reachable sample_texts sample_server
     (request_stop 5 sample_opened, [sample_conn 1 (out\<lparr>broken := Some ConnectionReset\<rparr>) C_Looping])"
proof -
  obtain out where first: "control_reachable sample_texts sample_server (sample_opened, [sample_conn 1 out C_Looping])"
    using sample_first by blast
  have "control_step sample_texts (sample_opened, sample_conn 1 out C_Looping)
      (sample_opened, sample_conn 1 (out\<lparr>broken := Some ConnectionReset\<rparr>) C_Looping)"
    using cs_carrier [of sample_texts sample_opened "sample_conn 1 out C_Looping" ConnectionReset]
    by (simp add: sample_conn_def)
  then have broken: "control_reachable sample_texts sample_server
      (sample_opened, [sample_conn 1 (out\<lparr>broken := Some ConnectionReset\<rparr>) C_Looping])"
    using pool_next [OF first pool_move [of 0]] by simp
  have "control_env sample_opened (request_stop 5 sample_opened)" by (auto simp: control_env_def)
  from pool_next [OF broken pool_env, OF this] show ?thesis by (rule exI)
qed

section \<open>Properties\<close>

text \<open>The control server drives the lifecycle: whatever connections come and go, whatever they send
  and whatever the runtime does in between, in every interleaving, the machine of the server is a
  reachable lifecycle machine and satisfies its field invariant; the server is bound to loopback.\<close>

theorem control_machine_lifecycle:
  assumes "ControlServer_new bind session = Inr st0" "control_reachable texts st0 s"
  shows "is_loopback bind \<and> sm_reachable (ct_machine (fst s)) \<and> sm_inv (ct_machine (fst s))"
  using control_pool_machine [OF assms(2)] control_new_state [OF assms(1)] by (simp add: sm_reachable_inv)

text \<open>At most four connection handlers run at a time, and the permits that are left are exactly the
  ones no handler holds: a handler that ends by any path gives its permit back.\<close>

theorem control_handlers_bounded:
  assumes "ControlServer_new bind session = Inr st0" "control_reachable texts st0 (st, cs)"
  shows "sum_list (map handler_held cs) \<le> MAX_CONTROL_HANDLERS \<and>
    ct_permits st = MAX_CONTROL_HANDLERS - sum_list (map handler_held cs)"
  using handlers.pool_gauge [OF assms(2)] handlers.pool_limit [OF assms(2)] control_new_state [OF assms(1)]
  by (auto simp: handlers_used_def permits_ok_def)

text \<open>C13. Stop requests are neither lost nor answered twice: at any moment a request that was issued is
  in exactly one of three places, the lane, the pending stop of one connection, or the answers; and
  once the lane is empty and no handler is in its loop or before its cleanup, it has been answered.\<close>

theorem stop_requests_answered_once:
  assumes "ControlServer_new bind session = Inr st0" "control_reachable texts st0 (st, cs)"
  shows "length (filter (\<lambda>cmd. cc_ticket cmd = t) (ct_commands st)) + sum_list (map (ticket_held t) cs) +
      length (filter (\<lambda>p. fst p = t) (ct_replies st)) = (if t < ct_issued st then 1 else 0) \<and>
    (ct_commands st = [] \<and> list_all conn_closed cs \<and> t < ct_issued st \<longrightarrow> t \<in> fst ` set (ct_replies st))"
proof -
  have "ticket_limit t st0 = 0" "ticket_count t st0 = 0"
    using control_new_state [OF assms(1)] by (simp_all add: ticket_limit_def ticket_count_def)
  then have total: "ticket_count t st + sum_list (map (ticket_held t) cs) = ticket_limit t st"
    using tickets.pool_gauge [OF assms(2), of t] by auto
  moreover have "t \<in> fst ` set (ct_replies st)"
    if "ct_commands st = []" "list_all conn_closed cs" "t < ct_issued st"
  proof -
    have "list_all pending_inv cs" using pending.pool_inv [OF assms(2)] by simp
    then have "\<forall>c \<in> set cs. ticket_held t c = 0"
      using that(2) by (auto simp: list_all_iff pending_inv_def conn_closed_def ticket_held_def)
    then have "sum_list (map (ticket_held t) cs) = 0" by (simp add: sum_list_eq_0_iff)
    moreover have "ticket_limit t st = 1" using that(3) by (simp add: ticket_limit_def)
    ultimately have "ticket_count t st = 1" using total by linarith
    then have "filter (\<lambda>p. fst p = t) (ct_replies st) \<noteq> []"
      using that(1) by (auto simp: ticket_count_def)
    then show ?thesis by (force simp: filter_empty_conv)
  qed
  ultimately show ?thesis by (simp add: ticket_count_def ticket_limit_def)
qed

theorem stop_requests_answered_once_witness:
  "\<exists>out. length (filter (\<lambda>cmd. cc_ticket cmd = 0) (ct_commands (request_stop 5 sample_opened))) +
     sum_list (map (ticket_held 0) [sample_conn 1 out C_Looping]) +
     length (filter (\<lambda>p. fst p = 0) (ct_replies (request_stop 5 sample_opened))) = 1"
proof -
  obtain out where "control_reachable sample_texts sample_server
     (request_stop 5 sample_opened, [sample_conn 1 (out\<lparr>broken := Some ConnectionReset\<rparr>) C_Looping])"
    using sample_stop_requested by blast
  from stop_requests_answered_once [OF sample_new this, of 0] show ?thesis
    by (intro exI [of _ "out\<lparr>broken := Some ConnectionReset\<rparr>"])
       (simp add: request_stop_def sample_opened_def sample_server_def COMMAND_LANE_CAPACITY_def)
qed





text \<open>C16. When the STOP frame cannot be written, the handler returns without its cleanup: the machine stays
  in the stopping state, and with no other handler open it stays there through everything connections and
  the runtime can do later, new connections included, because no replacement is admitted while stopping.\<close>

theorem failed_stop_write_orphans_session:
  assumes "i < length cs" "\<forall>j < length cs. j \<noteq> i \<longrightarrow> conn_closed (cs ! j)"
    and "ct_commands st = cmd # rest" "now \<le> cc_deadline cmd" "\<not> is_pending (cn_pending (cs ! i))"
    and "ct_active st = Some (cn_epoch (cs ! i))"
    and "sm_state (ct_machine st) \<in> {Preparing, Connected, Degraded, ErrorState}"
    and "broken (cn_out (cs ! i)) = Some kind" "on_command now later (st, cs ! i) = (st', c')"
    and "(pool_step control_env control_spawn (control_step texts))\<^sup>*\<^sup>* (st', cs[i := c']) (st'', cs'')"
  shows "sm_state (ct_machine st'') = Stopping \<and> list_all conn_closed cs''"
proof -
  have "sm_state (ct_machine st') = Stopping" "conn_closed c'"
    using on_command_write_fails [OF assms(3,4,5,6,7,8), of later] assms(9) by simp_all
  then have "stop_orphaned (st', cs[i := c'])"
    using assms(1,2) by (auto simp: stop_orphaned_def list_all_length nth_list_update)
  from stop_orphaned_forever [OF assms(10) this] show ?thesis by (simp add: stop_orphaned_def)
qed

theorem failed_stop_write_orphans_session_witness:
  "\<exists>st cs. control_reachable sample_texts sample_server (st, cs) \<and>
     sm_state (ct_machine st) = Stopping \<and> list_all conn_closed cs"
proof -
  obtain out where reach: "control_reachable sample_texts sample_server
     (request_stop 5 sample_opened, [sample_conn 1 (out\<lparr>broken := Some ConnectionReset\<rparr>) C_Looping])"
    using sample_stop_requested by blast
  let ?c = "sample_conn 1 (out\<lparr>broken := Some ConnectionReset\<rparr>) C_Looping"
  obtain st' c' where step: "on_command 0 0 (request_stop 5 sample_opened, [?c] ! 0) = (st', c')"
    by (cases "on_command 0 0 (request_stop 5 sample_opened, [?c] ! 0)")
  have "control_step sample_texts (request_stop 5 sample_opened, [?c] ! 0) (st', c')"
    using cs_command [of ?c "request_stop 5 sample_opened" sample_texts 0 0] step
    by (simp add: sample_conn_def request_stop_def sample_opened_def sample_server_def)
  from pool_next [OF reach pool_move [where i = 0 and as = "[?c]" and step = "control_step sample_texts", OF _ this]]
  have "control_reachable sample_texts sample_server (st', [?c][0 := c'])" by simp
  moreover have "sm_state (ct_machine st') = Stopping \<and> list_all conn_closed ([?c][0 := c'])"
    by (rule failed_stop_write_orphans_session [OF _ _ _ _ _ _ _ _ step rtranclp.rtrancl_refl])
       (simp_all add: request_stop_def sample_opened_def sample_server_def COMMAND_LANE_CAPACITY_def sample_conn_def
         is_pending_def PendingStop_default_def StateMachine_new_def)
  ultimately show ?thesis by blast
qed

end
