(* ===== verification/RelayControl.thy ===== *)
theory RelayControl
  imports RelayGate Lifecycle Control
begin

text \<open>
  The relay gate controller of \<^verbatim>\<open>runtime.rs\<close>: what the host knows about the carrier and the control
  lane, every operation that changes it together with the gate of the SOCKS listeners, the delayed
  tasks that end the grace period after a control loss, and the observer that feeds it the published
  lifecycle snapshots.
\<close>

section \<open>State\<close>

record RelayEligibility =
  el_carrier_healthy :: bool
  el_control_authenticated :: bool
  el_control_loss_pending :: bool
  el_screen_suspended :: bool
  el_control_epoch :: u64

text \<open>\<open>rc_timers\<close> are the spawned tasks that sleep until the grace is over: when they wake and the
  epoch they were started for.\<close>

record RelayGateController =
  rc_gate :: RelayGateState
  rc_eligibility :: RelayEligibility
  rc_control_loss_grace :: duration
  rc_timers :: "(instant \<times> u64) list"

definition with_control_loss_grace :: "RelayGateState \<Rightarrow> duration \<Rightarrow> RelayGateController" where
  "with_control_loss_grace gate grace =
     \<lparr>rc_gate = gate,
      rc_eligibility = \<lparr>el_carrier_healthy = True, el_control_authenticated = False,
        el_control_loss_pending = False, el_screen_suspended = False, el_control_epoch = 0\<rparr>,
      rc_control_loss_grace = grace, rc_timers = []\<rparr>"

definition RelayGateController_new :: "RelayGateState \<Rightarrow> RelayGateController" where
  "RelayGateController_new gate = with_control_loss_grace gate (3 * 1000000000)"

section \<open>Operations\<close>

definition control_connected :: "RelayGateController \<Rightarrow> RelayGateController" where
  "control_connected c =
     (let e = (rc_eligibility c)\<lparr>el_control_epoch := el_control_epoch (rc_eligibility c) + 1,
            el_control_loss_pending := False, el_control_authenticated := True, el_screen_suspended := False\<rparr>
      in c\<lparr>rc_eligibility := e,
           rc_gate := if el_carrier_healthy e then set_enabled True (rc_gate c)
                      else wait_for_activation (rc_gate c)\<rparr>)"

definition screen_suspended :: "RelayGateController \<Rightarrow> RelayGateController" where
  "screen_suspended c =
     c\<lparr>rc_eligibility := (rc_eligibility c)\<lparr>el_control_epoch := el_control_epoch (rc_eligibility c) + 1,
         el_control_loss_pending := False, el_control_authenticated := False, el_screen_suspended := True\<rparr>,
       rc_gate := invalidate_and_wait_for_activation (rc_gate c)\<rparr>"

definition screen_suspended_if_epoch :: "u64 \<Rightarrow> RelayGateController \<Rightarrow> bool \<times> RelayGateController" where
  "screen_suspended_if_epoch epoch c =
     (if el_control_epoch (rc_eligibility c) \<noteq> epoch \<or> \<not> el_control_authenticated (rc_eligibility c)
      then (False, c)
      else (True,
        c\<lparr>rc_eligibility := (rc_eligibility c)\<lparr>el_control_epoch := el_control_epoch (rc_eligibility c) + 1,
            el_control_loss_pending := False, el_control_authenticated := False, el_screen_suspended := True\<rparr>,
          rc_gate := invalidate_and_wait_for_activation (rc_gate c)\<rparr>))"

definition authenticated_wake :: "RelayGateController \<Rightarrow> RelayGateController" where
  "authenticated_wake c =
     c\<lparr>rc_eligibility := (rc_eligibility c)\<lparr>el_control_epoch := el_control_epoch (rc_eligibility c) + 1,
         el_control_loss_pending := False, el_screen_suspended := False\<rparr>,
       rc_gate := wait_for_activation (rc_gate c)\<rparr>"

definition control_degraded :: "instant \<Rightarrow> RelayGateController \<Rightarrow> RelayGateController" where
  "control_degraded now c =
     (let e = rc_eligibility c in
      if \<not> el_control_authenticated e \<or> el_control_loss_pending e \<or> el_screen_suspended e then c
      else
        let epoch = el_control_epoch e + 1 in
        c\<lparr>rc_eligibility := e\<lparr>el_control_epoch := epoch, el_control_loss_pending := True\<rparr>,
          rc_timers := rc_timers c @ [(now + rc_control_loss_grace c, epoch)]\<rparr>)"

definition control_inactive_if_epoch :: "u64 \<Rightarrow> RelayGateController \<Rightarrow> bool \<times> RelayGateController" where
  "control_inactive_if_epoch epoch c =
     (let e = rc_eligibility c in
      if el_control_epoch e \<noteq> epoch \<or> \<not> el_control_authenticated e \<or> el_screen_suspended e then (False, c)
      else (True,
        c\<lparr>rc_eligibility := e\<lparr>el_control_epoch := el_control_epoch e + 1, el_control_loss_pending := False,
            el_control_authenticated := False\<rparr>,
          rc_gate := set_enabled False (rc_gate c)\<rparr>))"

definition expire_control_loss :: "u64 \<Rightarrow> RelayGateController \<Rightarrow> RelayGateController" where
  "expire_control_loss epoch c = snd (control_inactive_if_epoch epoch c)"

definition pending_control_epoch :: "RelayGateController \<Rightarrow> u64 option" where
  "pending_control_epoch c =
     (if el_control_authenticated (rc_eligibility c) \<and> el_control_loss_pending (rc_eligibility c)
      then Some (el_control_epoch (rc_eligibility c)) else None)"

definition control_inactive :: "RelayGateController \<Rightarrow> RelayGateController" where
  "control_inactive c =
     c\<lparr>rc_eligibility := (rc_eligibility c)\<lparr>el_control_epoch := el_control_epoch (rc_eligibility c) + 1,
         el_control_loss_pending := False, el_control_authenticated := False, el_screen_suspended := False\<rparr>,
       rc_gate := set_enabled False (rc_gate c)\<rparr>"

definition control_inactive_awaiting_recovery :: "RelayGateController \<Rightarrow> RelayGateController" where
  "control_inactive_awaiting_recovery c =
     c\<lparr>rc_eligibility := (rc_eligibility c)\<lparr>el_control_epoch := el_control_epoch (rc_eligibility c) + 1,
         el_control_loss_pending := False, el_control_authenticated := False, el_screen_suspended := False\<rparr>,
       rc_gate := invalidate_and_wait_for_activation (rc_gate c)\<rparr>"

definition carrier_lost :: "RelayGateController \<Rightarrow> RelayGateController" where
  "carrier_lost c =
     c\<lparr>rc_eligibility := (rc_eligibility c)\<lparr>el_control_epoch := el_control_epoch (rc_eligibility c) + 1,
         el_control_loss_pending := False, el_carrier_healthy := False, el_control_authenticated := False,
         el_screen_suspended := False\<rparr>,
       rc_gate := set_enabled False (rc_gate c)\<rparr>"

definition carrier_lost_awaiting_recovery :: "RelayGateController \<Rightarrow> RelayGateController" where
  "carrier_lost_awaiting_recovery c =
     c\<lparr>rc_eligibility := (rc_eligibility c)\<lparr>el_control_epoch := el_control_epoch (rc_eligibility c) + 1,
         el_control_loss_pending := False, el_carrier_healthy := False, el_control_authenticated := False,
         el_screen_suspended := False\<rparr>,
       rc_gate := invalidate_and_wait_for_activation (rc_gate c)\<rparr>"

definition carrier_healthy :: "RelayGateController \<Rightarrow> RelayGateController" where
  "carrier_healthy c =
     (let e = (rc_eligibility c)\<lparr>el_carrier_healthy := True\<rparr>; c = c\<lparr>rc_eligibility := e\<rparr> in
      if el_screen_suspended e then c
      else if el_control_authenticated e then c\<lparr>rc_gate := set_enabled True (rc_gate c)\<rparr>
      else c\<lparr>rc_gate := wait_for_activation (rc_gate c)\<rparr>)"

definition TRANSPORT_RECOVERY_REASON :: string where
  "TRANSPORT_RECOVERY_REASON = ''rebuilding the wired transport generation''"

definition update_relay_gate :: "instant \<Rightarrow> StateSnapshot \<Rightarrow> RelayGateController \<Rightarrow> RelayGateController" where
  "update_relay_gate now s c =
     (case snap_state s of
        Connected \<Rightarrow> control_connected c
      | Degraded \<Rightarrow>
          if snap_reason s = Some TRANSPORT_RECOVERY_REASON then carrier_lost_awaiting_recovery c
          else if snap_reason s = Some CONTROL_TRANSPORT_LOST_REASON then control_degraded now c
          else c
      | Stopped \<Rightarrow> control_inactive c
      | Stopping \<Rightarrow> control_inactive c
      | ErrorState \<Rightarrow> control_inactive c
      | Preparing \<Rightarrow> c)"

section \<open>Runs of the controller\<close>

datatype controller_op =
    ControlConnected
  | ScreenSuspended
  | ScreenSuspendedIfEpoch u64
  | AuthenticatedWake
  | ControlDegraded instant
  | ExpireControlLoss u64
  | ControlInactive
  | ControlInactiveAwaitingRecovery
  | CarrierLost
  | CarrierLostAwaitingRecovery
  | CarrierHealthy

fun controller_apply :: "controller_op \<Rightarrow> RelayGateController \<Rightarrow> RelayGateController" where
  "controller_apply ControlConnected = control_connected"
| "controller_apply ScreenSuspended = screen_suspended"
| "controller_apply (ScreenSuspendedIfEpoch epoch) = (\<lambda>c. snd (screen_suspended_if_epoch epoch c))"
| "controller_apply AuthenticatedWake = authenticated_wake"
| "controller_apply (ControlDegraded now) = control_degraded now"
| "controller_apply (ExpireControlLoss epoch) = expire_control_loss epoch"
| "controller_apply ControlInactive = control_inactive"
| "controller_apply ControlInactiveAwaitingRecovery = control_inactive_awaiting_recovery"
| "controller_apply CarrierLost = carrier_lost"
| "controller_apply CarrierLostAwaitingRecovery = carrier_lost_awaiting_recovery"
| "controller_apply CarrierHealthy = carrier_healthy"

lemmas controller_defs = control_connected_def screen_suspended_def screen_suspended_if_epoch_def
  authenticated_wake_def control_degraded_def expire_control_loss_def control_inactive_if_epoch_def
  control_inactive_def control_inactive_awaiting_recovery_def carrier_lost_def
  carrier_lost_awaiting_recovery_def carrier_healthy_def Let_def

lemma gate_enabled [simp]:
  "rg_enabled (set_enabled b g) = b"
  "rg_enabled (wait_for_activation g) = rg_enabled g"
  "\<not> rg_enabled (invalidate_and_wait_for_activation g)"
  by (auto simp: set_enabled_def wait_for_activation_def invalidate_and_wait_for_activation_def)

text \<open>The relay is open exactly for an authenticated peer on a healthy carrier; a suspended peer is not
  authenticated, and only an authenticated one can have its loss pending.\<close>

definition relay_inv :: "RelayGateController \<Rightarrow> bool" where
  "relay_inv c \<longleftrightarrow> (let e = rc_eligibility c in
     (rg_enabled (rc_gate c) \<longleftrightarrow> el_carrier_healthy e \<and> el_control_authenticated e) \<and>
     (el_screen_suspended e \<longrightarrow> \<not> el_control_authenticated e) \<and>
     (el_control_loss_pending e \<longrightarrow> el_control_authenticated e))"

lemma relay_inv_apply: "relay_inv c \<Longrightarrow> relay_inv (controller_apply op c)"
  by (cases op) (auto simp: relay_inv_def controller_defs)

lemma relay_inv_run: "relay_inv c \<Longrightarrow> relay_inv (fold controller_apply ops c)"
  by (induction ops arbitrary: c) (auto simp: relay_inv_apply)

lemma relay_inv_new: "\<not> rg_enabled gate \<Longrightarrow> relay_inv (with_control_loss_grace gate grace)"
  by (simp add: relay_inv_def with_control_loss_grace_def)

text \<open>The observer is one of the operations, or nothing.\<close>

definition relay_ops :: "instant \<Rightarrow> StateSnapshot \<Rightarrow> controller_op list" where
  "relay_ops now s =
     (case snap_state s of
        Connected \<Rightarrow> [ControlConnected]
      | Degraded \<Rightarrow>
          if snap_reason s = Some TRANSPORT_RECOVERY_REASON then [CarrierLostAwaitingRecovery]
          else if snap_reason s = Some CONTROL_TRANSPORT_LOST_REASON then [ControlDegraded now]
          else []
      | Preparing \<Rightarrow> []
      | _ \<Rightarrow> [ControlInactive])"

lemma update_relay_gate_run: "update_relay_gate now s c = fold controller_apply (relay_ops now s) c"
  by (simp add: update_relay_gate_def relay_ops_def split: HostState.split)

lemma update_relay_gate_inv: "relay_inv c \<Longrightarrow> relay_inv (update_relay_gate now s c)"
  by (simp add: update_relay_gate_run relay_inv_run)

section \<open>Epochs\<close>

abbreviation epoch_of :: "RelayGateController \<Rightarrow> u64" where
  "epoch_of c \<equiv> el_control_epoch (rc_eligibility c)"

lemma epoch_apply: "epoch_of (controller_apply op c) = epoch_of c \<or> epoch_of (controller_apply op c) = epoch_of c + 1"
  by (cases op) (auto simp: controller_defs)

text \<open>The epoch after a run is ahead by at most the number of operations, and by at least one if
  an operation in it advances the epoch.\<close>

lemma epoch_run: "\<exists>k \<le> length ops. epoch_of (fold controller_apply ops c) = epoch_of c + of_nat k"
proof (induction ops arbitrary: c)
  case (Cons op ops)
  then obtain k where "k \<le> length ops"
    "epoch_of (fold controller_apply ops (controller_apply op c)) = epoch_of (controller_apply op c) + of_nat k" by blast
  with epoch_apply [of op c] show ?case
    by (auto intro: exI [of _ k] exI [of _ "Suc k"] simp: add.assoc)
qed simp

text \<open>The operations that always advance the epoch.\<close>

fun advancing :: "controller_op \<Rightarrow> bool" where
  "advancing (ScreenSuspendedIfEpoch _) = False"
| "advancing (ControlDegraded _) = False"
| "advancing (ExpireControlLoss _) = False"
| "advancing CarrierHealthy = False"
| "advancing _ = True"

lemma advancing_epoch: "advancing op \<Longrightarrow> epoch_of (controller_apply op c) = epoch_of c + 1"
  by (cases op) (auto simp: controller_defs)

lemma epoch_passed:
  assumes "list_ex advancing ops" "length ops < 2 ^ 64 - 1"
  shows "epoch_of (fold controller_apply ops c) \<noteq> epoch_of c"
proof -
  obtain before op after where ops: "ops = before @ op # after" and op: "advancing op"
    using assms(1) by (auto simp: list_ex_iff in_set_conv_decomp)
  let ?c = "fold controller_apply before c"
  obtain j where j: "j \<le> length before" "epoch_of ?c = epoch_of c + of_nat j" using epoch_run by blast
  obtain k where k: "k \<le> length after"
    "epoch_of (fold controller_apply after (controller_apply op ?c)) = epoch_of ?c + 1 + of_nat k"
    using epoch_run [of after "controller_apply op ?c"] advancing_epoch [OF op] by auto
  have "Suc (j + k) < 2 ^ 64" using j(1) k(1) assms(2) by (simp add: ops)
  then have "unat (of_nat (Suc (j + k)) :: u64) = Suc (j + k)" by (subst unat_of_nat) simp
  then have "of_nat (Suc (j + k)) \<noteq> (0 :: u64)" by (metis unsigned_0 nat.simps(3))
  moreover have "epoch_of (fold controller_apply ops c) = epoch_of c + of_nat (Suc (j + k))"
    using j(2) k(2) by (simp add: ops algebra_simps)
  ultimately show ?thesis by (metis add_cancel_left_right)
qed

lemma expire_stale: "epoch_of c \<noteq> epoch \<Longrightarrow> expire_control_loss epoch c = c"
  by (simp add: controller_defs)

lemma healthy_run:
  "set ops \<subseteq> {CarrierHealthy} \<Longrightarrow> epoch_of (fold controller_apply ops c) = epoch_of c \<and>
     el_control_authenticated (rc_eligibility (fold controller_apply ops c)) = el_control_authenticated (rc_eligibility c) \<and>
     el_screen_suspended (rc_eligibility (fold controller_apply ops c)) = el_screen_suspended (rc_eligibility c) \<and>
     rc_timers (fold controller_apply ops c) = rc_timers c"
  by (induction ops arbitrary: c) (auto simp: carrier_healthy_def Let_def)

section \<open>Properties\<close>

text \<open>Whatever the control server, the carrier monitor and the timers do, in any order, the gate of
  both SOCKS listeners is open exactly when the carrier is healthy and the control lane is
  authenticated; a suspended headset is never authenticated, so its relay is closed.\<close>

theorem relay_open_iff_eligible:
  assumes "\<not> rg_enabled gate"
  shows "relay_inv (fold controller_apply ops (RelayGateController_new gate))"
  using assms by (simp add: RelayGateController_new_def relay_inv_run relay_inv_new)

text \<open>Losing the control lane closes the relay after the grace period, and only then: the loss
  leaves the gate open and starts a timer for the end of the grace; if the lane comes back, or anything
  else takes over before the timer fires, the timer does nothing; if nothing happened but healthy
  carrier probes, it closes the gate.  Fewer than 2 ^ 64 - 1 operations happen in between.\<close>

theorem control_loss_grace:
  assumes "relay_inv c" "el_control_authenticated (rc_eligibility c)" "\<not> el_control_loss_pending (rc_eligibility c)"
    and "length ops < 2 ^ 64 - 1"
  shows "rc_gate (control_degraded now c) = rc_gate c \<and>
    rc_timers (control_degraded now c) = rc_timers c @ [(now + rc_control_loss_grace c, epoch_of c + 1)] \<and>
    (list_ex advancing ops \<longrightarrow>
       expire_control_loss (epoch_of c + 1) (fold controller_apply ops (control_degraded now c)) =
       fold controller_apply ops (control_degraded now c)) \<and>
    (set ops \<subseteq> {CarrierHealthy} \<longrightarrow>
       \<not> rg_enabled (rc_gate (expire_control_loss (epoch_of c + 1)
           (fold controller_apply ops (control_degraded now c)))))"
proof -
  have awake: "\<not> el_screen_suspended (rc_eligibility c)" using assms(1,2) by (auto simp: relay_inv_def Let_def)
  have deg: "epoch_of (control_degraded now c) = epoch_of c + 1"
    "el_control_authenticated (rc_eligibility (control_degraded now c))"
    "\<not> el_screen_suspended (rc_eligibility (control_degraded now c))"
    "rc_gate (control_degraded now c) = rc_gate c"
    "rc_timers (control_degraded now c) = rc_timers c @ [(now + rc_control_loss_grace c, epoch_of c + 1)]"
    using assms(2,3) awake by (simp_all add: control_degraded_def Let_def)
  have "\<not> rg_enabled (rc_gate (expire_control_loss (epoch_of c + 1) (fold controller_apply ops (control_degraded now c))))"
    if "set ops \<subseteq> {CarrierHealthy}"
    using healthy_run [OF that, of "control_degraded now c"] deg
    by (simp add: expire_control_loss_def control_inactive_if_epoch_def Let_def)
  moreover have "expire_control_loss (epoch_of c + 1) (fold controller_apply ops (control_degraded now c)) =
      fold controller_apply ops (control_degraded now c)" if "list_ex advancing ops"
    using epoch_passed [OF that assms(4), of "control_degraded now c"] deg(1) by (simp add: expire_stale)
  ultimately show ?thesis using deg by blast
qed

end
