(* ===== verification/Monitor.thy ===== *)
theory Monitor
  imports RelayControl
begin

text \<open>
  The ADB health monitor of \<^verbatim>\<open>runtime.rs\<close>: the liveness policy that restarts a wedged Android
  service, the transport recovery machine with its generations, bounded attempts and single automatic
  re-arm, the status other parts of the host read, and the tasks it spawns.  Each method is one
  definition on the record of the monitor; the spawned tasks are a list of delayed bodies.
\<close>

section \<open>Liveness of the Android service\<close>

definition seconds :: "nat \<Rightarrow> duration" where "seconds n = n * 1000000000"

definition ANDROID_LIVENESS_GRACE :: duration where "ANDROID_LIVENESS_GRACE = seconds 10"
definition ANDROID_LIVENESS_AWAKE_PROBE_INTERVAL :: duration where
  "ANDROID_LIVENESS_AWAKE_PROBE_INTERVAL = seconds 5"
definition ANDROID_LIVENESS_ASLEEP_PROBE_INTERVAL :: duration where
  "ANDROID_LIVENESS_ASLEEP_PROBE_INTERVAL = seconds 15"
definition ANDROID_RESTART_INITIAL_BACKOFF :: duration where "ANDROID_RESTART_INITIAL_BACKOFF = seconds 60"
definition ANDROID_RESTART_MAX_BACKOFF :: duration where "ANDROID_RESTART_MAX_BACKOFF = seconds 300"

record AndroidLiveness =
  al_silent_since :: "instant option"
  al_awake_since :: "instant option"
  al_next_probe_at :: "instant option"
  al_next_restart_at :: "instant option"
  al_restarts :: u32

definition AndroidLiveness_default :: AndroidLiveness where
  "AndroidLiveness_default = \<lparr>al_silent_since = None, al_awake_since = None, al_next_probe_at = None,
     al_next_restart_at = None, al_restarts = 0\<rparr>"

definition liveness_connected :: "AndroidLiveness \<Rightarrow> AndroidLiveness" where
  "liveness_connected l = AndroidLiveness_default"

definition liveness_ineligible :: "AndroidLiveness \<Rightarrow> AndroidLiveness" where
  "liveness_ineligible l = l\<lparr>al_silent_since := None, al_awake_since := None, al_next_probe_at := None\<rparr>"

definition liveness_silent :: "instant \<Rightarrow> AndroidLiveness \<Rightarrow> AndroidLiveness" where
  "liveness_silent now l =
     l\<lparr>al_silent_since := (case al_silent_since l of None \<Rightarrow> Some now | Some since \<Rightarrow> Some since)\<rparr>"

definition probe_due :: "instant \<Rightarrow> AndroidLiveness \<Rightarrow> bool" where
  "probe_due now l \<longleftrightarrow> (case al_next_probe_at l of None \<Rightarrow> True | Some at \<Rightarrow> now \<ge> at)"

definition liveness_observed :: "bool \<Rightarrow> instant \<Rightarrow> AndroidLiveness \<Rightarrow> AndroidLiveness" where
  "liveness_observed awake now l =
     l\<lparr>al_awake_since :=
         (if awake then Some (case al_awake_since l of None \<Rightarrow> now | Some since \<Rightarrow> since) else None),
       al_next_probe_at := Some (now + (if awake then ANDROID_LIVENESS_AWAKE_PROBE_INTERVAL
                                        else ANDROID_LIVENESS_ASLEEP_PROBE_INTERVAL))\<rparr>"

definition grace_elapsed :: "instant \<Rightarrow> instant option \<Rightarrow> bool" where
  "grace_elapsed now since = (case since of None \<Rightarrow> False | Some s \<Rightarrow> now - s \<ge> ANDROID_LIVENESS_GRACE)"

definition restart_due :: "instant \<Rightarrow> AndroidLiveness \<Rightarrow> bool" where
  "restart_due now l \<longleftrightarrow> grace_elapsed now (al_silent_since l) \<and> grace_elapsed now (al_awake_since l) \<and>
     (case al_next_restart_at l of None \<Rightarrow> True | Some at \<Rightarrow> now \<ge> at)"

definition android_restart_backoff :: "u32 \<Rightarrow> duration" where
  "android_restart_backoff restarts =
     (let doublings = min (unat restarts - 1) 8 in
      min (ANDROID_RESTART_INITIAL_BACKOFF * 2 ^ doublings) ANDROID_RESTART_MAX_BACKOFF)"

definition saturating_inc32 :: "u32 \<Rightarrow> u32" where
  "saturating_inc32 w = (if w = -1 then w else w + 1)"

definition liveness_restarted :: "instant \<Rightarrow> AndroidLiveness \<Rightarrow> AndroidLiveness" where
  "liveness_restarted now l =
     (let restarts = saturating_inc32 (al_restarts l) in
      \<lparr>al_silent_since = Some now, al_awake_since = None,
       al_next_probe_at = Some (now + ANDROID_LIVENESS_AWAKE_PROBE_INTERVAL),
       al_next_restart_at = Some (now + android_restart_backoff restarts), al_restarts = restarts\<rparr>)"

section \<open>State of the monitor\<close>

datatype TransportRecoveryState =
  TR_Idle | TR_Pending | TR_WaitingForDevice | TR_RebuildingMappings | TR_AwaitingControl | TR_Recovered | TR_Failed

datatype TransportRecoveryTrigger = HostResume | UsbReconnect

record TransportRecoverySnapshot =
  tr_generation :: u64
  tr_attempt :: nat
  tr_state :: TransportRecoveryState
  tr_trigger :: "TransportRecoveryTrigger option"

definition TransportRecoverySnapshot_default :: TransportRecoverySnapshot where
  "TransportRecoverySnapshot_default = \<lparr>tr_generation = 0, tr_attempt = 0, tr_state = TR_Idle, tr_trigger = None\<rparr>"

definition TRANSPORT_RECOVERY_MAX_ATTEMPTS :: nat where "TRANSPORT_RECOVERY_MAX_ATTEMPTS = 2"
definition TRANSPORT_RECOVERY_RETRY_DELAY :: duration where "TRANSPORT_RECOVERY_RETRY_DELAY = seconds 1"
definition TRANSPORT_RECOVERY_REARM_DELAY :: duration where "TRANSPORT_RECOVERY_REARM_DELAY = seconds 30"
definition TRANSPORT_RECOVERY_CONTROL_TIMEOUT :: duration where "TRANSPORT_RECOVERY_CONTROL_TIMEOUT = seconds 3"

record AdbMonitorSnapshot =
  as_active :: bool
  as_repair_suppressed :: bool
  as_device_available :: bool
  as_mappings_healthy :: bool
  as_reconnect_generation :: u64
  as_mapping_probe_count :: u64
  as_mapping_probe_last_us :: u64
  as_mapping_probe_max_us :: u64
  as_transport_recovery :: TransportRecoverySnapshot
  as_last_error :: "string option"

definition AdbMonitorSnapshot_default :: AdbMonitorSnapshot where
  "AdbMonitorSnapshot_default = \<lparr>as_active = False, as_repair_suppressed = False, as_device_available = False,
     as_mappings_healthy = False, as_reconnect_generation = 0, as_mapping_probe_count = 0,
     as_mapping_probe_last_us = 0, as_mapping_probe_max_us = 0,
     as_transport_recovery = TransportRecoverySnapshot_default, as_last_error = None\<rparr>"

text \<open>The bodies of the spawned tasks: the end of the wait for an authenticated connection, the
  automatic re-arm, and a plain wake-up of the monitor.\<close>

datatype monitor_task =
    ControlTimeout u64 nat TransportRecoveryTrigger
  | RearmFailed u64 TransportRecoveryTrigger
  | WakeMonitor

text \<open>\<open>am_notified\<close> is the stored permit of the \<^verbatim>\<open>Notify\<close>, \<open>am_tasks\<close> what sleeps and for how long.\<close>

record AdbHealthMonitor =
  am_stopping :: bool
  am_authenticated_reconcile :: bool
  am_reconnect_generation :: u64
  am_mapping_probe_count :: u64
  am_mapping_probe_last_us :: u64
  am_mapping_probe_max_us :: u64
  am_transport_recovery :: TransportRecoverySnapshot
  am_transport_auto_rearm_generation :: u64
  am_transport_rearm_scheduled :: "u64 list"
  am_usb_reconnect_pending :: bool
  am_android_liveness :: AndroidLiveness
  am_status :: AdbMonitorSnapshot
  am_notified :: bool
  am_tasks :: "(duration \<times> monitor_task) list"

definition AdbHealthMonitor_default :: AdbHealthMonitor where
  "AdbHealthMonitor_default = \<lparr>am_stopping = False, am_authenticated_reconcile = False,
     am_reconnect_generation = 0, am_mapping_probe_count = 0, am_mapping_probe_last_us = 0,
     am_mapping_probe_max_us = 0, am_transport_recovery = TransportRecoverySnapshot_default,
     am_transport_auto_rearm_generation = 0, am_transport_rearm_scheduled = [],
     am_usb_reconnect_pending = False, am_android_liveness = AndroidLiveness_default,
     am_status = AdbMonitorSnapshot_default, am_notified = False, am_tasks = []\<rparr>"

section \<open>Status\<close>

definition notify_one :: "AdbHealthMonitor \<Rightarrow> AdbHealthMonitor" where
  "notify_one m = m\<lparr>am_notified := True\<rparr>"

definition monitor_spawn :: "duration \<Rightarrow> monitor_task \<Rightarrow> AdbHealthMonitor \<Rightarrow> AdbHealthMonitor" where
  "monitor_spawn delay t m = m\<lparr>am_tasks := am_tasks m @ [(delay, t)]\<rparr>"

definition AdbHealthMonitor_snapshot :: "AdbHealthMonitor \<Rightarrow> AdbMonitorSnapshot" where
  "AdbHealthMonitor_snapshot m =
     (am_status m)\<lparr>as_repair_suppressed := am_stopping m, as_reconnect_generation := am_reconnect_generation m,
       as_mapping_probe_count := am_mapping_probe_count m, as_mapping_probe_last_us := am_mapping_probe_last_us m,
       as_mapping_probe_max_us := am_mapping_probe_max_us m,
       as_transport_recovery := am_transport_recovery m\<rparr>"

definition transport_requires_recovery :: "AdbHealthMonitor \<Rightarrow> bool" where
  "transport_requires_recovery m \<longleftrightarrow> tr_state (am_transport_recovery m) \<in>
     set [TR_Pending, TR_WaitingForDevice, TR_RebuildingMappings, TR_Failed]"

definition sync_transport_recovery_status :: "string option \<Rightarrow> AdbHealthMonitor \<Rightarrow> AdbHealthMonitor" where
  "sync_transport_recovery_status last_error m =
     (let recovery = am_transport_recovery m;
          status = (am_status m)\<lparr>as_transport_recovery := recovery, as_last_error := last_error\<rparr>
      in m\<lparr>am_status :=
           if tr_state recovery \<in> set [TR_Pending, TR_WaitingForDevice, TR_RebuildingMappings, TR_Failed]
           then status\<lparr>as_mappings_healthy := False\<rparr> else status\<rparr>)"

definition update_status ::
  "bool \<Rightarrow> bool \<Rightarrow> bool \<Rightarrow> string option \<Rightarrow> AdbHealthMonitor \<Rightarrow> bool \<times> AdbHealthMonitor" where
  "update_status active device_available mappings_healthy last_error m =
     (let next = \<lparr>as_active = active, as_repair_suppressed = am_stopping m, as_device_available = device_available,
            as_mappings_healthy = mappings_healthy, as_reconnect_generation = am_reconnect_generation m,
            as_mapping_probe_count = am_mapping_probe_count m, as_mapping_probe_last_us = am_mapping_probe_last_us m,
            as_mapping_probe_max_us = am_mapping_probe_max_us m,
            as_transport_recovery = am_transport_recovery m, as_last_error = last_error\<rparr>
      in (am_status m \<noteq> next, m\<lparr>am_status := next\<rparr>))"

definition set_status :: "bool \<Rightarrow> bool \<Rightarrow> bool \<Rightarrow> string option \<Rightarrow> AdbHealthMonitor \<Rightarrow> AdbHealthMonitor" where
  "set_status active device_available mappings_healthy last_error m =
     snd (update_status active device_available mappings_healthy last_error m)"

definition record_mapping_probe :: "duration \<Rightarrow> AdbHealthMonitor \<Rightarrow> AdbHealthMonitor" where
  "record_mapping_probe d m =
     (let duration_us = word_of_nat (min (d div 1000) (2 ^ 64 - 1)) in
      m\<lparr>am_mapping_probe_count := am_mapping_probe_count m + 1, am_mapping_probe_last_us := duration_us,
        am_mapping_probe_max_us := max (am_mapping_probe_max_us m) duration_us\<rparr>)"

section \<open>Transport recovery\<close>

definition set_recovery :: "TransportRecoverySnapshot \<Rightarrow> AdbHealthMonitor \<Rightarrow> AdbHealthMonitor" where
  "set_recovery r m = m\<lparr>am_transport_recovery := r\<rparr>"

definition notify_transport_recovery :: "TransportRecoveryTrigger \<Rightarrow> AdbHealthMonitor \<Rightarrow> u64 \<times> AdbHealthMonitor" where
  "notify_transport_recovery trigger m =
     (let m = m\<lparr>am_transport_auto_rearm_generation := 0\<rparr>; r = am_transport_recovery m;
          r = r\<lparr>tr_generation := tr_generation r + 1, tr_attempt := 0, tr_state := TR_Pending,
                tr_trigger := Some trigger\<rparr>
      in (tr_generation r,
          notify_one (sync_transport_recovery_status (Some ''transport_recovery_pending'') (set_recovery r m))))"

definition notify_host_resume :: "AdbHealthMonitor \<Rightarrow> u64 \<times> AdbHealthMonitor" where
  "notify_host_resume m = notify_transport_recovery HostResume (m\<lparr>am_usb_reconnect_pending := False\<rparr>)"

definition rearm_failed_transport ::
  "u64 \<Rightarrow> TransportRecoveryTrigger \<Rightarrow> AdbHealthMonitor \<Rightarrow> u64 option \<times> AdbHealthMonitor" where
  "rearm_failed_transport generation trigger m =
     (let r = am_transport_recovery m in
      if am_stopping m \<or> am_transport_auto_rearm_generation m = generation then (None, m)
      else if tr_generation r \<noteq> generation \<or> tr_state r \<noteq> TR_Failed then (None, m)
      else
        let r = r\<lparr>tr_generation := tr_generation r + 1, tr_attempt := 0, tr_state := TR_Pending,
                  tr_trigger := Some trigger\<rparr>
        in (Some (tr_generation r),
            notify_one (sync_transport_recovery_status (Some ''transport_recovery_rearmed'')
              ((set_recovery r m)\<lparr>am_transport_auto_rearm_generation := tr_generation r\<rparr>))))"

definition rearm_failed_transport_from_authenticated_control ::
  "AdbHealthMonitor \<Rightarrow> (u64 \<times> u64 \<times> TransportRecoveryTrigger) option \<times> AdbHealthMonitor" where
  "rearm_failed_transport_from_authenticated_control m =
     (let r = am_transport_recovery m in
      if am_stopping m then (None, m)
      else if tr_state r \<noteq> TR_Failed then (None, m)
      else
        (case tr_trigger r of
           None \<Rightarrow> (None, m)
         | Some trigger \<Rightarrow>
             let r' = r\<lparr>tr_generation := tr_generation r + 1, tr_attempt := 1, tr_state := TR_AwaitingControl\<rparr>;
                 m = (set_recovery r' m)\<lparr>am_transport_auto_rearm_generation := 0\<rparr>
             in (Some (tr_generation r, tr_generation r', trigger),
                 notify_one (set_status True True True (Some ''transport_recovery_authenticated_rearm'') m))))"

definition schedule_transport_recovery_rearm_after ::
  "u64 \<Rightarrow> TransportRecoveryTrigger \<Rightarrow> duration \<Rightarrow> AdbHealthMonitor \<Rightarrow> AdbHealthMonitor" where
  "schedule_transport_recovery_rearm_after generation trigger delay m =
     (if am_transport_auto_rearm_generation m = generation then m
      else if generation \<in> set (am_transport_rearm_scheduled m) then m
      else monitor_spawn delay (RearmFailed generation trigger)
             (m\<lparr>am_transport_rearm_scheduled := generation # am_transport_rearm_scheduled m\<rparr>))"

definition schedule_transport_recovery_rearm ::
  "u64 \<Rightarrow> TransportRecoveryTrigger \<Rightarrow> AdbHealthMonitor \<Rightarrow> AdbHealthMonitor" where
  "schedule_transport_recovery_rearm generation trigger m =
     schedule_transport_recovery_rearm_after generation trigger TRANSPORT_RECOVERY_REARM_DELAY m"

text \<open>The body of the re-arm task after its sleep.\<close>

definition rearm_task :: "u64 \<Rightarrow> TransportRecoveryTrigger \<Rightarrow> AdbHealthMonitor \<Rightarrow> AdbHealthMonitor" where
  "rearm_task generation trigger m =
     snd (rearm_failed_transport generation trigger
       (m\<lparr>am_transport_rearm_scheduled := removeAll generation (am_transport_rearm_scheduled m)\<rparr>))"

definition wait_for_recovery_device :: "AdbHealthMonitor \<Rightarrow> AdbHealthMonitor" where
  "wait_for_recovery_device m =
     sync_transport_recovery_status (Some ''transport_recovery_waiting_for_device'')
       (set_recovery ((am_transport_recovery m)\<lparr>tr_attempt := 0, tr_state := TR_WaitingForDevice\<rparr>) m)"

definition begin_transport_recovery_attempt ::
  "AdbHealthMonitor \<Rightarrow> (u64 \<times> nat \<times> TransportRecoveryTrigger) option \<times> AdbHealthMonitor" where
  "begin_transport_recovery_attempt m =
     (let r = am_transport_recovery m in
      if tr_state r \<notin> set [TR_Pending, TR_WaitingForDevice] \<or> tr_attempt r \<ge> TRANSPORT_RECOVERY_MAX_ATTEMPTS
      then (None, m)
      else
        let r = r\<lparr>tr_attempt := tr_attempt r + 1, tr_state := TR_RebuildingMappings\<rparr>; m = set_recovery r m in
        (case tr_trigger r of
           None \<Rightarrow> (None, m)
         | Some trigger \<Rightarrow>
             (Some (tr_generation r, tr_attempt r, trigger),
              sync_transport_recovery_status (Some ''transport_recovery_rebuilding'') m)))"

definition finish_transport_recovery_attempt :: "u64 \<Rightarrow> bool \<Rightarrow> AdbHealthMonitor \<Rightarrow> bool \<times> AdbHealthMonitor" where
  "finish_transport_recovery_attempt generation succeeded m =
     (let r = am_transport_recovery m in
      if tr_generation r \<noteq> generation then (False, m)
      else
        let retry = (\<not> succeeded \<and> tr_attempt r < TRANSPORT_RECOVERY_MAX_ATTEMPTS);
            r = r\<lparr>tr_state := if succeeded then TR_AwaitingControl else if retry then TR_Pending else TR_Failed\<rparr>
        in (retry,
            sync_transport_recovery_status
              (if succeeded then None
               else Some (if retry then ''transport_recovery_retry'' else ''transport_recovery_failed''))
              (set_recovery r m)))"

definition complete_authenticated_transport_recovery :: "AdbHealthMonitor \<Rightarrow> bool \<times> AdbHealthMonitor" where
  "complete_authenticated_transport_recovery m =
     (let r = am_transport_recovery m in
      if tr_state r \<noteq> TR_AwaitingControl then (False, m)
      else
        (case tr_trigger r of
           None \<Rightarrow> (False, m)
         | Some _ \<Rightarrow> (True, sync_transport_recovery_status None (set_recovery (r\<lparr>tr_state := TR_Recovered\<rparr>) m))))"

definition expire_transport_recovery_control :: "u64 \<Rightarrow> nat \<Rightarrow> AdbHealthMonitor \<Rightarrow> bool option \<times> AdbHealthMonitor" where
  "expire_transport_recovery_control generation attempt m =
     (let r = am_transport_recovery m in
      if tr_generation r \<noteq> generation \<or> tr_attempt r \<noteq> attempt \<or> tr_state r \<noteq> TR_AwaitingControl then (None, m)
      else
        let retry = (tr_attempt r < TRANSPORT_RECOVERY_MAX_ATTEMPTS);
            m = sync_transport_recovery_status
                  (Some (if retry then ''transport_recovery_control_retry'' else ''transport_recovery_control_failed''))
                  (set_recovery (r\<lparr>tr_state := if retry then TR_Pending else TR_Failed\<rparr>) m)
        in (Some retry, if retry then notify_one m else m))"

section \<open>Notifications\<close>

definition note_usb_disconnected :: "AdbHealthMonitor \<Rightarrow> AdbHealthMonitor" where
  "note_usb_disconnected m =
     (if tr_trigger (am_transport_recovery m) \<noteq> Some HostResume \<or> \<not> transport_requires_recovery m
      then m\<lparr>am_usb_reconnect_pending := True\<rparr> else m)"

definition notify_usb_reconnected_if_needed :: "AdbHealthMonitor \<Rightarrow> bool \<times> AdbHealthMonitor" where
  "notify_usb_reconnected_if_needed m =
     (let pending = am_usb_reconnect_pending m; m = m\<lparr>am_usb_reconnect_pending := False\<rparr> in
      if \<not> pending then (False, m) else (True, snd (notify_transport_recovery UsbReconnect m)))"

definition begin_suppress_repairs :: "AdbHealthMonitor \<Rightarrow> AdbHealthMonitor" where
  "begin_suppress_repairs m =
     m\<lparr>am_stopping := True, am_status := (am_status m)\<lparr>as_active := False, as_repair_suppressed := True\<rparr>\<rparr>"

definition notify_state_change :: "AdbHealthMonitor \<Rightarrow> AdbHealthMonitor" where
  "notify_state_change m = notify_one m"

definition notify_authenticated_connection :: "AdbHealthMonitor \<Rightarrow> AdbHealthMonitor" where
  "notify_authenticated_connection m = notify_one (m\<lparr>am_authenticated_reconcile := True\<rparr>)"

definition retry_authenticated_reconcile_if_needed :: "AdbHealthMonitor \<Rightarrow> AdbHealthMonitor" where
  "retry_authenticated_reconcile_if_needed m =
     (if am_stopping m \<or> as_mappings_healthy (AdbHealthMonitor_snapshot m) then m
      else monitor_spawn (100 * 1000000) WakeMonitor (m\<lparr>am_authenticated_reconcile := True\<rparr>))"

definition update_android_liveness ::
  "(AndroidLiveness \<Rightarrow> AndroidLiveness) \<Rightarrow> AdbHealthMonitor \<Rightarrow> AndroidLiveness \<times> AdbHealthMonitor" where
  "update_android_liveness transition m =
     (let l = transition (am_android_liveness m) in (l, m\<lparr>am_android_liveness := l\<rparr>))"

definition next_backoff :: "duration \<Rightarrow> duration \<Rightarrow> duration" where
  "next_backoff current maximum = min (current * 2) maximum"

definition cached_device_is_available :: "bool option \<Rightarrow> bool" where
  "cached_device_is_available device_available \<longleftrightarrow> device_available = Some True"

definition should_reconcile_on_healthy_tick :: "bool \<Rightarrow> bool option \<Rightarrow> bool \<Rightarrow> bool" where
  "should_reconcile_on_healthy_tick forced device_available mappings_healthy \<longleftrightarrow>
     forced \<or> cached_device_is_available device_available \<and> \<not> mappings_healthy"

section \<open>Runs of the liveness policy\<close>

datatype liveness_op = LiveConnected | LiveIneligible | LiveSilent instant | LiveObserved bool instant

fun liveness_apply :: "liveness_op \<Rightarrow> AndroidLiveness \<Rightarrow> AndroidLiveness" where
  "liveness_apply LiveConnected = liveness_connected"
| "liveness_apply LiveIneligible = liveness_ineligible"
| "liveness_apply (LiveSilent now) = liveness_silent now"
| "liveness_apply (LiveObserved awake now) = liveness_observed awake now"

lemma restart_at_kept:
  "LiveConnected \<notin> set ops \<Longrightarrow> al_next_restart_at (fold liveness_apply ops l) = al_next_restart_at l"
proof (induction ops arbitrary: l)
  case (Cons op ops)
  then show ?case
    by (cases op) (auto simp: liveness_ineligible_def liveness_silent_def liveness_observed_def)
qed simp

lemma backoff_bounds:
  "ANDROID_RESTART_INITIAL_BACKOFF \<le> android_restart_backoff n" "android_restart_backoff n \<le> ANDROID_RESTART_MAX_BACKOFF"
  by (auto simp: android_restart_backoff_def Let_def ANDROID_RESTART_INITIAL_BACKOFF_def ANDROID_RESTART_MAX_BACKOFF_def
      seconds_def)

section \<open>Runs of the recovery machine\<close>

text \<open>Every operation that touches the recovery; the monitor waits for a device only while the transport
  needs recovery, and it finishes an attempt only after it has begun one, so never in the idle state.\<close>

datatype recovery_op =
    HostResumed
  | UsbDisconnected
  | UsbReconnected
  | RearmTask u64 TransportRecoveryTrigger
  | RearmAuthenticated
  | ScheduleRearm u64 TransportRecoveryTrigger
  | WaitForDevice
  | BeginAttempt
  | FinishAttempt u64 bool
  | CompleteAuthenticated
  | ExpireControl u64 nat
  | SuppressRepairs

fun recovery_apply :: "recovery_op \<Rightarrow> AdbHealthMonitor \<Rightarrow> AdbHealthMonitor" where
  "recovery_apply HostResumed m = snd (notify_host_resume m)"
| "recovery_apply UsbDisconnected m = note_usb_disconnected m"
| "recovery_apply UsbReconnected m = snd (notify_usb_reconnected_if_needed m)"
| "recovery_apply (RearmTask g t) m = rearm_task g t m"
| "recovery_apply RearmAuthenticated m = snd (rearm_failed_transport_from_authenticated_control m)"
| "recovery_apply (ScheduleRearm g t) m = schedule_transport_recovery_rearm g t m"
| "recovery_apply WaitForDevice m = (if transport_requires_recovery m then wait_for_recovery_device m else m)"
| "recovery_apply BeginAttempt m = snd (begin_transport_recovery_attempt m)"
| "recovery_apply (FinishAttempt g ok) m =
     (if tr_state (am_transport_recovery m) \<noteq> TR_Idle then snd (finish_transport_recovery_attempt g ok m) else m)"
| "recovery_apply CompleteAuthenticated m = snd (complete_authenticated_transport_recovery m)"
| "recovery_apply (ExpireControl g a) m = snd (expire_transport_recovery_control g a m)"
| "recovery_apply SuppressRepairs m = begin_suppress_repairs m"

text \<open>A recovery that has started knows its trigger, attempts are bounded, and it fails only after the
  last attempt.\<close>

definition recovery_ok :: "TransportRecoverySnapshot \<Rightarrow> bool" where
  "recovery_ok r \<longleftrightarrow> (tr_state r \<noteq> TR_Idle \<longrightarrow> tr_trigger r \<noteq> None) \<and>
     tr_attempt r \<le> TRANSPORT_RECOVERY_MAX_ATTEMPTS \<and>
     (tr_state r = TR_Failed \<longrightarrow> tr_attempt r = TRANSPORT_RECOVERY_MAX_ATTEMPTS)"

lemmas recovery_defs = notify_host_resume_def notify_transport_recovery_def note_usb_disconnected_def
  notify_usb_reconnected_if_needed_def rearm_task_def rearm_failed_transport_def
  rearm_failed_transport_from_authenticated_control_def schedule_transport_recovery_rearm_def
  schedule_transport_recovery_rearm_after_def wait_for_recovery_device_def begin_transport_recovery_attempt_def
  finish_transport_recovery_attempt_def complete_authenticated_transport_recovery_def
  expire_transport_recovery_control_def begin_suppress_repairs_def transport_requires_recovery_def
  sync_transport_recovery_status_def set_recovery_def notify_one_def set_status_def update_status_def
  monitor_spawn_def Let_def

lemma recovery_ok_apply:
  "recovery_ok (am_transport_recovery m) \<Longrightarrow> recovery_ok (am_transport_recovery (recovery_apply op m))"
  by (cases op) (auto simp: recovery_ok_def recovery_defs TRANSPORT_RECOVERY_MAX_ATTEMPTS_def split: option.splits)

lemma recovery_ok_run:
  "recovery_ok (am_transport_recovery m) \<Longrightarrow> recovery_ok (am_transport_recovery (fold recovery_apply ops m))"
  by (induction ops arbitrary: m) (auto simp: recovery_ok_apply)

lemma recovery_ok_default: "recovery_ok (am_transport_recovery AdbHealthMonitor_default)"
  by (simp add: AdbHealthMonitor_default_def TransportRecoverySnapshot_default_def recovery_ok_def)

text \<open>How many attempts are left before something outside has to happen: the rest of this generation,
  and a whole generation if it can still be re-armed automatically.\<close>

definition attempts_left :: "AdbHealthMonitor \<Rightarrow> nat" where
  "attempts_left m = (let r = am_transport_recovery m in
     TRANSPORT_RECOVERY_MAX_ATTEMPTS - tr_attempt r +
     (if am_transport_auto_rearm_generation m = tr_generation r then 0 else TRANSPORT_RECOVERY_MAX_ATTEMPTS))"

text \<open>A resume of the host, a USB reconnection, an authenticated connection and the loss of the device
  give the recovery a fresh start.\<close>

fun restarts_recovery :: "recovery_op \<Rightarrow> bool" where
  "restarts_recovery HostResumed = True"
| "restarts_recovery UsbReconnected = True"
| "restarts_recovery RearmAuthenticated = True"
| "restarts_recovery WaitForDevice = True"
| "restarts_recovery _ = False"

definition begins_attempt :: "recovery_op \<Rightarrow> AdbHealthMonitor \<Rightarrow> bool" where
  "begins_attempt op m \<longleftrightarrow> op = BeginAttempt \<and> fst (begin_transport_recovery_attempt m) \<noteq> None"

fun attempts_begun :: "recovery_op list \<Rightarrow> AdbHealthMonitor \<Rightarrow> nat" where
  "attempts_begun [] m = 0"
| "attempts_begun (op # ops) m =
     (if begins_attempt op m then 1 else 0) + attempts_begun ops (recovery_apply op m)"

lemma attempts_left_apply:
  assumes "recovery_ok (am_transport_recovery m)" "\<not> restarts_recovery op"
  shows "attempts_left (recovery_apply op m) + (if begins_attempt op m then 1 else 0) \<le> attempts_left m"
  using assms
  by (cases op)
     (auto simp: begins_attempt_def attempts_left_def recovery_ok_def recovery_defs
        TRANSPORT_RECOVERY_MAX_ATTEMPTS_def split: option.splits)

lemma attempts_begun_bound:
  assumes "recovery_ok (am_transport_recovery m)" "list_all (\<lambda>op. \<not> restarts_recovery op) ops"
  shows "attempts_begun ops m \<le> attempts_left m"
  using assms
proof (induction ops arbitrary: m)
  case (Cons op ops)
  then have "attempts_begun ops (recovery_apply op m) \<le> attempts_left (recovery_apply op m)"
    by (simp add: recovery_ok_apply)
  then show ?case using attempts_left_apply [of m op] Cons.prems by auto
qed simp

section \<open>Properties\<close>

text \<open>In every sequence of resumes, USB events, attempts, timeouts and re-arms the recovery machine
  keeps its invariant: outside of the idle state the trigger is known, there are at most two attempts
  in a generation, and it is failed only after the last one.\<close>

theorem recovery_machine_invariant:
  "recovery_ok (am_transport_recovery (fold recovery_apply ops AdbHealthMonitor_default))"
  by (rule recovery_ok_run [OF recovery_ok_default])

text \<open>C12. Recovery does not loop: after whatever happened before, as long as there is no resume, no USB
  reconnection, no authenticated connection and no loss of the device, at most four attempts are begun,
  two in the current generation and two after the single automatic re-arm.\<close>

theorem recovery_attempts_bounded:
  assumes "list_all (\<lambda>op. \<not> restarts_recovery op) ops"
  shows "attempts_begun ops (fold recovery_apply before AdbHealthMonitor_default) \<le>
    2 * TRANSPORT_RECOVERY_MAX_ATTEMPTS"
proof -
  let ?m = "fold recovery_apply before AdbHealthMonitor_default"
  have "attempts_begun ops ?m \<le> attempts_left ?m"
    by (rule attempts_begun_bound [OF recovery_ok_run [OF recovery_ok_default] assms])
  also have "\<dots> \<le> 2 * TRANSPORT_RECOVERY_MAX_ATTEMPTS" by (auto simp: attempts_left_def Let_def)
  finally show ?thesis .
qed

theorem recovery_attempts_bounded_witness:
  "attempts_begun [BeginAttempt, FinishAttempt 1 False, BeginAttempt, FinishAttempt 1 False, BeginAttempt]
     (fold recovery_apply [HostResumed] AdbHealthMonitor_default) \<le> 2 * TRANSPORT_RECOVERY_MAX_ATTEMPTS"
  by (rule recovery_attempts_bounded) simp

text \<open>Restarts of the Android service are spaced: after a restart, unless an authenticated connection
  reset the policy, the next one is due only after its backoff, which is between one and five minutes,
  and only when the headset has been silent and awake for the grace period.\<close>

theorem android_restarts_spaced:
  assumes "LiveConnected \<notin> set ops" "restart_due t (fold liveness_apply ops (liveness_restarted now l))"
  shows "now + android_restart_backoff (saturating_inc32 (al_restarts l)) \<le> t \<and>
    now + seconds 60 \<le> t \<and> android_restart_backoff (saturating_inc32 (al_restarts l)) \<le> seconds 300 \<and>
    grace_elapsed t (al_silent_since (fold liveness_apply ops (liveness_restarted now l))) \<and>
    grace_elapsed t (al_awake_since (fold liveness_apply ops (liveness_restarted now l)))"
proof -
  have "al_next_restart_at (fold liveness_apply ops (liveness_restarted now l)) =
      Some (now + android_restart_backoff (saturating_inc32 (al_restarts l)))"
    using restart_at_kept [OF assms(1), of "liveness_restarted now l"] by (simp add: liveness_restarted_def Let_def)
  then show ?thesis
    using assms(2) backoff_bounds [of "saturating_inc32 (al_restarts l)"]
    by (auto simp: restart_due_def ANDROID_RESTART_INITIAL_BACKOFF_def ANDROID_RESTART_MAX_BACKOFF_def)
qed

end
