(* ===== verification/Adb.thy ===== *)
theory Adb
  imports RustText Protocol "HOL-Library.State_Monad"
begin

text \<open>
  The ADB controller of \<^verbatim>\<open>adb.rs\<close>: bounded capture of the output of a command, the parsers of what
  ADB and Android print, and the transactions that install, verify, repair and remove the reverse
  mappings and start and stop the Android service.  ADB itself is an argument: a function from the
  calls made so far to the answer of the last one and to the time it took, which is at least one tick of the clock.  The
  transactions run in a state monad over the calls made and the clock.
\<close>

section \<open>Bounded capture of command output\<close>

definition MAX_ADB_OUTPUT_BYTES :: nat where "MAX_ADB_OUTPUT_BYTES = 1024 * 1024"

definition ascii_bytes :: "string \<Rightarrow> bytes" where
  "ascii_bytes t = map (\<lambda>c. word_of_nat (char_code c)) t"

definition OUTPUT_TRUNCATED_MARKER :: bytes where
  "OUTPUT_TRUNCATED_MARKER = ascii_bytes (CHR 0x0A # ''[ADB output truncated]'' @ [CHR 0x0A])"

definition OUTPUT_EVENT_DRAIN_BUDGET :: nat where "OUTPUT_EVENT_DRAIN_BUDGET = 64"

record OutputAccumulator =
  oa_captured :: bytes
  oa_truncated :: bool

definition OutputAccumulator_default :: OutputAccumulator where
  "OutputAccumulator_default = \<lparr>oa_captured = [], oa_truncated = False\<rparr>"

definition OutputAccumulator_push :: "bytes \<Rightarrow> OutputAccumulator \<Rightarrow> OutputAccumulator" where
  "OutputAccumulator_push bs a =
     (let remaining = MAX_ADB_OUTPUT_BYTES - length (oa_captured a); retained = min remaining (length bs) in
      \<lparr>oa_captured = oa_captured a @ take retained bs, oa_truncated = (oa_truncated a \<or> retained < length bs)\<rparr>)"

definition OutputAccumulator_finish :: "OutputAccumulator \<Rightarrow> bytes" where
  "OutputAccumulator_finish a =
     (if oa_truncated a
      then take (MAX_ADB_OUTPUT_BYTES - length OUTPUT_TRUNCATED_MARKER) (oa_captured a) @ OUTPUT_TRUNCATED_MARKER
      else oa_captured a)"

section \<open>Errors and results\<close>

text \<open>The texts of operating system errors are kept as they are.\<close>

datatype AdbError =
    AE_Spawn string string
  | AE_Timeout duration
  | AE_Wait string
  | AE_Containment string
  | AE_Read string
  | AE_CommandFailed int string
  | AE_DeviceNotReady string
  | AE_VpnStillActive

record AdbOutput =
  ao_status :: int
  ao_stdout :: string
  ao_stderr :: string

definition AdbOutput_is_success :: "AdbOutput \<Rightarrow> bool" where
  "AdbOutput_is_success out \<longleftrightarrow> ao_status out = 0"

definition show_int :: "int \<Rightarrow> string" where
  "show_int i = (if i < 0 then ''-'' else '''') @ show_nat (nat \<bar>i\<bar>)"

text \<open>The message of an error; the duration at the end of a timeout is digits and a unit, which no
  caller looks for.\<close>

fun AdbError_message :: "AdbError \<Rightarrow> string" where
  "AdbError_message (AE_Spawn program source) = ''failed to start '' @ program @ '': '' @ source"
| "AdbError_message (AE_Timeout d) = ''ADB command exceeded ''"
| "AdbError_message (AE_Wait source) = ''failed while waiting for ADB: '' @ source"
| "AdbError_message (AE_Containment source) = ''failed to contain ADB subprocess tree: '' @ source"
| "AdbError_message (AE_Read t) = ''failed to capture ADB output: '' @ t"
| "AdbError_message (AE_CommandFailed status stderr) = ''ADB exited with '' @ show_int status @ '': '' @ stderr"
| "AdbError_message (AE_DeviceNotReady t) = t"
| "AdbError_message AE_VpnStillActive = ''Android still reports an active VPN after the stop deadline''"

record ReverseMapping =
  rm_remote :: u16
  rm_local :: u16

text \<open>The entries of the failure list of a transaction, before they are formatted.\<close>

datatype failure =
    F_Error AdbError
  | F_Context string AdbError
  | F_Missing string "ReverseMapping list"
  | F_RemoveStatus u16 int string
  | F_RemoveError u16 AdbError
  | F_Remaining "(string \<times> string) list"
  | F_Refused ReverseMapping
  | F_WrongVersion

record TransactionError =
  te_phase :: string
  te_failures :: "failure list"

definition TransactionError_single :: "string \<Rightarrow> AdbError \<Rightarrow> TransactionError" where
  "TransactionError_single phase e = \<lparr>te_phase = phase, te_failures = [F_Error e]\<rparr>"

section \<open>Collecting the output of a child\<close>

datatype OutputStream = Stdout | Stderr

datatype OutputEvent = Chunk OutputStream bytes | Finished OutputStream | Failed OutputStream string

record Collect =
  cl_stdout :: OutputAccumulator
  cl_stderr :: OutputAccumulator
  cl_done :: "OutputStream \<Rightarrow> bool"
  cl_status :: "int option"

definition Collect_start :: Collect where
  "Collect_start = \<lparr>cl_stdout = OutputAccumulator_default, cl_stderr = OutputAccumulator_default,
     cl_done = (\<lambda>_. False), cl_status = None\<rparr>"

fun apply_output_event :: "OutputEvent \<Rightarrow> Collect \<Rightarrow> AdbError + Collect" where
  "apply_output_event (Chunk Stdout bs) c = Inr (c\<lparr>cl_stdout := OutputAccumulator_push bs (cl_stdout c)\<rparr>)"
| "apply_output_event (Chunk Stderr bs) c = Inr (c\<lparr>cl_stderr := OutputAccumulator_push bs (cl_stderr c)\<rparr>)"
| "apply_output_event (Finished s) c = Inr (c\<lparr>cl_done := (cl_done c)(s := True)\<rparr>)"
| "apply_output_event (Failed s e) c =
     Inl (AE_Read (''ADB '' @ (case s of Stdout \<Rightarrow> ''stdout'' | Stderr \<Rightarrow> ''stderr'') @ '' capture failed: '' @ e))"

definition readers_done :: "Collect \<Rightarrow> bool" where
  "readers_done c \<longleftrightarrow> cl_done c Stdout \<and> cl_done c Stderr"

text \<open>One pass of the loop: the events the drain found (at most the budget) and whether the channel was
  found disconnected, what \<^verbatim>\<open>try_wait\<close> and the release of the
  process group said, whether the deadline has passed, and what the bounded wait
  received.\<close>

datatype received = R_Event OutputEvent | R_Timeout | R_Disconnected

record collect_round =
  cr_drained :: "OutputEvent list"
  cr_disconnected :: bool
  cr_try_wait :: "string + int option"
  cr_disarm :: "string + unit"
  cr_expired :: bool
  cr_received :: received

fun apply_output_events :: "OutputEvent list \<Rightarrow> Collect \<Rightarrow> AdbError + Collect" where
  "apply_output_events [] c = Inr c"
| "apply_output_events (e # es) c =
     (case apply_output_event e c of Inl error \<Rightarrow> Inl error | Inr c \<Rightarrow> apply_output_events es c)"

definition reader_stopped :: AdbError where
  "reader_stopped = AE_Read ''ADB output reader stopped without reporting completion''"

text \<open>\<open>lossy\<close> is \<^verbatim>\<open>String::from_utf8_lossy\<close>; \<open>Inr (Inr c)\<close> goes on with the next pass.\<close>

definition collect_pass ::
  "(bytes \<Rightarrow> string) \<Rightarrow> duration \<Rightarrow> collect_round \<Rightarrow> Collect \<Rightarrow> AdbError + (AdbOutput + Collect)" where
  "collect_pass lossy timeout round c =
     (case apply_output_events (take OUTPUT_EVENT_DRAIN_BUDGET (cr_drained round)) c of
        Inl e \<Rightarrow> Inl e
      | Inr c \<Rightarrow>
          if length (cr_drained round) < OUTPUT_EVENT_DRAIN_BUDGET \<and> cr_disconnected round \<and> \<not> readers_done c
          then Inl reader_stopped
          else
            (case (if cl_status c = None then cr_try_wait round else Inr (cl_status c)) of
               Inl e \<Rightarrow> Inl (AE_Wait e)
             | Inr status \<Rightarrow>
                 let c = c\<lparr>cl_status := status\<rparr> in
                 if cl_status c \<noteq> None \<and> readers_done c
                 then
                   (case cr_disarm round of
                      Inl e \<Rightarrow> Inl (AE_Containment e)
                    | Inr _ \<Rightarrow> Inr (Inl \<lparr>ao_status = the (cl_status c),
                        ao_stdout = lossy (OutputAccumulator_finish (cl_stdout c)),
                        ao_stderr = lossy (OutputAccumulator_finish (cl_stderr c))\<rparr>))
                 else if cr_expired round then Inl (AE_Timeout timeout)
                 else
                   (case cr_received round of
                      R_Event e \<Rightarrow> (case apply_output_event e c of Inl error \<Rightarrow> Inl error | Inr c \<Rightarrow> Inr (Inr c))
                    | R_Timeout \<Rightarrow> Inr (Inr c)
                    | R_Disconnected \<Rightarrow> if \<not> readers_done c then Inl reader_stopped else Inr (Inr c))))"

text \<open>The loop over its passes; \<open>None\<close> when the passes given do not end it.\<close>

fun collect_child_output ::
  "(bytes \<Rightarrow> string) \<Rightarrow> duration \<Rightarrow> collect_round list \<Rightarrow> Collect \<Rightarrow> (AdbError + AdbOutput) option" where
  "collect_child_output lossy timeout [] c = None"
| "collect_child_output lossy timeout (round # rounds) c =
     (case collect_pass lossy timeout round c of
        Inl e \<Rightarrow> Some (Inl e)
      | Inr (Inl out) \<Rightarrow> Some (Inr out)
      | Inr (Inr c) \<Rightarrow> collect_child_output lossy timeout rounds c)"

section \<open>Constants\<close>

definition ANDROID_PACKAGE :: string where "ANDROID_PACKAGE = ''com.genymobile.gnirehtet''"
definition ANDROID_CONTROL_ACTIVITY :: string where
  "ANDROID_CONTROL_ACTIVITY = ''com.genymobile.gnirehtet/.v4.AdbControlActivity''"
definition ANDROID_VPN_SERVICE :: string where
  "ANDROID_VPN_SERVICE = ''com.genymobile.gnirehtet/.v4.VdLinkVpnService''"
definition ACTION_START_V4 :: string where "ACTION_START_V4 = ''com.genymobile.gnirehtet.v4.START''"
definition ACTION_STOP_V4 :: string where "ACTION_STOP_V4 = ''com.genymobile.gnirehtet.v4.STOP''"
definition VIRTUAL_DESKTOP_PACKAGE :: string where "VIRTUAL_DESKTOP_PACKAGE = ''VirtualDesktop.Android''"
definition ANDROID_VERSION_CODE :: string where "ANDROID_VERSION_CODE = ''72''"
definition ANDROID_VERSION_NAME :: string where "ANDROID_VERSION_NAME = ''4.1.34''"
definition ANDROID_KEYCODE_WAKEUP :: string where "ANDROID_KEYCODE_WAKEUP = ''224''"
definition ADB_DEVICE_COMMAND_TIMEOUT :: duration where "ADB_DEVICE_COMMAND_TIMEOUT = 8000000000"
definition ADB_MAPPING_COMMAND_TIMEOUT :: duration where "ADB_MAPPING_COMMAND_TIMEOUT = 3000000000"
definition ADB_INSTALL_TIMEOUT :: duration where "ADB_INSTALL_TIMEOUT = 90000000000"

definition REVERSE_MAPPINGS :: "ReverseMapping list" where
  "REVERSE_MAPPINGS = [\<lparr>rm_remote = SOCKS_PORT, rm_local = SOCKS_PORT\<rparr>,
     \<lparr>rm_remote = UDP_STREAM_PORT, rm_local = UDP_STREAM_PORT\<rparr>,
     \<lparr>rm_remote = CONTROL_PORT, rm_local = CONTROL_PORT\<rparr>]"

section \<open>Parsers\<close>

definition tcp_port :: "u16 \<Rightarrow> string" where
  "tcp_port p = ''tcp:'' @ show_nat (unat p)"

definition parse_reverse_line :: "string \<Rightarrow> (string \<times> string) option" where
  "parse_reverse_line line =
     (case split_whitespace line of
        [serial, remote, local] \<Rightarrow>
          if starts_with ''tcp:'' remote \<and> starts_with ''tcp:'' local then Some (remote, local) else None
      | _ \<Rightarrow> None)"

definition parse_reverse_list :: "string \<Rightarrow> (string \<times> string) list" where
  "parse_reverse_list t = List.map_filter parse_reverse_line (lines t)"

definition missing_mappings :: "string \<Rightarrow> ReverseMapping list" where
  "missing_mappings listing =
     filter (\<lambda>mapping. (tcp_port (rm_remote mapping), tcp_port (rm_local mapping)) \<notin> set (parse_reverse_list listing))
       REVERSE_MAPPINGS"

definition parse_wakefulness :: "string \<Rightarrow> bool option" where
  "parse_wakefulness t =
     (case List.map_filter (\<lambda>line. strip_prefix ''mWakefulness='' (trim line)) (lines t) of
        [] \<Rightarrow> None
      | v # _ \<Rightarrow> Some (trim v = ''Awake''))"

definition first_word :: "string \<Rightarrow> string option" where
  "first_word t = (case split_whitespace t of [] \<Rightarrow> None | w # _ \<Rightarrow> Some w)"

definition package_version_matches :: "string \<Rightarrow> bool" where
  "package_version_matches t \<longleftrightarrow>
     list_ex (\<lambda>line. Option.bind (strip_prefix ''versionCode='' (trim line)) first_word = Some ANDROID_VERSION_CODE)
       (lines t) \<and>
     list_ex (\<lambda>line. trim line = ''versionName='' @ ANDROID_VERSION_NAME) (lines t)"

definition adb_reports_missing_device :: "AdbError \<Rightarrow> bool" where
  "adb_reports_missing_device e \<longleftrightarrow>
     (let message = to_ascii_lowercase (AdbError_message e) in
      contains message ''no devices'' \<or> contains message ''no device'' \<or> contains message ''device not found'')"

definition mapping_was_already_absent :: "AdbOutput \<Rightarrow> bool" where
  "mapping_was_already_absent out \<longleftrightarrow>
     (let message = to_ascii_lowercase (ao_stdout out @ '' '' @ ao_stderr out) in
      list_ex (contains message)
        [''cannot remove listener'', ''listener not found'', ''no such listener'', ''not found''])"

fun vpn_fd_closed :: "bool \<Rightarrow> string list \<Rightarrow> bool" where
  "vpn_fd_closed saw_closed [] = saw_closed"
| "vpn_fd_closed saw_closed (v # vs) =
     (if parse_bool v = Some False then vpn_fd_closed True vs else False)"

definition vpn_fd_values :: "string \<Rightarrow> string list" where
  "vpn_fd_values t = List.map_filter (\<lambda>line. strip_prefix ''vpnFdOpen='' (trim line)) (lines t)"

definition vpn_descriptor_explicitly_closed :: "string \<Rightarrow> bool" where
  "vpn_descriptor_explicitly_closed t = vpn_fd_closed False (vpn_fd_values t)"

text \<open>What \<^verbatim>\<open>verify_vpn_closed\<close> takes as an absent service.\<close>

definition vpn_service_absent :: "string \<Rightarrow> bool" where
  "vpn_service_absent t \<longleftrightarrow>
     (let normalized = to_ascii_lowercase t;
          process_stopped = (contains normalized ''pid=(not running)'' \<and>
            \<not> list_ex (\<lambda>line. trim line = ''vpnfdopen=true'') (lines normalized))
      in trim normalized = [] \<or> contains normalized ''no services match'' \<or>
         contains normalized ''no service records found'' \<or> process_stopped)"

definition device_help :: "string \<Rightarrow> string" where
  "device_help state = ''No Quest 3 is available through USB ('' @ state @
     ''). Connect and unlock the headset with a USB data cable, then accept the USB debugging prompt and try again.''"

record AndroidVpnStatus =
  av_present :: bool
  av_state :: "string option"
  av_vpn_fd_open :: "bool option"
  av_session_id :: "string option"
  av_last_error :: "string option"
  av_screen_suspended :: "bool option"
  av_tx_packets :: "u64 option"
  av_tx_bytes :: "u64 option"
  av_rx_packets :: "u64 option"
  av_rx_bytes :: "u64 option"
  av_control_rtt_samples :: "u64 option"
  av_control_rtt_p99_us :: "u64 option"
  av_control_rtt_max_us :: "u64 option"
  av_control_rtt_histogram :: "u64 list"

definition AndroidVpnStatus_default :: AndroidVpnStatus where
  "AndroidVpnStatus_default = \<lparr>av_present = False, av_state = None, av_vpn_fd_open = None, av_session_id = None,
     av_last_error = None, av_screen_suspended = None, av_tx_packets = None, av_tx_bytes = None,
     av_rx_packets = None, av_rx_bytes = None, av_control_rtt_samples = None, av_control_rtt_p99_us = None,
     av_control_rtt_max_us = None, av_control_rtt_histogram = []\<rparr>"

definition unless_none :: "string \<Rightarrow> string option" where
  "unless_none v = (if v = ''none'' then None else Some v)"

definition packet_field :: "string \<Rightarrow> AndroidVpnStatus \<Rightarrow> AndroidVpnStatus" where
  "packet_field field status =
     (case split_once (CHR ''='') field of
        None \<Rightarrow> status
      | Some (key, v) \<Rightarrow>
          if key = ''txPackets'' then status\<lparr>av_tx_packets := parse_u64 v\<rparr>
          else if key = ''txBytes'' then status\<lparr>av_tx_bytes := parse_u64 v\<rparr>
          else if key = ''rxPackets'' then status\<lparr>av_rx_packets := parse_u64 v\<rparr>
          else if key = ''rxBytes'' then status\<lparr>av_rx_bytes := parse_u64 v\<rparr>
          else status)"

definition status_line :: "string \<Rightarrow> AndroidVpnStatus \<Rightarrow> AndroidVpnStatus" where
  "status_line line status =
     (let status = (if contains line ''ServiceRecord'' \<or> contains line ''app=ProcessRecord''
                    then status\<lparr>av_present := True\<rparr> else status)
      in
      case strip_prefix ''gnirehtet.state='' line of
        Some v \<Rightarrow> status\<lparr>av_present := True, av_state := Some (to_ascii_lowercase v)\<rparr>
      | None \<Rightarrow>
      (case strip_prefix ''vpnFdOpen='' line of
        Some v \<Rightarrow> status\<lparr>av_present := True, av_vpn_fd_open := parse_bool v\<rparr>
      | None \<Rightarrow>
      (case strip_prefix ''sessionId='' line of
        Some v \<Rightarrow> status\<lparr>av_present := True, av_session_id := unless_none v\<rparr>
      | None \<Rightarrow>
      (case strip_prefix ''lastError='' line of
        Some v \<Rightarrow> status\<lparr>av_present := True, av_last_error := unless_none v\<rparr>
      | None \<Rightarrow>
      (case strip_prefix ''screenSuspended='' line of
        Some v \<Rightarrow> status\<lparr>av_present := True, av_screen_suspended := parse_bool v\<rparr>
      | None \<Rightarrow>
      (case strip_prefix ''controlRttSamples='' line of
        Some v \<Rightarrow> status\<lparr>av_control_rtt_samples := parse_u64 v\<rparr>
      | None \<Rightarrow>
      (case strip_prefix ''controlRttP99Us='' line of
        Some v \<Rightarrow> status\<lparr>av_control_rtt_p99_us := parse_u64 v\<rparr>
      | None \<Rightarrow>
      (case strip_prefix ''controlRttMaxUs='' line of
        Some v \<Rightarrow> status\<lparr>av_control_rtt_max_us := parse_u64 v\<rparr>
      | None \<Rightarrow>
      (case strip_prefix ''controlRttHistogram='' line of
        Some v \<Rightarrow> status\<lparr>av_control_rtt_histogram :=
            List.map_filter (\<lambda>count. parse_u64 (trim count)) (split_by (\<lambda>c. c = CHR '','') v)\<rparr>
      | None \<Rightarrow>
          if starts_with ''txPackets='' line then fold packet_field (split_whitespace line) status
          else status)))))))))"

definition AndroidVpnStatus_parse :: "string \<Rightarrow> AndroidVpnStatus" where
  "AndroidVpnStatus_parse t = fold status_line (map trim (lines t)) AndroidVpnStatus_default"

section \<open>Calls\<close>

datatype adb_call = Execute "string list" duration | RecoverServer duration

record adb_world =
  aw_calls :: "adb_call list"
  aw_now :: instant

text \<open>The argument that stands for ADB and the operating system below it.\<close>

record adb_env =
  ae_answer :: "adb_call list \<Rightarrow> AdbError + AdbOutput"
  ae_recovered :: "adb_call list \<Rightarrow> AdbError + unit"
  ae_takes :: "adb_call list \<Rightarrow> duration"

type_synonym 'a adb = "(adb_world, 'a) state"

definition adb_issue :: "adb_env \<Rightarrow> adb_call \<Rightarrow> adb_world \<Rightarrow> adb_world" where
  "adb_issue env call w =
     (let calls = aw_calls w @ [call] in \<lparr>aw_calls = calls, aw_now = aw_now w + Suc (ae_takes env calls)\<rparr>)"

definition execute :: "adb_env \<Rightarrow> string list \<Rightarrow> duration \<Rightarrow> (AdbError + AdbOutput) adb" where
  "execute env args timeout =
     State (\<lambda>w. let w = adb_issue env (Execute args timeout) w in (ae_answer env (aw_calls w), w))"

definition recover_server :: "adb_env \<Rightarrow> duration \<Rightarrow> (AdbError + unit) adb" where
  "recover_server env timeout =
     State (\<lambda>w. let w = adb_issue env (RecoverServer timeout) w in (ae_recovered env (aw_calls w), w))"

definition adb_sleep :: "duration \<Rightarrow> unit adb" where
  "adb_sleep d = State (\<lambda>w. ((), w\<lparr>aw_now := aw_now w + d\<rparr>))"

record AdbController =
  ac_device_timeout :: duration
  ac_command_timeout :: duration
  ac_mapping_timeout :: duration
  ac_install_timeout :: duration
  ac_stop_timeout :: duration
  ac_poll_interval :: duration

definition with_timing :: "duration \<Rightarrow> duration \<Rightarrow> duration \<Rightarrow> AdbController" where
  "with_timing command_timeout stop_timeout poll_interval =
     \<lparr>ac_device_timeout = command_timeout, ac_command_timeout = command_timeout,
      ac_mapping_timeout = min command_timeout ADB_MAPPING_COMMAND_TIMEOUT,
      ac_install_timeout = max command_timeout ADB_INSTALL_TIMEOUT,
      ac_stop_timeout = stop_timeout, ac_poll_interval = poll_interval\<rparr>"

definition AdbController_new :: AdbController where
  "AdbController_new = (with_timing 8000000000 5000000000 100000000)
     \<lparr>ac_device_timeout := ADB_DEVICE_COMMAND_TIMEOUT\<rparr>"

definition with_mapping_timeout :: "duration \<Rightarrow> AdbController \<Rightarrow> AdbController" where
  "with_mapping_timeout timeout c = c\<lparr>ac_mapping_timeout := min (ac_mapping_timeout c) timeout\<rparr>"

definition run_checked_with :: "adb_env \<Rightarrow> string list \<Rightarrow> duration \<Rightarrow> (AdbError + AdbOutput) adb" where
  "run_checked_with env args timeout = do {
     result \<leftarrow> execute env args timeout;
     State_Monad.return
       (case result of
          Inl e \<Rightarrow> Inl e
        | Inr out \<Rightarrow> if AdbOutput_is_success out then Inr out
                    else Inl (AE_CommandFailed (ao_status out) (trim (ao_stderr out))))
   }"

definition run_checked :: "adb_env \<Rightarrow> AdbController \<Rightarrow> string list \<Rightarrow> (AdbError + AdbOutput) adb" where
  "run_checked env c args = run_checked_with env args (ac_command_timeout c)"

definition forget :: "'e + 'a \<Rightarrow> 'e + unit" where
  "forget r = (case r of Inl e \<Rightarrow> Inl e | Inr _ \<Rightarrow> Inr ())"

end
