(* ===== verification/AdbLaws.thy ===== *)
theory AdbLaws
  imports AdbTransactions
begin

text \<open>
  What the ADB transactions guarantee whatever ADB answers: bounded and complete capture of command
  output, bounded polling, the calls of every path, and what success says about the device under the
  documented behaviour of \<^verbatim>\<open>adb reverse\<close>.
\<close>

section \<open>Capture\<close>

text \<open>The reference: the whole output, or its beginning and a marker.\<close>

definition bounded_capture :: "bytes \<Rightarrow> bytes" where
  "bounded_capture bs =
     (if length bs \<le> MAX_ADB_OUTPUT_BYTES then bs
      else take (MAX_ADB_OUTPUT_BYTES - length OUTPUT_TRUNCATED_MARKER) bs @ OUTPUT_TRUNCATED_MARKER)"

definition accumulated :: "bytes \<Rightarrow> OutputAccumulator" where
  "accumulated bs = \<lparr>oa_captured = take MAX_ADB_OUTPUT_BYTES bs, oa_truncated = (MAX_ADB_OUTPUT_BYTES < length bs)\<rparr>"

lemma accumulated_push: "OutputAccumulator_push bs' (accumulated bs) = accumulated (bs @ bs')"
  by (auto simp: OutputAccumulator_push_def accumulated_def Let_def min_def)

lemma accumulated_default: "OutputAccumulator_default = accumulated []"
  by (simp add: OutputAccumulator_default_def accumulated_def)

lemma accumulated_chunks:
  "fold OutputAccumulator_push chunks (accumulated bs) = accumulated (bs @ concat chunks)"
  by (induction chunks arbitrary: bs) (simp_all add: accumulated_push)

lemma accumulated_finish: "OutputAccumulator_finish (accumulated bs) = bounded_capture bs"
  by (simp add: OutputAccumulator_finish_def accumulated_def bounded_capture_def min_def)

lemma marker_length: "length OUTPUT_TRUNCATED_MARKER = 24"
  by (simp add: OUTPUT_TRUNCATED_MARKER_def ascii_bytes_def)

text \<open>The bytes of one stream among the events.\<close>

fun stream_bytes :: "OutputStream \<Rightarrow> OutputEvent list \<Rightarrow> bytes" where
  "stream_bytes s [] = []"
| "stream_bytes s (Chunk s' bs # es) = (if s' = s then bs else []) @ stream_bytes s es"
| "stream_bytes s (Finished s' # es) = stream_bytes s es"
| "stream_bytes s (Failed s' e # es) = stream_bytes s es"

lemma stream_bytes_append [simp]: "stream_bytes s (a @ b) = stream_bytes s a @ stream_bytes s b"
  by (induction s a rule: stream_bytes.induct) simp_all

text \<open>What the collector has seen.\<close>

definition collected :: "OutputEvent list \<Rightarrow> Collect \<Rightarrow> bool" where
  "collected es c \<longleftrightarrow> cl_stdout c = accumulated (stream_bytes Stdout es) \<and>
     cl_stderr c = accumulated (stream_bytes Stderr es) \<and> (\<forall>s. cl_done c s \<longleftrightarrow> Finished s \<in> set es) \<and>
     (\<forall>s e. Failed s e \<notin> set es)"

lemma collected_event:
  assumes "collected es c" "apply_output_event e c = Inr c'"
  shows "collected (es @ [e]) c'"
proof (cases e)
  case (Chunk s bs)
  then show ?thesis using assms by (cases s) (auto simp: collected_def accumulated_push)
qed (use assms in \<open>auto simp: collected_def split: if_splits\<close>)

lemma collected_events:
  "collected es c \<Longrightarrow> apply_output_events es' c = Inr c' \<Longrightarrow> collected (es @ es') c'"
proof (induction es' arbitrary: es c)
  case (Cons e es')
  then obtain c1 where "apply_output_event e c = Inr c1" "apply_output_events es' c1 = Inr c'"
    by (auto split: sum.splits)
  then show ?case using collected_event [OF Cons.prems(1), of e c1] Cons.IH [of "es @ [e]" c1] by simp
qed simp

lemma collected_start: "collected [] Collect_start"
  by (simp add: collected_def Collect_start_def accumulated_default)

lemma collected_status [simp]: "collected es (c\<lparr>cl_status := x\<rparr>) = collected es c"
  by (simp add: collected_def)

definition round_events :: "collect_round \<Rightarrow> OutputEvent list" where
  "round_events round = take OUTPUT_EVENT_DRAIN_BUDGET (cr_drained round) @
     (case cr_received round of R_Event e \<Rightarrow> [e] | _ \<Rightarrow> [])"

text \<open>A pass goes on with all its events seen, or it returns with the drained ones seen and both readers
  finished.\<close>

lemma collect_pass_next:
  assumes "collected es c" "collect_pass lossy timeout round c = Inr (Inr c')"
  shows "collected (es @ round_events round) c'"
proof -
  obtain c1 where drained: "apply_output_events (take OUTPUT_EVENT_DRAIN_BUDGET (cr_drained round)) c = Inr c1"
    using assms(2) by (auto simp: collect_pass_def split: sum.splits)
  have c1: "collected (es @ take OUTPUT_EVENT_DRAIN_BUDGET (cr_drained round)) c1"
    using collected_events [OF assms(1) drained] .
  show ?thesis
  proof (cases "cr_received round")
    case (R_Event e)
    then obtain status where "apply_output_event e (c1\<lparr>cl_status := status\<rparr>) = Inr c'"
      using assms(2) drained by (auto simp: collect_pass_def Let_def split: sum.splits if_splits)
    then show ?thesis
      using collected_event [of "es @ take OUTPUT_EVENT_DRAIN_BUDGET (cr_drained round)" "c1\<lparr>cl_status := status\<rparr>" e c']
        c1 R_Event by (simp add: round_events_def)
  next
    case R_Timeout
    then obtain status where "c' = c1\<lparr>cl_status := status\<rparr>"
      using assms(2) drained by (auto simp: collect_pass_def Let_def split: sum.splits if_splits)
    then show ?thesis using c1 R_Timeout by (simp add: round_events_def)
  next
    case R_Disconnected
    then obtain status where "c' = c1\<lparr>cl_status := status\<rparr>"
      using assms(2) drained by (auto simp: collect_pass_def Let_def split: sum.splits if_splits)
    then show ?thesis using c1 R_Disconnected by (simp add: round_events_def)
  qed
qed

lemma collect_pass_return:
  assumes "collected es c" "collect_pass lossy timeout round c = Inr (Inl out)"
  defines "es' \<equiv> es @ take OUTPUT_EVENT_DRAIN_BUDGET (cr_drained round)"
  shows "(\<forall>s. Finished s \<in> set es') \<and> (\<forall>s e. Failed s e \<notin> set es') \<and>
    ao_stdout out = lossy (bounded_capture (stream_bytes Stdout es')) \<and>
    ao_stderr out = lossy (bounded_capture (stream_bytes Stderr es'))"
proof -
  obtain c1 where drained: "apply_output_events (take OUTPUT_EVENT_DRAIN_BUDGET (cr_drained round)) c = Inr c1"
    using assms(2) by (auto simp: collect_pass_def split: sum.splits)
  have c1: "collected es' c1" unfolding es'_def using collected_events [OF assms(1) drained] .
  have "cl_done c1 Stdout \<and> cl_done c1 Stderr \<and> ao_stdout out = lossy (OutputAccumulator_finish (cl_stdout c1)) \<and>
      ao_stderr out = lossy (OutputAccumulator_finish (cl_stderr c1))"
    using assms(2) drained
    by (auto simp: collect_pass_def Let_def readers_done_def split: sum.splits if_splits received.splits)
  moreover from this have "\<forall>s. cl_done c1 s" by (metis OutputStream.exhaust)
  ultimately show ?thesis using c1 by (simp add: collected_def accumulated_finish)
qed

lemma collect_output:
  assumes "collected es c" "collect_child_output lossy timeout rounds c = Some (Inr out)"
  shows "\<exists>seen. prefix seen (concat (map round_events rounds)) \<and> (\<forall>s. Finished s \<in> set (es @ seen)) \<and>
    (\<forall>s e. Failed s e \<notin> set (es @ seen)) \<and>
    ao_stdout out = lossy (bounded_capture (stream_bytes Stdout (es @ seen))) \<and>
    ao_stderr out = lossy (bounded_capture (stream_bytes Stderr (es @ seen)))"
  using assms
proof (induction rounds arbitrary: es c)
  case (Cons round rounds)
  show ?case
  proof (cases "collect_pass lossy timeout round c")
    case (Inr x)
    show ?thesis
    proof (cases x)
      case (Inl out')
      then have "out' = out" using Cons.prems(2) Inr by simp
      with collect_pass_return [OF Cons.prems(1), of lossy timeout round out] Inr Inl show ?thesis
        by (intro exI [of _ "take OUTPUT_EVENT_DRAIN_BUDGET (cr_drained round)"])
           (simp add: round_events_def)
    next
      case going: (Inr c1)
      have "collected (es @ round_events round) c1"
        using collect_pass_next [OF Cons.prems(1), of lossy timeout round c1] Inr going by simp
      from Cons.IH [OF this] Cons.prems(2) Inr going obtain seen where
        "prefix seen (concat (map round_events rounds))" "\<forall>s. Finished s \<in> set ((es @ round_events round) @ seen)"
        "\<forall>s e. Failed s e \<notin> set ((es @ round_events round) @ seen)"
        "ao_stdout out = lossy (bounded_capture (stream_bytes Stdout ((es @ round_events round) @ seen)))"
        "ao_stderr out = lossy (bounded_capture (stream_bytes Stderr ((es @ round_events round) @ seen)))"
        by auto
      then show ?thesis by (intro exI [of _ "round_events round @ seen"]) simp
    qed
  qed (use Cons.prems in simp)
qed simp

section \<open>Calls\<close>

text \<open>The calls that remove every product mapping and look at the result.\<close>

definition cleanup_calls :: "AdbController \<Rightarrow> adb_call list" where
  "cleanup_calls c = map (\<lambda>mapping. Execute (remove_args mapping) (ac_mapping_timeout c)) REVERSE_MAPPINGS @
     [Execute list_args (ac_mapping_timeout c)]"

abbreviation world_after :: "'a adb \<Rightarrow> adb_world \<Rightarrow> adb_world" where
  "world_after m w \<equiv> snd (run_state m w)"

lemma run_checked_calls [simp]:
  "aw_calls (world_after (run_checked_with env args timeout) w) = aw_calls w @ [Execute args timeout]"
  "aw_calls (world_after (run_checked env c args) w) = aw_calls w @ [Execute args (ac_command_timeout c)]"
  by (simp_all add: run_checked_def run_checked_with_def execute_def adb_issue_def Let_def)

lemma remove_each_calls:
  "aw_calls (world_after (remove_each env c ms failures) w) =
     aw_calls w @ map (\<lambda>mapping. Execute (remove_args mapping) (ac_mapping_timeout c)) ms"
  by (induction ms arbitrary: failures w) (simp_all add: execute_def adb_issue_def Let_def)

lemma remove_all_calls:
  "aw_calls (world_after (remove_all_mappings env c failures) w) = aw_calls w @ cleanup_calls c"
  using remove_each_calls [of env c REVERSE_MAPPINGS failures w]
  by (simp add: remove_all_mappings_def cleanup_calls_def split: prod.splits)
     (metis (no_types) append_assoc run_checked_calls(1) snd_conv)

text \<open>One poll of the loop, and either the end or the rest.\<close>

abbreviation service_call :: "AdbController \<Rightarrow> adb_call" where
  "service_call c \<equiv> Execute service_args (ac_command_timeout c)"

abbreviation polled :: "adb_env \<Rightarrow> AdbController \<Rightarrow> adb_world \<Rightarrow> adb_world" where
  "polled env c w \<equiv> adb_issue env (service_call c) w"

definition polled_again :: "adb_env \<Rightarrow> AdbController \<Rightarrow> instant \<Rightarrow> adb_world \<Rightarrow> adb_world" where
  "polled_again env c deadline w = (let w1 = polled env c w in
     w1\<lparr>aw_now := aw_now w1 + min (ac_poll_interval c) (deadline - aw_now w1)\<rparr>)"

lemma polled_calls [simp]:
  "aw_calls (polled env c w) = aw_calls w @ [service_call c]"
  "aw_calls (polled_again env c deadline w) = aw_calls w @ [service_call c]"
  by (simp_all add: polled_again_def adb_issue_def Let_def)

lemma verify_loop_poll:
  obtains (again) "aw_now (polled env c w) < deadline"
      "verify_loop env c deadline w = verify_loop env c deadline (polled_again env c deadline w)"
  | (closed) out where "ae_answer env (aw_calls w @ [service_call c]) = Inr out"
      "AdbOutput_is_success out" "vpn_closed (ao_stdout out)"
      "verify_loop env c deadline w = (Inr (), polled env c w)"
  | (failed) e where "verify_loop env c deadline w = (Inl e, polled env c w)"
proof -
  have run: "run_state (run_checked env c service_args) w =
      (case ae_answer env (aw_calls w @ [service_call c]) of
         Inl e \<Rightarrow> Inl e
       | Inr out \<Rightarrow> if AdbOutput_is_success out then Inr out
                   else Inl (AE_CommandFailed (ao_status out) (trim (ao_stderr out))), polled env c w)"
    by (simp add: run_checked_def run_checked_with_def execute_def Let_def)
  show ?thesis
  proof (cases "ae_answer env (aw_calls w @ [service_call c])")
    case (Inl e)
    have "verify_loop env c deadline w = (Inl e, polled env c w)" by (subst verify_loop.simps) (simp add: run Inl)
    then show ?thesis by (rule failed)
  next
    case (Inr out)
    consider "\<not> AdbOutput_is_success out" | "AdbOutput_is_success out" "vpn_closed (ao_stdout out)"
      | "AdbOutput_is_success out" "\<not> vpn_closed (ao_stdout out)" "deadline \<le> aw_now (polled env c w)"
      | "AdbOutput_is_success out" "\<not> vpn_closed (ao_stdout out)" "\<not> deadline \<le> aw_now (polled env c w)" by blast
    then show ?thesis
    proof cases
      case 1
      have "verify_loop env c deadline w =
          (Inl (AE_CommandFailed (ao_status out) (trim (ao_stderr out))), polled env c w)"
        by (subst verify_loop.simps) (simp add: run Inr 1)
      then show ?thesis by (rule failed)
    next
      case 2
      have "verify_loop env c deadline w = (Inr (), polled env c w)" by (subst verify_loop.simps) (simp add: run Inr 2)
      then show ?thesis using closed Inr 2 by blast
    next
      case 3
      have "verify_loop env c deadline w = (Inl AE_VpnStillActive, polled env c w)"
        by (subst verify_loop.simps) (simp add: run Inr 3)
      then show ?thesis by (rule failed)
    next
      case 4
      have "verify_loop env c deadline w = verify_loop env c deadline (polled_again env c deadline w)"
        by (subst verify_loop.simps) (simp add: run Inr 4 polled_again_def Let_def)
      then show ?thesis using again 4 by simp
    qed
  qed
qed

text \<open>Polling makes at least one and at most so many calls that the poll intervals fit the timeout, and
  a success rests on the answer to the last of them.\<close>

lemma verify_loop_calls:
  "\<exists>n. aw_calls (snd (verify_loop env c deadline w)) = aw_calls w @ replicate (Suc n) (service_call c) \<and>
     n * Suc (ac_poll_interval c) \<le> (deadline - aw_now w) + ac_poll_interval c \<and>
     (fst (verify_loop env c deadline w) = Inr () \<longrightarrow>
        (\<exists>out. ae_answer env (aw_calls (snd (verify_loop env c deadline w))) = Inr out \<and>
           AdbOutput_is_success out \<and> vpn_closed (ao_stdout out)))"
proof (induction "deadline - aw_now w" arbitrary: w rule: less_induct)
  case less
  show ?case
  proof (cases rule: verify_loop_poll [of env c w deadline])
    case again
    let ?w = "polled_again env c deadline w"
    have now: "aw_now w + Suc (ac_poll_interval c) \<le> aw_now ?w \<or> deadline \<le> aw_now ?w" "aw_now w < aw_now (polled env c w)"
      using adb_issue_now [of w env "service_call c"] by (auto simp: polled_again_def Let_def min_def)
    then have "deadline - aw_now ?w < deadline - aw_now w"
      using again(1) by (auto simp: polled_again_def Let_def)
    from less [OF this] obtain n where n: "aw_calls (snd (verify_loop env c deadline ?w)) =
          aw_calls ?w @ replicate (Suc n) (service_call c)"
        "n * Suc (ac_poll_interval c) \<le> (deadline - aw_now ?w) + ac_poll_interval c"
        "fst (verify_loop env c deadline ?w) = Inr () \<longrightarrow>
          (\<exists>out. ae_answer env (aw_calls (snd (verify_loop env c deadline ?w))) = Inr out \<and>
             AdbOutput_is_success out \<and> vpn_closed (ao_stdout out))" by blast
    have "Suc n * Suc (ac_poll_interval c) \<le> (deadline - aw_now w) + ac_poll_interval c"
    proof (cases "deadline \<le> aw_now ?w")
      case True
      then have "n * Suc (ac_poll_interval c) < 1 * Suc (ac_poll_interval c)" using n(2) by simp
      then have "n = 0" by (metis less_one mult_less_cancel2)
      then show ?thesis using again(1) now(2) by simp
    next
      case False
      then show ?thesis using n(2) now(1) by simp
    qed
    then show ?thesis using again(2) n by (intro exI [of _ "Suc n"]) simp
  qed (use adb_issue_now in \<open>auto intro!: exI [of _ 0]\<close>)
qed

section \<open>Failing paths\<close>

text \<open>The calls a run adds; ADB is asked for nothing else.\<close>

definition adds_calls :: "(adb_call list \<Rightarrow> bool) \<Rightarrow> adb_world \<Rightarrow> adb_world \<Rightarrow> bool" where
  "adds_calls P w w' \<longleftrightarrow> (\<exists>new. aw_calls w' = aw_calls w @ new \<and> P new)"

definition cleans_up :: "AdbController \<Rightarrow> adb_call list \<Rightarrow> bool" where
  "cleans_up c new \<longleftrightarrow> suffix (cleanup_calls c) new"

fun reverse_call :: "adb_call \<Rightarrow> bool" where
  "reverse_call (Execute (_ # verb # _) _) = (verb = ''reverse'')"
| "reverse_call _ = False"

lemma adds_calls_trans:
  "adds_calls P w w1 \<Longrightarrow> adds_calls Q w1 w2 \<Longrightarrow> (\<And>a b. P a \<Longrightarrow> Q b \<Longrightarrow> R (a @ b)) \<Longrightarrow> adds_calls R w w2"
  by (auto simp: adds_calls_def)

lemma cleans_up_after: "cleans_up c b \<Longrightarrow> cleans_up c (a @ b)"
  by (auto simp: cleans_up_def intro: suffix_appendI)

lemma adds_then_cleans: "adds_calls P w w1 \<Longrightarrow> adds_calls (cleans_up c) w1 w2 \<Longrightarrow> adds_calls (cleans_up c) w w2"
  by (rule adds_calls_trans [where P = P and Q = "cleans_up c"]) (auto intro: cleans_up_after)

lemma run_checked_adds:
  "run_state (run_checked_with env args timeout) w = (r, w') \<Longrightarrow> adds_calls (\<lambda>new. new = [Execute args timeout]) w w'"
  "run_state (run_checked env c args) w = (r, w') \<Longrightarrow> adds_calls (\<lambda>new. new = [Execute args (ac_command_timeout c)]) w w'"
  using run_checked_calls(1) [of env args timeout w] run_checked_calls(2) [of env c args w]
  by (simp_all add: adds_calls_def)

lemma remove_all_cleans: "run_state (remove_all_mappings env c failures) w = (r, w') \<Longrightarrow> adds_calls (cleans_up c) w w'"
  using remove_all_calls [of env c failures w] by (simp add: adds_calls_def cleans_up_def)

lemma verify_adds: "run_state (verify_vpn_closed env c) w = (r, w') \<Longrightarrow> adds_calls (\<lambda>_. True) w w'"
  using verify_loop_calls [of env c "aw_now w + ac_stop_timeout c" w]
  by (auto simp: verify_vpn_closed_def adds_calls_def)

lemma force_stop_adds: "run_state (force_stop_android env c) w = (r, w') \<Longrightarrow> adds_calls (\<lambda>_. True) w w'"
  by (auto simp: force_stop_android_def adds_calls_def split: prod.splits dest!: run_checked_adds)

lemma stop_session_cleans:
  "run_state (stop_android_session env c phase) w = (r, w') \<Longrightarrow> adds_calls (cleans_up c) w w'"
  by (auto simp: stop_android_session_def split: prod.splits
      dest!: run_checked_adds verify_adds remove_all_cleans intro: adds_then_cleans)

lemma force_stop_session_cleans:
  "run_state (force_stop_android_session env c phase) w = (r, w') \<Longrightarrow> adds_calls (cleans_up c) w w'"
  by (auto simp: force_stop_android_session_def split: prod.splits
      dest!: force_stop_adds verify_adds remove_all_cleans intro: adds_then_cleans)

lemma finish_control_stop_cleans:
  "run_state (finish_control_stop env c) w = (r, w') \<Longrightarrow> adds_calls (cleans_up c) w w'"
  by (auto simp: finish_control_stop_def split: prod.splits
      dest!: verify_adds remove_all_cleans intro: adds_then_cleans)

lemma quiesce_cleans:
  "run_state (quiesce_android_session env c) w = (r, w') \<Longrightarrow> adds_calls (cleans_up c) w w'"
  by (auto simp: quiesce_android_session_def split: prod.splits sum.splits
      dest!: stop_session_cleans force_stop_session_cleans intro: adds_then_cleans)

lemma start_rollback_cleans:
  "run_state (start_rollback env c phase failures) w = (r, w') \<Longrightarrow> adds_calls (cleans_up c) w w'"
  by (auto simp: start_rollback_def split: prod.splits dest!: remove_all_cleans)

lemma add_mapping_adds:
  "run_state (add_mapping env c m) w = (r, w') \<Longrightarrow>
     adds_calls (\<lambda>new. new = [Execute (add_args m) (ac_mapping_timeout c)]) w w'"
  by (auto simp: add_mapping_def split: prod.splits dest!: run_checked_adds)

lemma add_mappings_adds:
  "run_state (add_mappings env c ms) w = (r, w') \<Longrightarrow>
     adds_calls (\<lambda>new. r = [] \<longrightarrow> new = map (\<lambda>m. Execute (add_args m) (ac_mapping_timeout c)) ms) w w'"
proof (induction ms arbitrary: w)
  case Nil
  then show ?case by (simp add: adds_calls_def)
next
  case (Cons m ms)
  obtain r1 w1 where add: "run_state (add_mapping env c m) w = (r1, w1)" by fastforce
  note one = add_mapping_adds [OF add]
  show ?case
  proof (cases r1)
    case (Inl e)
    then show ?thesis using Cons.prems add one by (auto simp: adds_calls_def)
  next
    case (Inr u)
    then have "run_state (add_mappings env c ms) w1 = (r, w')" using Cons.prems add by simp
    from Cons.IH [OF this] show ?thesis using one by (auto simp: adds_calls_def)
  qed
qed

lemma mapping_health_adds:
  "run_state (mapping_health env c) w = (r, w') \<Longrightarrow>
     adds_calls (\<lambda>new. new = [Execute list_args (ac_mapping_timeout c)]) w w'"
  by (auto simp: mapping_health_def split: prod.splits dest!: run_checked_adds)


lemma wake_adds:
  "run_state (wake_android env c) w = (r, w') \<Longrightarrow> adds_calls (list_all (\<lambda>call. \<not> reverse_call call)) w w'"
  by (auto simp: wake_android_def adds_calls_def split: prod.splits dest!: run_checked_adds)

lemma get_state_adds:
  "run_state (run_checked_with env [''-d'', ''get-state''] t) w = (r, w') \<Longrightarrow>
     adds_calls (list_all (\<lambda>call. \<not> reverse_call call)) w w'"
  by (auto simp: adds_calls_def dest!: run_checked_adds)

lemma quiet_trans:
  "adds_calls (list_all (\<lambda>call. \<not> reverse_call call)) w w1 \<Longrightarrow>
     adds_calls (list_all (\<lambda>call. \<not> reverse_call call)) w1 w2 \<Longrightarrow>
     adds_calls (list_all (\<lambda>call. \<not> reverse_call call)) w w2"
  by (auto simp: adds_calls_def)

lemma require_device_pass_adds:
  assumes "run_state (require_device_pass env c first again) w = (r, w')"
    and "\<And>w r w'. run_state again w = (r, w') \<Longrightarrow> adds_calls (list_all (\<lambda>call. \<not> reverse_call call)) w w'"
  shows "adds_calls (list_all (\<lambda>call. \<not> reverse_call call)) w w'"
proof -
  obtain r1 w1 where run: "run_state (run_checked_with env [''-d'', ''get-state''] (ac_device_timeout c)) w = (r1, w1)"
    by fastforce
  note one = get_state_adds [OF run]
  show ?thesis
  proof (cases "\<exists>d. r1 = Inl (AE_Timeout d) \<and> first")
    case True
    obtain r2 w2 where rec: "run_state (recover_server env (ac_device_timeout c)) w1 = (r2, w2)" by fastforce
    then have two: "adds_calls (list_all (\<lambda>call. \<not> reverse_call call)) w1 w2"
      by (auto simp: recover_server_def adb_issue_def Let_def adds_calls_def)
    show ?thesis
    proof (cases r2)
      case (Inl e)
      then show ?thesis using assms(1) True run rec quiet_trans [OF one two]
        by (auto simp: require_device_pass_def)
    next
      case (Inr u)
      let ?w = "w2\<lparr>aw_now := aw_now w2 + ac_poll_interval c\<rparr>"
      have "run_state again ?w = (r, w')"
        using assms(1) True run rec Inr by (auto simp: require_device_pass_def adb_sleep_def)
      from assms(2) [OF this] have "adds_calls (list_all (\<lambda>call. \<not> reverse_call call)) w2 w'"
        by (simp add: adds_calls_def)
      then show ?thesis using quiet_trans [OF quiet_trans [OF one two]] by blast
    qed
  next
    case False
    then have "w' = w1"
      using assms(1) run by (auto simp: require_device_pass_def split: sum.splits AdbError.splits if_splits)
    then show ?thesis using one by simp
  qed
qed

lemma require_device_adds:
  "run_state (require_device env c) w = (r, w') \<Longrightarrow> adds_calls (list_all (\<lambda>call. \<not> reverse_call call)) w w'"
  unfolding require_device_def
  by (erule require_device_pass_adds, erule require_device_pass_adds) (simp add: adds_calls_def)

text \<open>What the start does once it touches the mappings: it cleans up, or it has added all of them, seen
  them listed and sent the intent.\<close>

definition start_calls :: "AdbController \<Rightarrow> SessionId \<Rightarrow> bool \<Rightarrow> adb_call list" where
  "start_calls c session_id all_traffic =
     map (\<lambda>m. Execute (add_args m) (ac_mapping_timeout c)) REVERSE_MAPPINGS @
     [Execute list_args (ac_mapping_timeout c), Execute (start_intent_args session_id all_traffic) (ac_command_timeout c)]"

lemma start_intent_run:
  assumes "run_state (start_intent env c s all) w = (r, w')"
  shows "(\<exists>e. r = Inl e) \<and> adds_calls (cleans_up c) w w' \<or>
    r = Inr \<lparr>sr_session_id = s, sr_all_traffic = all, sr_allowed_package = VIRTUAL_DESKTOP_PACKAGE,
      sr_mappings = REVERSE_MAPPINGS\<rparr> \<and>
    aw_calls w' = aw_calls w @ [Execute (start_intent_args s all) (ac_command_timeout c)]"
proof -
  obtain r1 w1 where run: "run_state (run_checked env c (start_intent_args s all)) w = (r1, w1)" by fastforce
  note sent = run_checked_adds(2) [OF run]
  show ?thesis
  proof (cases r1)
    case (Inr out)
    then show ?thesis using assms run sent
      by (auto simp: start_intent_def send_start_intent_def forget_def adds_calls_def)
  next
    case (Inl e)
    obtain r2 w2 where stop: "run_state (run_checked env c stop_args) w1 = (r2, w2)" by fastforce
    obtain r3 w3 where verify: "run_state (verify_vpn_closed env c) w2 = (r3, w3)" by fastforce
    obtain fs where rolled: "run_state (start_rollback env c ''android_start'' fs) w3 = (r, w')"
      using assms run Inl stop verify by (auto simp: start_intent_def send_start_intent_def forget_def)
    then have "\<exists>e. r = Inl e" by (auto simp: start_rollback_def split: prod.splits)
    moreover have "adds_calls (cleans_up c) w w'"
      using sent run_checked_adds(2) [OF stop] verify_adds [OF verify] start_rollback_cleans [OF rolled]
      by (meson adds_then_cleans)
    ultimately show ?thesis by blast
  qed
qed


text \<open>The answer to the listing a successful health check saw.\<close>

definition mappings_listed :: "adb_env \<Rightarrow> adb_call list \<Rightarrow> bool" where
  "mappings_listed env calls \<longleftrightarrow>
     (\<exists>out. ae_answer env calls = Inr out \<and> AdbOutput_is_success out \<and> missing_mappings (ao_stdout out) = [])"

lemma mapping_health_listed:
  "run_state (mapping_health env c) w = (Inr [], w') \<Longrightarrow> mappings_listed env (aw_calls w')"
  by (auto simp: mapping_health_def mappings_listed_def run_checked_with_def execute_def adb_issue_def Let_def
      split: sum.splits if_splits)

lemma start_mappings_run:
  assumes "run_state (start_mappings env c s all) w = (r, w')"
  shows "(\<exists>e. r = Inl e) \<and> adds_calls (cleans_up c) w w' \<or>
    r = Inr \<lparr>sr_session_id = s, sr_all_traffic = all, sr_allowed_package = VIRTUAL_DESKTOP_PACKAGE,
      sr_mappings = REVERSE_MAPPINGS\<rparr> \<and>
    aw_calls w' = aw_calls w @ start_calls c s all \<and> mappings_listed env (butlast (aw_calls w'))"
proof -
  obtain fs w1 where adds: "run_state (add_mappings env c REVERSE_MAPPINGS) w = (fs, w1)" by fastforce
  note added = add_mappings_adds [OF adds]
  show ?thesis
  proof (cases "fs = []")
    case False
    then have rolled: "run_state (start_rollback env c ''reverse_setup'' fs) w1 = (r, w')"
      using assms adds by (simp add: start_mappings_def)
    then have "\<exists>e. r = Inl e" by (auto simp: start_rollback_def split: prod.splits)
    then show ?thesis using adds_then_cleans [OF added start_rollback_cleans [OF rolled]] by blast
  next
    case True
    obtain h w2 where health: "run_state (mapping_health env c) w1 = (h, w2)" by fastforce
    note listed = mapping_health_adds [OF health]
    show ?thesis
    proof (cases "h = Inr []")
      case False
      then have "health_failures ''reverse mappings missing after add'' h \<noteq> []"
        by (auto simp: health_failures_def split: sum.splits)
      then obtain fs' where rolled: "run_state (start_rollback env c ''reverse_verify'' fs') w2 = (r, w')"
        using assms adds True health by (auto simp: start_mappings_def Let_def)
      then have "\<exists>e. r = Inl e" by (auto simp: start_rollback_def split: prod.splits)
      then show ?thesis
        using adds_then_cleans [OF added adds_then_cleans [OF listed start_rollback_cleans [OF rolled]]] by blast
    next
      case ok: True
      have seen: "mappings_listed env (aw_calls w2)" using mapping_health_listed health ok by blast
      have "run_state (start_intent env c s all) w2 = (r, w')"
        using assms adds True health ok by (simp add: start_mappings_def health_failures_def Let_def)
      from start_intent_run [OF this] show ?thesis
      proof (elim disjE conjE)
        assume "\<exists>e. r = Inl e" "adds_calls (cleans_up c) w2 w'"
        then show ?thesis using adds_then_cleans [OF added adds_then_cleans [OF listed]] by blast
      next
        assume "r = Inr \<lparr>sr_session_id = s, sr_all_traffic = all, sr_allowed_package = VIRTUAL_DESKTOP_PACKAGE,
            sr_mappings = REVERSE_MAPPINGS\<rparr>"
          and calls: "aw_calls w' = aw_calls w2 @ [Execute (start_intent_args s all) (ac_command_timeout c)]"
        moreover have "aw_calls w' = aw_calls w @ start_calls c s all"
          using added listed calls True by (auto simp: adds_calls_def start_calls_def)
        moreover have "butlast (aw_calls w') = aw_calls w2" using calls by simp
        ultimately show ?thesis using seen by simp
      qed
    qed
  qed
qed

lemma start_run:
  assumes "run_state (AdbController_start env c s all) w = (r, w')"
  shows "(\<exists>e. r = Inl e) \<and> adds_calls (list_all (\<lambda>call. \<not> reverse_call call)) w w' \<or>
    (\<exists>e. r = Inl e) \<and> adds_calls (cleans_up c) w w' \<or>
    r = Inr \<lparr>sr_session_id = s, sr_all_traffic = all, sr_allowed_package = VIRTUAL_DESKTOP_PACKAGE,
      sr_mappings = REVERSE_MAPPINGS\<rparr> \<and>
    adds_calls (suffix (cleanup_calls c @ start_calls c s all)) w w' \<and> mappings_listed env (butlast (aw_calls w'))"
proof -
  obtain d w1 where device: "run_state (require_device env c) w = (d, w1)" by fastforce
  note q1 = require_device_adds [OF device]
  obtain a w2 where wake: "run_state (wake_android env c) w1 = (a, w2)" by fastforce
  note q2 = quiet_trans [OF q1 wake_adds [OF wake]]
  obtain q w3 where quiesce: "run_state (quiesce_android_session env c) w2 = (q, w3)" by fastforce
  note q3 = adds_then_cleans [OF q2 quiesce_cleans [OF quiesce]]
  consider e where "d = Inl e" | e where "d = Inr ()" "a = Inl e" | e where "d = Inr ()" "a = Inr ()" "q = Inl e"
    | "d = Inr ()" "a = Inr ()" "q = Inr ()" by (cases d; cases a; cases q) auto
  then show ?thesis
  proof cases
    case 1
    then show ?thesis using assms device q1 by (auto simp: AdbController_start_def)
  next
    case 2
    then show ?thesis using assms device wake q2 by (auto simp: AdbController_start_def)
  next
    case 3
    then show ?thesis using assms device wake quiesce q3 by (auto simp: AdbController_start_def)
  next
    case 4
    then have "run_state (start_mappings env c s all) w3 = (r, w')"
      using assms device wake quiesce by (simp add: AdbController_start_def)
    from start_mappings_run [OF this] show ?thesis
    proof (elim disjE conjE)
      assume "\<exists>e. r = Inl e" "adds_calls (cleans_up c) w3 w'"
      then show ?thesis using adds_then_cleans [OF q3] by blast
    next
      assume r: "r = Inr \<lparr>sr_session_id = s, sr_all_traffic = all, sr_allowed_package = VIRTUAL_DESKTOP_PACKAGE,
          sr_mappings = REVERSE_MAPPINGS\<rparr>" "mappings_listed env (butlast (aw_calls w'))"
        and "aw_calls w' = aw_calls w3 @ start_calls c s all"
      then have "adds_calls (suffix (cleanup_calls c @ start_calls c s all)) w w'"
        using q3 by (auto simp: adds_calls_def cleans_up_def suffix_def)
      then show ?thesis using r by blast
    qed
  qed
qed

lemma stop_run:
  assumes "run_state (AdbController_stop env c) w = (r, w')"
  shows "(\<exists>e. r = Inl e) \<and> adds_calls (list_all (\<lambda>call. \<not> reverse_call call)) w w' \<or>
    adds_calls (cleans_up c) w w'"
proof -
  obtain d w1 where device: "run_state (require_device env c) w = (d, w1)" by fastforce
  note q1 = require_device_adds [OF device]
  obtain a w2 where wake: "run_state (wake_android env c) w1 = (a, w2)" by fastforce
  note q2 = quiet_trans [OF q1 wake_adds [OF wake]]
  consider e where "d = Inl e" | e where "d = Inr ()" "a = Inl e" | "d = Inr ()" "a = Inr ()"
    by (cases d; cases a) auto
  then show ?thesis
  proof cases
    case 3
    then have "run_state (stop_android_session env c ''stop'') w2 = (r, w')"
      using assms device wake by (simp add: AdbController_stop_def)
    then show ?thesis using adds_then_cleans [OF q2 stop_session_cleans] by blast
  qed (use assms device wake q1 q2 in \<open>auto simp: AdbController_stop_def\<close>)
qed

end
