(* ===== verification/AdbProps.thy ===== *)
theory AdbProps
  imports AdbLaws
begin

text \<open>
  What success and failure of an ADB transaction mean for the device, under the documented behaviour
  of \<^verbatim>\<open>adb reverse\<close>, with a sample device on which the hypotheses hold.
\<close>

section \<open>The device behind ADB\<close>

text \<open>The documented behaviour of \<^verbatim>\<open>adb reverse\<close>: a listing shows the mappings of the device, and commands
  other than \<^verbatim>\<open>reverse\<close> do not touch them.\<close>

definition reverse_contract :: "adb_env \<Rightarrow> (adb_call list \<Rightarrow> (string \<times> string) set) \<Rightarrow> bool" where
  "reverse_contract env mapped \<longleftrightarrow>
     (\<forall>calls t out. ae_answer env (calls @ [Execute list_args t]) = Inr out \<longrightarrow> AdbOutput_is_success out \<longrightarrow>
        set (parse_reverse_list (ao_stdout out)) = mapped (calls @ [Execute list_args t])) \<and>
     (\<forall>calls call. \<not> reverse_call call \<longrightarrow> mapped (calls @ [call]) = mapped calls)"

text \<open>The documented behaviour of the service dump of the application: a dump that names no service or only a closed
  descriptor is of a device whose VPN is closed, and \<^verbatim>\<open>adb reverse\<close> does not open it.\<close>

definition service_contract :: "adb_env \<Rightarrow> (adb_call list \<Rightarrow> bool) \<Rightarrow> bool" where
  "service_contract env vpn_open \<longleftrightarrow>
     (\<forall>calls t out. ae_answer env (calls @ [Execute service_args t]) = Inr out \<longrightarrow> AdbOutput_is_success out \<longrightarrow>
        vpn_closed (ao_stdout out) \<longrightarrow> \<not> vpn_open (calls @ [Execute service_args t])) \<and>
     (\<forall>calls call. reverse_call call \<longrightarrow> vpn_open (calls @ [call]) \<longrightarrow> vpn_open calls)"

definition mapping_pair :: "ReverseMapping \<Rightarrow> string \<times> string" where
  "mapping_pair m = (tcp_port (rm_remote m), tcp_port (rm_local m))"

lemma missing_mappings_empty:
  "missing_mappings t = [] \<longleftrightarrow> mapping_pair ` set REVERSE_MAPPINGS \<subseteq> set (parse_reverse_list t)"
  by (auto simp: missing_mappings_def filter_empty_conv mapping_pair_def)

lemma owned_mappings_empty:
  "owned_mappings t = [] \<longleftrightarrow>
     (\<forall>(remote, local) \<in> set (parse_reverse_list t). remote \<notin> tcp_port ` rm_remote ` set REVERSE_MAPPINGS)"
  by (auto simp: owned_mappings_def filter_empty_conv list_ex_iff)

lemma remove_all_clean:
  assumes "run_state (remove_all_mappings env c fs) w = ([], w')"
  shows "fs = [] \<and> (\<exists>out. ae_answer env (aw_calls w') = Inr out \<and> AdbOutput_is_success out \<and>
    owned_mappings (ao_stdout out) = [])"
proof -
  obtain fs1 w1 where each: "run_state (remove_each env c REVERSE_MAPPINGS fs) w = (fs1, w1)" by fastforce
  have grow: "run_state (remove_each env c ms fs) w = (fs', w') \<Longrightarrow> fs' = [] \<Longrightarrow> fs = []" for ms fs w fs' w'
    by (induction ms arbitrary: fs w) (auto simp: execute_def Let_def)
  have "fs1 = []"
    using assms each by (auto simp: remove_all_mappings_def split: prod.splits)
  moreover have "\<exists>out. ae_answer env (aw_calls w') = Inr out \<and> AdbOutput_is_success out \<and> owned_mappings (ao_stdout out) = []"
    using assms each
    by (auto simp: remove_all_mappings_def run_checked_with_def execute_def adb_issue_def Let_def removal_outcome_def
        split: prod.splits sum.splits if_splits)
  ultimately show ?thesis using grow [OF each] by blast
qed


section \<open>A verified teardown\<close>

text \<open>The answers a teardown needs: the last call is a dump of the service and shows it closed; the last call is a listing
  without a product port.\<close>

definition answers_closed :: "adb_env \<Rightarrow> adb_call list \<Rightarrow> bool" where
  "answers_closed env calls \<longleftrightarrow>
     (\<exists>out. ae_answer env calls = Inr out \<and> AdbOutput_is_success out \<and> vpn_closed (ao_stdout out))"

definition answers_unmapped :: "adb_env \<Rightarrow> adb_call list \<Rightarrow> bool" where
  "answers_unmapped env calls \<longleftrightarrow>
     (\<exists>out. ae_answer env calls = Inr out \<and> AdbOutput_is_success out \<and> owned_mappings (ao_stdout out) = [])"

text \<open>The calls end with the request, the dumps of the service of which the last one shows it closed, the removal of
  every mapping and the listing that shows none of them; all of it after the calls \<open>old\<close>.\<close>

definition verified_teardown :: "adb_env \<Rightarrow> AdbController \<Rightarrow> adb_call list \<Rightarrow> adb_call list \<Rightarrow> adb_call list \<Rightarrow> bool" where
  "verified_teardown env c request old calls \<longleftrightarrow>
     (\<exists>pre n. calls = old @ pre @ request @ replicate (Suc n) (service_call c) @ cleanup_calls c \<and>
        answers_closed env (old @ pre @ request @ replicate (Suc n) (service_call c)) \<and> answers_unmapped env calls)"

text \<open>A device whose VPN is closed and which maps no product port.\<close>

definition device_clean :: "(adb_call list \<Rightarrow> bool) \<Rightarrow> (adb_call list \<Rightarrow> (string \<times> string) set) \<Rightarrow> adb_call list \<Rightarrow> bool" where
  "device_clean vpn_open mapped calls \<longleftrightarrow> \<not> vpn_open calls \<and>
     (\<forall>(remote, local) \<in> mapped calls. remote \<notin> tcp_port ` rm_remote ` set REVERSE_MAPPINGS)"

abbreviation stop_request :: "AdbController \<Rightarrow> adb_call list" where
  "stop_request c \<equiv> [Execute stop_args (ac_command_timeout c)]"

abbreviation force_stop_request :: "AdbController \<Rightarrow> adb_call list" where
  "force_stop_request c \<equiv> [Execute [''-d'', ''shell'', ''am'', ''force-stop'', ANDROID_PACKAGE] (ac_command_timeout c)]"

lemma reverse_keeps_closed:
  assumes "service_contract env vpn_open" "list_all reverse_call new" "\<not> vpn_open calls"
  shows "\<not> vpn_open (calls @ new)"
  using assms(2)
proof (induction new rule: rev_induct)
  case (snoc call new)
  then have "\<not> vpn_open (calls @ new)" "reverse_call call" by simp_all
  then show ?case using assms(1) by (metis append_assoc service_contract_def)
qed (use assms in simp)

lemma cleanup_reverses: "list_all reverse_call (cleanup_calls c)"
  by (simp add: cleanup_calls_def list_all_iff remove_args_def list_args_def)

theorem teardown_clean:
  assumes "reverse_contract env mapped" "service_contract env vpn_open" "verified_teardown env c request old calls"
  shows "device_clean vpn_open mapped calls"
proof -
  obtain pre n where calls: "calls = old @ pre @ request @ replicate (Suc n) (service_call c) @ cleanup_calls c"
    and closed: "answers_closed env (old @ pre @ request @ replicate (Suc n) (service_call c))"
    and unmapped: "answers_unmapped env calls"
    using assms(3) by (auto simp: verified_teardown_def)
  define seen where "seen = old @ pre @ request @ replicate n (service_call c)"
  have "answers_closed env (seen @ [service_call c])" using closed by (simp add: seen_def replicate_append_same)
  then have "\<not> vpn_open (seen @ [service_call c])"
    using assms(2) unfolding service_contract_def answers_closed_def by blast
  moreover have whole: "calls = (seen @ [service_call c]) @ cleanup_calls c"
    by (simp add: calls seen_def replicate_append_same [symmetric])
  ultimately have "\<not> vpn_open calls" using reverse_keeps_closed [OF assms(2) cleanup_reverses] by blast
  moreover obtain before where "calls = before @ [Execute list_args (ac_mapping_timeout c)]"
    using whole by (simp add: cleanup_calls_def)
  then have "\<forall>(remote, local) \<in> mapped calls. remote \<notin> tcp_port ` rm_remote ` set REVERSE_MAPPINGS"
    using unmapped assms(1) unfolding answers_unmapped_def reverse_contract_def by (metis owned_mappings_empty)
  ultimately show ?thesis by (simp add: device_clean_def)
qed

lemma teardown_run:
  assumes "run_state (verify_vpn_closed env c) w1 = (Inr (), w2)" "run_state (remove_all_mappings env c fs) w2 = ([], w')"
    and "aw_calls w1 = old @ pre @ request"
  shows "verified_teardown env c request old (aw_calls w')"
proof -
  obtain n where polls: "aw_calls w2 = aw_calls w1 @ replicate (Suc n) (service_call c)" "answers_closed env (aw_calls w2)"
    using verify_loop_calls [of env c "aw_now w1 + ac_stop_timeout c" w1] assms(1)
    by (auto simp: verify_vpn_closed_def answers_closed_def)
  have "aw_calls w' = aw_calls w2 @ cleanup_calls c" using remove_all_calls [of env c fs w2] assms(2) by simp
  moreover have "answers_unmapped env (aw_calls w')" using remove_all_clean [OF assms(2)] by (simp add: answers_unmapped_def)
  ultimately show ?thesis using polls assms(3) unfolding verified_teardown_def by (metis append_assoc)
qed

lemma stop_session_success:
  assumes "run_state (stop_android_session env c phase) w = (Inr (), w')" "prefix old (aw_calls w)"
  shows "verified_teardown env c (stop_request c) old (aw_calls w')"
proof -
  obtain r1 w1 where request: "run_state (run_checked env c stop_args) w = (r1, w1)" by fastforce
  obtain v w2 where verify: "run_state (verify_vpn_closed env c) w1 = (v, w2)" by fastforce
  define fs where "fs = (case v of Inr _ \<Rightarrow> []
      | Inl _ \<Rightarrow> (case r1 of Inl e \<Rightarrow> [F_Context ''stop request'' e] | Inr _ \<Rightarrow> []) @ closure_failures v)"
  have rem: "run_state (remove_all_mappings env c fs) w2 = ([], w')"
    using assms(1) request verify
    by (auto simp: stop_android_session_def fs_def transaction_result_def split: prod.splits if_splits)
  have "fs = []" using remove_all_clean [OF rem] by simp
  then have "v = Inr ()" by (cases v) (auto simp: fs_def closure_failures_def)
  moreover obtain pre where "aw_calls w1 = old @ pre @ stop_request c"
    using run_checked_adds(2) [OF request] assms(2) by (auto simp: adds_calls_def prefix_def)
  ultimately show ?thesis using teardown_run [OF _ rem] verify by blast
qed

lemma force_stop_session_success:
  assumes "run_state (force_stop_android_session env c phase) w = (Inr (), w')" "prefix old (aw_calls w)"
  shows "verified_teardown env c (force_stop_request c) old (aw_calls w')"
proof -
  obtain r1 w1 where request: "run_state (force_stop_android env c) w = (r1, w1)" by fastforce
  obtain v w2 where verify: "run_state (verify_vpn_closed env c) w1 = (v, w2)" by fastforce
  define fs where "fs = (case r1 of Inl e \<Rightarrow> [F_Context ''force-stop'' e] | Inr _ \<Rightarrow> []) @ closure_failures v"
  have rem: "run_state (remove_all_mappings env c fs) w2 = ([], w')"
    using assms(1) request verify
    by (auto simp: force_stop_android_session_def fs_def transaction_result_def split: prod.splits if_splits)
  have "fs = []" using remove_all_clean [OF rem] by simp
  then have "v = Inr ()" by (cases v) (auto simp: fs_def closure_failures_def)
  moreover obtain pre where "aw_calls w1 = old @ pre @ force_stop_request c"
    using request assms(2)
    by (auto simp: force_stop_android_def adds_calls_def prefix_def split: prod.splits dest!: run_checked_adds(2))
  ultimately show ?thesis using teardown_run [OF _ rem] verify by blast
qed

lemma finish_control_stop_success:
  assumes "run_state (finish_control_stop env c) w = (Inr (), w')" "prefix old (aw_calls w)"
  shows "verified_teardown env c [] old (aw_calls w')"
proof -
  obtain v w1 where verify: "run_state (verify_vpn_closed env c) w = (v, w1)" by fastforce
  have rem: "run_state (remove_all_mappings env c (closure_failures v)) w1 = ([], w')"
    using assms(1) verify by (auto simp: finish_control_stop_def transaction_result_def split: prod.splits if_splits)
  have "v = Inr ()" using remove_all_clean [OF rem] by (cases v) (auto simp: closure_failures_def)
  then show ?thesis using teardown_run [OF _ rem, of w old _ "[]"] verify assms(2) by (auto simp: prefix_def)
qed

lemma adds_prefix: "adds_calls P w w' \<Longrightarrow> prefix old (aw_calls w) \<Longrightarrow> prefix old (aw_calls w')"
  by (auto simp: adds_calls_def prefix_def)

section \<open>A sample device\<close>

text \<open>A device on which every command succeeds; the mappings are those of the last command that added or
  removed one, and the VPN is open after a start intent until the application is stopped.\<close>

fun adds_mapping :: "adb_call \<Rightarrow> bool" where
  "adds_mapping (Execute [_, _, third, _] _) = (third \<noteq> ''--remove'')"
| "adds_mapping _ = False"

definition sample_listing :: string where
  "sample_listing = concat (map (\<lambda>port. ''host tcp:'' @ port @ '' tcp:'' @ port @ [CHR 0x0A]) [''31416'', ''31418'', ''31417''])"

definition sample_installed :: "adb_call list \<Rightarrow> bool" where
  "sample_installed calls =
     (case dropWhile (\<lambda>call. \<exists>t. call = Execute list_args t) (rev (filter reverse_call calls)) of
        [] \<Rightarrow> False | call # _ \<Rightarrow> adds_mapping call)"

fun starts_vpn :: "adb_call \<Rightarrow> bool" where
  "starts_vpn (Execute args _) = (ACTION_START_V4 \<in> set args)"
| "starts_vpn _ = False"

fun stops_vpn :: "adb_call \<Rightarrow> bool" where
  "stops_vpn (Execute args _) = (ACTION_STOP_V4 \<in> set args \<or> ''force-stop'' \<in> set args)"
| "stops_vpn _ = False"

definition sample_open :: "adb_call list \<Rightarrow> bool" where
  "sample_open calls =
     (case filter (\<lambda>call. \<not> reverse_call call \<and> (starts_vpn call \<or> stops_vpn call)) (rev calls) of [] \<Rightarrow> False | call # _ \<Rightarrow> starts_vpn call)"

definition sample_out :: "string \<Rightarrow> AdbOutput" where
  "sample_out t = \<lparr>ao_status = 0, ao_stdout = t, ao_stderr = []\<rparr>"

definition sample_reply :: "adb_call list \<Rightarrow> string" where
  "sample_reply calls =
     (case last calls of
        Execute args t \<Rightarrow>
          if args = [''-d'', ''get-state''] then ''device''
          else if args = list_args then (if sample_installed calls then sample_listing else [])
          else if args = service_args \<and> sample_open calls then ''vpnFdOpen=true''
          else []
      | RecoverServer t \<Rightarrow> [])"

definition sample_adb :: adb_env where
  "sample_adb = \<lparr>ae_answer = (\<lambda>calls. Inr (sample_out (sample_reply calls))), ae_recovered = (\<lambda>_. Inr ()),
     ae_takes = (\<lambda>_. 0)\<rparr>"

definition sample_session_id :: SessionId where "sample_session_id = SessionId (replicate 16 7)"

definition sample_mapped :: "adb_call list \<Rightarrow> (string \<times> string) set" where
  "sample_mapped calls = (if sample_installed calls then set (parse_reverse_list sample_listing) else {})"

lemma sample_run [simp]:
  "run_state (run_checked_with sample_adb args t) w =
     (Inr (sample_out (sample_reply (aw_calls w @ [Execute args t]))), adb_issue sample_adb (Execute args t) w)"
  "run_state (execute sample_adb args t) w =
     (Inr (sample_out (sample_reply (aw_calls w @ [Execute args t]))), adb_issue sample_adb (Execute args t) w)"
  by (simp_all add: run_checked_with_def execute_def adb_issue_def sample_adb_def sample_out_def AdbOutput_is_success_def Let_def)

lemma issue_calls [simp]: "aw_calls (adb_issue env call w) = aw_calls w @ [call]"
  by (simp add: adb_issue_def Let_def)

lemma sample_closed: "vpn_closed []"
  by (simp add: vpn_closed_def vpn_service_absent_def to_ascii_lowercase_def trim_def trim_end_by_def Let_def)

lemma sample_quiet [simp]:
  "sample_open (calls @ [Execute service_args t]) = sample_open calls"
  "sample_open (calls @ [Execute stop_args t]) = False"
  "sample_open (calls @ [Execute [''-d'', ''shell'', ''am'', ''force-stop'', ANDROID_PACKAGE] t]) = False"
  "reverse_call call \<Longrightarrow> sample_open (calls @ [call]) \<Longrightarrow> sample_open calls"
  by (simp_all add: sample_open_def service_args_def stop_args_def ACTION_START_V4_def ACTION_STOP_V4_def
      ANDROID_VPN_SERVICE_def ANDROID_CONTROL_ACTIVITY_def ANDROID_PACKAGE_def split: if_splits)

lemma sample_dump:
  "sample_reply (calls @ [Execute service_args t]) = (if sample_open calls then ''vpnFdOpen=true'' else [])"
proof -
  have "service_args \<noteq> list_args" "service_args \<noteq> [''-d'', ''get-state'']" by (simp_all add: service_args_def list_args_def)
  then show ?thesis by (simp add: sample_reply_def)
qed

lemma sample_verify [simp]:
  assumes "\<not> sample_open (aw_calls w)"
  shows "run_state (verify_vpn_closed sample_adb c) w = (Inr (), adb_issue sample_adb (service_call c) w)"
  using assms
  by (subst verify_vpn_closed_def) (simp add: verify_loop.simps [of sample_adb c _ w] run_checked_def sample_out_def sample_dump sample_closed)

lemma parse_empty: "parse_reverse_list [] = []"
  by (simp add: parse_reverse_list_def lines_def Let_def map_filter_def)

lemma sample_stop_session:
  "run_state (stop_android_session sample_adb c phase) w = (r, w') \<Longrightarrow> r = Inr ()"
  by (auto simp: stop_android_session_def run_checked_def remove_all_mappings_def REVERSE_MAPPINGS_def
      remove_outcome_def sample_out_def AdbOutput_is_success_def removal_outcome_def owned_mappings_def
      sample_reply_def sample_installed_def list_args_def remove_args_def parse_empty transaction_result_def)

lemma sample_ready:
  "run_state (require_device sample_adb c) w =
     (Inr (), adb_issue sample_adb (Execute [''-d'', ''get-state''] (ac_device_timeout c)) w)"
  by (simp add: require_device_def require_device_pass_def sample_out_def sample_reply_def trim_def trim_end_by_def
      is_whitespace_def char_code_def)

lemma sample_awake: "fst (run_state (wake_android sample_adb c) w) = Inr ()"
  by (simp add: wake_android_def run_checked_def forget_def)

lemma sample_contract: "reverse_contract sample_adb sample_mapped"
  by (auto simp: reverse_contract_def sample_mapped_def sample_adb_def sample_out_def sample_reply_def
      sample_installed_def list_args_def parse_empty)

lemma sample_open_dump: "\<not> vpn_closed ''vpnFdOpen=true''"
  by code_simp

lemma sample_service: "service_contract sample_adb sample_open"
  by (auto simp: service_contract_def sample_adb_def sample_out_def sample_dump sample_open_dump split: if_splits
      dest: sample_quiet(4))

lemma sample_ports: "tcp_port 31416 = ''tcp:31416''" "tcp_port 31417 = ''tcp:31417''" "tcp_port 31418 = ''tcp:31418''"
  by (simp_all add: tcp_port_def show_nat.simps char_of_def bit_0)

lemma sample_parsed:
  "parse_reverse_list sample_listing =
     [(''tcp:31416'', ''tcp:31416''), (''tcp:31418'', ''tcp:31418''), (''tcp:31417'', ''tcp:31417'')]"
  by code_simp

lemma sample_nothing_missing: "missing_mappings sample_listing = []"
  by (simp add: missing_mappings_def sample_parsed REVERSE_MAPPINGS_def SOCKS_PORT_def CONTROL_PORT_def
      UDP_STREAM_PORT_def sample_ports)

lemma sample_quiesce: "fst (run_state (quiesce_android_session sample_adb c) w) = Inr ()"
  by (auto simp: quiesce_android_session_def split: prod.splits sum.splits dest: sample_stop_session)

lemma sample_start_mappings: "\<exists>receipt w'. run_state (start_mappings sample_adb c s all) w = (Inr receipt, w')"
proof -
  obtain w1 where adds: "run_state (add_mappings sample_adb c REVERSE_MAPPINGS) w = ([], w1)"
    "aw_calls w1 = aw_calls w @ map (\<lambda>m. Execute (add_args m) (ac_mapping_timeout c)) REVERSE_MAPPINGS"
    by (auto simp: REVERSE_MAPPINGS_def add_mapping_def forget_def)
  have "sample_installed (aw_calls w1 @ [Execute list_args (ac_mapping_timeout c)])"
    by (simp add: adds(2) REVERSE_MAPPINGS_def sample_installed_def list_args_def add_args_def tcp_port_def)
  then obtain w2 where "run_state (mapping_health sample_adb c) w1 = (Inr [], w2)"
    by (simp add: mapping_health_def sample_out_def sample_reply_def list_args_def sample_nothing_missing)
  then show ?thesis
    using adds(1)
    by (simp add: start_mappings_def health_failures_def start_intent_def send_start_intent_def run_checked_def forget_def)
qed

lemma sample_start:
  "\<exists>receipt w'. run_state (AdbController_start sample_adb c s all) w = (Inr receipt, w')"
proof -
  obtain w2 where wake: "run_state (wake_android sample_adb c)
      (adb_issue sample_adb (Execute [''-d'', ''get-state''] (ac_device_timeout c)) w) = (Inr (), w2)"
    using sample_awake by (metis prod.collapse)
  obtain w3 where "run_state (quiesce_android_session sample_adb c) w2 = (Inr (), w3)"
    using sample_quiesce by (metis prod.collapse)
  then show ?thesis
    using wake sample_start_mappings [of c s all w3] by (simp add: AdbController_start_def sample_ready)
qed

lemma sample_stop: "\<exists>w'. run_state (AdbController_stop sample_adb c) w = (Inr (), w')"
proof -
  obtain w2 where wake: "run_state (wake_android sample_adb c)
      (adb_issue sample_adb (Execute [''-d'', ''get-state''] (ac_device_timeout c)) w) = (Inr (), w2)"
    using sample_awake by (metis prod.collapse)
  obtain r w3 where "run_state (stop_android_session sample_adb c ''stop'') w2 = (r, w3)" by fastforce
  then show ?thesis
    using wake sample_stop_session by (simp add: AdbController_stop_def sample_ready)
qed

section \<open>Properties\<close>

text \<open>However the output of a command is cut into chunks, the bounded capture keeps all of it up to one
  MiB, and otherwise its beginning and a truncation marker that together are exactly one MiB.\<close>

theorem output_capture_bounded:
  "OutputAccumulator_finish (fold OutputAccumulator_push chunks OutputAccumulator_default) =
     bounded_capture (concat chunks) \<and>
   length (OutputAccumulator_finish (fold OutputAccumulator_push chunks OutputAccumulator_default)) =
     min MAX_ADB_OUTPUT_BYTES (length (concat chunks))"
  using accumulated_chunks [of chunks "[]"]
  by (simp add: accumulated_default accumulated_finish bounded_capture_def marker_length MAX_ADB_OUTPUT_BYTES_def min_def)

text \<open>A command returns an output only after the child has exited and both readers have reported the end
  of their stream, and the output is the bounded capture of every chunk each stream produced.\<close>

theorem command_output_complete:
  assumes "collect_child_output lossy timeout rounds Collect_start = Some (Inr out)"
  shows "\<exists>seen. prefix seen (concat (map round_events rounds)) \<and> (\<forall>s. Finished s \<in> set seen) \<and>
    (\<forall>s e. Failed s e \<notin> set seen) \<and> ao_stdout out = lossy (bounded_capture (stream_bytes Stdout seen)) \<and>
    ao_stderr out = lossy (bounded_capture (stream_bytes Stderr seen))"
  using collect_output [OF collected_start assms] by simp

text \<open>Waiting for the VPN to close ends: the poll asks at least once and at most once more than the
  poll intervals that fit the stop timeout, rounded up, and it reports success only on an answer that
  shows no service or only closed descriptors.\<close>

theorem vpn_poll_bounded:
  "\<exists>n. aw_calls (snd (run_state (verify_vpn_closed env c) w)) = aw_calls w @ replicate (Suc n) (service_call c) \<and>
     n * Suc (ac_poll_interval c) \<le> ac_stop_timeout c + ac_poll_interval c \<and>
     (fst (run_state (verify_vpn_closed env c) w) = Inr () \<longrightarrow>
        (\<exists>out. ae_answer env (aw_calls (snd (run_state (verify_vpn_closed env c) w))) = Inr out \<and>
           AdbOutput_is_success out \<and> vpn_closed (ao_stdout out)))"
  using verify_loop_calls [of env c "aw_now w + ac_stop_timeout c" w] by (simp add: verify_vpn_closed_def)

text \<open>A start that fails leaves no mapping behind unnoticed, whatever ADB answers: either it failed
  before any reverse command, or its last calls are the removal of every product mapping and the listing
  that verifies it.  A start that succeeds ends with all mappings added, listed, and the start intent,
  after a cleanup of the previous session.\<close>

theorem start_cleans_up_or_completes:
  assumes "run_state (AdbController_start env c s all) w = (r, w')"
  shows "(\<exists>e. r = Inl e) \<and> adds_calls (list_all (\<lambda>call. \<not> reverse_call call)) w w' \<or>
    (\<exists>e. r = Inl e) \<and> adds_calls (cleans_up c) w w' \<or>
    (\<exists>receipt. r = Inr receipt) \<and> adds_calls (suffix (cleanup_calls c @ start_calls c s all)) w w' \<and>
      mappings_listed env (butlast (aw_calls w'))"
  using start_run [OF assms] by blast

text \<open>When a stop, or the forced stop of a session that does not answer, reports success, the request was followed by a
  dump of the service that shows it closed and by a listing without a product port.\<close>

theorem stop_success_is_verified:
  assumes "run_state (AdbController_stop env c) w = (Inr (), w')" "prefix old (aw_calls w)"
  shows "verified_teardown env c (stop_request c) old (aw_calls w')"
proof -
  obtain w1 w2 where "run_state (require_device env c) w = (Inr (), w1)" "run_state (wake_android env c) w1 = (Inr (), w2)"
    and stop: "run_state (stop_android_session env c ''stop'') w2 = (Inr (), w')"
    using assms(1) by (auto simp: AdbController_stop_def split: prod.splits sum.splits)
  then have "prefix old (aw_calls w2)" using assms(2) by (meson adds_prefix require_device_adds wake_adds)
  then show ?thesis by (rule stop_session_success [OF stop])
qed

theorem forced_stop_success_is_verified:
  assumes "run_state (stop_unresponsive env c) w = (Inr (), w')" "prefix old (aw_calls w)"
  shows "verified_teardown env c (force_stop_request c) old (aw_calls w')"
proof -
  obtain w1 where "run_state (require_device env c) w = (Inr (), w1)"
    and stop: "run_state (force_stop_android_session env c ''unresponsive_stop'') w1 = (Inr (), w')"
    using assms(1) by (auto simp: stop_unresponsive_def split: prod.splits sum.splits)
  then have "prefix old (aw_calls w1)" using assms(2) by (meson adds_prefix require_device_adds)
  then show ?thesis by (rule force_stop_session_success [OF stop])
qed

text \<open>When a start reports success, all three product mappings are installed on a device that behaves as
  \<^verbatim>\<open>adb reverse\<close> documents, and the receipt names the session and the only application admitted.\<close>

theorem start_success_is_mapped:
  assumes "reverse_contract env mapped" "run_state (AdbController_start env c s all) w = (Inr receipt, w')"
  shows "mapping_pair ` set REVERSE_MAPPINGS \<subseteq> mapped (aw_calls w') \<and> sr_session_id receipt = s \<and>
    sr_all_traffic receipt = all \<and> sr_allowed_package receipt = VIRTUAL_DESKTOP_PACKAGE \<and>
    sr_mappings receipt = REVERSE_MAPPINGS"
proof -
  from start_run [OF assms(2)] obtain new where
    receipt: "receipt = \<lparr>sr_session_id = s, sr_all_traffic = all, sr_allowed_package = VIRTUAL_DESKTOP_PACKAGE,
      sr_mappings = REVERSE_MAPPINGS\<rparr>" and calls: "aw_calls w' = aw_calls w @ new"
    "suffix (cleanup_calls c @ start_calls c s all) new" and listed: "mappings_listed env (butlast (aw_calls w'))"
    by (auto simp: adds_calls_def)
  obtain before where last: "aw_calls w' = (before @ [Execute list_args (ac_mapping_timeout c)]) @
      [Execute (start_intent_args s all) (ac_command_timeout c)]"
    using calls by (auto simp: start_calls_def suffix_def)
  have "mapped (aw_calls w') = mapped (before @ [Execute list_args (ac_mapping_timeout c)])"
    unfolding last using assms(1) by (simp add: reverse_contract_def start_intent_args_def del: append_assoc)
  moreover obtain out where "ae_answer env (before @ [Execute list_args (ac_mapping_timeout c)]) = Inr out"
    "AdbOutput_is_success out" "missing_mappings (ao_stdout out) = []"
    using listed unfolding last by (auto simp: mappings_listed_def butlast_append)
  ultimately show ?thesis
    using assms(1) receipt by (auto simp: reverse_contract_def missing_mappings_empty)
qed

end
