(* ===== verification/TrackDevices.thy ===== *)
theory TrackDevices
  imports RustText Protocol
begin

text \<open>
  The decoder of \<^verbatim>\<open>adb track-devices\<close> in \<^verbatim>\<open>runtime.rs\<close>: it recognises the framed and the human-readable
  format, splits the byte stream into snapshots however it is cut into reads, and reports only the
  changes of device availability.
\<close>

section \<open>Text of a byte string\<close>

text \<open>Code points above U+00FF are represented by a no-break space if they are white space and by
  U+00FF otherwise; the decoder compares with neither.\<close>

definition unicode_space :: "nat \<Rightarrow> bool" where
  "unicode_space n \<longleftrightarrow> n = 0x1680 \<or> 0x2000 \<le> n \<and> n \<le> 0x200A \<or> n \<in> set [0x2028, 0x2029, 0x202F, 0x205F, 0x3000]"

definition code_point_char :: "nat \<Rightarrow> char" where
  "code_point_char n = char_of (if n < 256 then n else if unicode_space n then 0xA0 else 0xFF)"

fun utf8_chars :: "bytes \<Rightarrow> string" where
  "utf8_chars [] = []"
| "utf8_chars (a # r) =
     (if a < 0x80 then code_point_char (unat a) # utf8_chars r
      else if a < 0xE0 then
        (case r of b # r' \<Rightarrow> code_point_char ((unat a - 0xC0) * 64 + (unat b - 0x80)) # utf8_chars r' | _ \<Rightarrow> [])
      else if a < 0xF0 then
        (case r of b # c # r' \<Rightarrow>
             code_point_char ((unat a - 0xE0) * 4096 + (unat b - 0x80) * 64 + (unat c - 0x80)) # utf8_chars r'
         | _ \<Rightarrow> [])
      else
        (case r of b # c # d # r' \<Rightarrow> CHR 0xFF # utf8_chars r' | _ \<Rightarrow> []))"

definition from_utf8 :: "bytes \<Rightarrow> string option" where
  "from_utf8 bs = (if utf8_valid bs then Some (utf8_chars bs) else None)"

section \<open>Snapshots\<close>

definition MAX_TRACK_DEVICES_PAYLOAD :: nat where "MAX_TRACK_DEVICES_PAYLOAD = 16 * 1024"

datatype TrackDevicesDecodeError = TD_InvalidLength | TD_Oversized nat | TD_InvalidUtf8

definition hex_value :: "bytes \<Rightarrow> nat" where
  "hex_value bs = foldl (\<lambda>acc b. acc * 16 + (case hex_nibble b of Inr d \<Rightarrow> unat d | Inl _ \<Rightarrow> 0)) 0 bs"

definition parse_track_length :: "bytes \<Rightarrow> TrackDevicesDecodeError + nat" where
  "parse_track_length bs =
     (if length bs \<noteq> 4 \<or> \<not> list_all is_ascii_hexdigit bs then Inl TD_InvalidLength else Inr (hex_value bs))"

definition device_line :: "string \<Rightarrow> bool" where
  "device_line line =
     (case split_once (CHR 0x09) line of
        None \<Rightarrow> False
      | Some (_, state) \<Rightarrow>
          (case split_whitespace state of [] \<Rightarrow> False | w # _ \<Rightarrow> w = ''device''))"

definition parse_track_snapshot :: "bytes \<Rightarrow> TrackDevicesDecodeError + bool" where
  "parse_track_snapshot payload =
     (case from_utf8 payload of
        None \<Rightarrow> Inl TD_InvalidUtf8
      | Some t \<Rightarrow> Inr (list_ex device_line (lines t)))"

record TrackDevicesTextParser =
  tp_in_snapshot :: bool
  tp_device_available :: bool

definition TrackDevicesTextParser_default :: TrackDevicesTextParser where
  "TrackDevicesTextParser_default = \<lparr>tp_in_snapshot = False, tp_device_available = False\<rparr>"

definition push_line :: "string \<Rightarrow> TrackDevicesTextParser \<Rightarrow> bool option \<times> TrackDevicesTextParser" where
  "push_line line p =
     (let line = trim_end_by (\<lambda>c. c = CHR 0x0D) line in
      if line = ''List of devices attached''
      then (if tp_in_snapshot p then Some (tp_device_available p) else None,
            \<lparr>tp_in_snapshot = True, tp_device_available = False\<rparr>)
      else if line = []
      then (Some (tp_in_snapshot p \<and> tp_device_available p), \<lparr>tp_in_snapshot = False, tp_device_available = False\<rparr>)
      else
        let p = (if \<not> tp_in_snapshot p \<and> CHR 0x09 \<in> set line
                 then \<lparr>tp_in_snapshot = True, tp_device_available = False\<rparr> else p)
        in if \<not> tp_in_snapshot p then (None, p)
           else
             let available = device_line line in
             (if available then Some True else None,
              p\<lparr>tp_device_available := tp_device_available p \<or> available\<rparr>))"

section \<open>The decoder\<close>

datatype TrackDevicesMode = TM_Unknown | TM_Framed | TM_Text

record TrackDevicesDecoder =
  td_mode :: TrackDevicesMode
  td_buffer :: bytes
  td_text :: TrackDevicesTextParser
  td_last_update :: "bool option"

definition TrackDevicesDecoder_default :: TrackDevicesDecoder where
  "TrackDevicesDecoder_default = \<lparr>td_mode = TM_Unknown, td_buffer = [],
     td_text = TrackDevicesTextParser_default, td_last_update = None\<rparr>"

type_synonym decoded = "TrackDevicesDecodeError + bool list \<times> TrackDevicesDecoder"

text \<open>Reporting a snapshot: only a change is an update.\<close>

definition note_update :: "bool \<Rightarrow> TrackDevicesDecoder \<Rightarrow> bool list \<times> TrackDevicesDecoder" where
  "note_update available d =
     (if td_last_update d = Some available then ([], d) else ([available], d\<lparr>td_last_update := Some available\<rparr>))"

definition with_updates :: "bool list \<Rightarrow> decoded \<Rightarrow> decoded" where
  "with_updates us r = (case r of Inl e \<Rightarrow> Inl e | Inr (more_us, d) \<Rightarrow> Inr (us @ more_us, d))"

function drain_framed :: "TrackDevicesDecoder \<Rightarrow> decoded" where
  "drain_framed d =
     (if length (td_buffer d) < 4 then Inr ([], d)
      else
        (case parse_track_length (take 4 (td_buffer d)) of
           Inl e \<Rightarrow> Inl e
         | Inr n \<Rightarrow>
             if n > MAX_TRACK_DEVICES_PAYLOAD then Inl (TD_Oversized n)
             else if length (td_buffer d) < 4 + n then Inr ([], d)
             else
               (case parse_track_snapshot (take n (drop 4 (td_buffer d))) of
                  Inl e \<Rightarrow> Inl e
                | Inr available \<Rightarrow>
                    (case note_update available (d\<lparr>td_buffer := drop (4 + n) (td_buffer d)\<rparr>) of
                       (us, d) \<Rightarrow> with_updates us (drain_framed d)))))"
  by pat_completeness auto
termination
  by (relation "measure (\<lambda>d. length (td_buffer d))") (auto simp: note_update_def split: if_splits)

declare drain_framed.simps [simp del]

definition text_line :: "bytes \<Rightarrow> string option" where
  "text_line bs = from_utf8 (if bs \<noteq> [] \<and> last bs = 0x0D then butlast bs else bs)"

function drain_text :: "TrackDevicesDecoder \<Rightarrow> decoded" where
  "drain_text d =
     (case position (\<lambda>b. b = 0x0A) (td_buffer d) of
        None \<Rightarrow> if length (td_buffer d) > MAX_TRACK_DEVICES_PAYLOAD then Inl (TD_Oversized (length (td_buffer d)))
                else Inr ([], d)
      | Some newline \<Rightarrow>
          (case text_line (take newline (td_buffer d)) of
             None \<Rightarrow> Inl TD_InvalidUtf8
           | Some line \<Rightarrow>
               (case push_line line (td_text d) of
                  (seen, p) \<Rightarrow>
                    let d = d\<lparr>td_buffer := drop (Suc newline) (td_buffer d), td_text := p\<rparr> in
                    (case (case seen of None \<Rightarrow> ([], d) | Some available \<Rightarrow> note_update available d) of
                       (us, d) \<Rightarrow> with_updates us (drain_text d)))))"
  by pat_completeness auto
termination
  by (relation "measure (\<lambda>d. length (td_buffer d))")
     (auto simp: note_update_def position_Some Let_def split: if_splits option.splits)

declare drain_text.simps [simp del]

definition detect_mode :: "TrackDevicesDecoder \<Rightarrow> TrackDevicesDecodeError + TrackDevicesMode" where
  "detect_mode d =
     (if list_all is_ascii_hexdigit (take 4 (td_buffer d))
      then (case parse_track_length (take 4 (td_buffer d)) of
              Inl e \<Rightarrow> Inl e
            | Inr n \<Rightarrow> if n > MAX_TRACK_DEVICES_PAYLOAD then Inl (TD_Oversized n) else Inr TM_Framed)
      else Inr TM_Text)"

definition drain :: "TrackDevicesDecoder \<Rightarrow> decoded" where
  "drain d =
     (case td_mode d of
        TM_Unknown \<Rightarrow>
          if length (td_buffer d) < 4 then Inr ([], d)
          else
            (case detect_mode d of
               Inl e \<Rightarrow> Inl e
             | Inr TM_Framed \<Rightarrow> drain_framed (d\<lparr>td_mode := TM_Framed\<rparr>)
             | Inr mode \<Rightarrow> drain_text (d\<lparr>td_mode := mode\<rparr>))
      | TM_Framed \<Rightarrow> drain_framed d
      | TM_Text \<Rightarrow> drain_text d)"

definition TrackDevicesDecoder_push :: "bytes \<Rightarrow> TrackDevicesDecoder \<Rightarrow> decoded" where
  "TrackDevicesDecoder_push bs d = drain (d\<lparr>td_buffer := td_buffer d @ bs\<rparr>)"

text \<open>The reads of the monitor, one after the other.\<close>

fun push_reads :: "bytes list \<Rightarrow> TrackDevicesDecoder \<Rightarrow> decoded" where
  "push_reads [] d = Inr ([], d)"
| "push_reads (bs # reads) d =
     (case TrackDevicesDecoder_push bs d of
        Inl e \<Rightarrow> Inl e
      | Inr (us, d) \<Rightarrow> with_updates us (push_reads reads d))"

section \<open>Independence of the reads\<close>

definition feed :: "bytes \<Rightarrow> TrackDevicesDecoder \<Rightarrow> TrackDevicesDecoder" where
  "feed bs d = d\<lparr>td_buffer := td_buffer d @ bs\<rparr>"

lemma feed_simps [simp]:
  "td_buffer (feed bs d) = td_buffer d @ bs" "td_mode (feed bs d) = td_mode d"
  "td_text (feed bs d) = td_text d" "td_last_update (feed bs d) = td_last_update d"
  "feed bs (feed as d) = feed (as @ bs) d" "feed [] d = d"
  "feed bs (d\<lparr>td_mode := m\<rparr>) = (feed bs d)\<lparr>td_mode := m\<rparr>"
  by (simp_all add: feed_def)

lemma push_feed: "TrackDevicesDecoder_push bs d = drain (feed bs d)"
  by (simp add: TrackDevicesDecoder_push_def feed_def)

lemma with_updates_simps [simp]:
  "with_updates us (Inl e) = Inl e" "with_updates us (Inr (vs, d)) = Inr (us @ vs, d)"
  "with_updates [] r = r" "with_updates us (with_updates vs r) = with_updates (us @ vs) r"
  by (auto simp: with_updates_def split: sum.splits)

lemma with_updates_Inr: "with_updates us r = Inr (vs, d) \<longleftrightarrow> (\<exists>ws. r = Inr (ws, d) \<and> vs = us @ ws)"
  by (auto simp: with_updates_def split: sum.splits)

lemma with_updates_Inl [simp]: "with_updates us r = Inl e \<longleftrightarrow> r = Inl e"
  by (auto simp: with_updates_def split: sum.splits)

lemma note_update_feed:
  "note_update v (feed bs d) = (fst (note_update v d), feed bs (snd (note_update v d)))"
  by (simp add: note_update_def feed_def)

text \<open>One step of each loop, as a function of the buffer.\<close>

lemma drain_framed_step:
  assumes "length (td_buffer d) \<ge> 4" "parse_track_length (take 4 (td_buffer d)) = Inr n"
    "n \<le> MAX_TRACK_DEVICES_PAYLOAD" "length (td_buffer d) \<ge> 4 + n"
    "parse_track_snapshot (take n (drop 4 (td_buffer d))) = Inr v"
  shows "drain_framed d =
    with_updates (fst (note_update v (d\<lparr>td_buffer := drop (4 + n) (td_buffer d)\<rparr>)))
      (drain_framed (snd (note_update v (d\<lparr>td_buffer := drop (4 + n) (td_buffer d)\<rparr>))))"
  using assms by (subst drain_framed.simps) (simp add: split_beta)

lemma drain_framed_cases:
  obtains (wait) "drain_framed d = Inr ([], d)"
  | (fail) e where "drain_framed d = Inl e" "\<And>bs. drain_framed (feed bs d) = Inl e"
  | (step) n v where "length (td_buffer d) \<ge> 4" "parse_track_length (take 4 (td_buffer d)) = Inr n"
      "n \<le> MAX_TRACK_DEVICES_PAYLOAD" "length (td_buffer d) \<ge> 4 + n"
      "parse_track_snapshot (take n (drop 4 (td_buffer d))) = Inr v"
proof (cases "length (td_buffer d) < 4")
  case True
  then have "drain_framed d = Inr ([], d)" by (subst drain_framed.simps) simp
  then show ?thesis by (rule wait)
next
  case False
  note long = this
  show ?thesis
  proof (cases "parse_track_length (take 4 (td_buffer d))")
    case (Inl e)
    show ?thesis by (rule fail [of e]; subst drain_framed.simps) (use long Inl in simp_all)
  next
    case (Inr n)
    consider "n > MAX_TRACK_DEVICES_PAYLOAD" | "n \<le> MAX_TRACK_DEVICES_PAYLOAD" "length (td_buffer d) < 4 + n"
      | "n \<le> MAX_TRACK_DEVICES_PAYLOAD" "length (td_buffer d) \<ge> 4 + n" by linarith
    then show ?thesis
    proof cases
      case 1
      show ?thesis by (rule fail [of "TD_Oversized n"]; subst drain_framed.simps) (use long Inr 1 in simp_all)
    next
      case 2
      then have "drain_framed d = Inr ([], d)" using long Inr by (subst drain_framed.simps) simp
      then show ?thesis by (rule wait)
    next
      case 3
      show ?thesis
      proof (cases "parse_track_snapshot (take n (drop 4 (td_buffer d)))")
        case (Inl e)
        show ?thesis by (rule fail [of e]; subst drain_framed.simps) (use long Inr 3 Inl in simp_all)
      next
        case Inr': (Inr v)
        show ?thesis by (rule step) (use long Inr 3 Inr' in simp_all)
      qed
    qed
  qed
qed

lemma note_update_smaller:
  "length (td_buffer (snd (note_update v d))) = length (td_buffer d)" "td_mode (snd (note_update v d)) = td_mode d"
  by (simp_all add: note_update_def)

lemma drain_framed_feed:
  "case drain_framed d of
     Inl e \<Rightarrow> drain_framed (feed bs d) = Inl e
   | Inr (us, d') \<Rightarrow> td_mode d' = td_mode d \<and> drain_framed (feed bs d) = with_updates us (drain_framed (feed bs d'))"
proof (induction "length (td_buffer d)" arbitrary: d rule: less_induct)
  case less
  show ?case
  proof (cases d rule: drain_framed_cases)
    case (step n v)
    let ?d = "d\<lparr>td_buffer := drop (4 + n) (td_buffer d)\<rparr>"
    have eq: "drain_framed d = with_updates (fst (note_update v ?d)) (drain_framed (snd (note_update v ?d)))"
      using step by (rule drain_framed_step)
    have fed: "(feed bs d)\<lparr>td_buffer := drop (4 + n) (td_buffer (feed bs d))\<rparr> = feed bs ?d"
      using step by (simp add: feed_def)
    have "drain_framed (feed bs d) =
        with_updates (fst (note_update v (feed bs ?d))) (drain_framed (snd (note_update v (feed bs ?d))))"
      unfolding fed [symmetric] by (rule drain_framed_step) (use step in simp_all)
    then have eq': "drain_framed (feed bs d) =
        with_updates (fst (note_update v ?d)) (drain_framed (feed bs (snd (note_update v ?d))))"
      by (simp add: note_update_feed)
    have "length (td_buffer (snd (note_update v ?d))) < length (td_buffer d)"
      using step by (simp add: note_update_smaller)
    from less [OF this] show ?thesis unfolding eq eq'
      by (auto simp: note_update_smaller split: sum.splits)
  qed simp_all
qed

lemma position_append: "position P xs = Some i \<Longrightarrow> position P (xs @ ys) = Some i"
  by (induction xs arbitrary: i) (auto split: if_splits)

definition line_seen :: "bool option \<Rightarrow> TrackDevicesDecoder \<Rightarrow> bool list \<times> TrackDevicesDecoder" where
  "line_seen seen d = (case seen of None \<Rightarrow> ([], d) | Some available \<Rightarrow> note_update available d)"

lemma line_seen_feed: "line_seen v (feed bs d) = (fst (line_seen v d), feed bs (snd (line_seen v d)))"
  by (cases v) (simp_all add: line_seen_def note_update_feed)

lemma line_seen_kept [simp]: "td_buffer (snd (line_seen v d)) = td_buffer d" "td_mode (snd (line_seen v d)) = td_mode d"
  by (cases v; simp add: line_seen_def note_update_def)+

definition after_line :: "nat \<Rightarrow> string \<Rightarrow> TrackDevicesDecoder \<Rightarrow> bool list \<times> TrackDevicesDecoder" where
  "after_line i line d =
     line_seen (fst (push_line line (td_text d)))
       (d\<lparr>td_buffer := drop (Suc i) (td_buffer d), td_text := snd (push_line line (td_text d))\<rparr>)"

lemma after_line_feed:
  assumes "i < length (td_buffer d)"
  shows "after_line i line (feed bs d) = (fst (after_line i line d), feed bs (snd (after_line i line d)))"
proof -
  have "(feed bs d)\<lparr>td_buffer := drop (Suc i) (td_buffer (feed bs d)), td_text := snd (push_line line (td_text d))\<rparr>
      = feed bs (d\<lparr>td_buffer := drop (Suc i) (td_buffer d), td_text := snd (push_line line (td_text d))\<rparr>)"
    using assms by (simp add: feed_def)
  then show ?thesis by (simp add: after_line_def line_seen_feed)
qed

lemma drain_text_step:
  assumes "position (\<lambda>b. b = 0x0A) (td_buffer d) = Some i" "text_line (take i (td_buffer d)) = Some line"
  shows "drain_text d = with_updates (fst (after_line i line d)) (drain_text (snd (after_line i line d)))"
  using assms by (subst drain_text.simps) (simp add: split_beta Let_def after_line_def line_seen_def)

lemma drain_text_feed:
  "drain_text d = Inr (us, d') \<Longrightarrow>
   td_mode d' = td_mode d \<and> drain_text (feed bs d) = with_updates us (drain_text (feed bs d'))"
proof (induction "length (td_buffer d)" arbitrary: d us rule: less_induct)
  case less
  show ?case
  proof (cases "position (\<lambda>b. b = 0x0A) (td_buffer d)")
    case None
    then show ?thesis using less.prems by (subst (asm) drain_text.simps) (auto split: if_splits)
  next
    case (Some i)
    then have i: "i < length (td_buffer d)" by (simp add: position_Some)
    obtain line where line: "text_line (take i (td_buffer d)) = Some line"
      using less.prems Some by (subst (asm) drain_text.simps) (auto split: option.splits)
    have fed: "drain_text (feed bs d) =
        with_updates (fst (after_line i line (feed bs d))) (drain_text (snd (after_line i line (feed bs d))))"
      by (rule drain_text_step) (use Some line i in \<open>simp_all add: position_append\<close>)
    from less.prems obtain vs where
      rest: "drain_text (snd (after_line i line d)) = Inr (vs, d')" "us = fst (after_line i line d) @ vs"
      unfolding drain_text_step [OF Some line] with_updates_Inr by blast
    have "length (td_buffer (snd (after_line i line d))) < length (td_buffer d)"
      using i by (simp add: after_line_def)
    from less.hyps [OF this rest(1)] show ?thesis
      unfolding fed after_line_feed [OF i] by (simp add: rest(2)) (simp add: after_line_def)
  qed
qed

lemma detect_mode_feed: "length (td_buffer d) \<ge> 4 \<Longrightarrow> detect_mode (feed bs d) = detect_mode d"
  by (simp add: detect_mode_def)

lemma detect_mode_set: "detect_mode d = Inr m \<Longrightarrow> m = TM_Framed \<or> m = TM_Text"
  by (auto simp: detect_mode_def split: if_splits sum.splits)

lemma drain_feed:
  assumes "drain d = Inr (us, d')"
  shows "drain (feed bs d) = with_updates us (drain (feed bs d'))"
proof -
  have framed: "drain_framed (feed bs e) = with_updates us (drain (feed bs d'))"
    if "drain_framed e = Inr (us, d')" "td_mode e = TM_Framed" for e
    using drain_framed_feed [where d = e and bs = bs] that by (simp add: drain_def)
  have texted: "drain_text (feed bs e) = with_updates us (drain (feed bs d'))"
    if "drain_text e = Inr (us, d')" "td_mode e = TM_Text" for e
    using drain_text_feed [OF that(1)] that(2) by (simp add: drain_def)
  show ?thesis
  proof (cases "td_mode d")
    case TM_Framed
    with framed [of d] assms show ?thesis by (simp add: drain_def)
  next
    case TM_Text
    with texted [of d] assms show ?thesis by (simp add: drain_def)
  next
    case TM_Unknown
    note unknown = this
    show ?thesis
    proof (cases "length (td_buffer d) < 4")
      case True
      with assms unknown show ?thesis by (simp add: drain_def)
    next
      case False
      then obtain m where m: "detect_mode d = Inr m" using assms unknown by (auto simp: drain_def split: sum.splits)
      then have m': "detect_mode (feed bs d) = Inr m" using False by (simp add: detect_mode_feed)
      show ?thesis
        using framed [of "d\<lparr>td_mode := TM_Framed\<rparr>"] texted [of "d\<lparr>td_mode := TM_Text\<rparr>"] assms unknown False m m'
          detect_mode_set [OF m]
        by (auto simp: drain_def [of d] drain_def [of "feed bs d"])
    qed
  qed
qed

lemma drain_again: "drain d = Inr (us, d') \<Longrightarrow> drain d' = Inr ([], d')"
  using drain_feed [of d us d' "[]"] by (auto simp: eq_commute [of "Inr _"] with_updates_Inr)

lemma push_reads_concat:
  "drain d = Inr ([], d) \<Longrightarrow> push_reads reads d = Inr r \<Longrightarrow> TrackDevicesDecoder_push (concat reads) d = Inr r"
proof (induction reads arbitrary: d r)
  case Nil
  then show ?case by (simp add: push_feed)
next
  case (Cons bs reads)
  from Cons.prems obtain us d1 where one: "drain (feed bs d) = Inr (us, d1)"
    and rest: "with_updates us (push_reads reads d1) = Inr r" by (auto simp: push_feed split: sum.splits)
  obtain vs d2 where two: "push_reads reads d1 = Inr (vs, d2)" "r = (us @ vs, d2)"
    using rest by (cases r) (auto simp: with_updates_Inr)
  from Cons.IH [OF drain_again [OF one] two(1)] drain_feed [OF one, of "concat reads"]
  show ?case by (simp add: push_feed two(2))
qed

section \<open>Framed streams\<close>

text \<open>What a sequence of snapshots should report: the value of each one that differs from the one
  before it.\<close>

fun changes :: "bool option \<Rightarrow> bool list \<Rightarrow> bool list" where
  "changes l [] = []"
| "changes l (v # vs) = (if l = Some v then changes l vs else v # changes (Some v) vs)"

definition last_of :: "bool option \<Rightarrow> bool list \<Rightarrow> bool option" where
  "last_of l vs = (if vs = [] then l else Some (last vs))"

lemma last_of_simps [simp]: "last_of l [] = l" "last_of l (v # vs) = last_of (Some v) vs"
  by (simp_all add: last_of_def)

text \<open>A frame: four hexadecimal digits, and a payload of that length.\<close>

definition valid_frame :: "bytes \<times> bytes \<Rightarrow> bool \<Rightarrow> bool" where
  "valid_frame f v \<longleftrightarrow>
     parse_track_length (fst f) = Inr (length (snd f)) \<and> length (snd f) \<le> MAX_TRACK_DEVICES_PAYLOAD \<and>
     parse_track_snapshot (snd f) = Inr v"

definition frame_bytes :: "bytes \<times> bytes \<Rightarrow> bytes" where
  "frame_bytes f = fst f @ snd f"

lemma valid_frame_header: "valid_frame f v \<Longrightarrow> length (fst f) = 4 \<and> list_all is_ascii_hexdigit (fst f)"
  by (auto simp: valid_frame_def parse_track_length_def split: if_splits)

lemma drain_framed_frames:
  "list_all2 valid_frame fs vs \<Longrightarrow> td_buffer d = concat (map frame_bytes fs) \<Longrightarrow>
   drain_framed d = Inr (changes (td_last_update d) vs,
     d\<lparr>td_buffer := [], td_last_update := last_of (td_last_update d) vs\<rparr>)"
proof (induction fs vs arbitrary: d rule: list_all2_induct)
  case Nil
  then have "drain_framed d = Inr ([], d)" by (subst drain_framed.simps) simp
  with Nil show ?case by simp
next
  case (Cons f fs v vs)
  let ?n = "length (snd f)"
  let ?d = "d\<lparr>td_buffer := drop (4 + ?n) (td_buffer d)\<rparr>"
  have f: "length (fst f) = 4" using Cons(1) by (simp add: valid_frame_header)
  have buf: "td_buffer d = fst f @ snd f @ concat (map frame_bytes fs)" using Cons by (simp add: frame_bytes_def [of f])
  have eq: "drain_framed d = with_updates (fst (note_update v ?d)) (drain_framed (snd (note_update v ?d)))"
    by (rule drain_framed_step) (use Cons(1) f buf in \<open>simp_all add: valid_frame_def\<close>)
  have "td_buffer (snd (note_update v ?d)) = concat (map frame_bytes fs)" using f buf by (simp add: note_update_def)
  from Cons.IH [OF this] show ?case unfolding eq by (simp add: note_update_def)
qed

lemma push_reads_framed:
  "td_mode d = TM_Framed \<Longrightarrow> drain_framed d = Inr ([], d) \<Longrightarrow> push_reads reads d = drain_framed (feed (concat reads) d)"
proof (induction reads arbitrary: d)
  case (Cons bs reads)
  have push: "TrackDevicesDecoder_push bs d = drain_framed (feed bs d)"
    using Cons.prems(1) by (simp add: push_feed drain_def)
  note fed = drain_framed_feed [where d = "feed bs d" and bs = "concat reads"]
  show ?case
  proof (cases "drain_framed (feed bs d)")
    case (Inl e)
    with fed show ?thesis by (simp add: push)
  next
    case (Inr r)
    obtain us d1 where r: "r = (us, d1)" by (cases r)
    have again: "drain_framed d1 = Inr ([], d1)"
      using drain_framed_feed [where d = "feed bs d" and bs = "[]"] Inr
      by (auto simp: r eq_commute [of "Inr _"] with_updates_Inr)
    have "td_mode d1 = TM_Framed" using fed Inr Cons.prems(1) by (simp add: r)
    from Cons.IH [OF this again] fed Inr show ?thesis by (simp add: push r)
  qed
qed simp

definition framed_prefix :: "bytes \<Rightarrow> bool" where
  "framed_prefix bs \<longleftrightarrow> (\<exists>n \<le> MAX_TRACK_DEVICES_PAYLOAD. parse_track_length (take 4 bs) = Inr n)"

lemma drain_framed_prefix:
  assumes "framed_prefix (td_buffer d)" "td_mode d = TM_Unknown"
  shows "drain d = drain_framed (d\<lparr>td_mode := TM_Framed\<rparr>)"
  using assms by (auto simp: framed_prefix_def drain_def detect_mode_def parse_track_length_def split: if_splits)

text \<open>Before the first four bytes arrive nothing is reported; from then on the decoder is in the framed mode.\<close>

lemma push_reads_unknown:
  "td_mode d = TM_Unknown \<Longrightarrow> length (td_buffer d) < 4 \<Longrightarrow> framed_prefix (td_buffer d @ concat reads) \<Longrightarrow>
   push_reads reads d = drain_framed ((feed (concat reads) d)\<lparr>td_mode := TM_Framed\<rparr>)"
proof (induction reads arbitrary: d)
  case Nil
  then show ?case by (auto simp: framed_prefix_def parse_track_length_def split: if_splits)
next
  case (Cons bs reads)
  show ?case
  proof (cases "length (td_buffer d @ bs) < 4")
    case True
    then have "TrackDevicesDecoder_push bs d = Inr ([], feed bs d)"
      using Cons.prems(1) by (simp add: push_feed drain_def)
    with Cons.IH [of "feed bs d"] Cons.prems True show ?thesis by simp
  next
    case False
    let ?e = "(feed bs d)\<lparr>td_mode := TM_Framed\<rparr>"
    have "framed_prefix (td_buffer (feed bs d))" using Cons.prems(3) False by (simp add: framed_prefix_def)
    from drain_framed_prefix [OF this] have push: "TrackDevicesDecoder_push bs d = drain_framed ?e"
      using Cons.prems(1) by (simp add: push_feed)
    let ?start = "d\<lparr>td_mode := TM_Framed\<rparr>"
    have "drain_framed ?start = Inr ([], ?start)" using Cons.prems(2) by (subst drain_framed.simps) simp
    from push_reads_framed [OF _ this, of "bs # reads"] have
      "push_reads (bs # reads) ?start = drain_framed ((feed (concat (bs # reads)) d)\<lparr>td_mode := TM_Framed\<rparr>)" by simp
    moreover have "TrackDevicesDecoder_push bs ?start = drain_framed ?e"
      unfolding push_feed by (subst drain_def) simp
    ultimately show ?thesis by (simp add: push)
  qed
qed

lemma frames_prefix:
  assumes "list_all2 valid_frame fs vs" "fs \<noteq> []"
  shows "framed_prefix (concat (map frame_bytes fs))"
proof -
  obtain f fs' v where fs: "fs = f # fs'" and f: "valid_frame f v"
    using assms by (cases fs) (auto simp: list_all2_Cons1)
  from f have "take 4 (concat (map frame_bytes fs)) = fst f"
    by (simp add: fs frame_bytes_def [of f] valid_frame_header)
  with f show ?thesis by (auto simp: framed_prefix_def valid_frame_def)
qed

text \<open>However the bytes of \<^verbatim>\<open>adb track-devices\<close> are cut into reads, a decoder that accepts them all reports the
  same availability updates, and ends in the same state, as one that reads them at once.\<close>

theorem track_reads_chunk_independent:
  assumes "push_reads reads TrackDevicesDecoder_default = Inr r"
  shows "TrackDevicesDecoder_push (concat reads) TrackDevicesDecoder_default = Inr r"
  by (rule push_reads_concat [OF _ assms]) (simp add: drain_def TrackDevicesDecoder_default_def)

text \<open>C20. A stream of well-formed frames, cut into any reads, is decoded without an error and reports exactly
  the changes of device availability of its snapshots, in order, with nothing left in the buffer.\<close>

theorem track_frames_decoded:
  assumes "list_all2 valid_frame fs vs" "fs \<noteq> []" "concat reads = concat (map frame_bytes fs)"
  shows "push_reads reads TrackDevicesDecoder_default =
    Inr (changes None vs, \<lparr>td_mode = TM_Framed, td_buffer = [], td_text = TrackDevicesTextParser_default,
           td_last_update = Some (last vs)\<rparr>)"
proof -
  let ?d = "TrackDevicesDecoder_default"
  have start: "td_mode ?d = TM_Unknown" "td_buffer ?d = []" "td_last_update ?d = None"
    "td_text ?d = TrackDevicesTextParser_default" by (simp_all add: TrackDevicesDecoder_default_def)
  have "vs \<noteq> []" using assms(1,2) by auto
  have "push_reads reads ?d = drain_framed ((feed (concat reads) ?d)\<lparr>td_mode := TM_Framed\<rparr>)"
    by (rule push_reads_unknown) (use start frames_prefix [OF assms(1,2)] assms(3) in simp_all)
  also have "\<dots> = Inr (changes None vs, ((feed (concat reads) ?d)\<lparr>td_mode := TM_Framed\<rparr>)
      \<lparr>td_buffer := [], td_last_update := last_of None vs\<rparr>)"
    using drain_framed_frames [OF assms(1), of "(feed (concat reads) ?d)\<lparr>td_mode := TM_Framed\<rparr>"] start assms(3) by simp
  finally show ?thesis
    using \<open>vs \<noteq> []\<close> by (simp add: feed_def last_of_def TrackDevicesDecoder_default_def)
qed

text \<open>Two snapshots in three reads: a headset that is offline, then ready.\<close>

definition offline_frame :: "bytes \<times> bytes" where
  "offline_frame = ([0x30, 0x30, 0x30, 0x61], [0x41, 0x09, 0x6F, 0x66, 0x66, 0x6C, 0x69, 0x6E, 0x65, 0x0A])"

definition ready_frame :: "bytes \<times> bytes" where
  "ready_frame = ([0x30, 0x30, 0x30, 0x39], [0x41, 0x09, 0x64, 0x65, 0x76, 0x69, 0x63, 0x65, 0x0A])"

lemma sample_snapshots:
  "parse_track_length (fst offline_frame) = Inr 10" "parse_track_snapshot (snd offline_frame) = Inr False"
  "parse_track_length (fst ready_frame) = Inr 9" "parse_track_snapshot (snd ready_frame) = Inr True"
  by code_simp+

lemma sample_frames: "list_all2 valid_frame [offline_frame, ready_frame] [False, True]"
  using sample_snapshots
  by (simp add: valid_frame_def) (simp add: offline_frame_def ready_frame_def MAX_TRACK_DEVICES_PAYLOAD_def)

definition sample_reads :: "bytes list" where
  "sample_reads = [[0x30, 0x30, 0x30], 0x61 # snd offline_frame @ [0x30], [0x30, 0x30, 0x39], snd ready_frame]"

lemma sample_reads_concat: "concat sample_reads = concat (map frame_bytes [offline_frame, ready_frame])"
  by (simp add: sample_reads_def frame_bytes_def offline_frame_def ready_frame_def)

theorem track_frames_decoded_witness:
  "push_reads sample_reads TrackDevicesDecoder_default =
    Inr ([False, True], \<lparr>td_mode = TM_Framed, td_buffer = [], td_text = TrackDevicesTextParser_default,
           td_last_update = Some True\<rparr>)"
  using track_frames_decoded [OF sample_frames _ sample_reads_concat] by simp

text \<open>The human-readable format, cut in the middle of a line.\<close>

definition text_reads :: "bytes list" where
  "text_reads = [[0x41, 0x09, 0x64, 0x65, 0x76], [0x69, 0x63, 0x65, 0x0D, 0x0A], [0x0A]]"

lemma text_reads_accepted: "\<exists>r. push_reads text_reads TrackDevicesDecoder_default = Inr r"
  by (rule exI [of _ "projr (push_reads text_reads TrackDevicesDecoder_default)"]) code_simp

end
