(* ===== verification/HostMonitor.thy ===== *)
theory HostMonitor
  imports Monitor AdbTransactions TrackDevices
begin

text \<open>
  The tasks of the host that share the health monitor, the relay controller and the control state: the
  observers of the control server, the monitor's own operations (transport recovery, reconciliation of
  the reverse mappings, supervision and restart of the Android service, failures of the tracker), the
  task that ends the wait for an authenticated connection, and the run loop over the events of the
  device tracker.  Every access to the shared state is one atomic action of a state monad, before which
  any other task of the host may have run; ADB transactions are those of \<open>AdbTransactions\<close>.
\<close>

section \<open>The shared state and its actions\<close>

text \<open>\<open>h_tasks\<close> holds one entry per blocking ADB task: whether the operation lock was held, and whether
  repairs were already suppressed.  \<open>h_store\<close> is what has been written to the state store; \<open>h_turn\<close> counts
  the actions.\<close>

record Host =
  h_monitor :: AdbHealthMonitor
  h_relay :: RelayGateController
  h_control :: ControlState
  h_store :: "StateSnapshot list"
  h_events :: "(string \<times> json) list"
  h_adb :: adb_world
  h_tasks :: "(bool \<times> bool) list"
  h_turn :: nat

type_synonym 'a host = "(Host, 'a) state"

definition publish_host :: "StateSnapshot \<Rightarrow> Host \<Rightarrow> Host" where
  "publish_host s h = h\<lparr>h_control := (h_control h)\<lparr>ct_published := ct_published (h_control h) @ [s]\<rparr>,
     h_relay := update_relay_gate (aw_now (h_adb h)) s (h_relay h)\<rparr>"

text \<open>What a task of the host can do to the shared state in one atomic step.  The relay is told of a connected
  peer only by the observer of the published snapshots; \<open>A_Control\<close> is any other change of the control
  server, \<open>A_Adb\<close> the clock and the other users of ADB.\<close>

datatype host_act =
    A_Publish StateSnapshot
  | A_Relay controller_op
  | A_Recovery recovery_op
  | A_Authenticated
  | A_Changed
  | A_Control ControlState
  | A_Adb adb_world

fun act_apply :: "host_act \<Rightarrow> Host \<Rightarrow> Host" where
  "act_apply (A_Publish s) h = publish_host s h"
| "act_apply (A_Relay op) h =
     (if op = ControlConnected then h else h\<lparr>h_relay := controller_apply op (h_relay h)\<rparr>)"
| "act_apply (A_Recovery op) h = h\<lparr>h_monitor := recovery_apply op (h_monitor h)\<rparr>"
| "act_apply A_Authenticated h = h\<lparr>h_monitor := notify_authenticated_connection (h_monitor h)\<rparr>"
| "act_apply A_Changed h = h\<lparr>h_monitor := notify_state_change (h_monitor h)\<rparr>"
| "act_apply (A_Control st) h = h\<lparr>h_control := st\<lparr>ct_published := ct_published (h_control h)\<rparr>\<rparr>"
| "act_apply (A_Adb w) h = h\<lparr>h_adb := w\<rparr>"

text \<open>What the tasks depend on: ADB, what the other tasks did before each action, which blocking tasks are
  lost to a panic, and the outcome of each write to the state store (the error kind of a failed one).\<close>

record host_env =
  he_adb :: adb_env
  he_others :: "nat \<Rightarrow> Host \<Rightarrow> host_act list"
  he_join_error :: "nat \<Rightarrow> bool"
  he_write_error :: "nat \<Rightarrow> string option"

definition interfere :: "host_env \<Rightarrow> Host \<Rightarrow> Host" where
  "interfere env h = fold act_apply (he_others env (h_turn h) h) (h\<lparr>h_turn := h_turn h + 1\<rparr>)"

definition atomic :: "host_env \<Rightarrow> (Host \<Rightarrow> 'a \<times> Host) \<Rightarrow> 'a host" where
  "atomic env f = State (\<lambda>h. f (interfere env h))"

definition monitor_do :: "host_env \<Rightarrow> (AdbHealthMonitor \<Rightarrow> 'a \<times> AdbHealthMonitor) \<Rightarrow> 'a host" where
  "monitor_do env f = atomic env (\<lambda>h. let (r, m) = f (h_monitor h) in (r, h\<lparr>h_monitor := m\<rparr>))"

definition monitor_set :: "host_env \<Rightarrow> (AdbHealthMonitor \<Rightarrow> AdbHealthMonitor) \<Rightarrow> unit host" where
  "monitor_set env f = monitor_do env (\<lambda>m. ((), f m))"

definition monitor_get :: "host_env \<Rightarrow> (AdbHealthMonitor \<Rightarrow> 'a) \<Rightarrow> 'a host" where
  "monitor_get env f = monitor_do env (\<lambda>m. (f m, m))"

definition relay_do :: "host_env \<Rightarrow> (RelayGateController \<Rightarrow> 'a \<times> RelayGateController) \<Rightarrow> 'a host" where
  "relay_do env f = atomic env (\<lambda>h. let (r, c) = f (h_relay h) in (r, h\<lparr>h_relay := c\<rparr>))"

definition relay_set :: "host_env \<Rightarrow> (RelayGateController \<Rightarrow> RelayGateController) \<Rightarrow> unit host" where
  "relay_set env f = relay_do env (\<lambda>c. ((), f c))"

definition load_stopping :: "host_env \<Rightarrow> bool host" where
  "load_stopping env = monitor_get env am_stopping"

definition time_now :: "host_env \<Rightarrow> instant host" where
  "time_now env = atomic env (\<lambda>h. (aw_now (h_adb h), h))"

definition operation_lock :: "host_env \<Rightarrow> unit host" where
  "operation_lock env = atomic env (\<lambda>h. ((), h))"

definition record_event :: "host_env \<Rightarrow> string \<Rightarrow> (string \<times> json) list \<Rightarrow> unit host" where
  "record_event env name details = atomic env (\<lambda>h. ((), h\<lparr>h_events := h_events h @ [(name, JObject details)]\<rparr>))"

text \<open>A blocking task: \<open>None\<close> is the \<^verbatim>\<open>JoinError\<close> of a task that panicked.\<close>

definition spawn_blocking :: "host_env \<Rightarrow> bool \<Rightarrow> 'a adb \<Rightarrow> 'a option host" where
  "spawn_blocking env locked job = do {
     atomic env (\<lambda>h. ((), h\<lparr>h_tasks := h_tasks h @ [(locked, am_stopping (h_monitor h))]\<rparr>));
     atomic env (\<lambda>h. let (r, w) = run_state job (h_adb h) in
       (if he_join_error env (h_turn h) then None else Some r, h\<lparr>h_adb := w\<rparr>))
   }"

definition control_snapshot :: "host_env \<Rightarrow> StateSnapshot host" where
  "control_snapshot env = atomic env (\<lambda>h. (snapshot (ct_machine (h_control h)), h))"

definition store_write :: "host_env \<Rightarrow> StateSnapshot \<Rightarrow> string option host" where
  "store_write env s = atomic env (\<lambda>h.
     (case he_write_error env (h_turn h) of
        Some kind \<Rightarrow> (Some kind, h)
      | None \<Rightarrow> (None, h\<lparr>h_store := h_store h @ [s]\<rparr>)))"

definition do_when :: "bool \<Rightarrow> unit host \<Rightarrow> unit host" where
  "do_when b m = (if b then m else State_Monad.return ())"

definition trigger_json :: "TransportRecoveryTrigger \<Rightarrow> json" where
  "trigger_json t = JString (case t of HostResume \<Rightarrow> ''host_resume'' | UsbReconnect \<Rightarrow> ''usb_reconnect'')"

definition word_json :: "u64 \<Rightarrow> json" where "word_json w = JNumber (uint w)"

section \<open>The observers of the control server\<close>

definition observe_connected :: "host_env \<Rightarrow> unit host" where
  "observe_connected env = do {
     rearmed \<leftarrow> monitor_do env rearm_failed_transport_from_authenticated_control;
     (case rearmed of
        None \<Rightarrow> State_Monad.return ()
      | Some (previous_generation, generation, trigger) \<Rightarrow> do {
          relay_set env carrier_healthy;
          record_event env ''transport_recovery_authenticated_rearm''
            [(''previous_generation'', word_json previous_generation), (''generation'', word_json generation),
             (''trigger'', trigger_json trigger)]
        });
     monitor_set env notify_authenticated_connection
   }"

definition observe_gate :: "host_env \<Rightarrow> StateSnapshot \<Rightarrow> unit host" where
  "observe_gate env s = atomic env (\<lambda>h. ((), publish_host s h))"

definition observer :: "host_env \<Rightarrow> StateSnapshot \<Rightarrow> unit host" where
  "observer env s = do {
     observe_gate env s;
     (if snap_state s = Connected then observe_connected env else monitor_set env notify_state_change);
     failed \<leftarrow> store_write env s;
     (case failed of
        None \<Rightarrow> State_Monad.return ()
      | Some kind \<Rightarrow> record_event env ''state_persistence_error'' [(''error_kind'', JString kind)])
   }"

definition suspend_observer :: "host_env \<Rightarrow> unit host" where
  "suspend_observer env = relay_set env screen_suspended"

definition wake_observer :: "host_env \<Rightarrow> unit host" where
  "wake_observer env = do {
     relay_set env authenticated_wake;
     monitor_set env notify_authenticated_connection
   }"

section \<open>Carrier loss through the control handle\<close>

definition handle_lost :: "host_env \<Rightarrow> string \<Rightarrow> StateSnapshot host" where
  "handle_lost env reason = do {
     s \<leftarrow> atomic env (\<lambda>h. let m = transport_lost reason (ct_machine (h_control h)) in
       (snapshot m, h\<lparr>h_control := (h_control h)\<lparr>ct_machine := m\<rparr>\<rparr>));
     observer env s;
     State_Monad.return s
   }"

definition handle_reset :: "host_env \<Rightarrow> string \<Rightarrow> StateSnapshot host" where
  "handle_reset env reason = do {
     atomic env (\<lambda>h. ((), case ct_active (h_control h) of
       None \<Rightarrow> h
     | Some epoch \<Rightarrow> h\<lparr>h_control := (h_control h)\<lparr>ct_cancelled := (ct_cancelled (h_control h))(epoch := True)\<rparr>\<rparr>));
     handle_lost env reason
   }"

definition record_loss :: "host_env \<Rightarrow> bool \<Rightarrow> string \<Rightarrow> unit host" where
  "record_loss env device_available category = do {
     changed \<leftarrow> monitor_do env (update_status True device_available False (Some category));
     if \<not> changed then State_Monad.return ()
     else do {
       s \<leftarrow> handle_lost env (''ADB carrier unavailable ('' @ category @ '')'');
       _ \<leftarrow> store_write env s;
       record_event env ''adb_health_degraded''
         [(''device_available'', JBool device_available), (''mapping_state'', JString ''unhealthy''),
          (''category'', JString (if device_available then ''mapping'' else ''device''))]
     }
   }"

section \<open>Transport recovery\<close>

record AdbMonitorConfig =
  mc_adb :: AdbController
  mc_session_id :: SessionId
  mc_all_traffic :: bool

definition next_reconnect_generation :: "AdbHealthMonitor \<Rightarrow> u64 \<times> AdbHealthMonitor" where
  "next_reconnect_generation m =
     (let g = am_reconnect_generation m in
      (if g = -1 then g else g + 1, m\<lparr>am_reconnect_generation := g + 1\<rparr>))"

definition attempt_fields :: "u64 \<Rightarrow> nat \<Rightarrow> TransportRecoveryTrigger \<Rightarrow> (string \<times> json) list" where
  "attempt_fields generation attempt trigger =
     [(''generation'', word_json generation), (''attempt'', JNumber (int attempt)), (''trigger'', trigger_json trigger)]"

definition schedule_rearm :: "host_env \<Rightarrow> u64 \<Rightarrow> TransportRecoveryTrigger \<Rightarrow> unit host" where
  "schedule_rearm env generation trigger = do {
     scheduled \<leftarrow> monitor_do env (\<lambda>m.
       let m' = schedule_transport_recovery_rearm generation trigger m in (am_tasks m' \<noteq> am_tasks m, m'));
     do_when scheduled
       (record_event env ''transport_recovery_rearm_scheduled''
         [(''generation'', word_json generation), (''trigger'', trigger_json trigger),
          (''delay_ms'', JNumber (int (TRANSPORT_RECOVERY_REARM_DELAY div 1000000)))])
   }"

text \<open>The re-arm task and the task that waits for the authenticated connection, after their sleep.\<close>

definition rearm_failed_task :: "host_env \<Rightarrow> u64 \<Rightarrow> TransportRecoveryTrigger \<Rightarrow> unit host" where
  "rearm_failed_task env generation trigger = do {
     monitor_set env (\<lambda>m. m\<lparr>am_transport_rearm_scheduled := removeAll generation (am_transport_rearm_scheduled m)\<rparr>);
     rearmed \<leftarrow> monitor_do env (rearm_failed_transport generation trigger);
     (case rearmed of
        None \<Rightarrow> State_Monad.return ()
      | Some next_generation \<Rightarrow>
          record_event env ''transport_recovery_rearmed''
            [(''previous_generation'', word_json generation), (''generation'', word_json next_generation),
             (''trigger'', trigger_json trigger)])
   }"

definition control_timeout_task :: "host_env \<Rightarrow> u64 \<Rightarrow> nat \<Rightarrow> TransportRecoveryTrigger \<Rightarrow> unit host" where
  "control_timeout_task env generation attempt trigger = do {
     expired \<leftarrow> monitor_do env (expire_transport_recovery_control generation attempt);
     (case expired of
        None \<Rightarrow> State_Monad.return ()
      | Some will_retry \<Rightarrow> do {
          relay_set env carrier_lost;
          record_event env ''transport_recovery_control_timeout''
            (attempt_fields generation attempt trigger @ [(''will_retry'', JBool will_retry)]);
          do_when (\<not> will_retry) (schedule_rearm env generation trigger)
        })
   }"

definition recovery_rebuilt :: "host_env \<Rightarrow> u64 \<Rightarrow> nat \<Rightarrow> TransportRecoveryTrigger \<Rightarrow> unit host" where
  "recovery_rebuilt env generation attempt trigger = do {
     relay_set env control_inactive_awaiting_recovery;
     s \<leftarrow> handle_reset env TRANSPORT_RECOVERY_REASON;
     _ \<leftarrow> store_write env s;
     reconnect_generation \<leftarrow> monitor_do env next_reconnect_generation;
     _ \<leftarrow> monitor_do env (finish_transport_recovery_attempt generation True);
     monitor_set env (set_status True True True None);
     relay_set env carrier_healthy;
     record_event env ''transport_recovery_ready''
       (attempt_fields generation attempt trigger @
        [(''strategy'', JString ''mapping_reinstall''), (''reconnect_generation'', word_json reconnect_generation),
         (''waiting_for'', JString ''authenticated_control'')]);
     monitor_set env (monitor_spawn TRANSPORT_RECOVERY_CONTROL_TIMEOUT (ControlTimeout generation attempt trigger))
   }"

definition recovery_failed :: "host_env \<Rightarrow> u64 \<Rightarrow> nat \<Rightarrow> TransportRecoveryTrigger \<Rightarrow> string \<Rightarrow> unit host" where
  "recovery_failed env generation attempt trigger category = do {
     relay_set env carrier_lost;
     retry \<leftarrow> monitor_do env (finish_transport_recovery_attempt generation False);
     monitor_set env (set_status True True False
       (Some (if retry then ''transport_recovery_retry'' else ''transport_recovery_failed'')));
     record_event env ''transport_recovery_failed''
       (attempt_fields generation attempt trigger @ [(''will_retry'', JBool retry), (''category'', JString category)]);
     (if retry then monitor_set env (monitor_spawn TRANSPORT_RECOVERY_RETRY_DELAY WakeMonitor)
      else schedule_rearm env generation trigger)
   }"

definition recovery_attempt ::
  "host_env \<Rightarrow> AdbController \<Rightarrow> u64 \<Rightarrow> nat \<Rightarrow> TransportRecoveryTrigger \<Rightarrow> unit host" where
  "recovery_attempt env c generation attempt trigger = do {
     result \<leftarrow> spawn_blocking env True (reinstall_mappings (he_adb env) c);
     recovery \<leftarrow> monitor_get env am_transport_recovery;
     if tr_generation recovery \<noteq> generation then State_Monad.return ()
     else
       (case result of
          Some (Inr _) \<Rightarrow> recovery_rebuilt env generation attempt trigger
        | Some (Inl _) \<Rightarrow> recovery_failed env generation attempt trigger ''mapping_rebuild''
        | None \<Rightarrow> recovery_failed env generation attempt trigger ''recovery_task'')
   }"

definition recovery_begun ::
  "host_env \<Rightarrow> AdbController \<Rightarrow> u64 \<Rightarrow> nat \<Rightarrow> TransportRecoveryTrigger \<Rightarrow> unit host" where
  "recovery_begun env c generation attempt trigger = do {
     relay_set env carrier_lost_awaiting_recovery;
     monitor_set env (set_status True True False (Some ''transport_recovery_rebuilding''));
     record_event env ''transport_recovery_attempt'' (attempt_fields generation attempt trigger);
     operation_lock env;
     stopping \<leftarrow> load_stopping env;
     if stopping then State_Monad.return () else recovery_attempt env c generation attempt trigger
   }"

definition recover_required :: "host_env \<Rightarrow> AdbMonitorConfig \<Rightarrow> bool \<Rightarrow> unit host" where
  "recover_required env config device_available = do {
     stopping \<leftarrow> load_stopping env;
     if stopping then State_Monad.return ()
     else if \<not> device_available then do {
       relay_set env carrier_lost_awaiting_recovery;
       monitor_set env wait_for_recovery_device;
       monitor_set env (set_status True False False (Some ''transport_recovery_waiting_for_device''))
     }
     else do {
       begun \<leftarrow> monitor_do env begin_transport_recovery_attempt;
       (case begun of
          None \<Rightarrow> State_Monad.return ()
        | Some (generation, attempt, trigger) \<Rightarrow> recovery_begun env (mc_adb config) generation attempt trigger)
     }
   }"

definition recover_transport :: "host_env \<Rightarrow> AdbMonitorConfig \<Rightarrow> bool \<Rightarrow> bool host" where
  "recover_transport env config device_available = do {
     required \<leftarrow> monitor_get env transport_requires_recovery;
     if \<not> required then State_Monad.return False
     else do { recover_required env config device_available; State_Monad.return True }
   }"

section \<open>Reconciliation of the mappings\<close>

definition sleep_confirmed :: "(AdbError + AndroidVpnStatus) option \<Rightarrow> bool" where
  "sleep_confirmed status =
     (case status of
        Some (Inr s) \<Rightarrow> av_screen_suspended s = Some True \<and> av_state s = Some ''degraded''
      | _ \<Rightarrow> False)"

definition reconcile_android_sleep :: "host_env \<Rightarrow> AdbController \<Rightarrow> unit host" where
  "reconcile_android_sleep env c = do {
     stopping \<leftarrow> load_stopping env;
     if stopping then State_Monad.return ()
     else do {
       pending \<leftarrow> relay_do env (\<lambda>c. (pending_control_epoch c, c));
       (case pending of
          None \<Rightarrow> State_Monad.return ()
        | Some control_epoch \<Rightarrow> do {
            status \<leftarrow> spawn_blocking env True (android_status_quick (he_adb env) c);
            if \<not> sleep_confirmed status then State_Monad.return ()
            else do {
              suspended \<leftarrow> relay_do env (screen_suspended_if_epoch control_epoch);
              do_when suspended (record_event env ''android_sleep_confirmed'' [])
            }
          })
     }
   }"

text \<open>The repair loop: \<open>None\<close> if it returned because of a stop, otherwise whether a repair failed.\<close>

fun repair_loop :: "host_env \<Rightarrow> AdbController \<Rightarrow> ReverseMapping list \<Rightarrow> bool option host" where
  "repair_loop env c [] = State_Monad.return (Some False)"
| "repair_loop env c (mapping # mappings) = do {
     stopping \<leftarrow> load_stopping env;
     if stopping then State_Monad.return None
     else do {
       result \<leftarrow> spawn_blocking env True (add_mapping (he_adb env) c mapping);
       (case result of
          Some (Inr _) \<Rightarrow> repair_loop env c mappings
        | _ \<Rightarrow> State_Monad.return (Some True))
     }
   }"

definition is_healthy :: "(AdbError + ReverseMapping list) option \<Rightarrow> bool" where
  "is_healthy health \<longleftrightarrow> health = Some (Inr [])"

definition repair_finish :: "host_env \<Rightarrow> bool \<Rightarrow> unit host" where
  "repair_finish env repair_failed =
     (if repair_failed then do {
        relay_set env carrier_lost;
        record_loss env True ''mapping_repair_failed''
      }
      else do {
        generation \<leftarrow> monitor_do env next_reconnect_generation;
        monitor_set env (set_status True True True None);
        relay_set env carrier_healthy;
        record_event env ''adb_mapping_repaired'' [(''reconnect_generation'', word_json generation)]
      })"

definition reconcile_missing :: "host_env \<Rightarrow> AdbController \<Rightarrow> ReverseMapping list \<Rightarrow> unit host" where
  "reconcile_missing env c missing = do {
     repaired \<leftarrow> repair_loop env c missing;
     (case repaired of
        None \<Rightarrow> State_Monad.return ()
      | Some repair_failed \<Rightarrow> do {
          stopping \<leftarrow> load_stopping env;
          if stopping then State_Monad.return ()
          else if repair_failed then repair_finish env True
          else do {
            health \<leftarrow> spawn_blocking env True (mapping_health (he_adb env) c);
            repair_finish env (\<not> is_healthy health)
          }
        })
   }"

definition reconcile_probe :: "host_env \<Rightarrow> AdbController \<Rightarrow> HostState \<Rightarrow> unit host" where
  "reconcile_probe env c lifecycle_state = do {
     probe_started \<leftarrow> time_now env;
     health \<leftarrow> spawn_blocking env True (mapping_health (he_adb env) c);
     now \<leftarrow> time_now env;
     monitor_set env (record_mapping_probe (now - probe_started));
     (case health of
        Some (Inr missing) \<Rightarrow>
          if missing = [] then do {
            monitor_set env (set_status True True True None);
            relay_set env carrier_healthy;
            do_when (lifecycle_state = Degraded) (reconcile_android_sleep env c)
          }
          else reconcile_missing env c missing
      | Some (Inl _) \<Rightarrow> record_loss env False ''mapping_probe_failed''
      | None \<Rightarrow> record_loss env False ''mapping_probe_worker_failed'')
   }"

definition lifecycle_active :: "StateSnapshot \<Rightarrow> bool" where
  "lifecycle_active s \<longleftrightarrow> snap_state s = Connected \<or> snap_state s = Degraded"

definition reconcile :: "host_env \<Rightarrow> AdbController \<Rightarrow> bool \<Rightarrow> unit host" where
  "reconcile env c device_available = do {
     stopping \<leftarrow> load_stopping env;
     if stopping then State_Monad.return ()
     else do {
       lifecycle \<leftarrow> control_snapshot env;
       if \<not> device_available then do {
         do_when (lifecycle_active lifecycle) (monitor_set env note_usb_disconnected);
         relay_set env carrier_lost_awaiting_recovery;
         (if lifecycle_active lifecycle then record_loss env False ''device_unavailable''
          else monitor_set env (set_status True False False (Some ''device_unavailable'')))
       }
       else if \<not> lifecycle_active lifecycle then monitor_set env (set_status True True False None)
       else do {
         operation_lock env;
         stopping \<leftarrow> load_stopping env;
         if stopping then State_Monad.return () else reconcile_probe env c (snap_state lifecycle)
       }
     }
   }"

section \<open>Supervision of the Android service\<close>

text \<open>A step of the restart: the name of the phase that failed, or nothing.\<close>

definition android_restart_step :: "host_env \<Rightarrow> string \<Rightarrow> ('e + unit) adb \<Rightarrow> (string + unit) host" where
  "android_restart_step env phase job = do {
     stopping \<leftarrow> load_stopping env;
     if stopping then State_Monad.return (Inl ''stopping'')
     else do {
       result \<leftarrow> spawn_blocking env True job;
       State_Monad.return (case result of Some (Inr _) \<Rightarrow> Inr () | _ \<Rightarrow> Inl phase)
     }
   }"

text \<open>The \<^verbatim>\<open>?\<close> operator after a step.\<close>

definition and_then :: "(string + unit) host \<Rightarrow> (string + unit) host \<Rightarrow> (string + unit) host" where
  "and_then m k = do { r \<leftarrow> m; (case r of Inl phase \<Rightarrow> State_Monad.return (Inl phase) | Inr _ \<Rightarrow> k) }"

definition restart_reopen :: "host_env \<Rightarrow> AdbMonitorConfig \<Rightarrow> (string + unit) host" where
  "restart_reopen env config = do {
     relay_set env control_inactive_awaiting_recovery;
     s \<leftarrow> handle_reset env TRANSPORT_RECOVERY_REASON;
     _ \<leftarrow> store_write env s;
     monitor_set env (set_status True True True None);
     relay_set env carrier_healthy;
     android_restart_step env ''start''
       (send_start_intent (he_adb env) (mc_adb config) (mc_session_id config) (mc_all_traffic config))
   }"

definition restart_phases :: "host_env \<Rightarrow> AdbMonitorConfig \<Rightarrow> (string + unit) host" where
  "restart_phases env config =
     and_then (android_restart_step env ''force_stop'' (force_stop_android (he_adb env) (mc_adb config)))
       (and_then (android_restart_step env ''verify_closed'' (verify_vpn_closed (he_adb env) (mc_adb config)))
         (and_then (android_restart_step env ''mappings'' (reinstall_mappings (he_adb env) (mc_adb config)))
           (restart_reopen env config)))"

definition opt_json :: "('a \<Rightarrow> json) \<Rightarrow> 'a option \<Rightarrow> json" where
  "opt_json f x = (case x of None \<Rightarrow> JNull | Some v \<Rightarrow> f v)"

definition readable :: "('e + 'a) option \<Rightarrow> 'a option" where
  "readable r = (case r of Some (Inr a) \<Rightarrow> Some a | _ \<Rightarrow> None)"

definition restart_fields :: "u32 \<Rightarrow> AndroidVpnStatus option \<Rightarrow> (string \<times> json) list" where
  "restart_fields restarts android =
     [(''attempt'', JNumber (uint restarts)),
      (''android_status_readable'', JBool (android \<noteq> None)),
      (''android_service_present'', opt_json (\<lambda>s. JBool (av_present s)) android),
      (''android_state'', opt_json (\<lambda>s. opt_json JString (av_state s)) android),
      (''android_screen_suspended'', opt_json (\<lambda>s. opt_json JBool (av_screen_suspended s)) android),
      (''android_vpn_fd_open'', opt_json (\<lambda>s. opt_json JBool (av_vpn_fd_open s)) android)]"

definition next_restart_ms :: "AndroidLiveness \<Rightarrow> instant \<Rightarrow> nat" where
  "next_restart_ms l now =
     min (case al_next_restart_at l of None \<Rightarrow> 0 | Some at \<Rightarrow> (at - now) div 1000000) (2 ^ 64 - 1)"

definition restart_android :: "host_env \<Rightarrow> AdbMonitorConfig \<Rightarrow> unit host" where
  "restart_android env config = do {
     operation_lock env;
     stopping \<leftarrow> load_stopping env;
     if stopping then State_Monad.return ()
     else do {
       now \<leftarrow> time_now env;
       liveness \<leftarrow> monitor_do env (update_android_liveness (liveness_restarted now));
       status \<leftarrow> spawn_blocking env True (android_status_quick (he_adb env) (mc_adb config));
       record_event env ''android_restart_attempt'' (restart_fields (al_restarts liveness) (readable status));
       relay_set env carrier_lost_awaiting_recovery;
       restarted \<leftarrow> restart_phases env config;
       now \<leftarrow> time_now env;
       (case restarted of
          Inr _ \<Rightarrow> record_event env ''android_restart_requested''
            [(''attempt'', JNumber (uint (al_restarts liveness))),
             (''next_restart_after_ms'', JNumber (int (next_restart_ms liveness now)))]
        | Inl phase \<Rightarrow> do {
            do_when (phase \<noteq> ''stopping'')
              (monitor_set env (set_status True True False (Some ''android_restart_failed'')));
            record_event env ''android_restart_failed''
              [(''attempt'', JNumber (uint (al_restarts liveness))), (''phase'', JString phase),
               (''next_restart_after_ms'', JNumber (int (next_restart_ms liveness now)))]
          })
     }
   }"

definition recovering :: "TransportRecoverySnapshot \<Rightarrow> bool" where
  "recovering r \<longleftrightarrow> tr_state r \<in> set [TR_Pending, TR_WaitingForDevice, TR_RebuildingMappings, TR_AwaitingControl]"

definition supervise_probe :: "host_env \<Rightarrow> AdbMonitorConfig \<Rightarrow> unit host" where
  "supervise_probe env config = do {
     awake \<leftarrow> spawn_blocking env False (headset_awake_quick (he_adb env) (mc_adb config));
     now \<leftarrow> time_now env;
     liveness \<leftarrow> monitor_do env (update_android_liveness (liveness_observed (awake = Some (Inr (Some True))) now));
     do_when (restart_due now liveness) (restart_android env config)
   }"

definition supervise_android :: "host_env \<Rightarrow> AdbMonitorConfig \<Rightarrow> bool \<Rightarrow> unit host" where
  "supervise_android env config device_available = do {
     stopping \<leftarrow> load_stopping env;
     if stopping then State_Monad.return ()
     else do {
       lifecycle \<leftarrow> control_snapshot env;
       if snap_state lifecycle = Connected then do {
         _ \<leftarrow> monitor_do env (update_android_liveness liveness_connected);
         State_Monad.return ()
       }
       else do {
         recovery \<leftarrow> monitor_get env am_transport_recovery;
         if snap_state lifecycle \<noteq> Degraded \<or> \<not> device_available \<or> recovering recovery then do {
           _ \<leftarrow> monitor_do env (update_android_liveness liveness_ineligible);
           State_Monad.return ()
         }
         else do {
           now \<leftarrow> time_now env;
           liveness \<leftarrow> monitor_do env (update_android_liveness (liveness_silent now));
           now \<leftarrow> time_now env;
           do_when (probe_due now liveness) (supervise_probe env config)
         }
       }
     }
   }"

section \<open>Failures of the tracker\<close>

definition track_lost :: "host_env \<Rightarrow> string \<Rightarrow> unit host" where
  "track_lost env category = do {
     monitor_set env (set_status False False False (Some category));
     relay_set env carrier_lost_awaiting_recovery;
     lifecycle \<leftarrow> control_snapshot env;
     do_when (lifecycle_active lifecycle) (do {
       monitor_set env note_usb_disconnected;
       record_loss env False category
     });
     monitor_set env (set_status False False False (Some category));
     record_event env ''adb_monitor_failure'' [(''category'', JString category), (''device_confirmed'', JBool False)]
   }"

definition track_failed :: "host_env \<Rightarrow> AdbController \<Rightarrow> string \<Rightarrow> unit host" where
  "track_failed env c category =
     (if category = ''track_decode_failed'' then do {
        previous \<leftarrow> monitor_get env AdbHealthMonitor_snapshot;
        state \<leftarrow> spawn_blocking env False (device_state (he_adb env) c);
        if state = Some (Inr ''device'') then do {
          monitor_set env (set_status False True (as_device_available previous \<and> as_mappings_healthy previous)
            (Some category));
          record_event env ''adb_monitor_failure''
            [(''category'', JString category), (''device_confirmed'', JBool True)]
        }
        else track_lost env category
      }
      else track_lost env category)"

section \<open>The run loop\<close>

definition millis :: "nat \<Rightarrow> duration" where "millis n = n * 1000000"

definition MONITOR_ADB_TIMEOUT :: duration where "MONITOR_ADB_TIMEOUT = millis 500"
definition INITIAL_BACKOFF :: duration where "INITIAL_BACKOFF = millis 250"
definition MAX_BACKOFF :: duration where "MAX_BACKOFF = seconds 5"

text \<open>What the select loop of one tracker process can see.\<close>

datatype tracker_event = T_Read bytes | T_Eof | T_ReadError | T_Tick | T_Changed

record tracker =
  tk_backoff :: duration
  tk_decoder :: TrackDevicesDecoder
  tk_device_available :: "bool option"

datatype tracker_turn = TrackerContinue tracker | TrackerBreak "string option" tracker

definition complete_recovery :: "host_env \<Rightarrow> bool host" where
  "complete_recovery env = do {
     completed \<leftarrow> monitor_do env (\<lambda>m.
       let (ok, m') = complete_authenticated_transport_recovery m in
       (if ok then Some (am_transport_recovery m) else None, m'));
     (case completed of
        None \<Rightarrow> State_Monad.return False
      | Some r \<Rightarrow> do {
          record_event env ''transport_recovery_completed''
            (attempt_fields (tr_generation r) (tr_attempt r) (the (tr_trigger r)) @
             [(''strategy'', JString ''authenticated_control'')]);
          State_Monad.return True
        })
   }"

definition take_forced :: "host_env \<Rightarrow> bool host" where
  "take_forced env = monitor_do env (\<lambda>m. (am_authenticated_reconcile m, m\<lparr>am_authenticated_reconcile := False\<rparr>))"

definition forced_completion :: "host_env \<Rightarrow> (bool \<times> bool) host" where
  "forced_completion env = do {
     forced \<leftarrow> take_forced env;
     completed \<leftarrow> (if forced then complete_recovery env else State_Monad.return False);
     State_Monad.return (forced, completed)
   }"

definition reconcile_forced :: "host_env \<Rightarrow> AdbController \<Rightarrow> bool \<Rightarrow> bool \<Rightarrow> unit host" where
  "reconcile_forced env c device_available forced = do {
     reconcile env c device_available;
     do_when forced (monitor_set env retry_authenticated_reconcile_if_needed)
   }"

definition on_update :: "host_env \<Rightarrow> AdbMonitorConfig \<Rightarrow> bool \<Rightarrow> unit host" where
  "on_update env config available = do {
     do_when available (do { _ \<leftarrow> monitor_do env notify_usb_reconnected_if_needed; State_Monad.return () });
     (forced, completed_recovery) \<leftarrow> forced_completion env;
     if completed_recovery then State_Monad.return ()
     else do {
       recovered \<leftarrow> recover_transport env config available;
       do_when (\<not> recovered) (reconcile_forced env (mc_adb config) (available \<or> forced) forced)
     }
   }"

fun on_updates :: "host_env \<Rightarrow> AdbMonitorConfig \<Rightarrow> bool list \<Rightarrow> unit host" where
  "on_updates env config [] = State_Monad.return ()"
| "on_updates env config (available # updates) = do { on_update env config available; on_updates env config updates }"

definition on_read :: "host_env \<Rightarrow> AdbMonitorConfig \<Rightarrow> bytes \<Rightarrow> tracker \<Rightarrow> tracker_turn host" where
  "on_read env config bs tk =
     (case TrackDevicesDecoder_push bs (tk_decoder tk) of
        Inl _ \<Rightarrow> State_Monad.return (TrackerBreak (Some ''track_decode_failed'') tk)
      | Inr (updates, d) \<Rightarrow> do {
          on_updates env config updates;
          State_Monad.return (TrackerContinue (tk\<lparr>tk_decoder := d,
            tk_device_available := (if updates = [] then tk_device_available tk else Some (last updates))\<rparr>))
        })"

definition on_health_tick :: "host_env \<Rightarrow> AdbMonitorConfig \<Rightarrow> bool option \<Rightarrow> unit host" where
  "on_health_tick env config device_available = do {
     (forced, completed_recovery) \<leftarrow> forced_completion env;
     required \<leftarrow> (if completed_recovery then State_Monad.return False else monitor_get env transport_requires_recovery);
     (if required then do {
        _ \<leftarrow> recover_transport env config (cached_device_is_available device_available);
        State_Monad.return ()
      }
      else if completed_recovery then State_Monad.return ()
      else do {
        status \<leftarrow> monitor_get env AdbHealthMonitor_snapshot;
        do_when (should_reconcile_on_healthy_tick forced device_available (as_mappings_healthy status))
          (reconcile_forced env (mc_adb config) True forced)
      });
     supervise_android env config (cached_device_is_available device_available)
   }"

definition on_changed :: "host_env \<Rightarrow> AdbMonitorConfig \<Rightarrow> bool option \<Rightarrow> unit host" where
  "on_changed env config device_available = do {
     (forced, completed_recovery) \<leftarrow> forced_completion env;
     required \<leftarrow> (if completed_recovery then State_Monad.return False else monitor_get env transport_requires_recovery);
     (if required then do {
        _ \<leftarrow> recover_transport env config (cached_device_is_available device_available);
        State_Monad.return ()
      }
      else do_when (\<not> completed_recovery \<and> (forced \<or> cached_device_is_available device_available))
             (reconcile_forced env (mc_adb config) True forced))
   }"

fun tracker_arm :: "host_env \<Rightarrow> AdbMonitorConfig \<Rightarrow> tracker_event \<Rightarrow> tracker \<Rightarrow> tracker_turn host" where
  "tracker_arm env config (T_Read bs) tk = on_read env config bs tk"
| "tracker_arm env config T_Eof tk = State_Monad.return (TrackerBreak (Some ''track_exited'') tk)"
| "tracker_arm env config T_ReadError tk = State_Monad.return (TrackerBreak (Some ''track_read_failed'') tk)"
| "tracker_arm env config T_Tick tk = do {
     on_health_tick env config (tk_device_available tk);
     State_Monad.return (TrackerContinue (tk\<lparr>tk_backoff := INITIAL_BACKOFF\<rparr>))
   }"
| "tracker_arm env config T_Changed tk = do {
     monitor_set env (\<lambda>m. m\<lparr>am_notified := False\<rparr>);
     stopping \<leftarrow> load_stopping env;
     if stopping then State_Monad.return (TrackerBreak None tk)
     else do {
       on_changed env config (tk_device_available tk);
       State_Monad.return (TrackerContinue tk)
     }
   }"

fun tracker_loop :: "host_env \<Rightarrow> AdbMonitorConfig \<Rightarrow> tracker_event list \<Rightarrow> tracker \<Rightarrow> tracker_turn host" where
  "tracker_loop env config [] tk = State_Monad.return (TrackerContinue tk)"
| "tracker_loop env config (event # events) tk = do {
     turn \<leftarrow> tracker_arm env config event tk;
     (case turn of
        TrackerBreak category tk \<Rightarrow> State_Monad.return (TrackerBreak category tk)
      | TrackerContinue tk \<Rightarrow> do {
          stopping \<leftarrow> load_stopping env;
          if stopping then State_Monad.return (TrackerBreak None tk) else tracker_loop env config events tk
        })
   }"

text \<open>The life of one tracker process: it cannot be started, it has no output, or it produces events.\<close>

datatype tracker_life = SpawnFailed | NoStdout | Tracked "tracker_event list"

definition sleep_or_stop :: "host_env \<Rightarrow> bool host" where
  "sleep_or_stop env = load_stopping env"

text \<open>How a pass of the outer loop ends: the monitor has returned, it will start the next process after the
  given backoff, or the process is still running.\<close>

datatype monitor_outcome = MonitorReturned | MonitorNext duration | MonitorTracking tracker

definition tracker_backoff :: "host_env \<Rightarrow> AdbController \<Rightarrow> string \<Rightarrow> duration \<Rightarrow> monitor_outcome host" where
  "tracker_backoff env c category backoff = do {
     track_failed env c category;
     stopped \<leftarrow> sleep_or_stop env;
     State_Monad.return (if stopped then MonitorReturned else MonitorNext (next_backoff backoff MAX_BACKOFF))
   }"

definition tracked :: "host_env \<Rightarrow> AdbMonitorConfig \<Rightarrow> tracker_event list \<Rightarrow> duration \<Rightarrow> monitor_outcome host" where
  "tracked env config events backoff = do {
     previous \<leftarrow> monitor_get env AdbHealthMonitor_snapshot;
     monitor_set env (set_status True (as_device_available previous) (as_mappings_healthy previous) None);
     turn \<leftarrow> tracker_loop env config events
       \<lparr>tk_backoff = backoff, tk_decoder = TrackDevicesDecoder_default, tk_device_available = None\<rparr>;
     (case turn of
        TrackerContinue tk \<Rightarrow> State_Monad.return (MonitorTracking tk)
      | TrackerBreak category tk \<Rightarrow> do {
          stopping \<leftarrow> load_stopping env;
          if stopping then State_Monad.return MonitorReturned
          else
            (case category of
               None \<Rightarrow> State_Monad.return (MonitorNext (tk_backoff tk))
             | Some category \<Rightarrow> tracker_backoff env (mc_adb config) category (tk_backoff tk))
        })
   }"

text \<open>The outer loop over successive tracker processes.\<close>

fun monitor_lives :: "host_env \<Rightarrow> AdbMonitorConfig \<Rightarrow> tracker_life list \<Rightarrow> duration \<Rightarrow> monitor_outcome host" where
  "monitor_lives env config [] backoff = State_Monad.return (MonitorNext backoff)"
| "monitor_lives env config (life # lives) backoff = do {
     stopping \<leftarrow> load_stopping env;
     if stopping then State_Monad.return MonitorReturned
     else do {
       outcome \<leftarrow>
         (case life of
            SpawnFailed \<Rightarrow> tracker_backoff env (mc_adb config) ''track_spawn_failed'' backoff
          | NoStdout \<Rightarrow> tracker_backoff env (mc_adb config) ''track_stdout_unavailable'' backoff
          | Tracked events \<Rightarrow> tracked env config events backoff);
       (case outcome of
          MonitorNext backoff \<Rightarrow> monitor_lives env config lives backoff
        | _ \<Rightarrow> State_Monad.return outcome)
     }
   }"

definition monitor_run :: "host_env \<Rightarrow> AdbMonitorConfig \<Rightarrow> tracker_life list \<Rightarrow> monitor_outcome host" where
  "monitor_run env config lives =
     monitor_lives env (config\<lparr>mc_adb := with_mapping_timeout MONITOR_ADB_TIMEOUT (mc_adb config)\<rparr>) lives INITIAL_BACKOFF"

end
