(* ===== verification/Messages.thy ===== *)
theory Messages
  imports Prelude
begin

text \<open>
  The length-prefixed messages of the two local endpoints, the admin socket of the daemon and the broker
  pipe: a big-endian length, checked against the limit of the endpoint before anything is allocated, and
  the text of \<^verbatim>\<open>serde_json\<close>, whose encoder and decoder are arguments.
\<close>

section \<open>Reading and writing\<close>

datatype message_error = ME_Io io_kind | ME_TooLarge nat | ME_Json

definition read_message ::
  "nat \<Rightarrow> (bytes \<Rightarrow> 'm option) \<Rightarrow> byte_stream \<Rightarrow> message_error + ('m \<times> byte_stream)" where
  "read_message limit decode stream =
     (case read_exact 4 stream of
        Inl k \<Rightarrow> Inl (ME_Io k)
      | Inr (prefix, stream) \<Rightarrow>
          let len = unat (be_u32 prefix) in
          if len > limit then Inl (ME_TooLarge len)
          else
            (case read_exact len stream of
               Inl k \<Rightarrow> Inl (ME_Io k)
             | Inr (text, stream) \<Rightarrow>
                 (case decode text of None \<Rightarrow> Inl ME_Json | Some m \<Rightarrow> Inr (m, stream))))"

definition write_message ::
  "nat \<Rightarrow> ('m \<Rightarrow> bytes option) \<Rightarrow> 'm \<Rightarrow> byte_sink \<Rightarrow> message_error + byte_sink" where
  "write_message limit encode m sink =
     (case encode m of
        None \<Rightarrow> Inl ME_Json
      | Some text \<Rightarrow>
          if length text > limit then Inl (ME_TooLarge (length text))
          else
            (case write_all (u32_be (word_of_nat (length text))) sink of
               Inl k \<Rightarrow> Inl (ME_Io k)
             | Inr sink \<Rightarrow>
                 (case write_all text sink of Inl k \<Rightarrow> Inl (ME_Io k) | Inr sink \<Rightarrow> Inr sink)))"

text \<open>The two endpoints.\<close>

definition MAX_ADMIN_MESSAGE :: nat where "MAX_ADMIN_MESSAGE = 4 * 1024"
definition MAX_BROKER_FRAME :: nat where "MAX_BROKER_FRAME = 256 * 1024"

definition read_admin_message :: "(bytes \<Rightarrow> 'm option) \<Rightarrow> byte_stream \<Rightarrow> message_error + ('m \<times> byte_stream)" where
  "read_admin_message = read_message MAX_ADMIN_MESSAGE"

definition write_admin_message :: "('m \<Rightarrow> bytes option) \<Rightarrow> 'm \<Rightarrow> byte_sink \<Rightarrow> message_error + byte_sink" where
  "write_admin_message = write_message MAX_ADMIN_MESSAGE"

definition read_broker_frame :: "(bytes \<Rightarrow> 'm option) \<Rightarrow> byte_stream \<Rightarrow> message_error + ('m \<times> byte_stream)" where
  "read_broker_frame = read_message MAX_BROKER_FRAME"

definition write_broker_frame :: "('m \<Rightarrow> bytes option) \<Rightarrow> 'm \<Rightarrow> byte_sink \<Rightarrow> message_error + byte_sink" where
  "write_broker_frame = write_message MAX_BROKER_FRAME"

section \<open>What one endpoint writes the other reads\<close>

text \<open>What the endpoints rely on: decoding gives back what was encoded.\<close>

definition json_ok :: "('m \<Rightarrow> bytes option) \<Rightarrow> (bytes \<Rightarrow> 'm option) \<Rightarrow> bool" where
  "json_ok encode decode \<longleftrightarrow> (\<forall>m text. encode m = Some text \<longrightarrow> decode text = Some m)"

definition fits :: "nat \<Rightarrow> ('m \<Rightarrow> bytes option) \<Rightarrow> 'm \<Rightarrow> bool" where
  "fits limit encode m \<longleftrightarrow> (case encode m of None \<Rightarrow> False | Some text \<Rightarrow> length text \<le> limit)"

definition message_bytes :: "('m \<Rightarrow> bytes option) \<Rightarrow> 'm \<Rightarrow> bytes" where
  "message_bytes encode m = u32_be (word_of_nat (length (the (encode m)))) @ the (encode m)"

lemma unat_of_len: "n < 2 ^ 32 \<Longrightarrow> unat (word_of_nat n :: u32) = n"
  by (simp add: unsigned_of_nat take_bit_nat_eq_self_iff)

text \<open>An endpoint: its limit, its reader and its writer.  The limit leaves the length prefix exact.\<close>

locale message_lane =
  fixes limit :: nat
    and rd :: "(bytes \<Rightarrow> 'm option) \<Rightarrow> byte_stream \<Rightarrow> message_error + ('m \<times> byte_stream)"
    and wr :: "('m \<Rightarrow> bytes option) \<Rightarrow> 'm \<Rightarrow> byte_sink \<Rightarrow> message_error + byte_sink"
  assumes limit: "limit < 2 ^ 32"
    and rd: "rd decode stream = read_message limit decode stream"
    and wr: "wr encode m sink = write_message limit encode m sink"
begin

lemma written: "fits limit encode m \<Longrightarrow> broken sink = None \<Longrightarrow>
  wr encode m sink = Inr (sink\<lparr>written := written sink @ message_bytes encode m\<rparr>)"
  by (auto simp: wr write_message_def fits_def message_bytes_def write_all_def split: option.splits)

lemma only_fitting_written:
  "wr encode m sink = Inr sink' \<Longrightarrow> fits limit encode m \<and> broken sink = None \<and>
     written sink' = written sink @ message_bytes encode m"
  by (auto simp: wr write_message_def fits_def message_bytes_def write_all_def split: option.splits if_splits)

lemma read_back:
  assumes "json_ok encode decode" "fits limit encode m" "pending stream = message_bytes encode m @ rest"
  shows "rd decode stream = Inr (m, stream\<lparr>pending := rest\<rparr>)"
proof -
  from assms(2) obtain t where enc: "encode m = Some t" and len: "length t \<le> limit"
    by (auto simp: fits_def split: option.splits)
  then have exact: "unat (word_of_nat (length t) :: u32) = length t" using limit by (simp add: unat_of_len)
  have "decode t = Some m" using assms(1) enc by (auto simp: json_ok_def)
  then show ?thesis
    using assms(3) enc len exact
    by (simp add: rd read_message_def read_exact_def message_bytes_def Let_def)
qed

lemma stream_roundtrip:
  assumes "json_ok encode decode" "list_all (fits limit encode) ms" "broken sink = None" "written sink = []"
  shows "\<exists>sink'. write_frames (wr encode) ms sink = Inr sink' \<and>
     read_frames (rd decode) (length ms) \<lparr>pending = written sink' @ rest, closing = k\<rparr> =
       Inr (ms, \<lparr>pending = rest, closing = k\<rparr>)"
proof -
  have wrote: "write_frames (wr encode) ms sink =
      Inr (sink\<lparr>written := written sink @ concat (map (message_bytes encode) ms)\<rparr>)"
    if "list_all (fits limit encode) ms" "broken sink = None" for ms sink
    using that by (induction ms arbitrary: sink) (auto simp: written)
  have "read_frames (rd decode) (length ms) s = Inr (ms, s\<lparr>pending := rest\<rparr>)"
    if "list_all (fits limit encode) ms" "pending s = concat (map (message_bytes encode) ms) @ rest" for ms s
    using that
  proof (induction ms arbitrary: s)
    case (Cons m ms)
    then have "rd decode s = Inr (m, s\<lparr>pending := concat (map (message_bytes encode) ms) @ rest\<rparr>)"
      by (intro read_back [OF assms(1)]) auto
    with Cons show ?case by simp
  qed simp
  with wrote assms show ?thesis by fastforce
qed

text \<open>A length over the limit is refused from the prefix alone, whatever follows it.\<close>

lemma oversize_refused:
  assumes "limit < n" "n < 2 ^ 32"
  shows "rd decode \<lparr>pending = u32_be (word_of_nat n) @ rest, closing = k\<rparr> = Inl (ME_TooLarge n)"
  using assms by (simp add: rd read_message_def read_exact_def unat_of_len Let_def)

end

interpretation admin_lane: message_lane MAX_ADMIN_MESSAGE read_admin_message write_admin_message
  by unfold_locales (simp_all add: MAX_ADMIN_MESSAGE_def read_admin_message_def write_admin_message_def)

interpretation broker_lane: message_lane MAX_BROKER_FRAME read_broker_frame write_broker_frame
  by unfold_locales (simp_all add: MAX_BROKER_FRAME_def read_broker_frame_def write_broker_frame_def)

end
