(* ===== verification/Admin.thy ===== *)
theory Admin
  imports HostMonitor Messages
begin

text \<open>
  The admin endpoint of the daemon (\<^verbatim>\<open>runtime.rs\<close>): the token file both sides read, the comparison in
  constant time, the handler of one connection with every command, and the client.  The handler is a
  program of the host, so that the other tasks may act before each of its accesses to the shared state;
  \<^verbatim>\<open>serde_json\<close> and the outcomes of the socket are arguments.
\<close>

section \<open>The token\<close>

text \<open>The token file: its text, if there is one and it is UTF-8, and how creating it ends.\<close>

datatype token_io = TokenWritten | TokenFails io_kind "string option"

definition valid_token :: "string \<Rightarrow> bool" where
  "valid_token t = (case SessionId_from_str (ascii t) of Inl _ \<Rightarrow> False | Inr s \<Rightarrow> s \<noteq> SessionId_ZERO)"

definition load_or_create_admin_token ::
  "SessionId \<Rightarrow> token_io \<Rightarrow> string option \<Rightarrow> (io_kind + string) \<times> string option" where
  "load_or_create_admin_token fresh io file =
     (let create = (let token = SessionId_to_string fresh in
           (case io of TokenWritten \<Rightarrow> (Inr token, Some token) | TokenFails kind left \<Rightarrow> (Inl kind, left)))
      in case file of
           None \<Rightarrow> create
         | Some content \<Rightarrow>
             let token = trim content in if valid_token token then (Inr token, file) else create)"

definition byte_at :: "bytes \<Rightarrow> nat \<Rightarrow> u8" where
  "byte_at bs i = (if i < length bs then bs ! i else 0)"

definition constant_time_eq :: "bytes \<Rightarrow> bytes \<Rightarrow> bool" where
  "constant_time_eq left right =
     (fold (\<lambda>i difference. or difference (ucast (xor (byte_at left i) (byte_at right i))))
        [0..<max (length left) (length right)]
        (xor (word_of_nat (length left)) (word_of_nat (length right)) :: 64 word) = 0)"

section \<open>Requests and responses\<close>

record AdminRequest =
  aq_token :: bytes
  aq_command :: string

text \<open>The error of a response, by what it says.\<close>

datatype admin_failure = AF_Authentication | AF_Stop ControlError | AF_ShutdownState | AF_UnknownCommand

record AdminResponse =
  an_ok :: bool
  an_repairs_suppressed :: bool
  an_error :: "admin_failure option"
  an_status :: "StateSnapshot option"

section \<open>The stop request of the control handle\<close>

text \<open>Whether the control server is gone, and whether it drops the requester without an answer.\<close>

record stop_lane =
  sl_closed :: bool
  sl_dropped :: bool

definition handle_request_stop :: "host_env \<Rightarrow> stop_lane \<Rightarrow> duration \<Rightarrow> (ControlError + unit) host" where
  "handle_request_stop env lane timeout = do {
     now \<leftarrow> time_now env;
     (if sl_closed lane then State_Monad.return (Inl CE_CommandUnavailable)
      else do {
        sent \<leftarrow> atomic env (\<lambda>h.
          (if length (ct_commands (h_control h)) < COMMAND_LANE_CAPACITY
           then (Some (ct_issued (h_control h)), h\<lparr>h_control := request_stop (now + timeout) (h_control h)\<rparr>)
           else (None, h)));
        (case sent of
           None \<Rightarrow> State_Monad.return (Inl CE_StopTimeout)
         | Some ticket \<Rightarrow> atomic env (\<lambda>h.
             (request_stop_result (case map_of (ct_replies (h_control h)) ticket of
                Some answer \<Rightarrow> SW_Answer answer
              | None \<Rightarrow> if sl_dropped lane then SW_Dropped else SW_Deadline), h)))
      })
   }"

text \<open>The wait for the operation lock, a point where the other tasks act; that the lock excludes a running repair is the
  subject of the interleaving model in the theory \<open>StopDrain\<close>.\<close>

definition drain_repairs :: "host_env \<Rightarrow> unit host" where
  "drain_repairs env = operation_lock env"

section \<open>The handler\<close>

definition STOP_TIMEOUT :: duration where "STOP_TIMEOUT = seconds 6"

definition admin_host_resume :: "host_env \<Rightarrow> AdminResponse host" where
  "admin_host_resume env = do {
     status \<leftarrow> control_snapshot env;
     status \<leftarrow> (if snap_state status \<in> set [Connected, Degraded] then do {
         _ \<leftarrow> monitor_do env notify_host_resume;
         handle_reset env TRANSPORT_RECOVERY_REASON
       } else State_Monad.return status);
     State_Monad.return
       \<lparr>an_ok = True, an_repairs_suppressed = False, an_error = None, an_status = Some status\<rparr>
   }"

definition admin_stop :: "host_env \<Rightarrow> stop_lane \<Rightarrow> AdminResponse host" where
  "admin_stop env lane = do {
     monitor_set env begin_suppress_repairs;
     result \<leftarrow> handle_request_stop env lane STOP_TIMEOUT;
     drain_repairs env;
     status \<leftarrow> control_snapshot env;
     State_Monad.return
       (case result of
          Inr _ \<Rightarrow> \<lparr>an_ok = True, an_repairs_suppressed = True, an_error = None, an_status = Some status\<rparr>
        | Inl e \<Rightarrow> \<lparr>an_ok = False, an_repairs_suppressed = True, an_error = Some (AF_Stop e), an_status = Some status\<rparr>)
   }"

definition admin_status :: "host_env \<Rightarrow> AdminResponse host" where
  "admin_status env = do {
     status \<leftarrow> control_snapshot env;
     State_Monad.return
       \<lparr>an_ok = True, an_repairs_suppressed = False, an_error = None, an_status = Some status\<rparr>
   }"

definition admin_shutdown :: "host_env \<Rightarrow> AdminResponse host" where
  "admin_shutdown env = do {
     status \<leftarrow> control_snapshot env;
     suppressed \<leftarrow> monitor_get env (\<lambda>m. as_repair_suppressed (AdbHealthMonitor_snapshot m));
     State_Monad.return
       (let stopped = (snap_state status = Stopped) in
        \<lparr>an_ok = stopped, an_repairs_suppressed = suppressed,
         an_error = (if stopped then None else Some AF_ShutdownState), an_status = Some status\<rparr>)
   }"

definition admin_respond :: "host_env \<Rightarrow> stop_lane \<Rightarrow> string \<Rightarrow> AdminResponse host" where
  "admin_respond env lane command =
     (if command = ''host_resume'' then admin_host_resume env
      else if command = ''stop'' then admin_stop env lane
      else if command = ''status'' then admin_status env
      else if command = ''shutdown'' then admin_shutdown env
      else State_Monad.return
        \<lparr>an_ok = False, an_repairs_suppressed = False, an_error = Some AF_UnknownCommand, an_status = None\<rparr>)"

definition authentication_failed :: AdminResponse where
  "authentication_failed =
     \<lparr>an_ok = False, an_repairs_suppressed = False, an_error = Some AF_Authentication, an_status = None\<rparr>"

text \<open>One connection: whether the request arrives within the timeout, after how many bytes the response
  times out if it does, and the texts of \<^verbatim>\<open>serde_json\<close>.\<close>

datatype admin_error = AdminMessage message_error | AdminTimeout

record admin_io =
  ai_request_timely :: bool
  ai_response_late :: "nat option"
  ai_lane :: stop_lane
  ai_decode :: "bytes \<Rightarrow> AdminRequest option"
  ai_encode :: "AdminResponse \<Rightarrow> bytes option"

definition respond_within :: "admin_io \<Rightarrow> AdminResponse \<Rightarrow> byte_sink \<Rightarrow> (admin_error + unit) \<times> byte_sink" where
  "respond_within io response sink =
     (case write_admin_message (ai_encode io) response sink of
        Inl e \<Rightarrow> (Inl (AdminMessage e), sink)
      | Inr sink' \<Rightarrow>
          (case ai_response_late io of
             Some n \<Rightarrow> (Inl AdminTimeout, sink\<lparr>written := written sink @ take n (message_bytes (ai_encode io) response)\<rparr>)
           | None \<Rightarrow> (Inr (), sink')))"

text \<open>The result of the handler, what it has written, and whether it asked the daemon to shut down.\<close>

definition admin_handle ::
  "host_env \<Rightarrow> bytes \<Rightarrow> admin_io \<Rightarrow> byte_stream \<Rightarrow> byte_sink \<Rightarrow> ((admin_error + unit) \<times> byte_sink \<times> bool) host" where
  "admin_handle env token io stream sink =
     (if \<not> ai_request_timely io then State_Monad.return (Inl AdminTimeout, sink, False)
      else
        (case read_admin_message (ai_decode io) stream of
           Inl e \<Rightarrow> State_Monad.return (Inl (AdminMessage e), sink, False)
         | Inr (request, stream) \<Rightarrow>
             if \<not> constant_time_eq (aq_token request) token
             then State_Monad.return (let (r, sink) = respond_within io authentication_failed sink in (r, sink, False))
             else do {
               response \<leftarrow> admin_respond env (ai_lane io) (aq_command request);
               State_Monad.return
                 (let (r, sink) = respond_within io response sink in
                  (r, sink, r = Inr () \<and> aq_command request = ''shutdown'' \<and> an_ok response))
             }))"

section \<open>The client\<close>

text \<open>The token it read, if it could, and the stream of the connection: what it writes and what it reads.\<close>

definition admin_request_of :: "string \<Rightarrow> string \<Rightarrow> AdminRequest" where
  "admin_request_of file command = \<lparr>aq_token = ascii (trim file), aq_command = command\<rparr>"

definition admin_command ::
  "(AdminRequest \<Rightarrow> bytes option) \<Rightarrow> (bytes \<Rightarrow> AdminResponse option) \<Rightarrow> bool \<Rightarrow> io_kind + string \<Rightarrow> string \<Rightarrow>
   byte_sink \<Rightarrow> byte_stream \<Rightarrow> (admin_error + AdminResponse) \<times> byte_sink" where
  "admin_command encode decode timely file command sink stream =
     (case file of
        Inl k \<Rightarrow> (Inl (AdminMessage (ME_Io k)), sink)
      | Inr content \<Rightarrow>
          (case write_admin_message encode (admin_request_of content command) sink of
             Inl e \<Rightarrow> (Inl (if timely then AdminMessage e else AdminTimeout), sink)
           | Inr sink \<Rightarrow>
               (if \<not> timely then Inl AdminTimeout
                else (case read_admin_message decode stream of
                        Inl e \<Rightarrow> Inl (AdminMessage e)
                      | Inr (response, stream) \<Rightarrow> Inr response), sink)))"

section \<open>The listener\<close>

definition MAX_ADMIN_CONNECTIONS :: nat where "MAX_ADMIN_CONNECTIONS = 8"

record admin_listener =
  ls_permits :: nat
  ls_handlers :: nat

definition admin_listening :: admin_listener where
  "admin_listening = \<lparr>ls_permits = MAX_ADMIN_CONNECTIONS, ls_handlers = 0\<rparr>"

datatype listener_event = AdminAccepted | AdminHandlerEnds

fun admin_listen :: "listener_event \<Rightarrow> admin_listener \<Rightarrow> admin_listener" where
  "admin_listen AdminAccepted l =
     (if ls_permits l = 0 then l else l\<lparr>ls_permits := ls_permits l - 1, ls_handlers := ls_handlers l + 1\<rparr>)"
| "admin_listen AdminHandlerEnds l =
     (if ls_handlers l = 0 then l else l\<lparr>ls_permits := ls_permits l + 1, ls_handlers := ls_handlers l - 1\<rparr>)"

text \<open>Claiming the socket path: \<open>None\<close> when nothing exists there, else how connecting to it ends.\<close>

definition claim_admin_socket :: "(io_kind + unit) option \<Rightarrow> io_kind + bool" where
  "claim_admin_socket existing =
     (case existing of
        None \<Rightarrow> Inr False
      | Some (Inr _) \<Rightarrow> Inl OtherIo
      | Some (Inl kind) \<Rightarrow> if kind \<in> set [ConnectionRefused, NotFound] then Inr True else Inl kind)"

end
