(* ===== verification/HostLaws.thy ===== *)
theory HostLaws
  imports Admin
begin

text \<open>
  The rules for programs of the host: an assertion that the other tasks respect and every atomic
  operation keeps is kept by every program.  The rules are proved once, in a locale whose parameters are
  the environment and the assertion, and instantiated for the invariant of the host and for a closed
  relay.
\<close>

section \<open>What a monitor operation keeps\<close>

definition begun :: "AdbHealthMonitor \<Rightarrow> bool" where
  "begun m \<longleftrightarrow> tr_state (am_transport_recovery m) \<noteq> TR_Idle"

definition monitor_step_ok :: "AdbHealthMonitor \<Rightarrow> AdbHealthMonitor \<Rightarrow> bool" where
  "monitor_step_ok m m' \<longleftrightarrow>
     (recovery_ok (am_transport_recovery m) \<longrightarrow> recovery_ok (am_transport_recovery m')) \<and>
     (am_stopping m \<longrightarrow> am_stopping m') \<and> (begun m \<longrightarrow> begun m')"

named_theorems monitor_ok

lemma monitor_ok_same:
  "am_transport_recovery m' = am_transport_recovery m \<Longrightarrow> am_stopping m' = am_stopping m \<Longrightarrow> monitor_step_ok m m'"
  by (simp add: monitor_step_ok_def begun_def)

lemma recovery_apply_ok: "monitor_step_ok m (recovery_apply op m)"
  unfolding monitor_step_ok_def
proof (intro conjI impI)
  assume "recovery_ok (am_transport_recovery m)"
  then show "recovery_ok (am_transport_recovery (recovery_apply op m))" by (rule recovery_ok_apply)
next
  assume "am_stopping m"
  then show "am_stopping (recovery_apply op m)" by (cases op) (auto simp: recovery_defs split: option.splits)
next
  assume "begun m"
  then show "begun (recovery_apply op m)" by (cases op) (auto simp: begun_def recovery_defs split: option.splits)
qed

lemma set_status_same [simp]:
  "am_transport_recovery (set_status a b c d m) = am_transport_recovery m" "am_stopping (set_status a b c d m) = am_stopping m"
  by (simp_all add: set_status_def update_status_def Let_def)

lemma recovery_ops_ok [monitor_ok]:
  "monitor_step_ok m (snd (rearm_failed_transport_from_authenticated_control m))"
  "monitor_step_ok m (snd (notify_usb_reconnected_if_needed m))"
  "monitor_step_ok m (note_usb_disconnected m)"
  "monitor_step_ok m (snd (begin_transport_recovery_attempt m))"
  "monitor_step_ok m (snd (complete_authenticated_transport_recovery m))"
  "monitor_step_ok m (snd (expire_transport_recovery_control g a m))"
  "monitor_step_ok m (schedule_transport_recovery_rearm g t m)"
  using recovery_apply_ok [of m RearmAuthenticated] recovery_apply_ok [of m UsbReconnected]
    recovery_apply_ok [of m UsbDisconnected] recovery_apply_ok [of m BeginAttempt]
    recovery_apply_ok [of m CompleteAuthenticated] recovery_apply_ok [of m "ExpireControl g a"]
    recovery_apply_ok [of m "ScheduleRearm g t"] by simp_all

lemma admin_ops_ok [monitor_ok]:
  "monitor_step_ok m (begin_suppress_repairs m)" "monitor_step_ok m (snd (notify_host_resume m))"
  using recovery_apply_ok [of m SuppressRepairs] recovery_apply_ok [of m HostResumed] by simp_all

lemma rearm_ok [monitor_ok]: "monitor_step_ok m (snd (rearm_failed_transport g t m))"
  by (auto simp: monitor_step_ok_def begun_def recovery_ok_def rearm_failed_transport_def notify_one_def
      sync_transport_recovery_status_def set_recovery_def Let_def)

lemma other_ops_ok [monitor_ok]:
  "monitor_step_ok m (notify_authenticated_connection m)" "monitor_step_ok m (notify_state_change m)"
  "monitor_step_ok m (set_status a b c d m)" "monitor_step_ok m (snd (update_status a b c d m))"
  "monitor_step_ok m (record_mapping_probe t m)" "monitor_step_ok m (monitor_spawn t k m)"
  "monitor_step_ok m (snd (update_android_liveness f m))" "monitor_step_ok m (snd (next_reconnect_generation m))"
  "monitor_step_ok m (retry_authenticated_reconcile_if_needed m)"
  "monitor_step_ok m (m\<lparr>am_notified := b\<rparr>)" "monitor_step_ok m (m\<lparr>am_authenticated_reconcile := b\<rparr>)"
  "monitor_step_ok m (m\<lparr>am_transport_rearm_scheduled := l\<rparr>)" "monitor_step_ok m m"
  by (rule monitor_ok_same;
      simp add: notify_authenticated_connection_def notify_state_change_def notify_one_def update_status_def
        record_mapping_probe_def monitor_spawn_def update_android_liveness_def next_reconnect_generation_def
        retry_authenticated_reconcile_if_needed_def Let_def)+

text \<open>Two operations rely on a recovery that has started.\<close>

lemma begun_ops_ok:
  assumes "begun m"
  shows "monitor_step_ok m (wait_for_recovery_device m)"
    "monitor_step_ok m (snd (finish_transport_recovery_attempt g ok m))"
  using assms recovery_apply_ok [of m "FinishAttempt g ok"]
  by (auto simp: monitor_step_ok_def begun_def recovery_ok_def wait_for_recovery_device_def set_recovery_def
      sync_transport_recovery_status_def Let_def)

lemma begin_begun: "begin_transport_recovery_attempt m = (Some x, m') \<Longrightarrow> begun m'"
  by (auto simp: begin_transport_recovery_attempt_def begun_def set_recovery_def sync_transport_recovery_status_def Let_def
      split: if_splits option.splits)

lemma required_begun: "transport_requires_recovery m \<Longrightarrow> begun m"
  by (auto simp: transport_requires_recovery_def begun_def)

section \<open>What the other tasks keep\<close>

lemma monitor_step_refl [simp]: "monitor_step_ok m m"
  by (simp add: monitor_step_ok_def)

lemma monitor_step_trans: "monitor_step_ok a b \<Longrightarrow> monitor_step_ok b c \<Longrightarrow> monitor_step_ok a c"
  by (auto simp: monitor_step_ok_def)

lemma act_ok: "monitor_step_ok (h_monitor h) (h_monitor (act_apply a h))"
  by (cases a) (auto simp: publish_host_def recovery_apply_ok other_ops_ok)

lemma acts_ok: "monitor_step_ok (h_monitor h) (h_monitor (fold act_apply acts h))"
proof (induction acts arbitrary: h)
  case (Cons a acts)
  from monitor_step_trans [OF act_ok [of h a] Cons.IH] show ?case by simp
qed simp

lemma interfere_ok: "monitor_step_ok (h_monitor h) (h_monitor (interfere env h))"
  using acts_ok [of "h\<lparr>h_turn := h_turn h + 1\<rparr>"] by (simp add: interfere_def)

text \<open>An assertion about the shared state that every permitted act keeps is kept by the other tasks.\<close>

lemma acts_keep:
  assumes "\<And>a h. permitted a \<Longrightarrow> P h \<Longrightarrow> P (act_apply a h)" "list_all permitted acts" "P h"
  shows "P (fold act_apply acts h)"
  using assms(2,3) by (induction acts arbitrary: h) (auto simp: assms(1))

section \<open>Rules for programs\<close>

definition keeps :: "(Host \<Rightarrow> bool) \<Rightarrow> 'a host \<Rightarrow> bool" where
  "keeps P m \<longleftrightarrow> (\<forall>h. P h \<longrightarrow> P (snd (run_state m h)))"

named_theorems keeps_intro

lemma keeps_return [keeps_intro]: "keeps P (State_Monad.return x)"
  by (simp add: keeps_def)

lemma keeps_bind [keeps_intro]: "keeps P m \<Longrightarrow> (\<And>x. keeps P (k x)) \<Longrightarrow> keeps P (m \<bind> k)"
  by (auto simp: keeps_def State_Monad.bind_def split: prod.splits)

lemma keeps_cases [keeps_intro]:
  "(b \<Longrightarrow> keeps P m1) \<Longrightarrow> (\<not> b \<Longrightarrow> keeps P m2) \<Longrightarrow> keeps P (if b then m1 else m2)"
  "keeps P m1 \<Longrightarrow> (\<And>x. keeps P (f x)) \<Longrightarrow> keeps P (case u of None \<Rightarrow> m1 | Some x \<Rightarrow> f x)"
  "(\<And>x. keeps P (g x)) \<Longrightarrow> (\<And>x. keeps P (f' x)) \<Longrightarrow> keeps P (case v of Inl x \<Rightarrow> g x | Inr x \<Rightarrow> f' x)"
  "(\<And>x y. keeps P (j x y)) \<Longrightarrow> keeps P (case p of (x, y) \<Rightarrow> j x y)"
  "(b' \<Longrightarrow> keeps P w) \<Longrightarrow> keeps P (do_when b' w)"
  by (auto simp: keeps_def do_when_def split: option.splits sum.splits prod.splits)

text \<open>The rest of a program may rely on what the result of its first part says.\<close>

lemma keeps_bind_post:
  assumes "\<And>h. P h \<Longrightarrow> P (snd (run_state m h)) \<and> Q (fst (run_state m h)) (snd (run_state m h))"
    and "\<And>x h. P h \<Longrightarrow> Q x h \<Longrightarrow> P (snd (run_state (k x) h))"
  shows "keeps P (m \<bind> k)"
  using assms by (auto simp: keeps_def State_Monad.bind_def split: prod.splits) (metis fst_conv snd_conv)

section \<open>The rules of the host\<close>

locale host_rules =
  fixes env :: host_env and P :: "Host \<Rightarrow> bool" and allowed :: "StateSnapshot \<Rightarrow> bool"
  assumes others: "P h \<Longrightarrow> P (interfere env h)"
    and frame_store: "P h \<Longrightarrow> P (h\<lparr>h_store := ss\<rparr>)"
    and frame_events: "P h \<Longrightarrow> P (h\<lparr>h_events := es\<rparr>)"
    and frame_tasks: "P h \<Longrightarrow> P (h\<lparr>h_tasks := ts\<rparr>)"
    and frame_adb: "P h \<Longrightarrow> P (h\<lparr>h_adb := w\<rparr>)"
    and control: "P h \<Longrightarrow> ct_published st = ct_published (h_control h) \<Longrightarrow> P (h\<lparr>h_control := st\<rparr>)"
    and monitor: "P h \<Longrightarrow> monitor_step_ok (h_monitor h) m \<Longrightarrow> P (h\<lparr>h_monitor := m\<rparr>)"
    and relay: "P h \<Longrightarrow> op \<noteq> ControlConnected \<Longrightarrow> P (h\<lparr>h_relay := controller_apply op (h_relay h)\<rparr>)"
    and published: "P h \<Longrightarrow> allowed s \<Longrightarrow> P (publish_host s h)"
    and lost: "allowed (snapshot (transport_lost reason sm))"
begin

lemma keeps_atomic: "(\<And>h. P h \<Longrightarrow> P (snd (f h))) \<Longrightarrow> keeps P (atomic env f)"
  by (simp add: keeps_def atomic_def others)

lemma monitor_do_keeps: "(\<And>m. monitor_step_ok m (snd (f m))) \<Longrightarrow> keeps P (monitor_do env f)"
  unfolding monitor_do_def by (rule keeps_atomic) (auto simp: split_beta intro: monitor)

lemma monitor_set_keeps: "(\<And>m. monitor_step_ok m (f m)) \<Longrightarrow> keeps P (monitor_set env f)"
  unfolding monitor_set_def by (rule monitor_do_keeps) simp

lemma monitor_get_keeps: "keeps P (monitor_get env f)"
  unfolding monitor_get_def by (rule monitor_do_keeps) (simp add: other_ops_ok)

lemma relay_do_keeps: "(\<And>c. \<exists>op. op \<noteq> ControlConnected \<and> snd (f c) = controller_apply op c) \<Longrightarrow> keeps P (relay_do env f)"
  unfolding relay_do_def by (rule keeps_atomic) (auto simp: split_beta, metis relay)

lemma relay_set_keeps:
  "keeps P (relay_set env screen_suspended)" "keeps P (relay_set env authenticated_wake)"
  "keeps P (relay_set env carrier_lost)" "keeps P (relay_set env carrier_lost_awaiting_recovery)"
  "keeps P (relay_set env carrier_healthy)" "keeps P (relay_set env control_inactive_awaiting_recovery)"
  "keeps P (relay_do env (screen_suspended_if_epoch epoch))"
  unfolding relay_set_def
        apply (rule relay_do_keeps, rule exI [of _ ScreenSuspended], simp)
       apply (rule relay_do_keeps, rule exI [of _ AuthenticatedWake], simp)
      apply (rule relay_do_keeps, rule exI [of _ CarrierLost], simp)
     apply (rule relay_do_keeps, rule exI [of _ CarrierLostAwaitingRecovery], simp)
    apply (rule relay_do_keeps, rule exI [of _ CarrierHealthy], simp)
   apply (rule relay_do_keeps, rule exI [of _ ControlInactiveAwaitingRecovery], simp)
  apply (rule relay_do_keeps, rule exI [of _ "ScreenSuspendedIfEpoch epoch"], simp)
  done

lemma relay_get_keeps: "keeps P (relay_do env (\<lambda>c. (f c, c)))"
  unfolding relay_do_def by (rule keeps_atomic) simp

lemma simple_keeps:
  "keeps P (load_stopping env)" "keeps P (time_now env)" "keeps P (operation_lock env)"
  "keeps P (record_event env name details)" "keeps P (control_snapshot env)" "keeps P (store_write env s)"
  unfolding load_stopping_def time_now_def operation_lock_def record_event_def control_snapshot_def store_write_def
  by (auto intro!: monitor_get_keeps keeps_atomic simp: frame_events frame_store split: option.splits)

lemma spawn_keeps: "keeps P (spawn_blocking env locked job)"
  unfolding spawn_blocking_def
  by (auto intro!: keeps_bind keeps_atomic simp: split_beta frame_tasks frame_adb)

lemmas basic_keeps = monitor_get_keeps relay_set_keeps relay_get_keeps simple_keeps spawn_keeps

lemma observer_keeps: "allowed s \<Longrightarrow> keeps P (observer env s)"
  unfolding observer_def observe_connected_def observe_gate_def
  by (intro keeps_intro basic_keeps keeps_atomic monitor_do_keeps monitor_set_keeps monitor_ok)
     (simp add: published)

lemma handle_lost_keeps: "keeps P (handle_lost env reason)"
proof -
  have "keeps P (do { observer env s; State_Monad.return s })" if "allowed s" for s
    using that by (intro keeps_intro observer_keeps)
  then show ?thesis unfolding handle_lost_def
    by (intro keeps_bind_post [where Q = "\<lambda>s h. allowed s"])
       (auto simp: keeps_def atomic_def Let_def lost intro!: control others)
qed

lemma handle_reset_keeps: "keeps P (handle_reset env reason)"
  unfolding handle_reset_def
  by (intro keeps_intro handle_lost_keeps keeps_atomic) (auto intro: control split: option.splits)

lemma record_loss_keeps: "keeps P (record_loss env available category)"
  unfolding record_loss_def
  by (intro keeps_intro basic_keeps handle_lost_keeps monitor_do_keeps monitor_ok)

lemma track_failed_keeps: "keeps P (track_failed env c category)"
  unfolding track_failed_def track_lost_def
  by (intro keeps_intro basic_keeps record_loss_keeps monitor_set_keeps monitor_ok)

lemma schedule_keeps: "keeps P (schedule_rearm env g t)"
  unfolding schedule_rearm_def
  by (intro keeps_intro basic_keeps monitor_do_keeps) (simp add: Let_def recovery_ops_ok)

lemma rearm_task_keeps: "keeps P (rearm_failed_task env g t)"
  unfolding rearm_failed_task_def
  by (intro keeps_intro basic_keeps monitor_do_keeps monitor_set_keeps monitor_ok)

lemma control_timeout_keeps: "keeps P (control_timeout_task env g a t)"
  unfolding control_timeout_task_def
  by (intro keeps_intro basic_keeps schedule_keeps monitor_do_keeps monitor_ok)

lemma wake_suspend_keeps: "keeps P (wake_observer env)" "keeps P (suspend_observer env)"
  unfolding wake_observer_def suspend_observer_def
  by (intro keeps_intro basic_keeps monitor_set_keeps monitor_ok)+

lemma sleep_keeps: "keeps P (reconcile_android_sleep env c)"
  unfolding reconcile_android_sleep_def by (intro keeps_intro basic_keeps)

lemma repair_keeps: "keeps P (repair_loop env c mappings)"
  by (induction mappings) (auto intro!: keeps_intro basic_keeps)

lemma repair_finish_keeps: "keeps P (repair_finish env failed)"
  unfolding repair_finish_def
  by (intro keeps_intro basic_keeps record_loss_keeps monitor_do_keeps monitor_set_keeps monitor_ok)

lemma reconcile_keeps: "keeps P (reconcile env c available)"
  unfolding reconcile_def reconcile_probe_def reconcile_missing_def
  by (intro keeps_intro basic_keeps record_loss_keeps repair_keeps repair_finish_keeps sleep_keeps
      monitor_do_keeps monitor_set_keeps monitor_ok)

lemma restart_step_keeps: "keeps P (android_restart_step env phase job)"
  unfolding android_restart_step_def by (intro keeps_intro basic_keeps)

lemma restart_keeps: "keeps P (restart_android env config)"
  unfolding restart_android_def restart_phases_def restart_reopen_def and_then_def
  by (intro keeps_intro basic_keeps restart_step_keeps handle_reset_keeps monitor_do_keeps monitor_set_keeps monitor_ok)

lemma supervise_keeps: "keeps P (supervise_android env config available)"
  unfolding supervise_android_def supervise_probe_def
  by (intro keeps_intro basic_keeps restart_keeps monitor_do_keeps monitor_set_keeps monitor_ok)

lemma forced_keeps: "keeps P (forced_completion env)"
  unfolding forced_completion_def take_forced_def complete_recovery_def
  by (intro keeps_intro basic_keeps monitor_do_keeps) (simp_all add: other_ops_ok split_beta recovery_ops_ok)

lemma reconcile_forced_keeps: "keeps P (reconcile_forced env c available forced)"
  unfolding reconcile_forced_def by (intro keeps_intro reconcile_keeps monitor_set_keeps monitor_ok)

lemma request_stop_keeps: "keeps P (handle_request_stop env lane timeout)"
  unfolding handle_request_stop_def
  by (intro keeps_intro basic_keeps keeps_atomic) (auto intro: control simp: request_stop_def)

lemma respond_keeps: "keeps P (admin_respond env lane command)"
  unfolding admin_respond_def admin_host_resume_def admin_stop_def admin_status_def admin_shutdown_def drain_repairs_def
  by (intro keeps_intro basic_keeps request_stop_keeps handle_reset_keeps monitor_do_keeps monitor_set_keeps monitor_ok)

lemma admin_keeps: "keeps P (admin_handle env token io stream sink)"
  unfolding admin_handle_def by (intro keeps_intro respond_keeps)

end

text \<open>In a recovery that has started, the attempt may be finished and the device may be waited for.\<close>

locale begun_rules = host_rules +
  assumes started: "P h \<Longrightarrow> begun (h_monitor h)"
begin

lemma begun_do_keeps: "(\<And>m. begun m \<Longrightarrow> monitor_step_ok m (snd (f m))) \<Longrightarrow> keeps P (monitor_do env f)"
  unfolding monitor_do_def by (rule keeps_atomic) (auto simp: split_beta intro: monitor started)

lemma begun_set_keeps: "(\<And>m. begun m \<Longrightarrow> monitor_step_ok m (f m)) \<Longrightarrow> keeps P (monitor_set env f)"
  unfolding monitor_set_def by (rule begun_do_keeps) simp

lemma finish_keeps:
  "keeps P (monitor_do env (finish_transport_recovery_attempt g ok))" "keeps P (monitor_set env wait_for_recovery_device)"
  by (rule begun_do_keeps begun_set_keeps, erule begun_ops_ok)+

lemma recovery_begun_keeps: "keeps P (recovery_begun env c g a t)"
  unfolding recovery_begun_def recovery_attempt_def recovery_rebuilt_def recovery_failed_def
  by (intro keeps_intro basic_keeps finish_keeps handle_reset_keeps schedule_keeps
      monitor_do_keeps monitor_set_keeps monitor_ok)

end

context host_rules
begin

lemma with_begun: "begun_rules env (\<lambda>h. P h \<and> begun (h_monitor h)) allowed"
proof unfold_locales
  show "P (interfere env h) \<and> begun (h_monitor (interfere env h))" if "P h \<and> begun (h_monitor h)" for h
    using that others interfere_ok [of h env] by (auto simp: monitor_step_ok_def)
qed (auto simp: frame_store frame_events frame_tasks frame_adb control monitor relay published lost
    publish_host_def monitor_step_ok_def intro: published [unfolded publish_host_def])

lemmas begun_basic = begun_rules.recovery_begun_keeps [OF with_begun] begun_rules.finish_keeps [OF with_begun]
  host_rules.basic_keeps [OF begun_rules.axioms(1) [OF with_begun]]
  host_rules.monitor_set_keeps [OF begun_rules.axioms(1) [OF with_begun]]
  host_rules.monitor_do_keeps [OF begun_rules.axioms(1) [OF with_begun]]

lemma recover_required_keeps: "keeps (\<lambda>h. P h \<and> begun (h_monitor h)) (recover_required env config available)"
  unfolding recover_required_def by (intro keeps_intro begun_basic monitor_ok)

lemma recover_keeps: "keeps P (recover_transport env config available)"
  unfolding recover_transport_def
proof (rule keeps_bind_post [where Q = "\<lambda>required h. required \<longrightarrow> begun (h_monitor h)"])
  fix h assume "P h"
  with monitor_get_keeps [of transport_requires_recovery] show
    "P (snd (run_state (monitor_get env transport_requires_recovery) h)) \<and>
      (fst (run_state (monitor_get env transport_requires_recovery) h) \<longrightarrow>
       begun (h_monitor (snd (run_state (monitor_get env transport_requires_recovery) h))))"
    unfolding keeps_def by (simp add: monitor_get_def monitor_do_def atomic_def required_begun)
next
  fix required h assume "P h" "required \<longrightarrow> begun (h_monitor h)"
  then show "P (snd (run_state (if \<not> required then State_Monad.return False
      else do { recover_required env config available; State_Monad.return True }) h))"
    using recover_required_keeps [of config available] by (auto simp: keeps_def State_Monad.bind_def split_beta)
qed

lemma on_updates_keeps: "keeps P (on_updates env config updates)"
  by (induction updates)
     (auto simp: on_update_def intro!: keeps_intro forced_keeps recover_keeps reconcile_forced_keeps monitor_do_keeps monitor_ok)

lemma on_health_tick_keeps: "keeps P (on_health_tick env config available)"
  unfolding on_health_tick_def
  by (intro keeps_intro basic_keeps forced_keeps recover_keeps reconcile_forced_keeps supervise_keeps)

lemma on_changed_keeps: "keeps P (on_changed env config available)"
  unfolding on_changed_def by (intro keeps_intro basic_keeps forced_keeps recover_keeps reconcile_forced_keeps)

lemma tracker_arm_keeps: "keeps P (tracker_arm env config event tk)"
  by (cases event)
     (auto simp: on_read_def intro!: keeps_intro basic_keeps on_updates_keeps on_health_tick_keeps on_changed_keeps
        monitor_set_keeps monitor_ok)

lemma tracker_loop_keeps: "keeps P (tracker_loop env config events tk)"
  by (induction events arbitrary: tk)
     (auto intro!: keeps_intro tracker_arm_keeps basic_keeps split: tracker_turn.splits)

lemma tracker_backoff_keeps: "keeps P (tracker_backoff env c category backoff)"
  unfolding tracker_backoff_def sleep_or_stop_def by (intro keeps_intro basic_keeps track_failed_keeps)

lemma tracked_keeps: "keeps P (tracked env config events backoff)"
  unfolding tracked_def
  by (auto intro!: keeps_intro basic_keeps tracker_loop_keeps tracker_backoff_keeps monitor_set_keeps monitor_ok
      split: tracker_turn.splits)

lemma monitor_lives_keeps: "keeps P (monitor_lives env config lives backoff)"
  by (induction lives arbitrary: backoff)
     (auto intro!: keeps_intro basic_keeps tracker_backoff_keeps tracked_keeps
        split: tracker_life.splits monitor_outcome.splits)

lemma monitor_run_keeps: "keeps P (monitor_run env config lives)"
  unfolding monitor_run_def by (rule monitor_lives_keeps)

end

end
