(* ===== verification/HostStop.thy ===== *)
theory HostStop
  imports HostLaws
begin

text \<open>
  What an explicit stop can find in its way: the monitor checks the stop flag before every ADB task it runs
  under its operation lock, so at most one such task is still started once the flag is set.
\<close>

section \<open>Counting\<close>

text \<open>The tasks that were started under the lock although repairs were already suppressed.\<close>

definition late_tasks :: "Host \<Rightarrow> nat" where
  "late_tasks h = length (filter (\<lambda>(locked, stopping). locked \<and> stopping) (h_tasks h))"

abbreviation suppressed :: "Host \<Rightarrow> bool" where
  "suppressed h \<equiv> am_stopping (h_monitor h)"

text \<open>A program that starts no task under the lock, one that starts at most one late task, and one that in
  addition starts none if repairs are suppressed from the beginning.\<close>

definition no_task :: "'a host \<Rightarrow> bool" where
  "no_task m \<longleftrightarrow> (\<forall>h. (suppressed h \<longrightarrow> suppressed (snd (run_state m h))) \<and> late_tasks (snd (run_state m h)) = late_tasks h)"

definition one_late :: "'a host \<Rightarrow> bool" where
  "one_late m \<longleftrightarrow> (\<forall>h. (suppressed h \<longrightarrow> suppressed (snd (run_state m h))) \<and>
     late_tasks h \<le> late_tasks (snd (run_state m h)) \<and> late_tasks (snd (run_state m h)) \<le> late_tasks h + 1 \<and>
     (late_tasks h < late_tasks (snd (run_state m h)) \<longrightarrow> suppressed (snd (run_state m h))))"

definition checked :: "'a host \<Rightarrow> bool" where
  "checked m \<longleftrightarrow> one_late m \<and> (\<forall>h. suppressed h \<longrightarrow> late_tasks (snd (run_state m h)) = late_tasks h)"

named_theorems stop_intro

lemma no_task_checked: "no_task m \<Longrightarrow> checked m"
  by (simp add: no_task_def checked_def one_late_def)

lemma run_bind: "run_state (m \<bind> k) h = run_state (k (fst (run_state m h))) (snd (run_state m h))"
  by (simp add: State_Monad.bind_def split_beta)

lemma no_task_bind [stop_intro]: "no_task m \<Longrightarrow> (\<And>x. no_task (k x)) \<Longrightarrow> no_task (m \<bind> k)"
  by (simp add: no_task_def split_beta)

lemma one_late_then:
  assumes "one_late m" "\<And>x. checked (k x)"
  shows "one_late (m \<bind> k)"
  unfolding one_late_def run_bind
proof (intro allI)
  fix h
  let ?h = "snd (run_state m h)" and ?k = "k (fst (run_state m h))"
  have m: "suppressed h \<longrightarrow> suppressed ?h" "late_tasks h \<le> late_tasks ?h" "late_tasks ?h \<le> late_tasks h + 1"
    "late_tasks h < late_tasks ?h \<longrightarrow> suppressed ?h" using assms(1) by (auto simp: one_late_def)
  have k: "suppressed ?h \<longrightarrow> suppressed (snd (run_state ?k ?h)) \<and> late_tasks (snd (run_state ?k ?h)) = late_tasks ?h"
    "late_tasks ?h \<le> late_tasks (snd (run_state ?k ?h))" "late_tasks (snd (run_state ?k ?h)) \<le> late_tasks ?h + 1"
    "late_tasks ?h < late_tasks (snd (run_state ?k ?h)) \<longrightarrow> suppressed (snd (run_state ?k ?h))"
    using assms(2) [of "fst (run_state m h)"] by (auto simp: checked_def one_late_def)
  show "(suppressed h \<longrightarrow> suppressed (snd (run_state ?k ?h))) \<and>
      late_tasks h \<le> late_tasks (snd (run_state ?k ?h)) \<and> late_tasks (snd (run_state ?k ?h)) \<le> late_tasks h + 1 \<and>
      (late_tasks h < late_tasks (snd (run_state ?k ?h)) \<longrightarrow> suppressed (snd (run_state ?k ?h)))"
    using m k by (cases "late_tasks h < late_tasks ?h") auto
qed

lemma no_task_then:
  assumes "no_task m" "\<And>x. one_late (k x)"
  shows "one_late (m \<bind> k)"
  unfolding one_late_def run_bind
proof
  fix h
  let ?h = "snd (run_state m h)" and ?k = "k (fst (run_state m h))"
  have "suppressed h \<longrightarrow> suppressed ?h" "late_tasks ?h = late_tasks h" using assms(1) by (simp_all add: no_task_def)
  then show "(suppressed h \<longrightarrow> suppressed (snd (run_state ?k ?h))) \<and>
      late_tasks h \<le> late_tasks (snd (run_state ?k ?h)) \<and> late_tasks (snd (run_state ?k ?h)) \<le> late_tasks h + 1 \<and>
      (late_tasks h < late_tasks (snd (run_state ?k ?h)) \<longrightarrow> suppressed (snd (run_state ?k ?h)))"
    using assms(2) [of "fst (run_state m h)", unfolded one_late_def, THEN spec, of ?h] by simp
qed

lemma checked_bind: "checked m \<Longrightarrow> (\<And>x. checked (k x)) \<Longrightarrow> checked (m \<bind> k)"
  using one_late_then [of m k] by (simp add: checked_def one_late_def split_beta)

lemma no_task_return [stop_intro]: "no_task (State_Monad.return x)"
  by (simp add: no_task_def)

lemma no_task_cases [stop_intro]:
  "no_task m1 \<Longrightarrow> no_task m2 \<Longrightarrow> no_task (if b then m1 else m2)"
  "no_task m1 \<Longrightarrow> (\<And>x. no_task (f x)) \<Longrightarrow> no_task (case u of None \<Rightarrow> m1 | Some x \<Rightarrow> f x)"
  "(\<And>x. no_task (g x)) \<Longrightarrow> (\<And>x. no_task (f' x)) \<Longrightarrow> no_task (case v of Inl x \<Rightarrow> g x | Inr x \<Rightarrow> f' x)"
  "(\<And>x y. no_task (j x y)) \<Longrightarrow> no_task (case p of (x, y) \<Rightarrow> j x y)"
  "no_task w \<Longrightarrow> no_task (do_when b w)"
  by (auto simp: do_when_def no_task_return split: option.splits sum.splits prod.splits)

lemma checked_cases:
  "checked m1 \<Longrightarrow> checked m2 \<Longrightarrow> checked (if b then m1 else m2)"
  "checked m1 \<Longrightarrow> (\<And>x. checked (f x)) \<Longrightarrow> checked (case u of None \<Rightarrow> m1 | Some x \<Rightarrow> f x)"
  "(\<And>x. checked (g x)) \<Longrightarrow> (\<And>x. checked (f' x)) \<Longrightarrow> checked (case v of Inl x \<Rightarrow> g x | Inr x \<Rightarrow> f' x)"
  "(\<And>x y. checked (j x y)) \<Longrightarrow> checked (case p of (x, y) \<Rightarrow> j x y)"
  "checked w \<Longrightarrow> checked (do_when b w)"
  by (auto simp: do_when_def no_task_return no_task_checked split: option.splits sum.splits prod.splits)

lemma one_late_cases:
  "one_late m1 \<Longrightarrow> one_late m2 \<Longrightarrow> one_late (if b then m1 else m2)"
  "one_late m1 \<Longrightarrow> (\<And>x. one_late (f x)) \<Longrightarrow> one_late (case u of None \<Rightarrow> m1 | Some x \<Rightarrow> f x)"
  by (auto split: option.splits)

lemma no_task_one: "no_task m \<Longrightarrow> one_late m"
  using no_task_checked by (auto simp: checked_def)

section \<open>Actions\<close>

lemma others_tasks [simp]: "h_tasks (fold act_apply acts h) = h_tasks h"
proof (induction acts arbitrary: h)
  case (Cons a acts)
  then show ?case by (cases a) (auto simp: publish_host_def)
qed simp

lemma interfere_late [simp]: "late_tasks (interfere env h) = late_tasks h"
  by (simp add: late_tasks_def interfere_def)

lemma interfere_suppressed: "suppressed h \<Longrightarrow> suppressed (interfere env h)"
  using interfere_ok [of h env] by (simp add: monitor_step_ok_def)

lemma no_task_atomic:
  "(\<And>h. (suppressed h \<longrightarrow> suppressed (snd (f h))) \<and> h_tasks (snd (f h)) = h_tasks h) \<Longrightarrow> no_task (atomic env f)"
  using interfere_suppressed interfere_late by (auto simp: no_task_def atomic_def late_tasks_def)

lemma no_task_monitor: "(\<And>m. am_stopping m \<longrightarrow> am_stopping (snd (f m))) \<Longrightarrow> no_task (monitor_do env f)"
  unfolding monitor_do_def by (rule no_task_atomic) (simp add: split_beta)

lemma monitor_ok_stopping: "monitor_step_ok m m' \<Longrightarrow> am_stopping m \<longrightarrow> am_stopping m'"
  by (simp add: monitor_step_ok_def)

lemma no_task_do: "(\<And>m. monitor_step_ok m (snd (f m))) \<Longrightarrow> no_task (monitor_do env f)"
  by (rule no_task_monitor) (rule monitor_ok_stopping)

lemma no_task_set: "(\<And>m. monitor_step_ok m (f m)) \<Longrightarrow> no_task (monitor_set env f)"
  unfolding monitor_set_def by (rule no_task_do) simp

lemmas stop_rules = no_task_do no_task_set monitor_ok

lemma no_task_finish [stop_intro]:
  "no_task (monitor_do env (finish_transport_recovery_attempt g ok))" "no_task (monitor_set env wait_for_recovery_device)"
  unfolding monitor_set_def
  by (rule no_task_monitor, simp add: finish_transport_recovery_attempt_def wait_for_recovery_device_def set_recovery_def
      sync_transport_recovery_status_def Let_def)+

lemma no_task_simple [stop_intro]:
  "no_task (relay_do env rf)" "no_task (relay_set env rs)" "no_task (monitor_get env mg)" "no_task (load_stopping env)"
  "no_task (time_now env)" "no_task (operation_lock env)" "no_task (record_event env name details)"
  "no_task (control_snapshot env)" "no_task (store_write env s)"
  unfolding relay_do_def relay_set_def monitor_get_def load_stopping_def time_now_def operation_lock_def record_event_def
    control_snapshot_def store_write_def monitor_do_def
  by (rule no_task_atomic; auto simp: split_beta split: option.splits)+

lemma no_task_unlocked [stop_intro]: "no_task (spawn_blocking env False job)"
proof -
  have "no_task (atomic env (\<lambda>h. ((), h\<lparr>h_tasks := h_tasks h @ [(False, am_stopping (h_monitor h))]\<rparr>)))"
    using interfere_suppressed [of _ env] interfere_late [of env] by (auto simp: no_task_def atomic_def late_tasks_def)
  then show ?thesis unfolding spawn_blocking_def
    by (rule no_task_bind) (rule no_task_atomic, simp add: split_beta)
qed

lemma one_late_spawn: "one_late (spawn_blocking env True job)"
proof -
  have "one_late (atomic env (\<lambda>h. ((), h\<lparr>h_tasks := h_tasks h @ [(True, am_stopping (h_monitor h))]\<rparr>)))"
    using interfere_suppressed [of _ env] interfere_late [of env] by (auto simp: one_late_def atomic_def late_tasks_def)
  then show ?thesis unfolding spawn_blocking_def
    by (rule one_late_then) (rule no_task_checked, rule no_task_atomic, simp add: split_beta)
qed

text \<open>The check: what follows it runs only if repairs were not suppressed when it was made.\<close>

lemma check_first:
  assumes "no_task m1" "one_late m2"
  shows "checked (load_stopping env \<bind> (\<lambda>stopping. if stopping then m1 else m2))"
proof -
  have "one_late (if b then m1 else m2)" for b using assms no_task_checked [of m1] by (simp add: checked_def)
  then have "one_late (load_stopping env \<bind> (\<lambda>stopping. if stopping then m1 else m2))"
    by (intro no_task_then no_task_simple)
  moreover have "late_tasks (snd (run_state (load_stopping env \<bind> (\<lambda>stopping. if stopping then m1 else m2)) h)) = late_tasks h"
    if "suppressed h" for h
    using that assms(1) interfere_suppressed [OF that, of env]
    by (simp add: load_stopping_def monitor_get_def monitor_do_def atomic_def no_task_def)
  ultimately show ?thesis by (simp add: checked_def)
qed

section \<open>The programs of the monitor\<close>

lemma quiet_programs [stop_intro]:
  "no_task (observer env s)" "no_task (handle_lost env reason)" "no_task (handle_reset env reason)"
  "no_task (record_loss env available category)" "no_task (schedule_rearm env g t)"
proof -
  show obs: "no_task (observer env s)" for s
    unfolding observer_def observe_connected_def observe_gate_def
    by (intro stop_intro stop_rules no_task_atomic) (simp add: publish_host_def)
  show lost: "no_task (handle_lost env reason)" for reason
    unfolding handle_lost_def by (intro stop_intro no_task_atomic obs) (simp add: Let_def)
  show "no_task (handle_reset env reason)"
    unfolding handle_reset_def by (intro stop_intro lost no_task_atomic) (simp split: option.split)
  show "no_task (record_loss env available category)"
    unfolding record_loss_def by (intro stop_intro stop_rules lost)
  show "no_task (schedule_rearm env g t)"
    unfolding schedule_rearm_def by (intro stop_intro no_task_do) (simp add: Let_def recovery_ops_ok)
qed

lemma quiet_reports [stop_intro]:
  "no_task (repair_finish env failed)" "no_task (track_failed env c category)"
  "no_task (recovery_rebuilt env g a t)" "no_task (recovery_failed env g a t category)"
  unfolding repair_finish_def track_failed_def track_lost_def recovery_rebuilt_def recovery_failed_def
  by (intro stop_intro stop_rules)+

lemma quiet_forced [stop_intro]: "no_task (forced_completion env)"
  unfolding forced_completion_def take_forced_def complete_recovery_def
  by (intro stop_intro no_task_do) (simp_all add: split_beta recovery_ops_ok other_ops_ok)

lemma checked_recovery: "checked (recover_transport env config available)"
proof -
  have "one_late (recovery_attempt env c g a t)" for c g a t
    unfolding recovery_attempt_def
    by (intro one_late_then one_late_spawn no_task_checked stop_intro)
  then have begun: "checked (recovery_begun env c g a t)" for c g a t
    unfolding recovery_begun_def
    by (intro checked_bind check_first no_task_checked stop_intro stop_rules)
  have required: "checked (recover_required env config available)"
    unfolding recover_required_def
    by (intro checked_bind checked_cases begun no_task_checked stop_intro stop_rules)
  show ?thesis
    unfolding recover_transport_def
    by (intro checked_bind checked_cases required no_task_checked stop_intro)
qed

lemma checked_repair: "checked (repair_loop env c mappings)"
proof (induction mappings)
  case (Cons mapping mappings)
  show ?case unfolding repair_loop.simps
    by (intro check_first one_late_then one_late_spawn checked_cases Cons.IH no_task_checked stop_intro)
qed (simp add: no_task_checked no_task_return)

lemma checked_sleep: "checked (reconcile_android_sleep env c)"
  unfolding reconcile_android_sleep_def
  by (intro check_first stop_intro, rule no_task_then, rule stop_intro)
     (intro one_late_cases one_late_then one_late_spawn no_task_one no_task_checked stop_intro)

lemma checked_missing: "checked (reconcile_missing env c missing)"
proof -
  have late: "one_late (if failed then repair_finish env True else do {
      health \<leftarrow> spawn_blocking env True (mapping_health (he_adb env) c); repair_finish env (\<not> is_healthy health) })" for failed
    by (intro one_late_cases one_late_then one_late_spawn no_task_checked no_task_one stop_intro)
  show ?thesis unfolding reconcile_missing_def
    by (intro checked_bind checked_cases checked_repair check_first late no_task_checked stop_intro)
qed

lemma checked_reconcile: "checked (reconcile env c available)"
proof -
  have probe: "one_late (reconcile_probe env c state)" for state
    unfolding reconcile_probe_def
    by (rule no_task_then, rule stop_intro, rule one_late_then, rule one_late_spawn)
       (intro checked_bind checked_cases checked_missing checked_sleep no_task_checked stop_intro stop_rules)
  have lock: "checked (load_stopping env \<bind> (\<lambda>stopping. if stopping then State_Monad.return () else reconcile_probe env c state))" for state
    by (intro check_first probe stop_intro)
  show ?thesis unfolding reconcile_def
    by (intro checked_bind checked_cases lock no_task_checked stop_intro stop_rules)
qed

lemma checked_restart_step: "checked (android_restart_step env phase job)"
  unfolding android_restart_step_def
  by (intro check_first one_late_then one_late_spawn no_task_checked stop_intro)

lemma checked_phases: "checked (restart_phases env config)"
  unfolding restart_phases_def restart_reopen_def and_then_def
  by (intro checked_bind checked_cases checked_restart_step no_task_checked stop_intro stop_rules)

lemma checked_restart: "checked (restart_android env config)"
proof -
  have tail: "checked (do {
      record_event env name details; relay_set env f; restarted \<leftarrow> restart_phases env config; now \<leftarrow> time_now env; k restarted now })"
    if "\<And>r now. no_task (k r now)" for name details f and k :: "string + unit \<Rightarrow> nat \<Rightarrow> unit host"
    using that by (intro checked_bind checked_phases no_task_checked stop_intro)
  have "one_late (do {
      now \<leftarrow> time_now env; liveness \<leftarrow> monitor_do env (f now); status \<leftarrow> spawn_blocking env True job; k liveness status })"
    if "\<And>now m. monitor_step_ok m (snd (f now m))" "\<And>l s. checked (k l s)"
    for f :: "nat \<Rightarrow> AdbHealthMonitor \<Rightarrow> AndroidLiveness \<times> AdbHealthMonitor" and job :: "'b adb" and k :: "_ \<Rightarrow> 'b option \<Rightarrow> unit host"
    using that by (intro no_task_then one_late_then [OF one_late_spawn] stop_intro no_task_do)
  note head = this
  show ?thesis unfolding restart_android_def
    by (intro checked_bind no_task_checked stop_intro check_first head other_ops_ok tail stop_rules)
qed

lemma checked_supervise: "checked (supervise_android env config available)"
  unfolding supervise_android_def supervise_probe_def
  by (intro checked_bind checked_cases checked_restart no_task_checked stop_intro stop_rules)

lemma checked_reconcile_forced: "checked (reconcile_forced env c available forced)"
  unfolding reconcile_forced_def
  by (intro checked_bind checked_reconcile no_task_checked stop_intro stop_rules)

lemma checked_updates: "checked (on_updates env config updates)"
proof (induction updates)
  case (Cons available updates)
  show ?case unfolding on_updates.simps on_update_def
    by (intro checked_bind checked_cases checked_recovery checked_reconcile_forced Cons.IH no_task_checked stop_intro stop_rules)
qed (simp add: no_task_checked no_task_return)

lemma checked_tick: "checked (on_health_tick env config available)"
  unfolding on_health_tick_def
  by (intro checked_bind checked_cases checked_recovery checked_reconcile_forced checked_supervise no_task_checked stop_intro)

lemma checked_changed: "checked (on_changed env config available)"
  unfolding on_changed_def
  by (intro checked_bind checked_cases checked_recovery checked_reconcile_forced no_task_checked stop_intro)

lemma checked_arm: "checked (tracker_arm env config event tk)"
proof (cases event)
  case (T_Read bs)
  show ?thesis unfolding T_Read tracker_arm.simps on_read_def
    by (intro checked_bind checked_cases checked_updates no_task_checked stop_intro)
next
  case T_Tick
  show ?thesis unfolding T_Tick tracker_arm.simps by (intro checked_bind checked_tick no_task_checked stop_intro)
next
  case T_Changed
  show ?thesis unfolding T_Changed tracker_arm.simps
    by (intro checked_bind checked_cases checked_changed no_task_checked stop_intro stop_rules)
qed (simp_all add: no_task_checked no_task_return)

lemma checked_loop: "checked (tracker_loop env config events tk)"
proof (induction events arbitrary: tk)
  case (Cons event events)
  show ?case unfolding tracker_loop.simps
  proof (rule checked_bind [OF checked_arm])
    fix turn
    show "checked (case turn of
        TrackerBreak category tk \<Rightarrow> State_Monad.return (TrackerBreak category tk)
      | TrackerContinue tk \<Rightarrow> do {
          stopping \<leftarrow> load_stopping env;
          if stopping then State_Monad.return (TrackerBreak None tk) else tracker_loop env config events tk
        })"
      by (cases turn)
         (simp_all only: tracker_turn.case, (intro checked_bind checked_cases Cons.IH no_task_checked stop_intro)+)
  qed
qed (simp add: no_task_checked no_task_return)

lemma quiet_backoff: "no_task (tracker_backoff env c category backoff)"
  unfolding tracker_backoff_def sleep_or_stop_def by (intro stop_intro)

lemma checked_tracked: "checked (tracked env config events backoff)"
proof -
  have "no_task (case turn of
        TrackerContinue tk \<Rightarrow> State_Monad.return (MonitorTracking tk)
      | TrackerBreak category tk \<Rightarrow> do {
          stopping \<leftarrow> load_stopping env;
          if stopping then State_Monad.return MonitorReturned
          else
            (case category of
               None \<Rightarrow> State_Monad.return (MonitorNext (tk_backoff tk))
             | Some category \<Rightarrow> tracker_backoff env (mc_adb config) category (tk_backoff tk))
        })" for turn
    by (cases turn) (auto intro!: stop_intro quiet_backoff)
  note after = this
  show ?thesis unfolding tracked_def
    by (intro checked_bind checked_loop no_task_checked [OF after] no_task_checked stop_intro stop_rules)
qed

lemma checked_lives: "checked (monitor_lives env config lives backoff)"
proof (induction lives arbitrary: backoff)
  case (Cons life lives)
  have "checked (case life of
      SpawnFailed \<Rightarrow> tracker_backoff env (mc_adb config) ''track_spawn_failed'' backoff
    | NoStdout \<Rightarrow> tracker_backoff env (mc_adb config) ''track_stdout_unavailable'' backoff
    | Tracked events \<Rightarrow> tracked env config events backoff)"
    by (cases life) (simp_all add: no_task_checked quiet_backoff checked_tracked)
  note life = this
  have "checked (case outcome of MonitorNext backoff \<Rightarrow> monitor_lives env config lives backoff
      | _ \<Rightarrow> State_Monad.return outcome)" for outcome
    by (cases outcome) (simp_all add: Cons.IH no_task_checked no_task_return)
  note rest = this
  show ?case unfolding monitor_lives.simps
    by (intro checked_bind checked_cases life rest no_task_checked stop_intro)
qed (simp add: no_task_checked no_task_return)

end
