(* ===== verification/HostProps.thy ===== *)
theory HostProps
  imports HostStop AdbLaws
begin

text \<open>
  Properties of the composed host: the invariant that ties the published lifecycle, the relay gate and
  the recovery machine together, who may open the relay, how much ADB work an explicit stop can find in
  its way, and the restarts of the tracker.
\<close>

section \<open>The invariant of the host\<close>

definition published_active :: "StateSnapshot list \<Rightarrow> bool" where
  "published_active ps \<longleftrightarrow> ps \<noteq> [] \<and> snap_state (last ps) \<notin> set [Stopped, Stopping, ErrorState]"

definition host_inv :: "Host \<Rightarrow> bool" where
  "host_inv h \<longleftrightarrow> relay_inv (h_relay h) \<and> recovery_ok (am_transport_recovery (h_monitor h)) \<and>
     (el_control_authenticated (rc_eligibility (h_relay h)) \<longrightarrow> published_active (ct_published (h_control h)))"

lemma authenticated_only_by_connection:
  "op \<noteq> ControlConnected \<Longrightarrow> el_control_authenticated (rc_eligibility (controller_apply op c)) \<Longrightarrow>
   el_control_authenticated (rc_eligibility c)"
  by (cases op) (auto simp: controller_defs split: if_splits)

lemma gate_update_authenticated:
  assumes "el_control_authenticated (rc_eligibility (update_relay_gate now s c))"
  shows "snap_state s \<notin> set [Stopped, Stopping, ErrorState]"
    "snap_state s \<noteq> Connected \<Longrightarrow> el_control_authenticated (rc_eligibility c)"
  using assms
  by (cases "snap_state s"; auto simp: update_relay_gate_def controller_defs split: if_splits)+

lemma host_inv_relay:
  "host_inv h \<Longrightarrow> op \<noteq> ControlConnected \<Longrightarrow> host_inv (h\<lparr>h_relay := controller_apply op (h_relay h)\<rparr>)"
  using relay_inv_apply authenticated_only_by_connection by (auto simp: host_inv_def)

lemma host_inv_publish: "host_inv h \<Longrightarrow> host_inv (publish_host s h)"
  using update_relay_gate_inv gate_update_authenticated(1) by (auto simp: host_inv_def publish_host_def published_active_def)

lemma host_inv_monitor: "host_inv h \<Longrightarrow> monitor_step_ok (h_monitor h) m \<Longrightarrow> host_inv (h\<lparr>h_monitor := m\<rparr>)"
  by (simp add: host_inv_def monitor_step_ok_def)

lemma host_inv_frame [simp]:
  "host_inv (h\<lparr>h_turn := k\<rparr>) = host_inv h" "host_inv (h\<lparr>h_store := ss\<rparr>) = host_inv h"
  "host_inv (h\<lparr>h_events := es\<rparr>) = host_inv h" "host_inv (h\<lparr>h_tasks := ts\<rparr>) = host_inv h"
  "host_inv (h\<lparr>h_adb := w\<rparr>) = host_inv h"
  "ct_published st = ct_published (h_control h) \<Longrightarrow> host_inv (h\<lparr>h_control := st\<rparr>) = host_inv h"
  by (simp_all add: host_inv_def)

lemma host_inv_act: "host_inv h \<Longrightarrow> host_inv (act_apply a h)"
  using act_ok [of h a] by (cases a) (auto simp: host_inv_relay host_inv_publish host_inv_monitor)

lemma host_inv_others: "host_inv h \<Longrightarrow> host_inv (interfere env h)"
  unfolding interfere_def
  by (rule acts_keep [where permitted = "\<lambda>_. True"]) (auto simp: host_inv_act list_all_iff)

interpretation hi: host_rules env host_inv "\<lambda>_. True" for env
  by unfold_locales (simp_all add: host_inv_others host_inv_monitor host_inv_relay host_inv_publish)

interpretation hb: begun_rules env "\<lambda>h. host_inv h \<and> begun (h_monitor h)" "\<lambda>_. True" for env
  by (rule hi.with_begun)

section \<open>The tasks of the host\<close>

datatype host_task =
    RunMonitor AdbMonitorConfig "tracker_life list"
  | ObserveState StateSnapshot
  | ObserveSuspend
  | ObserveWake
  | ControlTimeoutEnds u64 nat TransportRecoveryTrigger
  | RearmDelayEnds u64 TransportRecoveryTrigger
  | ServeAdmin bytes admin_io byte_stream byte_sink

fun task_program :: "host_env \<Rightarrow> host_task \<Rightarrow> unit host" where
  "task_program env (RunMonitor config lives) = do { _ \<leftarrow> monitor_run env config lives; State_Monad.return () }"
| "task_program env (ObserveState s) = observer env s"
| "task_program env ObserveSuspend = suspend_observer env"
| "task_program env ObserveWake = wake_observer env"
| "task_program env (ControlTimeoutEnds g a t) = control_timeout_task env g a t"
| "task_program env (RearmDelayEnds g t) = rearm_failed_task env g t"
| "task_program env (ServeAdmin token io stream sink) =
     do { _ \<leftarrow> admin_handle env token io stream sink; State_Monad.return () }"

definition task_end :: "host_env \<Rightarrow> host_task \<Rightarrow> Host \<Rightarrow> Host" where
  "task_end env t h = snd (run_state (task_program env t) h)"

context host_rules
begin

lemma host_task_keeps:
  assumes "\<And>s. t = ObserveState s \<Longrightarrow> allowed s"
  shows "keeps P (task_program env t)"
  using assms
  by (cases t)
     (auto intro!: keeps_intro monitor_run_keeps observer_keeps wake_suspend_keeps control_timeout_keeps rearm_task_keeps
       admin_keeps)

end

text \<open>The host as \<^verbatim>\<open>HostRuntime::run\<close> sets it up.\<close>

definition host_start :: "ControlState \<Rightarrow> adb_world \<Rightarrow> Host" where
  "host_start st w = \<lparr>h_monitor = AdbHealthMonitor_default,
     h_relay = RelayGateController_new (wait_for_activation RelayGateState_default), h_control = st,
     h_store = [], h_events = [], h_adb = w, h_tasks = [], h_turn = 0\<rparr>"

lemma host_inv_start: "host_inv (host_start st w)"
  using relay_inv_new [of "wait_for_activation RelayGateState_default" "3 * 1000000000"] recovery_ok_default
  by (simp add: host_inv_def host_start_def RelayGateController_new_def with_control_loss_grace_def
      RelayGateState_default_def)

lemma host_inv_task: "host_inv h \<Longrightarrow> host_inv (task_end env t h)"
  using hi.host_task_keeps [of t env] by (simp add: keeps_def task_end_def)

lemma host_inv_tasks: "host_inv h \<Longrightarrow> host_inv (fold (task_end env) ts h)"
  by (induction ts arbitrary: h) (simp_all add: host_inv_task)

text \<open>C17. However the monitor, the observers of the control server and the delayed tasks run, and whatever
  the other tasks of the host do between any two of their actions, the relay is open exactly for an
  authenticated peer on a healthy carrier, the recovery machine is well-formed, and the control lane
  counts as authenticated only while the last published lifecycle state is neither stopping, stopped
  nor an error.\<close>

theorem host_invariant: "host_inv (fold (task_end env) ts (host_start st w))"
  by (rule host_inv_tasks [OF host_inv_start])

section \<open>Who opens the relay\<close>

definition relay_closed :: "Host \<Rightarrow> bool" where
  "relay_closed h \<longleftrightarrow> relay_inv (h_relay h) \<and> \<not> el_control_authenticated (rc_eligibility (h_relay h))"

lemma relay_closed_gate: "relay_closed h \<Longrightarrow> \<not> rg_enabled (rc_gate (h_relay h))"
  by (auto simp: relay_closed_def relay_inv_def Let_def)

definition not_connected :: "host_act \<Rightarrow> bool" where
  "not_connected a \<longleftrightarrow> (case a of A_Publish s \<Rightarrow> snap_state s \<noteq> Connected | _ \<Rightarrow> True)"

definition no_new_connection :: "host_env \<Rightarrow> bool" where
  "no_new_connection env \<longleftrightarrow> (\<forall>n h. list_all not_connected (he_others env n h))"

lemma relay_closed_frame [simp]:
  "relay_closed (h\<lparr>h_turn := k\<rparr>) = relay_closed h" "relay_closed (h\<lparr>h_store := ss\<rparr>) = relay_closed h"
  "relay_closed (h\<lparr>h_events := es\<rparr>) = relay_closed h" "relay_closed (h\<lparr>h_tasks := ts\<rparr>) = relay_closed h"
  "relay_closed (h\<lparr>h_adb := w\<rparr>) = relay_closed h" "relay_closed (h\<lparr>h_control := st\<rparr>) = relay_closed h"
  "relay_closed (h\<lparr>h_monitor := m\<rparr>) = relay_closed h"
  by (simp_all add: relay_closed_def)

lemma relay_closed_relay:
  "relay_closed h \<Longrightarrow> op \<noteq> ControlConnected \<Longrightarrow> relay_closed (h\<lparr>h_relay := controller_apply op (h_relay h)\<rparr>)"
  using relay_inv_apply authenticated_only_by_connection by (auto simp: relay_closed_def)

lemma relay_closed_publish: "relay_closed h \<Longrightarrow> snap_state s \<noteq> Connected \<Longrightarrow> relay_closed (publish_host s h)"
  using update_relay_gate_inv gate_update_authenticated(2) by (auto simp: relay_closed_def publish_host_def)

lemma relay_closed_others: "no_new_connection env \<Longrightarrow> relay_closed h \<Longrightarrow> relay_closed (interfere env h)"
  unfolding interfere_def
proof (rule acts_keep [where permitted = not_connected])
  show "relay_closed (act_apply a h)" if "not_connected a" "relay_closed h" for a h
    using that by (cases a) (auto simp: not_connected_def relay_closed_relay relay_closed_publish)
qed (simp_all add: no_new_connection_def)

lemma lost_not_connected: "snap_state (snapshot (transport_lost reason m)) \<noteq> Connected"
  by (simp add: snapshot_def transport_lost_def)

lemma closed_rules: "no_new_connection env \<Longrightarrow> host_rules env relay_closed (\<lambda>s. snap_state s \<noteq> Connected)"
  by unfold_locales (simp_all add: relay_closed_others relay_closed_relay relay_closed_publish lost_not_connected)

text \<open>C18. Only an authenticated connection opens the relay: from a closed relay, as long as no connected
  snapshot is published, no run of the monitor, with all its recoveries, mapping repairs, restarts of
  the Android service and tracker failures, and no delayed task ever opens it.\<close>

theorem only_connection_opens_relay:
  assumes "no_new_connection env" "relay_closed h"
    and "\<And>s. ObserveState s \<in> set ts \<Longrightarrow> snap_state s \<noteq> Connected"
  shows "\<not> rg_enabled (rc_gate (h_relay (fold (task_end env) ts h)))"
proof -
  have "relay_closed (fold (task_end env) ts h)"
    using assms(2,3)
  proof (induction ts arbitrary: h)
    case (Cons t ts)
    have "keeps relay_closed (task_program env t)"
      using host_rules.host_task_keeps [OF closed_rules [OF assms(1)], of t] Cons.prems(2) by auto
    then have "relay_closed (task_end env t h)" using Cons.prems(1) by (simp add: keeps_def task_end_def)
    with Cons.IH Cons.prems(2) show ?case by simp
  qed simp
  then show ?thesis by (rule relay_closed_gate)
qed

section \<open>An explicit stop\<close>

text \<open>C19. An explicit stop never waits behind more than one ADB task of the monitor: whatever the monitor does,
  and whenever the stop flag is set while it runs, it starts at most one task under its operation lock
  after that; once the flag is set, a run started later starts none.\<close>

theorem stop_waits_for_one_task:
  "late_tasks (snd (run_state (monitor_run env config lives) h)) \<le> late_tasks h + 1 \<and>
   (suppressed h \<longrightarrow> late_tasks (snd (run_state (monitor_run env config lives) h)) = late_tasks h)"
  using checked_lives [of env _ lives INITIAL_BACKOFF] by (simp add: monitor_run_def checked_def one_late_def)

section \<open>The control handle without interference\<close>

text \<open>Run alone, the programs of the host agree with the operations of the control server.\<close>

definition alone :: "host_env \<Rightarrow> bool" where
  "alone env \<longleftrightarrow> (\<forall>n h. he_others env n h = [])"

lemma atomic_alone: "alone env \<Longrightarrow> run_state (atomic env f) h = f (h\<lparr>h_turn := h_turn h + 1\<rparr>)"
  by (simp add: alone_def atomic_def interfere_def)

lemma control_kept_alone [simp]:
  assumes "alone env"
  shows "h_control (snd (run_state (monitor_do env f) h)) = h_control h"
    "h_control (snd (run_state (monitor_set env f') h)) = h_control h"
    "h_control (snd (run_state (relay_set env g) h)) = h_control h"
    "h_control (snd (run_state (store_write env s) h)) = h_control h"
    "h_control (snd (run_state (record_event env name details) h)) = h_control h"
  using assms
  by (simp_all add: monitor_do_def monitor_set_def relay_do_def relay_set_def store_write_def record_event_def
      atomic_alone split_beta split: option.split)

lemma observe_connected_alone [simp]: "alone env \<Longrightarrow> h_control (snd (run_state (observe_connected env) h)) = h_control h"
  by (simp add: observe_connected_def split_beta split: option.split)

lemma observer_control_alone [simp]:
  "alone env \<Longrightarrow> h_control (snd (run_state (observer env s) h)) =
     (h_control h)\<lparr>ct_published := ct_published (h_control h) @ [s]\<rparr>"
  by (simp add: observer_def observe_gate_def atomic_alone publish_host_def split_beta split: option.split)

lemma handle_lost_alone [simp]:
  "alone env \<Longrightarrow> h_control (snd (run_state (handle_lost env reason) h)) = handle_transport_lost reason (h_control h)"
  by (simp add: handle_lost_def handle_transport_lost_def atomic_alone split_beta Let_def)

lemma handle_reset_alone:
  "alone env \<Longrightarrow> h_control (snd (run_state (handle_reset env reason) h)) = reset_transport reason (h_control h)"
  by (simp add: handle_reset_def reset_transport_def atomic_alone split_beta split: option.split)

section \<open>Restarts of the tracker\<close>

lemma next_backoff_power: "next_backoff (min (b * 2 ^ n) MAX_BACKOFF) MAX_BACKOFF = min (b * 2 ^ Suc n) MAX_BACKOFF"
  by (simp add: next_backoff_def min_def)

lemma tracker_backoff_result:
  "fst (run_state (tracker_backoff env c category backoff) h) \<in> {MonitorReturned, MonitorNext (next_backoff backoff MAX_BACKOFF)}"
  by (simp add: tracker_backoff_def split_beta)

lemma lives_backoff:
  assumes "set lives \<subseteq> {SpawnFailed, NoStdout}"
  shows "fst (run_state (monitor_lives env config lives (min (b * 2 ^ n) MAX_BACKOFF)) h) \<in>
    {MonitorReturned, MonitorNext (min (b * 2 ^ (n + length lives)) MAX_BACKOFF)}"
  using assms
proof (induction lives arbitrary: n h)
  case (Cons life lives)
  let ?b = "min (b * 2 ^ n) MAX_BACKOFF"
  obtain category where life: "(case life of
      SpawnFailed \<Rightarrow> tracker_backoff env (mc_adb config) ''track_spawn_failed'' ?b
    | NoStdout \<Rightarrow> tracker_backoff env (mc_adb config) ''track_stdout_unavailable'' ?b
    | Tracked events \<Rightarrow> tracked env config events ?b) = tracker_backoff env (mc_adb config) category ?b"
    using Cons.prems by auto
  obtain stopping h1 where check: "run_state (load_stopping env) h = (stopping, h1)" by fastforce
  obtain r h2 where delay: "run_state (tracker_backoff env (mc_adb config) category ?b) h1 = (r, h2)" by fastforce
  have r: "r \<in> {MonitorReturned, MonitorNext (min (b * 2 ^ Suc n) MAX_BACKOFF)}"
    using tracker_backoff_result [of env "mc_adb config" category ?b h1] unfolding delay next_backoff_power by simp
  show ?case
    using r Cons.IH [of "Suc n" h2] Cons.prems by (auto simp: life check delay)
qed simp

text \<open>A tracker process that cannot be started is retried after 250 milliseconds, and after every failed
  start the delay doubles up to five seconds; the monitor goes on like that until repairs are suppressed.\<close>

theorem tracker_restarts_back_off:
  assumes "set lives \<subseteq> {SpawnFailed, NoStdout}"
  shows "fst (run_state (monitor_run env config lives) h) \<in>
    {MonitorReturned, MonitorNext (min (INITIAL_BACKOFF * 2 ^ length lives) MAX_BACKOFF)}"
proof -
  have "min (INITIAL_BACKOFF * 2 ^ 0) MAX_BACKOFF = INITIAL_BACKOFF"
    by (simp add: INITIAL_BACKOFF_def MAX_BACKOFF_def millis_def seconds_def)
  then show ?thesis
    using lives_backoff [OF assms, of env _ INITIAL_BACKOFF 0 h] unfolding monitor_run_def by simp
qed

section \<open>The length of a mapping transaction\<close>

text \<open>One blocking task can be a whole transaction: reinstalling the mappings takes eight ADB commands, three
  removals, a listing, three additions and a listing.\<close>

lemma reinstall_takes_eight_commands:
  assumes "run_state (reinstall_mappings env c) w = (Inr (), w')"
  shows "length (aw_calls w') = length (aw_calls w) + 8"
proof -
  obtain r1 w1 where one: "run_state (remove_all_mappings env c []) w = (r1, w1)" by fastforce
  obtain r2 w2 where two: "run_state (add_mappings env c REVERSE_MAPPINGS) w1 = (r2, w2)" by fastforce
  obtain r3 w3 where three: "run_state (mapping_health env c) w2 = (r3, w3)" by fastforce
  have r: "r1 = []" "r2 = []" "w' = w3"
    using assms by (auto simp: reinstall_mappings_def one two three split: if_splits prod.splits)
  have "aw_calls w1 = aw_calls w @ cleanup_calls c" using remove_all_calls [of env c "[]" w] by (simp add: one)
  moreover have "length (cleanup_calls c) = 4" by (simp add: cleanup_calls_def REVERSE_MAPPINGS_def)
  moreover have "length (aw_calls w2) = length (aw_calls w1) + 3"
    using add_mappings_adds [OF two] r by (auto simp: adds_calls_def REVERSE_MAPPINGS_def)
  moreover have "length (aw_calls w3) = length (aw_calls w2) + 1"
    using mapping_health_adds [OF three] by (auto simp: adds_calls_def)
  ultimately show ?thesis by (simp add: r)
qed

section \<open>Witnesses\<close>

text \<open>A host on which nothing else runs and ADB answers nothing.\<close>

definition idle_env :: host_env where
  "idle_env = \<lparr>he_adb = \<lparr>ae_answer = (\<lambda>_. Inl (AE_Timeout 0)), ae_recovered = (\<lambda>_. Inl (AE_Timeout 0)), ae_takes = (\<lambda>_. 0)\<rparr>,
     he_others = (\<lambda>_ _. []), he_join_error = (\<lambda>_. False), he_write_error = (\<lambda>_. None)\<rparr>"

definition idle_config :: AdbMonitorConfig where
  "idle_config = \<lparr>mc_adb = AdbController_new, mc_session_id = SessionId (replicate 16 7), mc_all_traffic = False\<rparr>"

definition idle_host :: Host where
  "idle_host = host_start (projr (ControlServer_new (V4 [127, 0, 0, 1] CONTROL_PORT) (SessionId (replicate 16 7))))
     \<lparr>aw_calls = [], aw_now = 0\<rparr>"

lemma idle_closed: "relay_closed idle_host"
  using host_inv_start
  by (simp add: relay_closed_def idle_host_def host_inv_def host_start_def RelayGateController_new_def
      with_control_loss_grace_def)

theorem only_connection_opens_relay_witness:
  "\<not> rg_enabled (rc_gate (h_relay (fold (task_end idle_env)
     [RunMonitor idle_config [SpawnFailed, Tracked [T_Tick]], ObserveWake] idle_host)))"
  by (rule only_connection_opens_relay)
     (auto simp: idle_closed no_new_connection_def idle_env_def)

theorem stop_waits_for_one_task_witness:
  "late_tasks (snd (run_state (monitor_run idle_env idle_config [SpawnFailed, Tracked [T_Tick]])
     (idle_host\<lparr>h_monitor := begin_suppress_repairs AdbHealthMonitor_default\<rparr>))) =
   late_tasks (idle_host\<lparr>h_monitor := begin_suppress_repairs AdbHealthMonitor_default\<rparr>)"
  using stop_waits_for_one_task [of idle_env idle_config "[SpawnFailed, Tracked [T_Tick]]"
      "idle_host\<lparr>h_monitor := begin_suppress_repairs AdbHealthMonitor_default\<rparr>"]
  by (simp add: begin_suppress_repairs_def)

end
