(* ===== verification/StopDrain.thy ===== *)
theory StopDrain
  imports AdbTransactions
begin

text \<open>
  The operation lock between the ADB monitor and an explicit stop (\<^verbatim>\<open>runtime.rs\<close>).  The monitor runs three sections
  under the lock; a stop sets the flag, asks Android to stop, and then takes and releases the lock to drain what is
  still in flight.  Here the monitor and any number of stops interleave at every step, a blocking ADB
  task takes any time, and the lock is the only thing that makes them wait.  The sections hold what matters for that:
  the checks of the flag and the blocking tasks, in the order of the code; what a section does between them (status,
  diagnostics, gate, files) starts no task and only delays its next step.
\<close>

section \<open>The sections under the lock\<close>

datatype adb_task =
    ProbeMappings
  | AddMapping ReverseMapping
  | VerifyMappings
  | QuickStatus
  | ReinstallMappings
  | ForceStopAndroid
  | VerifyVpnClosed
  | SendStartIntent

text \<open>What a task returns as far as the sections look at it; \<open>TaskFailed\<close> is an error or a panic of the worker.\<close>

datatype task_outcome = TaskHealthy | TaskMissing "ReverseMapping list" | TaskOk | TaskFailed

text \<open>A section: leave, look at the flag and leave if it is set, or run a task and go on with its outcome.\<close>

datatype section_code =
    SecLeave
  | SecCheck section_code
  | SecRun adb_task "task_outcome \<Rightarrow> section_code"

definition recover_section :: section_code where
  "recover_section = SecCheck (SecRun ReinstallMappings (\<lambda>_. SecLeave))"

text \<open>\<open>epoch_pending\<close> says whether the relay gate waits for a control epoch.\<close>

definition sleep_section :: "bool \<Rightarrow> section_code" where
  "sleep_section epoch_pending = SecCheck (if epoch_pending then SecRun QuickStatus (\<lambda>_. SecLeave) else SecLeave)"

text \<open>A failed addition ends the loop; the flag is looked at before the verification in either case.\<close>

primrec repair_section :: "ReverseMapping list \<Rightarrow> section_code" where
  "repair_section [] = SecCheck (SecRun VerifyMappings (\<lambda>_. SecLeave))"
| "repair_section (mapping # missing) =
     SecCheck (SecRun (AddMapping mapping)
       (\<lambda>r. case r of TaskOk \<Rightarrow> repair_section missing | _ \<Rightarrow> SecCheck SecLeave))"

definition reconcile_section :: "bool \<Rightarrow> bool \<Rightarrow> section_code" where
  "reconcile_section degraded epoch_pending =
     SecCheck (SecRun ProbeMappings
       (\<lambda>r. case r of
              TaskHealthy \<Rightarrow> if degraded then sleep_section epoch_pending else SecLeave
            | TaskMissing missing \<Rightarrow> repair_section missing
            | _ \<Rightarrow> SecLeave))"

definition restart_section_step :: "adb_task \<Rightarrow> section_code \<Rightarrow> section_code" where
  "restart_section_step task rest = SecCheck (SecRun task (\<lambda>r. case r of TaskOk \<Rightarrow> rest | _ \<Rightarrow> SecLeave))"

definition restart_section :: section_code where
  "restart_section =
     SecCheck (SecRun QuickStatus (\<lambda>_.
       restart_section_step ForceStopAndroid
         (restart_section_step VerifyVpnClosed
           (restart_section_step ReinstallMappings
             (restart_section_step SendStartIntent SecLeave)))))"

definition monitor_section :: "section_code \<Rightarrow> bool" where
  "monitor_section code \<longleftrightarrow>
     code = recover_section \<or> code = restart_section \<or> (\<exists>degraded epoch_pending. code = reconcile_section degraded epoch_pending)"

section \<open>The monitor and the stops\<close>

datatype lock_holder = HeldByMonitor | HeldByStop nat

datatype monitor_point =
    MonOutside
  | MonWaiting section_code
  | MonInside section_code
  | MonWorking "task_outcome \<Rightarrow> section_code"

text \<open>A stop has set the flag and asks Android, waits for the lock, holds it, or has drained and may answer.\<close>

datatype stop_point = StopIdle | StopAsking | StopWaiting | StopHolding | StopDrained

text \<open>\<open>ds_started\<close> has one entry per task started under the lock, with the flag at that moment.\<close>

record drain_state =
  ds_stopping :: bool
  ds_lock :: "lock_holder option"
  ds_monitor :: monitor_point
  ds_stops :: "nat \<Rightarrow> stop_point"
  ds_started :: "(adb_task \<times> bool) list"

definition drain_start :: drain_state where
  "drain_start = \<lparr>ds_stopping = False, ds_lock = None, ds_monitor = MonOutside, ds_stops = (\<lambda>_. StopIdle), ds_started = []\<rparr>"

inductive drain_step :: "drain_state \<Rightarrow> drain_state \<Rightarrow> bool" where
  monitor_comes: "ds_monitor s = MonOutside \<Longrightarrow> monitor_section code \<Longrightarrow> drain_step s (s\<lparr>ds_monitor := MonWaiting code\<rparr>)"
| monitor_locks: "ds_monitor s = MonWaiting code \<Longrightarrow> ds_lock s = None \<Longrightarrow>
    drain_step s (s\<lparr>ds_monitor := MonInside code, ds_lock := Some HeldByMonitor\<rparr>)"
| monitor_checks: "ds_monitor s = MonInside (SecCheck code) \<Longrightarrow>
    drain_step s (s\<lparr>ds_monitor := MonInside (if ds_stopping s then SecLeave else code)\<rparr>)"
| monitor_starts: "ds_monitor s = MonInside (SecRun task code) \<Longrightarrow>
    drain_step s (s\<lparr>ds_monitor := MonWorking code, ds_started := ds_started s @ [(task, ds_stopping s)]\<rparr>)"
| task_ends: "ds_monitor s = MonWorking code \<Longrightarrow> drain_step s (s\<lparr>ds_monitor := MonInside (code r)\<rparr>)"
| monitor_leaves: "ds_monitor s = MonInside SecLeave \<Longrightarrow> drain_step s (s\<lparr>ds_monitor := MonOutside, ds_lock := None\<rparr>)"
| stop_begins: "ds_stops s i = StopIdle \<Longrightarrow>
    drain_step s (s\<lparr>ds_stopping := True, ds_stops := (ds_stops s)(i := StopAsking)\<rparr>)"
| stop_asked: "ds_stops s i = StopAsking \<Longrightarrow> drain_step s (s\<lparr>ds_stops := (ds_stops s)(i := StopWaiting)\<rparr>)"
| stop_locks: "ds_stops s i = StopWaiting \<Longrightarrow> ds_lock s = None \<Longrightarrow>
    drain_step s (s\<lparr>ds_stops := (ds_stops s)(i := StopHolding), ds_lock := Some (HeldByStop i)\<rparr>)"
| stop_unlocks: "ds_stops s i = StopHolding \<Longrightarrow>
    drain_step s (s\<lparr>ds_stops := (ds_stops s)(i := StopDrained), ds_lock := None\<rparr>)"

inductive_cases drain_stepE: "drain_step s s'"

definition task_running :: "drain_state \<Rightarrow> bool" where
  "task_running s \<longleftrightarrow> (\<exists>code. ds_monitor s = MonWorking code)"

definition late_started :: "drain_state \<Rightarrow> nat" where
  "late_started s = length (filter snd (ds_started s))"

section \<open>Every task follows a check\<close>

text \<open>\<open>after_check\<close> says that the flag was looked at last.\<close>

primrec tasks_guarded :: "section_code \<Rightarrow> bool \<Rightarrow> bool" where
  "tasks_guarded SecLeave after_check = True"
| "tasks_guarded (SecCheck code) after_check = tasks_guarded code True"
| "tasks_guarded (SecRun task code) after_check = (after_check \<and> (\<forall>r. tasks_guarded (code r) False))"

lemma repair_guarded: "tasks_guarded (repair_section missing) False"
  by (induction missing) (auto split: task_outcome.splits)

lemma sections_guarded: "monitor_section code \<Longrightarrow> tasks_guarded code False"
  by (auto simp: monitor_section_def recover_section_def restart_section_def restart_section_step_def reconcile_section_def
      sleep_section_def repair_guarded split: task_outcome.splits)

section \<open>The invariant\<close>

definition lock_ok :: "drain_state \<Rightarrow> bool" where
  "lock_ok s \<longleftrightarrow> (ds_lock s = Some HeldByMonitor \<longleftrightarrow> (\<exists>code. ds_monitor s = MonInside code) \<or> task_running s) \<and>
     (\<forall>i. ds_lock s = Some (HeldByStop i) \<longleftrightarrow> ds_stops s i = StopHolding) \<and>
     (\<forall>i. ds_stops s i \<noteq> StopIdle \<longrightarrow> ds_stopping s)"

text \<open>A point from which no task is started while the flag is set.\<close>

definition calm :: "monitor_point \<Rightarrow> bool" where
  "calm m \<longleftrightarrow> (case m of MonOutside \<Rightarrow> True | MonWaiting code \<Rightarrow> tasks_guarded code False
     | MonInside code \<Rightarrow> tasks_guarded code False | MonWorking code \<Rightarrow> False)"

text \<open>Where the monitor may be, with the number of late tasks: a task may start only if the flag was looked at before, and then
  none was late so far.\<close>

fun point_ok :: "nat \<Rightarrow> monitor_point \<Rightarrow> bool" where
  "point_ok late MonOutside = True"
| "point_ok late (MonWaiting code) = tasks_guarded code False"
| "point_ok late (MonInside code) = (tasks_guarded code False \<or> tasks_guarded code True \<and> late = 0)"
| "point_ok late (MonWorking code) = (\<forall>r. tasks_guarded (code r) False)"

definition late_ok :: "drain_state \<Rightarrow> bool" where
  "late_ok s \<longleftrightarrow> late_started s \<le> 1 \<and> (\<not> ds_stopping s \<longrightarrow> late_started s = 0) \<and>
     point_ok (late_started s) (ds_monitor s) \<and>
     ((\<exists>i. ds_stops s i \<in> {StopHolding, StopDrained}) \<longrightarrow> calm (ds_monitor s))"

lemma one_holder:
  assumes "lock_ok s" "ds_stops s i = StopHolding" "ds_stops s j = StopHolding"
  shows "i = j"
proof -
  have "ds_lock s = Some (HeldByStop i)" "ds_lock s = Some (HeldByStop j)" using assms unfolding lock_ok_def by blast+
  then show ?thesis by simp
qed

lemma lock_ok_step: "drain_step s s' \<Longrightarrow> lock_ok s \<Longrightarrow> lock_ok s'"
proof (induction rule: drain_step.induct)
  case (stop_unlocks s i)
  have held: "ds_lock s = Some (HeldByStop i)" using stop_unlocks unfolding lock_ok_def by blast
  have "ds_stops s j \<noteq> StopHolding" if "j \<noteq> i" for j using one_holder [OF stop_unlocks(2,1)] that by blast
  moreover have "\<not> (\<exists>code. ds_monitor s = MonInside code)" "\<not> task_running s"
    using stop_unlocks(2) held unfolding lock_ok_def by simp_all
  moreover have "ds_stopping s" using stop_unlocks unfolding lock_ok_def by (metis stop_point.distinct(5))
  ultimately show ?case using stop_unlocks(1) by (simp add: lock_ok_def task_running_def)
qed (auto simp: lock_ok_def task_running_def split: if_splits)

text \<open>With the flag set a calm monitor stays calm and starts nothing.\<close>

lemma calm_step:
  assumes "drain_step s s'" "calm (ds_monitor s)" "ds_stopping s"
  shows "calm (ds_monitor s') \<and> ds_stopping s' \<and> ds_started s' = ds_started s"
  using assms by (induction rule: drain_step.induct) (auto simp: calm_def sections_guarded)

lemma free_lock_calm: "lock_ok s \<Longrightarrow> late_ok s \<Longrightarrow> ds_lock s = None \<Longrightarrow> calm (ds_monitor s)"
  by (cases "ds_monitor s") (auto simp: lock_ok_def late_ok_def calm_def task_running_def)

lemma late_ok_step:
  assumes "drain_step s s'" "lock_ok s" "late_ok s"
  shows "late_ok s'"
proof -
  have calm': "calm (ds_monitor s')" if "ds_stops s' i \<in> {StopHolding, StopDrained}" for i
  proof (cases "ds_stops s i \<in> {StopHolding, StopDrained}")
    case True
    then have "calm (ds_monitor s)" "ds_stopping s" using assms(2,3) by (auto simp: late_ok_def lock_ok_def)
    then show ?thesis using calm_step [OF assms(1)] by blast
  next
    case False
    from assms(1) have "ds_lock s = None \<and> ds_monitor s' = ds_monitor s"
      using False that by (cases rule: drain_step.cases) (auto split: if_splits)
    then show ?thesis using free_lock_calm [OF assms(2,3)] by simp
  qed
  have "late_started s' \<le> 1 \<and> (\<not> ds_stopping s' \<longrightarrow> late_started s' = 0) \<and> point_ok (late_started s') (ds_monitor s')"
    using assms(1,3)
    by (cases rule: drain_step.cases) (auto simp: late_ok_def late_started_def sections_guarded split: if_splits)
  then show ?thesis using calm' by (auto simp: late_ok_def)
qed

lemma drain_invariant: "drain_step\<^sup>*\<^sup>* drain_start s \<Longrightarrow> lock_ok s \<and> late_ok s"
proof (induction rule: rtranclp_induct)
  case base
  show ?case by (simp add: drain_start_def lock_ok_def late_ok_def late_started_def task_running_def)
next
  case (step s s')
  then show ?case using lock_ok_step late_ok_step by blast
qed

lemma calm_steps:
  "drain_step\<^sup>*\<^sup>* s s' \<Longrightarrow> calm (ds_monitor s) \<Longrightarrow> ds_stopping s \<Longrightarrow>
   calm (ds_monitor s') \<and> ds_stopping s' \<and> ds_started s' = ds_started s"
proof (induction rule: rtranclp_induct)
  case (step s1 s2)
  then show ?case using calm_step [OF step.hyps(2)] by simp
qed simp

section \<open>A waiting stop is not stuck\<close>

text \<open>Once the flag is set the monitor gives the lock back in a few of its own steps.\<close>

lemma guarded_leaves:
  assumes "ds_monitor s = MonInside code" "tasks_guarded code False" "ds_stopping s"
  shows "drain_step\<^sup>*\<^sup>* s (s\<lparr>ds_monitor := MonOutside, ds_lock := None\<rparr>)"
proof (cases code)
  case SecLeave
  then show ?thesis using monitor_leaves [of s] assms(1) by blast
next
  case (SecCheck code')
  then have "drain_step s (s\<lparr>ds_monitor := MonInside SecLeave\<rparr>)" using monitor_checks [of s code'] assms by simp
  moreover have "drain_step (s\<lparr>ds_monitor := MonInside SecLeave\<rparr>) (s\<lparr>ds_monitor := MonOutside, ds_lock := None\<rparr>)"
    using monitor_leaves [of "s\<lparr>ds_monitor := MonInside SecLeave\<rparr>"] by simp
  ultimately show ?thesis by (meson converse_rtranclp_into_rtranclp rtranclp.rtrancl_refl)
qed (use assms(2) in simp)

lemma working_leaves:
  assumes "ds_monitor s = MonWorking code" "\<forall>r. tasks_guarded (code r) False" "ds_stopping s"
  shows "drain_step\<^sup>*\<^sup>* s (s\<lparr>ds_monitor := MonOutside, ds_lock := None\<rparr>)"
proof -
  let ?s = "s\<lparr>ds_monitor := MonInside (code TaskOk)\<rparr>"
  have "drain_step s ?s" using task_ends [OF assms(1)] by blast
  moreover have "drain_step\<^sup>*\<^sup>* ?s (s\<lparr>ds_monitor := MonOutside, ds_lock := None\<rparr>)"
    using guarded_leaves [of ?s "code TaskOk"] assms(2,3) by simp
  ultimately show ?thesis by (rule converse_rtranclp_into_rtranclp)
qed

lemma monitor_gives_back:
  assumes "lock_ok s" "late_ok s" "ds_lock s = Some HeldByMonitor" "ds_stopping s"
  shows "\<exists>s'. drain_step\<^sup>*\<^sup>* s s' \<and> ds_lock s' = None \<and> ds_stops s' = ds_stops s"
proof -
  consider (inside) code where "ds_monitor s = MonInside code" | (working) code where "ds_monitor s = MonWorking code"
    using assms(1,3) by (auto simp: lock_ok_def task_running_def)
  then show ?thesis
  proof cases
    case working
    then show ?thesis using working_leaves [OF working _ assms(4)] assms(2) by (fastforce simp: late_ok_def)
  next
    case inside
    show ?thesis
    proof (cases "tasks_guarded code False")
      case True
      then show ?thesis using guarded_leaves [OF inside True assms(4)] by fastforce
    next
      case False
      then obtain task next_code where code: "code = SecRun task next_code" "\<forall>r. tasks_guarded (next_code r) False"
        using assms(2) inside by (cases code) (auto simp: late_ok_def)
      let ?s = "s\<lparr>ds_monitor := MonWorking next_code, ds_started := ds_started s @ [(task, ds_stopping s)]\<rparr>"
      have "drain_step s ?s" using monitor_starts inside code(1) by blast
      moreover have "drain_step\<^sup>*\<^sup>* ?s (?s\<lparr>ds_monitor := MonOutside, ds_lock := None\<rparr>)"
        using working_leaves [of ?s next_code] code(2) assms(4) by simp
      ultimately have "drain_step\<^sup>*\<^sup>* s (?s\<lparr>ds_monitor := MonOutside, ds_lock := None\<rparr>)"
        by (rule converse_rtranclp_into_rtranclp)
      then show ?thesis by fastforce
    qed
  qed
qed

lemma lock_comes_free:
  assumes "lock_ok s" "late_ok s" "ds_stopping s" "ds_stops s i = StopWaiting"
  shows "\<exists>s'. drain_step\<^sup>*\<^sup>* s s' \<and> ds_lock s' = None \<and> ds_stops s' i = StopWaiting"
proof (cases "ds_lock s")
  case None
  then show ?thesis using assms(4) by blast
next
  case (Some holder)
  show ?thesis
  proof (cases holder)
    case HeldByMonitor
    then show ?thesis using monitor_gives_back [OF assms(1,2) _ assms(3)] Some assms(4) by metis
  next
    case (HeldByStop j)
    then have j: "ds_stops s j = StopHolding" using Some assms(1) by (auto simp: lock_ok_def)
    then have "j \<noteq> i" using assms(4) by auto
    then have "ds_stops (s\<lparr>ds_stops := (ds_stops s)(j := StopDrained), ds_lock := None\<rparr>) i = StopWaiting" using assms(4) by simp
    then show ?thesis using r_into_rtranclp [of drain_step, OF stop_unlocks [OF j]]
      by (intro exI [of _ "s\<lparr>ds_stops := (ds_stops s)(j := StopDrained), ds_lock := None\<rparr>"]) simp
  qed
qed

theorem waiting_stop_can_drain:
  assumes "drain_step\<^sup>*\<^sup>* drain_start s" "ds_stops s i = StopWaiting"
  shows "\<exists>s'. drain_step\<^sup>*\<^sup>* s s' \<and> ds_stops s' i = StopDrained"
proof -
  have "lock_ok s" "late_ok s" using drain_invariant [OF assms(1)] by auto
  moreover from this(1) have "ds_stopping s" using assms(2) by (auto simp: lock_ok_def)
  ultimately obtain s1 where s1: "drain_step\<^sup>*\<^sup>* s s1" "ds_lock s1 = None" "ds_stops s1 i = StopWaiting"
    using lock_comes_free assms(2) by blast
  let ?s2 = "s1\<lparr>ds_stops := (ds_stops s1)(i := StopHolding), ds_lock := Some (HeldByStop i)\<rparr>"
  let ?s3 = "?s2\<lparr>ds_stops := (ds_stops ?s2)(i := StopDrained), ds_lock := None\<rparr>"
  have "drain_step s1 ?s2" using stop_locks [OF s1(3,2)] .
  moreover have "drain_step ?s2 ?s3" using stop_unlocks [of ?s2 i] by simp
  moreover have "ds_stops ?s3 i = StopDrained" by simp
  ultimately show ?thesis using s1(1) by (meson rtranclp.rtrancl_into_rtrancl)
qed

section \<open>Property\<close>

text \<open>C23. A stop that has drained the repairs finds them at rest for good.  In every interleaving of the monitor, wherever it was
  when the stop began, with any number of stops: once a stop has taken and released the operation lock after
  setting the flag, no ADB task of the monitor is running under the lock, none is running at any later moment and
  none is started any more, so that the answer \<^verbatim>\<open>repairs_suppressed\<close> is true and stays true; and from the flag on at
  most one such task was started.  This is what the command line relies on before it removes the mappings itself.\<close>

theorem drained_stop_is_undisturbed:
  assumes "drain_step\<^sup>*\<^sup>* drain_start s" "ds_stops s i = StopDrained" "drain_step\<^sup>*\<^sup>* s s'"
  shows "\<not> task_running s \<and> \<not> task_running s' \<and> ds_started s' = ds_started s \<and> late_started s' \<le> 1"
proof -
  have "lock_ok s" "late_ok s" using drain_invariant [OF assms(1)] by auto
  then have s: "calm (ds_monitor s)" "ds_stopping s" "late_started s \<le> 1"
    using assms(2) by (auto simp: lock_ok_def late_ok_def)
  with calm_steps [OF assms(3)] show ?thesis by (auto simp: calm_def task_running_def late_started_def)
qed

section \<open>Witness\<close>

text \<open>The monitor has probed the mappings and finds one missing when the stop begins; it leaves without adding it.\<close>

definition drained_state :: drain_state where
  "drained_state = \<lparr>ds_stopping = True, ds_lock = None, ds_monitor = MonOutside, ds_stops = (\<lambda>_. StopIdle)(0 := StopDrained),
     ds_started = [(ProbeMappings, False)]\<rparr>"

lemma drain_run_begun:
  "drain_step\<^sup>*\<^sup>* drain_start
     \<lparr>ds_stopping = False, ds_lock = Some HeldByMonitor, ds_monitor = MonInside (repair_section [hd REVERSE_MAPPINGS]),
      ds_stops = (\<lambda>_. StopIdle), ds_started = [(ProbeMappings, False)]\<rparr>"
  (is "drain_step\<^sup>*\<^sup>* _ ?last")
proof -
  let ?s = "\<lambda>lock m started. \<lparr>ds_stopping = False, ds_lock = lock, ds_monitor = m, ds_stops = (\<lambda>_. StopIdle), ds_started = started\<rparr>"
  obtain code where code: "reconcile_section False False = SecCheck (SecRun ProbeMappings code)"
    "code (TaskMissing [hd REVERSE_MAPPINGS]) = repair_section [hd REVERSE_MAPPINGS]"
    by (simp add: reconcile_section_def del: repair_section.simps)
  have "drain_step drain_start (?s None (MonWaiting (SecCheck (SecRun ProbeMappings code))) [])"
    using monitor_comes [of drain_start "reconcile_section False False"]
    unfolding code(1) by (simp add: drain_start_def monitor_section_def code(1) [symmetric] del: ex_simps) blast
  moreover have "drain_step (?s None (MonWaiting (SecCheck (SecRun ProbeMappings code))) [])
      (?s (Some HeldByMonitor) (MonInside (SecCheck (SecRun ProbeMappings code))) [])"
    using monitor_locks [of "?s None (MonWaiting (SecCheck (SecRun ProbeMappings code))) []"] by simp
  moreover have "drain_step (?s (Some HeldByMonitor) (MonInside (SecCheck (SecRun ProbeMappings code))) [])
      (?s (Some HeldByMonitor) (MonInside (SecRun ProbeMappings code)) [])"
    using monitor_checks [of "?s (Some HeldByMonitor) (MonInside (SecCheck (SecRun ProbeMappings code))) []"] by simp
  moreover have "drain_step (?s (Some HeldByMonitor) (MonInside (SecRun ProbeMappings code)) [])
      (?s (Some HeldByMonitor) (MonWorking code) [(ProbeMappings, False)])"
    using monitor_starts [of "?s (Some HeldByMonitor) (MonInside (SecRun ProbeMappings code)) []"] by simp
  moreover have "drain_step (?s (Some HeldByMonitor) (MonWorking code) [(ProbeMappings, False)]) ?last"
    using task_ends [of "?s (Some HeldByMonitor) (MonWorking code) [(ProbeMappings, False)]" code "TaskMissing [hd REVERSE_MAPPINGS]"]
    by (simp add: code(2) del: repair_section.simps)
  ultimately show ?thesis by (meson converse_rtranclp_into_rtranclp rtranclp.rtrancl_refl)
qed

lemma drain_run_ended:
  "drain_step\<^sup>*\<^sup>*
     \<lparr>ds_stopping = False, ds_lock = Some HeldByMonitor, ds_monitor = MonInside (repair_section [hd REVERSE_MAPPINGS]),
      ds_stops = (\<lambda>_. StopIdle), ds_started = [(ProbeMappings, False)]\<rparr> drained_state"
  (is "drain_step\<^sup>*\<^sup>* ?first _")
proof -
  let ?s = "\<lambda>lock m p. \<lparr>ds_stopping = True, ds_lock = lock, ds_monitor = m, ds_stops = (\<lambda>_. StopIdle)(0 := p),
    ds_started = [(ProbeMappings, False)]\<rparr>"
  let ?r = "repair_section [hd REVERSE_MAPPINGS]"
  obtain code where code: "?r = SecCheck code" by simp
  have "drain_step ?first (?s (Some HeldByMonitor) (MonInside ?r) StopAsking)" using stop_begins [of ?first 0] by (simp del: repair_section.simps)
  moreover have "drain_step (?s (Some HeldByMonitor) (MonInside ?r) StopAsking) (?s (Some HeldByMonitor) (MonInside SecLeave) StopAsking)"
    using monitor_checks [of "?s (Some HeldByMonitor) (MonInside ?r) StopAsking" code] by (simp add: code del: repair_section.simps)
  moreover have "drain_step (?s (Some HeldByMonitor) (MonInside SecLeave) StopAsking) (?s None MonOutside StopAsking)"
    using monitor_leaves [of "?s (Some HeldByMonitor) (MonInside SecLeave) StopAsking"] by simp
  moreover have "drain_step (?s None MonOutside StopAsking) (?s None MonOutside StopWaiting)"
    using stop_asked [of "?s None MonOutside StopAsking" 0] by simp
  moreover have "drain_step (?s None MonOutside StopWaiting) (?s (Some (HeldByStop 0)) MonOutside StopHolding)"
    using stop_locks [of "?s None MonOutside StopWaiting" 0] by simp
  moreover have "drain_step (?s (Some (HeldByStop 0)) MonOutside StopHolding) drained_state"
    using stop_unlocks [of "?s (Some (HeldByStop 0)) MonOutside StopHolding" 0] by (simp add: drained_state_def)
  ultimately show ?thesis by (meson converse_rtranclp_into_rtranclp rtranclp.rtrancl_refl)
qed

theorem drained_stop_is_undisturbed_witness:
  "drain_step\<^sup>*\<^sup>* drain_start drained_state \<and> ds_stops drained_state 0 = StopDrained \<and> \<not> task_running drained_state \<and>
   ds_started drained_state = [(ProbeMappings, False)] \<and>
   (\<not> (\<exists>s'. drain_step\<^sup>*\<^sup>* drained_state s' \<and> ds_started s' \<noteq> ds_started drained_state))"
proof -
  have run: "drain_step\<^sup>*\<^sup>* drain_start drained_state" using drain_run_begun drain_run_ended by (rule rtranclp_trans)
  have p: "ds_stops drained_state 0 = StopDrained" by (simp add: drained_state_def)
  show ?thesis
    using run p drained_stop_is_undisturbed [OF run p] by (auto simp: drained_state_def)
qed

end
