(* ===== verification/AdminProps.thy ===== *)
theory AdminProps
  imports HostProps
begin

text \<open>
  Properties of the admin endpoint: the comparison of tokens, what an unauthenticated request can do, what
  an acknowledged suppression of repairs means, and the exchange between the client and the daemon.
\<close>

section \<open>The comparison in constant time\<close>

lemma fold_or_zero:
  "fold (\<lambda>i d. or d (f i)) is (d :: 64 word) = 0 \<longleftrightarrow> d = 0 \<and> (\<forall>i\<in>set is. f i = 0)"
  by (induction "is" arbitrary: d) (auto simp: or_eq_0_iff)

lemma xor_zero_iff: "xor a b = 0 \<longleftrightarrow> a = (b :: 'a::len word)"
  by (metis bit.xor_self xor.right_neutral xor.assoc xor.left_commute)

lemma ucast_zero_iff: "(ucast (b :: u8) :: 64 word) = 0 \<longleftrightarrow> b = 0"
  proof -
  have "unat (ucast b :: 64 word) = unat b" by (simp add: unsigned_ucast_eq take_bit_nat_eq_self_iff less_trans [OF unat_byte_less])
  then show ?thesis by (metis unat_eq_zero)
qed

text \<open>The comparison, which always visits every byte of the longer argument, decides equality: no byte beyond
  the end of the shorter one, and no difference of the lengths, is lost in the accumulated word.\<close>

lemma constant_time_eq_iff:
  assumes "length left < 2 ^ 64" "length right < 2 ^ 64"
  shows "constant_time_eq left right \<longleftrightarrow> left = right"
proof -
  have lengths: "(word_of_nat (length left) :: 64 word) = word_of_nat (length right) \<longleftrightarrow> length left = length right"
    using assms by (simp add: word_of_nat_eq_iff take_bit_nat_eq_self)
  have "constant_time_eq left right \<longleftrightarrow>
      length left = length right \<and> (\<forall>i < max (length left) (length right). byte_at left i = byte_at right i)"
    by (auto simp: constant_time_eq_def fold_or_zero xor_zero_iff ucast_zero_iff lengths)
  also have "\<dots> \<longleftrightarrow> left = right"
    by (auto simp: byte_at_def list_eq_iff_nth_eq)
  finally show ?thesis .
qed

section \<open>The token both sides use\<close>

lemma hex_digit_visible: "n < 16 \<Longrightarrow> \<not> is_whitespace (hex_digit n)"
proof -
  have "list_all (\<lambda>n. \<not> is_whitespace (hex_digit n)) [0..<16]" by code_simp
  then show "n < 16 \<Longrightarrow> \<not> is_whitespace (hex_digit n)" by (auto simp: list_all_iff)
qed

lemma session_text_visible: "list_all (\<lambda>c. \<not> is_whitespace c) (SessionId_to_string s)"
proof -
  have "\<not> is_whitespace CHR ''-''" by code_simp
  moreover have "unat (b :: u8) div 16 < 16" for b by (rule less_mult_imp_div_less) simp
  ultimately show ?thesis
    by (auto simp: SessionId_to_string_def list_all_iff hex_byte_def hex_digit_visible split: if_splits)
qed

lemma token_shared:
  "load_or_create_admin_token fresh io found = (Inr token, Some content) \<Longrightarrow> trim content = token"
  by (auto simp: load_or_create_admin_token_def Let_def trim_id [OF session_text_visible]
      split: option.splits if_splits token_io.splits)

section \<open>Authentication\<close>

text \<open>What the endpoint relies on: a decoded token is not longer than the message it came in.\<close>

definition decode_bounded :: "(bytes \<Rightarrow> AdminRequest option) \<Rightarrow> bool" where
  "decode_bounded decode \<longleftrightarrow> (\<forall>t request. decode t = Some request \<longrightarrow> length (aq_token request) \<le> length t)"

lemma read_token_bound:
  assumes "decode_bounded decode" "read_admin_message decode stream = Inr (request, rest)"
  shows "length (aq_token request) \<le> MAX_ADMIN_MESSAGE"
proof -
  from assms(2) obtain prefix s1 t s2 where *: "read_exact 4 stream = Inr (prefix, s1)"
    "unat (be_u32 prefix) \<le> MAX_ADMIN_MESSAGE" "read_exact (unat (be_u32 prefix)) s1 = Inr (t, s2)"
    "decode t = Some request"
    by (auto simp: read_admin_message_def read_message_def Let_def split: sum.splits if_splits option.splits)
  with assms(1) read_exact_InrD(1) [OF *(3)] show ?thesis unfolding decode_bounded_def by (metis le_trans)
qed

text \<open>C22. Without the token of the token file a connection to the admin endpoint can do nothing: if a request,
  however it is formed and whatever the other tasks do meanwhile, has any effect on the host or asks for
  a shutdown, then it was read in time and carries exactly that token.\<close>

theorem admin_requires_token:
  assumes "decode_bounded (ai_decode io)" "length token \<le> MAX_ADMIN_MESSAGE"
    and "run_state (admin_handle env token io stream sink) h = ((r, sink', shutdown), h')"
    and "h' \<noteq> h \<or> shutdown"
  shows "\<exists>request rest. read_admin_message (ai_decode io) stream = Inr (request, rest) \<and> aq_token request = token"
proof -
  from assms(3,4) obtain request rest where
    read: "read_admin_message (ai_decode io) stream = Inr (request, rest)" and
    eq: "constant_time_eq (aq_token request) token"
    by (auto simp: admin_handle_def split: if_splits sum.splits prod.splits)
  have "length (aq_token request) \<le> MAX_ADMIN_MESSAGE" using read_token_bound [OF assms(1) read] .
  with assms(2) eq have "aq_token request = token"
    using constant_time_eq_iff [of "aq_token request" token] by (simp add: MAX_ADMIN_MESSAGE_def)
  with read show ?thesis by blast
qed

section \<open>Suppressed repairs\<close>

interpretation hs: host_rules env suppressed "\<lambda>_. True" for env
proof unfold_locales
  show "suppressed h \<Longrightarrow> suppressed (interfere env h)" for h
    using interfere_ok [of h env] by (simp add: monitor_step_ok_def)
qed (simp_all add: monitor_step_ok_def publish_host_def)

lemma stop_suppresses: "suppressed (snd (run_state (admin_stop env lane) h))"
proof -
  have "suppressed (snd (run_state (monitor_set env begin_suppress_repairs) h))"
    by (simp add: monitor_set_def monitor_do_def atomic_def begin_suppress_repairs_def)
  moreover have "keeps suppressed (do {
       result \<leftarrow> handle_request_stop env lane STOP_TIMEOUT; drain_repairs env; status \<leftarrow> control_snapshot env;
       State_Monad.return (f result status) })" for f :: "ControlError + unit \<Rightarrow> StateSnapshot \<Rightarrow> AdminResponse"
    unfolding drain_repairs_def by (intro keeps_intro hs.request_stop_keeps hs.basic_keeps)
  ultimately show ?thesis by (simp add: admin_stop_def split_beta keeps_def)
qed

lemma shutdown_reports:
  "an_repairs_suppressed (fst (run_state (admin_shutdown env) h)) \<Longrightarrow> suppressed (snd (run_state (admin_shutdown env) h))"
  by (simp add: admin_shutdown_def split_beta monitor_get_def monitor_do_def atomic_def Let_def AdbHealthMonitor_snapshot_def)

text \<open>After an answer that says that repairs are suppressed the stop flag is set, whatever the request was and
  whatever the other tasks did while it was handled: a monitor that begins its run then starts no ADB task under
  its operation lock.  What a monitor in the middle of its run does is in the theory \<open>StopDrain\<close>.\<close>

theorem admin_suppression_holds:
  assumes "an_repairs_suppressed (fst (run_state (admin_respond env lane command) h))"
  shows "late_tasks (snd (run_state (monitor_run env' config lives) (snd (run_state (admin_respond env lane command) h)))) =
    late_tasks (snd (run_state (admin_respond env lane command) h))"
proof -
  have "suppressed (snd (run_state (admin_respond env lane command) h))"
    using assms stop_suppresses shutdown_reports
    by (auto simp: admin_respond_def admin_host_resume_def admin_status_def split_beta split: if_splits)
  then show ?thesis using checked_lives [of env' _ lives INITIAL_BACKOFF] by (simp add: monitor_run_def checked_def)
qed

section \<open>The exchange\<close>

lemma token_length:
  assumes "load_or_create_admin_token fresh tio found = (Inr token, Some content)" "session_wf fresh"
  shows "length (ascii token) = 36"
  using assms session_text_roundtrip_aux(1) [OF assms(2)]
  by (auto simp: load_or_create_admin_token_def valid_token_def SessionId_from_str_def Let_def
      split: option.splits if_splits token_io.splits sum.splits)

text \<open>C24. The client of the command line and the daemon understand each other: with the token file that the
  daemon found or created, a command whose messages fit the limit is authenticated and executed exactly once: the
  client receives the response of that one execution, and the host is left as that execution leaves it; the daemon is asked to shut down exactly if the
  command was an accepted shutdown.\<close>

theorem admin_exchange:
  assumes json: "json_ok encode (ai_decode io)" "json_ok (ai_encode io) decode"
    and token: "load_or_create_admin_token fresh tio found = (Inr token, Some content)" "session_wf fresh"
    and io: "ai_request_timely io" "ai_response_late io = None"
    and request: "fits MAX_ADMIN_MESSAGE encode (admin_request_of content command)"
    and response: "fst (run_state (admin_respond env (ai_lane io) command) h) = response"
      "fits MAX_ADMIN_MESSAGE (ai_encode io) response"
  shows "\<exists>sent received.
     admin_command encode decode True (Inr content) command \<lparr>written = [], broken = None\<rparr>
       \<lparr>pending = received, closing = UnexpectedEof\<rparr> = (Inr response, \<lparr>written = sent, broken = None\<rparr>) \<and>
     run_state (admin_handle env (ascii token) io \<lparr>pending = sent, closing = UnexpectedEof\<rparr>
       \<lparr>written = [], broken = None\<rparr>) h =
       ((Inr (), \<lparr>written = received, broken = None\<rparr>, command = ''shutdown'' \<and> an_ok response),
        snd (run_state (admin_respond env (ai_lane io) command) h))"
proof (intro exI conjI)
  let ?q = "admin_request_of content command"
  have q: "aq_token ?q = ascii token" "aq_command ?q = command"
    using token_shared [OF token(1)] by (simp_all add: admin_request_of_def)
  have same: "constant_time_eq (ascii token) (ascii token)"
    using token_length [OF token] by (simp add: constant_time_eq_iff)
  show "admin_command encode decode True (Inr content) command \<lparr>written = [], broken = None\<rparr>
      \<lparr>pending = message_bytes (ai_encode io) response, closing = UnexpectedEof\<rparr> =
      (Inr response, \<lparr>written = message_bytes encode ?q, broken = None\<rparr>)"
    using admin_lane.written [OF request, of "\<lparr>written = [], broken = None\<rparr>"]
      admin_lane.read_back [OF json(2) response(2), of "\<lparr>pending = message_bytes (ai_encode io) response, closing = UnexpectedEof\<rparr>" "[]"]
    by (simp add: admin_command_def)
  show "run_state (admin_handle env (ascii token) io \<lparr>pending = message_bytes encode ?q, closing = UnexpectedEof\<rparr>
      \<lparr>written = [], broken = None\<rparr>) h =
      ((Inr (), \<lparr>written = message_bytes (ai_encode io) response, broken = None\<rparr>, command = ''shutdown'' \<and> an_ok response),
       snd (run_state (admin_respond env (ai_lane io) command) h))"
    using admin_lane.read_back [OF json(1) request, of "\<lparr>pending = message_bytes encode ?q, closing = UnexpectedEof\<rparr>" "[]"]
      admin_lane.written [OF response(2), of "\<lparr>written = [], broken = None\<rparr>"] io same response(1)
    by (simp add: admin_handle_def respond_within_def q split_beta)
qed

section \<open>Witnesses\<close>

text \<open>Texts for one message each.\<close>

definition one_encode :: "'m \<Rightarrow> bytes \<Rightarrow> 'm \<Rightarrow> bytes option" where
  "one_encode m t x = (if x = m then Some t else None)"

definition one_decode :: "'m \<Rightarrow> bytes \<Rightarrow> bytes \<Rightarrow> 'm option" where
  "one_decode m t x = (if x = t then Some m else None)"

lemma one_json: "json_ok (one_encode m t) (one_decode m t)"
  by (simp add: json_ok_def one_encode_def one_decode_def)

lemma one_fits: "length t \<le> limit \<Longrightarrow> fits limit (one_encode m t) m"
  by (simp add: fits_def one_encode_def)

definition sample_io :: "AdminRequest \<Rightarrow> AdminResponse \<Rightarrow> admin_io" where
  "sample_io q r = \<lparr>ai_request_timely = True, ai_response_late = None, ai_lane = \<lparr>sl_closed = False, sl_dropped = False\<rparr>,
     ai_decode = one_decode q (ascii ''request''), ai_encode = one_encode r (ascii ''response'')\<rparr>"

theorem admin_requires_token_witness:
  "\<exists>request rest. read_admin_message (ai_decode (sample_io \<lparr>aq_token = [7], aq_command = ''status''\<rparr> authentication_failed))
     \<lparr>pending = [0, 0, 0, 7] @ ascii ''request'', closing = UnexpectedEof\<rparr> = Inr (request, rest) \<and> aq_token request = [7]"
proof -
  let ?io = "sample_io \<lparr>aq_token = [7], aq_command = ''status''\<rparr> authentication_failed"
  let ?s = "\<lparr>pending = [0, 0, 0, 7] @ ascii ''request'', closing = UnexpectedEof\<rparr>"
  let ?m = "admin_handle idle_env [7] ?io ?s \<lparr>written = [], broken = None\<rparr>"
  obtain r sink b h where run: "run_state ?m idle_host = ((r, sink, b), h)" by (metis prod_cases3 surj_pair)
  have "be_u32 [0, 0, 0, 7] = 7" by (simp add: be_u32_def be_value_def)
  then have read: "read_admin_message (ai_decode ?io) ?s = Inr (\<lparr>aq_token = [7], aq_command = ''status''\<rparr>, \<lparr>pending = [], closing = UnexpectedEof\<rparr>)"
    by (simp add: read_admin_message_def read_message_def read_exact_def Let_def MAX_ADMIN_MESSAGE_def
        sample_io_def one_decode_def ascii_def)
  have "h_turn (snd (run_state ?m idle_host)) = h_turn idle_host + 1"
    using read constant_time_eq_iff [of "[7]" "[7]"]
    by (simp add: admin_handle_def sample_io_def admin_respond_def admin_status_def control_snapshot_def atomic_def
        interfere_def idle_env_def split_beta)
  with run have "h \<noteq> idle_host" by auto
  moreover have "decode_bounded (ai_decode ?io)"
    by (auto simp: decode_bounded_def sample_io_def one_decode_def ascii_def split: if_splits)
  ultimately show ?thesis
    using run by (intro admin_requires_token [where sink' = sink and r = r and shutdown = b]) (auto simp: MAX_ADMIN_MESSAGE_def)
qed

theorem admin_exchange_witness:
  "let token = SessionId_to_string (SessionId (replicate 16 7)); q = admin_request_of token ''shutdown'';
       r = fst (run_state (admin_respond idle_env \<lparr>sl_closed = False, sl_dropped = False\<rparr> ''shutdown'') idle_host) in
   \<exists>sent received.
     admin_command (one_encode q (ascii ''request'')) (one_decode r (ascii ''response'')) True (Inr token) ''shutdown''
       \<lparr>written = [], broken = None\<rparr> \<lparr>pending = received, closing = UnexpectedEof\<rparr> =
       (Inr r, \<lparr>written = sent, broken = None\<rparr>) \<and>
     run_state (admin_handle idle_env (ascii token) (sample_io q r) \<lparr>pending = sent, closing = UnexpectedEof\<rparr>
       \<lparr>written = [], broken = None\<rparr>) idle_host =
       ((Inr (), \<lparr>written = received, broken = None\<rparr>, ''shutdown'' = ''shutdown'' \<and> an_ok r),
        snd (run_state (admin_respond idle_env (ai_lane (sample_io q r)) ''shutdown'') idle_host))"
  unfolding Let_def
  by (rule admin_exchange [where found = None and tio = TokenWritten and fresh = "SessionId (replicate 16 7)"])
     (simp_all add: sample_io_def one_json one_fits ascii_def MAX_ADMIN_MESSAGE_def load_or_create_admin_token_def
       session_wf_def Let_def)

end
