(* ===== verification/HostFiles.thy ===== *)
theory HostFiles
  imports AdbTransactions Lifecycle
begin

text \<open>
  What the host keeps in files (\<^verbatim>\<open>runtime.rs\<close>): the state store, whose document says which daemon runs and
  whether it is ready; the operation guard, a lock file with the identifier of its owner; the identity of
  the daemon; and the report of \<^verbatim>\<open>doctor\<close>, which combines them with the answers of ADB.  The texts of
  \<^verbatim>\<open>serde_json\<close> and the outcomes of file operations are arguments.
\<close>

type_synonym pid = u32

definition parse_pid :: "string \<Rightarrow> pid option" where
  "parse_pid t = map_option word_of_nat (parse_unsigned (2 ^ 32 - 1) (trim t))"

section \<open>The state store\<close>

record 't PersistedStatus =
  pst_lifecycle :: StateSnapshot
  pst_daemon_pid :: "pid option"
  pst_daemon_running :: bool
  pst_runtime_ready :: bool
  pst_updated_unix_ms :: nat
  pst_telemetry :: "'t option"

definition PersistedStatus_stopped :: "nat \<Rightarrow> 't PersistedStatus" where
  "PersistedStatus_stopped now =
     \<lparr>pst_lifecycle = \<lparr>snap_state = Stopped, snap_session = None, snap_missed = 0, snap_reason = None\<rparr>,
      pst_daemon_pid = None, pst_daemon_running = False, pst_runtime_ready = False,
      pst_updated_unix_ms = now, pst_telemetry = None\<rparr>"

text \<open>The texts of a document: \<open>None\<close> when it cannot be written or read.\<close>

record ('t, 'f) status_codec =
  sc_encode :: "'t PersistedStatus \<Rightarrow> 'f option"
  sc_decode :: "'f \<Rightarrow> 't PersistedStatus option"

record 'f store_files =
  sf_status :: "'f option"
  sf_temporary :: "'f option"

text \<open>How one write ends: the lock of the store may be poisoned by a writer that panicked, and the file operations may fail; a
  failed write leaves anything in the temporary file.  The lock makes the writes of one process follow each other; a
  write of the daemon and one of the command line are taken to follow each other too.\<close>

datatype 'f store_io = StoreOk | StorePoisoned | StoreWriteFails io_kind "'f option" | StoreRenameFails io_kind

definition StateStore_read :: "('t, 'f) status_codec \<Rightarrow> 'f store_files \<Rightarrow> 't PersistedStatus option" where
  "StateStore_read codec fs = (case sf_status fs of None \<Rightarrow> None | Some f \<Rightarrow> sc_decode codec f)"

definition read_or_stopped :: "('t, 'f) status_codec \<Rightarrow> nat \<Rightarrow> 'f store_files \<Rightarrow> 't PersistedStatus" where
  "read_or_stopped codec now fs =
     (case StateStore_read codec fs of None \<Rightarrow> PersistedStatus_stopped now | Some d \<Rightarrow> d)"

definition write_document ::
  "('t, 'f) status_codec \<Rightarrow> nat \<Rightarrow> 'f store_io \<Rightarrow> StateSnapshot \<Rightarrow> pid option \<Rightarrow> bool \<Rightarrow> 't option \<Rightarrow>
   'f store_files \<Rightarrow> (io_kind + unit) \<times> 'f store_files" where
  "write_document codec now io s daemon_pid runtime_ready telemetry fs =
     (let document = \<lparr>pst_lifecycle = s, pst_daemon_pid = daemon_pid,
            pst_daemon_running = (daemon_pid \<noteq> None), pst_runtime_ready = (daemon_pid \<noteq> None \<and> runtime_ready),
            pst_updated_unix_ms = now, pst_telemetry = telemetry\<rparr>
      in case sc_encode codec document of
           None \<Rightarrow> (Inl OtherIo, fs)
         | Some f \<Rightarrow>
             (case io of
                StorePoisoned \<Rightarrow> (Inl OtherIo, fs)
              | StoreWriteFails kind junk \<Rightarrow> (Inl kind, fs\<lparr>sf_temporary := junk\<rparr>)
              | StoreRenameFails kind \<Rightarrow> (Inl kind, fs\<lparr>sf_temporary := Some f\<rparr>)
              | StoreOk \<Rightarrow> (Inr (), fs\<lparr>sf_temporary := None, sf_status := Some f\<rparr>)))"

definition keeps_ready :: "pid option \<Rightarrow> 't PersistedStatus option \<Rightarrow> bool" where
  "keeps_ready daemon_pid existing \<longleftrightarrow> daemon_pid \<noteq> None \<and>
     (case existing of None \<Rightarrow> False | Some d \<Rightarrow> pst_daemon_pid d = daemon_pid \<and> pst_runtime_ready d)"

definition existing_telemetry :: "'t PersistedStatus option \<Rightarrow> 't option" where
  "existing_telemetry existing = (case existing of None \<Rightarrow> None | Some d \<Rightarrow> pst_telemetry d)"

definition StateStore_write ::
  "('t, 'f) status_codec \<Rightarrow> nat \<Rightarrow> 'f store_io \<Rightarrow> StateSnapshot \<Rightarrow> pid option \<Rightarrow> 'f store_files \<Rightarrow>
   (io_kind + unit) \<times> 'f store_files" where
  "StateStore_write codec now io s daemon_pid fs =
     (let existing = StateStore_read codec fs in
      write_document codec now io s daemon_pid (keeps_ready daemon_pid existing) (existing_telemetry existing) fs)"

definition write_with_telemetry ::
  "('t, 'f) status_codec \<Rightarrow> nat \<Rightarrow> 'f store_io \<Rightarrow> StateSnapshot \<Rightarrow> pid option \<Rightarrow> 't \<Rightarrow> 'f store_files \<Rightarrow>
   (io_kind + unit) \<times> 'f store_files" where
  "write_with_telemetry codec now io s daemon_pid telemetry fs =
     write_document codec now io s daemon_pid (keeps_ready daemon_pid (StateStore_read codec fs))
       (Some telemetry) fs"

definition write_runtime_not_ready ::
  "('t, 'f) status_codec \<Rightarrow> nat \<Rightarrow> 'f store_io \<Rightarrow> StateSnapshot \<Rightarrow> pid \<Rightarrow> 'f store_files \<Rightarrow>
   (io_kind + unit) \<times> 'f store_files" where
  "write_runtime_not_ready codec now io s daemon_pid fs =
     write_document codec now io s (Some daemon_pid) False None fs"

definition write_runtime_ready ::
  "('t, 'f) status_codec \<Rightarrow> nat \<Rightarrow> 'f store_io \<Rightarrow> StateSnapshot \<Rightarrow> pid \<Rightarrow> 'f store_files \<Rightarrow>
   (io_kind + unit) \<times> 'f store_files" where
  "write_runtime_ready codec now io s daemon_pid fs =
     write_document codec now io s (Some daemon_pid) True (existing_telemetry (StateStore_read codec fs)) fs"

section \<open>The operation guard\<close>

text \<open>The directory entry of a lock file: the file it names, by a serial number, and its text.\<close>

record lock_dir =
  ld_entry :: "(nat \<times> string) option"
  ld_serial :: nat

text \<open>\<^verbatim>\<open>OperationGuard::acquire\<close> up to its next file operation; a created file is known by its serial number.\<close>

datatype guard_state =
    G_Open
  | G_Exists
  | G_Stale
  | G_Reopen
  | G_Created nat
  | G_Held nat
  | G_Failed io_kind
  | G_Dropped

definition create_new :: "lock_dir \<Rightarrow> (nat \<times> lock_dir) option" where
  "create_new d = (case ld_entry d of
     Some _ \<Rightarrow> None
   | None \<Rightarrow> Some (ld_serial d, \<lparr>ld_entry = Some (ld_serial d, []), ld_serial = ld_serial d + 1\<rparr>))"

definition lock_owner :: "lock_dir \<Rightarrow> pid option" where
  "lock_owner d = (case ld_entry d of None \<Rightarrow> None | Some (_, t) \<Rightarrow> parse_pid t)"

definition pid_line :: "pid \<Rightarrow> string" where
  "pid_line p = show_nat (unat p) @ [CHR 0x0A]"

text \<open>One file operation of the acquisition by process \<open>me\<close>; writing goes to the created file, wherever
  the directory entry points by then.  \<open>fails\<close> says which of the operations fail for another reason: an owner that
  cannot be read is none, and a file whose line could not be written stays behind, without a guard to remove it.\<close>

fun guard_step :: "(guard_state \<Rightarrow> io_kind option) \<Rightarrow> (pid \<Rightarrow> bool) \<Rightarrow> pid \<Rightarrow> guard_state \<Rightarrow> lock_dir \<Rightarrow> guard_state \<times> lock_dir" where
  "guard_step fails running me G_Open d =
     (case fails G_Open of
        Some k \<Rightarrow> (G_Failed k, d)
      | None \<Rightarrow> (case create_new d of None \<Rightarrow> (G_Exists, d) | Some (n, d) \<Rightarrow> (G_Created n, d)))"
| "guard_step fails running me G_Exists d =
     (case (if fails G_Exists = None then lock_owner d else None) of
        Some owner \<Rightarrow> if running owner then (G_Failed OtherIo, d) else (G_Stale, d)
      | None \<Rightarrow> (G_Stale, d))"
| "guard_step fails running me G_Stale d =
     (case fails G_Stale of
        Some k \<Rightarrow> (G_Failed k, d)
      | None \<Rightarrow> (case ld_entry d of None \<Rightarrow> (G_Failed NotFound, d) | Some _ \<Rightarrow> (G_Reopen, d\<lparr>ld_entry := None\<rparr>)))"
| "guard_step fails running me G_Reopen d =
     (case fails G_Reopen of
        Some k \<Rightarrow> (G_Failed k, d)
      | None \<Rightarrow> (case create_new d of None \<Rightarrow> (G_Failed OtherIo, d) | Some (n, d) \<Rightarrow> (G_Created n, d)))"
| "guard_step fails running me (G_Created n) d =
     (case fails (G_Created n) of
        Some k \<Rightarrow> (G_Failed k, d)
      | None \<Rightarrow>
          (G_Held n,
           case ld_entry d of
             None \<Rightarrow> d
           | Some (m, t) \<Rightarrow> if m = n then d\<lparr>ld_entry := Some (m, t @ pid_line me)\<rparr> else d))"
| "guard_step fails running me g d = (g, d)"

definition OperationGuard_acquire ::
  "(guard_state \<Rightarrow> io_kind option) \<Rightarrow> (pid \<Rightarrow> bool) \<Rightarrow> pid \<Rightarrow> lock_dir \<Rightarrow> guard_state \<times> lock_dir" where
  "OperationGuard_acquire fails running me d =
     ((\<lambda>(g, d). guard_step fails running me g d) ^^ 5) (G_Open, d)"

text \<open>File operations that do not fail by themselves.\<close>

abbreviation sound_files :: "guard_state \<Rightarrow> io_kind option" where "sound_files \<equiv> \<lambda>_. None"

text \<open>Dropping the guard removes whatever the entry names.\<close>

definition OperationGuard_drop :: "guard_state \<Rightarrow> lock_dir \<Rightarrow> guard_state \<times> lock_dir" where
  "OperationGuard_drop g d = (case g of G_Held _ \<Rightarrow> (G_Dropped, d\<lparr>ld_entry := None\<rparr>) | _ \<Rightarrow> (g, d))"

definition runtime_may_be_active :: "(pid \<Rightarrow> bool) \<Rightarrow> string option \<Rightarrow> bool" where
  "runtime_may_be_active running runtime_lock =
     (case runtime_lock of
        None \<Rightarrow> False
      | Some t \<Rightarrow> (case parse_pid t of None \<Rightarrow> False | Some p \<Rightarrow> running p))"

section \<open>The identity of the daemon\<close>

record DaemonIdentity =
  di_role :: string
  di_pid :: pid
  di_creation_time :: u64
  di_session_id :: string
  di_executable_path :: string

record WindowsProcessSnapshot =
  wp_active :: bool
  wp_creation_time :: u64
  wp_executable_path :: string

definition valid_session_text :: "string \<Rightarrow> bool" where
  "valid_session_text t = (case SessionId_from_str (ascii t) of Inl _ \<Rightarrow> False | Inr s \<Rightarrow> s \<noteq> SessionId_ZERO)"

definition daemon_identity_matches :: "DaemonIdentity \<Rightarrow> WindowsProcessSnapshot \<Rightarrow> bool" where
  "daemon_identity_matches identity live \<longleftrightarrow>
     di_role identity = ''gnirehtet-vd-daemon'' \<and> valid_session_text (di_session_id identity) \<and>
     wp_active live \<and> wp_creation_time live = di_creation_time identity \<and>
     to_ascii_lowercase (wp_executable_path live) = to_ascii_lowercase (di_executable_path identity)"

text \<open>Reading the identity, on Windows against a snapshot of the process, elsewhere as a number.\<close>

definition read_daemon_pid_windows ::
  "(pid \<Rightarrow> WindowsProcessSnapshot option) \<Rightarrow> DaemonIdentity option \<Rightarrow> pid option" where
  "read_daemon_pid_windows process identity =
     (case identity of
        None \<Rightarrow> None
      | Some i \<Rightarrow>
          (case process (di_pid i) of
             None \<Rightarrow> None
           | Some current \<Rightarrow> if daemon_identity_matches i current then Some (di_pid i) else None))"

definition read_daemon_pid :: "string option \<Rightarrow> pid option" where
  "read_daemon_pid file = (case file of None \<Rightarrow> None | Some t \<Rightarrow> parse_pid t)"

section \<open>The report of doctor\<close>

datatype StreamerProbe = SP_Unsupported | SP_CheckFailed | SP_Unknown | SP_NotRunning | SP_RunningNotListening
  | SP_Listening nat nat

record DoctorReport =
  dr_host_runtime_ready :: bool
  dr_control_connected :: bool
  dr_adb_state :: "string + string"
  dr_reverse_mappings_healthy :: bool
  dr_reverse_mapping_error :: "string option"
  dr_virtual_desktop_streamer :: StreamerProbe
  dr_android_vpn :: "string + AndroidVpnStatus"
  dr_tunnel_available :: bool

definition tunnel_layers_available :: "bool \<Rightarrow> bool \<Rightarrow> bool \<Rightarrow> bool \<Rightarrow> bool \<Rightarrow> StreamerProbe \<Rightarrow> bool" where
  "tunnel_layers_available host_runtime_ready control_connected adb_ready mappings_ready android_ready streamer \<longleftrightarrow>
     host_runtime_ready \<and> control_connected \<and> adb_ready \<and> mappings_ready \<and> android_ready"

definition host_ready :: "pid option \<Rightarrow> 't PersistedStatus option \<Rightarrow> bool" where
  "host_ready live_daemon persisted =
     (case persisted of
        None \<Rightarrow> False
      | Some d \<Rightarrow> live_daemon \<noteq> None \<and> pst_daemon_pid d = live_daemon \<and> pst_daemon_running d \<and> pst_runtime_ready d)"

definition control_ready :: "pid option \<Rightarrow> 't PersistedStatus option \<Rightarrow> bool" where
  "control_ready live_daemon persisted =
     (case persisted of
        None \<Rightarrow> False
      | Some d \<Rightarrow> host_ready live_daemon persisted \<and> snap_state (pst_lifecycle d) = Connected \<and>
          snap_missed (pst_lifecycle d) = 0)"

definition android_ready :: "'e + AndroidVpnStatus \<Rightarrow> bool" where
  "android_ready android =
     (case android of
        Inl _ \<Rightarrow> False
      | Inr s \<Rightarrow> av_vpn_fd_open s = Some True \<and> (av_state s = Some ''connected'' \<or> av_state s = Some ''degraded''))"

definition map_error :: "('e \<Rightarrow> 'f) \<Rightarrow> 'e + 'a \<Rightarrow> 'f + 'a" where
  "map_error f r = (case r of Inl e \<Rightarrow> Inl (f e) | Inr a \<Rightarrow> Inr a)"

definition doctor ::
  "adb_env \<Rightarrow> AdbController \<Rightarrow> pid option \<Rightarrow> 't PersistedStatus option \<Rightarrow> StreamerProbe \<Rightarrow> DoctorReport adb" where
  "doctor env c live_daemon persisted streamer = do {
     adb_state \<leftarrow> device_state env c;
     mapping \<leftarrow> mapping_health env c;
     android \<leftarrow> android_status env c;
     (let host = host_ready live_daemon persisted; control = control_ready live_daemon persisted;
          healthy = (case mapping of Inl _ \<Rightarrow> False | Inr missing \<Rightarrow> missing = []) in
      State_Monad.return
        \<lparr>dr_host_runtime_ready = host, dr_control_connected = control,
         dr_adb_state = map_error AdbError_message adb_state,
         dr_reverse_mappings_healthy = healthy,
         dr_reverse_mapping_error = (case mapping of Inl e \<Rightarrow> Some (AdbError_message e) | Inr _ \<Rightarrow> None),
         dr_virtual_desktop_streamer = streamer, dr_android_vpn = map_error AdbError_message android,
         dr_tunnel_available =
           tunnel_layers_available host control (adb_state = Inr ''device'') healthy (android_ready android) streamer\<rparr>)
   }"

section \<open>Who is ready\<close>

text \<open>The writes of the store, and an abstract account of them: which daemon, if any, has announced that it is
  ready and has not been superseded.\<close>

datatype 't store_op =
    W_State StateSnapshot "pid option"
  | W_Telemetry StateSnapshot "pid option" 't
  | W_NotReady StateSnapshot pid
  | W_Ready StateSnapshot pid

fun store_apply ::
  "('t, 'f) status_codec \<Rightarrow> nat \<times> 'f store_io \<times> 't store_op \<Rightarrow> 'f store_files \<Rightarrow> (io_kind + unit) \<times> 'f store_files" where
  "store_apply codec (now, io, W_State s p) fs = StateStore_write codec now io s p fs"
| "store_apply codec (now, io, W_Telemetry s p t) fs = write_with_telemetry codec now io s p t fs"
| "store_apply codec (now, io, W_NotReady s p) fs = write_runtime_not_ready codec now io s p fs"
| "store_apply codec (now, io, W_Ready s p) fs = write_runtime_ready codec now io s p fs"

fun owner_after :: "'t store_op \<Rightarrow> pid option \<Rightarrow> pid option" where
  "owner_after (W_State s p) ready = (if p = ready then ready else None)"
| "owner_after (W_Telemetry s p t) ready = (if p = ready then ready else None)"
| "owner_after (W_NotReady s p) ready = None"
| "owner_after (W_Ready s p) ready = Some p"

text \<open>What a reader learns: the daemon that is ready.\<close>

definition ready_daemon :: "('t, 'f) status_codec \<Rightarrow> 'f store_files \<Rightarrow> pid option" where
  "ready_daemon codec fs =
     (case StateStore_read codec fs of
        None \<Rightarrow> None
      | Some d \<Rightarrow> if pst_runtime_ready d then pst_daemon_pid d else None)"

definition store_run ::
  "('t, 'f) status_codec \<Rightarrow> (nat \<times> 'f store_io \<times> 't store_op) list \<Rightarrow> 'f store_files \<Rightarrow> 'f store_files" where
  "store_run codec ops fs = fold (\<lambda>op fs. snd (store_apply codec op fs)) ops fs"

fun owner_run ::
  "('t, 'f) status_codec \<Rightarrow> (nat \<times> 'f store_io \<times> 't store_op) list \<Rightarrow> 'f store_files \<Rightarrow> pid option \<Rightarrow> pid option" where
  "owner_run codec [] fs ready = ready"
| "owner_run codec (op # ops) fs ready =
     owner_run codec ops (snd (store_apply codec op fs))
       (case fst (store_apply codec op fs) of Inl _ \<Rightarrow> ready | Inr _ \<Rightarrow> owner_after (snd (snd op)) ready)"

text \<open>What the host needs of \<^verbatim>\<open>serde_json\<close>: what was written is what is read.\<close>

definition codec_ok :: "('t, 'f) status_codec \<Rightarrow> bool" where
  "codec_ok codec \<longleftrightarrow> (\<forall>d f. sc_encode codec d = Some f \<longrightarrow> sc_decode codec f = Some d)"

lemma write_document_result:
  "write_document codec now io s p ready t fs = (r, fs') \<Longrightarrow>
     (\<exists>e. r = Inl e) \<and> sf_status fs' = sf_status fs \<or>
     r = Inr () \<and> (\<exists>f. sf_status fs' = Some f \<and> sc_encode codec
        \<lparr>pst_lifecycle = s, pst_daemon_pid = p, pst_daemon_running = (p \<noteq> None),
         pst_runtime_ready = (p \<noteq> None \<and> ready), pst_updated_unix_ms = now, pst_telemetry = t\<rparr> = Some f)"
  by (auto simp: write_document_def Let_def split: option.splits store_io.splits)

lemma write_document_ready:
  assumes "codec_ok codec"
  shows "ready_daemon codec (snd (write_document codec now io s p ready t fs)) =
    (case fst (write_document codec now io s p ready t fs) of
       Inl _ \<Rightarrow> ready_daemon codec fs
     | Inr _ \<Rightarrow> if ready then p else None)"
proof -
  obtain r fs' where run: "write_document codec now io s p ready t fs = (r, fs')" by fastforce
  from write_document_result [OF run] assms show ?thesis
    by (auto simp: run ready_daemon_def StateStore_read_def codec_ok_def)
qed

lemma keeps_ready_owner: "keeps_ready p (StateStore_read codec fs) \<longleftrightarrow> p \<noteq> None \<and> ready_daemon codec fs = p"
  by (auto simp: keeps_ready_def ready_daemon_def split: option.splits)

lemma store_apply_ready:
  assumes "codec_ok codec"
  shows "ready_daemon codec (snd (store_apply codec op fs)) =
    (case fst (store_apply codec op fs) of
       Inl _ \<Rightarrow> ready_daemon codec fs
     | Inr _ \<Rightarrow> owner_after (snd (snd op)) (ready_daemon codec fs))"
proof -
  obtain now io op' where op: "op = (now, io, op')" by (cases op) auto
  show ?thesis
    unfolding op
    by (cases op')
       (auto simp: StateStore_write_def write_with_telemetry_def write_runtime_not_ready_def write_runtime_ready_def
          Let_def keeps_ready_owner write_document_ready [OF assms] split: sum.splits)
qed

lemma owner_run_ready:
  "codec_ok codec \<Longrightarrow> ready_daemon codec (store_run codec ops fs) = owner_run codec ops fs (ready_daemon codec fs)"
proof (induction ops arbitrary: fs)
  case (Cons op ops)
  from Cons.IH [OF Cons.prems] Cons.prems show ?case by (simp add: store_run_def store_apply_ready)
qed (simp add: store_run_def)

text \<open>C21. The status file always names exactly the daemon that last announced it was ready and has not been
  superseded since: through any sequence of writes by any processes, with failing writes and renames, a
  reader sees a complete document, failed writes change nothing, and a write under another process
  identifier, or without one, withdraws the announcement.\<close>

theorem store_refines_ready_owner:
  assumes "codec_ok codec"
  shows "ready_daemon codec (store_run codec ops \<lparr>sf_status = None, sf_temporary = None\<rparr>) =
    owner_run codec ops \<lparr>sf_status = None, sf_temporary = None\<rparr> None"
  using owner_run_ready [OF assms, of ops "\<lparr>sf_status = None, sf_temporary = None\<rparr>"]
  by (simp add: ready_daemon_def StateStore_read_def)

definition sample_codec :: "(unit, unit PersistedStatus) status_codec" where
  "sample_codec = \<lparr>sc_encode = Some, sc_decode = Some\<rparr>"

definition sample_snapshot :: StateSnapshot where
  "sample_snapshot = \<lparr>snap_state = Connected, snap_session = None, snap_missed = 0, snap_reason = None\<rparr>"

theorem store_refines_ready_owner_witness:
  "ready_daemon sample_codec (store_run sample_codec
     [(0, StoreOk, W_NotReady sample_snapshot 7), (1, StoreOk, W_Ready sample_snapshot 7),
      (2, StoreRenameFails OtherIo, W_NotReady sample_snapshot 8), (3, StoreOk, W_State sample_snapshot (Some 7))]
     \<lparr>sf_status = None, sf_temporary = None\<rparr>) = Some 7"
proof -
  have "codec_ok sample_codec" by (simp add: codec_ok_def sample_codec_def)
  from store_refines_ready_owner [OF this] show ?thesis
    by (simp add: sample_codec_def StateStore_write_def write_runtime_not_ready_def write_runtime_ready_def
        write_document_def Let_def)
qed

section \<open>The lock file\<close>

text \<open>Alone, the guard is taken when there is no live owner, and it then names its owner.\<close>

lemma parse_pid_line: "parse_pid (pid_line p) = Some p"
proof -
  have digits: "list_all is_ascii_digit (show_nat (unat p))" "show_nat (unat p) \<noteq> []" by (simp_all add: show_nat_digits)
  then have ends: "\<not> is_whitespace (hd (show_nat (unat p)))" "\<not> is_whitespace (last (show_nat (unat p)))"
    using digit_not_space by (auto simp: list_all_iff)
  have "is_whitespace (CHR 0x0A)" by (simp add: is_whitespace_def char_code_def)
  moreover have "dropWhile is_whitespace (show_nat (unat p)) = show_nat (unat p)"
    using ends(1) by (simp add: dropWhile_eq_self_iff)
  moreover have "dropWhile is_whitespace (rev (show_nat (unat p))) = rev (show_nat (unat p))"
    using ends(2) digits(2) by (simp add: dropWhile_eq_self_iff hd_rev)
  ultimately have "trim (pid_line p) = show_nat (unat p)"
    using digits(2) hd_in_set [OF digits(2)] ends(1)
    by (auto simp: trim_def trim_end_by_def pid_line_def dropWhile_append simp del: dropWhile_eq_Nil_conv)
  moreover have "unat p \<le> 2 ^ 32 - 1" using unsigned_less [of p, where 'a = nat] by simp
  ultimately show ?thesis by (simp add: parse_pid_def parse_show_nat)
qed

lemma read_own_identity: "read_daemon_pid (Some (show_nat (unat p))) = Some p"
proof -
  have digits: "list_all is_ascii_digit (show_nat (unat p))" "show_nat (unat p) \<noteq> []" by (simp_all add: show_nat_digits)
  then have "trim (show_nat (unat p)) = show_nat (unat p)"
    by (intro trim_id) (auto simp: list_all_iff digit_not_space)
  moreover have "unat p \<le> 2 ^ 32 - 1" using unsigned_less [of p, where 'a = nat] by simp
  ultimately show ?thesis by (simp add: read_daemon_pid_def parse_pid_def parse_show_nat)
qed

lemma acquire_alone:
  "OperationGuard_acquire sound_files running me d =
     (case ld_entry d of
        None \<Rightarrow> (G_Held (ld_serial d), \<lparr>ld_entry = Some (ld_serial d, pid_line me), ld_serial = ld_serial d + 1\<rparr>)
      | Some _ \<Rightarrow>
          if (case lock_owner d of None \<Rightarrow> False | Some owner \<Rightarrow> running owner) then (G_Failed OtherIo, d)
          else (G_Held (ld_serial d), \<lparr>ld_entry = Some (ld_serial d, pid_line me), ld_serial = ld_serial d + 1\<rparr>))"
  by (cases "ld_entry d")
     (auto simp: OperationGuard_acquire_def eval_nat_numeral create_new_def split: option.splits)

text \<open>Two processes at once: \<open>schedule\<close> says whose file operation comes next.\<close>

fun guard_run :: "(pid \<Rightarrow> bool) \<Rightarrow> pid list \<Rightarrow> nat list \<Rightarrow> guard_state list \<times> lock_dir \<Rightarrow> guard_state list \<times> lock_dir" where
  "guard_run running pids [] w = w"
| "guard_run running pids (i # schedule) (gs, d) =
     (let (g, d) = guard_step sound_files running (pids ! i) (gs ! i) d in guard_run running pids schedule (gs[i := g], d))"

text \<open>The operation guard does not exclude two live processes: between the creation of the lock file and
  the line with its owner, and between reading a stale owner and removing the file, another process can
  remove the file that was just created, so both acquisitions succeed and both believe to be alone.\<close>

theorem operation_guard_not_exclusive:
  "guard_run (\<lambda>p. p = 1 \<or> p = 2) [1, 2] [0, 1, 1, 1, 1, 1, 0] ([G_Open, G_Open], \<lparr>ld_entry = None, ld_serial = 0\<rparr>) =
     ([G_Held 0, G_Held 1], \<lparr>ld_entry = Some (1, pid_line 2), ld_serial = 2\<rparr>)"
  by (simp add: create_new_def lock_owner_def parse_pid_def parse_unsigned_def trim_def trim_end_by_def)

text \<open>The whole acquisition of one process between two steps of another is refused once the owner is written.\<close>

lemma acquire_refused:
  "ld_entry d = Some (n, pid_line owner) \<Longrightarrow> running owner \<Longrightarrow> OperationGuard_acquire sound_files running me d = (G_Failed OtherIo, d)"
  by (simp add: acquire_alone lock_owner_def parse_pid_line)

text \<open>A line that could not be written leaves an empty file, which the next acquisition takes over as stale.\<close>

lemma failed_line_recovers:
  assumes "ld_entry d = None" "fails = (\<lambda>g. if g = G_Created (ld_serial d) then Some k else None)"
    and "OperationGuard_acquire fails running me d = (g, d')"
  shows "g = G_Failed k \<and> ld_entry d' = Some (ld_serial d, []) \<and> (\<exists>n. fst (OperationGuard_acquire sound_files running' me' d') = G_Held n)"
proof -
  have "g = G_Failed k" "d' = \<lparr>ld_entry = Some (ld_serial d, []), ld_serial = ld_serial d + 1\<rparr>"
    using assms by (auto simp: OperationGuard_acquire_def eval_nat_numeral create_new_def)
  moreover have "parse_pid [] = None" by (simp add: parse_pid_def parse_unsigned_def trim_def trim_end_by_def)
  ultimately show ?thesis by (simp add: acquire_alone lock_owner_def)
qed

lemma acquire_stale:
  "ld_entry d = Some (n, pid_line owner) \<Longrightarrow> \<not> running owner \<Longrightarrow>
   OperationGuard_acquire sound_files running me d =
     (G_Held (ld_serial d), \<lparr>ld_entry = Some (ld_serial d, pid_line me), ld_serial = ld_serial d + 1\<rparr>)"
  by (simp add: acquire_alone lock_owner_def parse_pid_line)

section \<open>Doctor\<close>

text \<open>Doctor reports an available tunnel only if every layer is up: the persisted document belongs to a live
  daemon that is running and ready, its control lane is connected without a missed heartbeat, ADB reports
  the device, no product mapping is missing, and the VPN of the headset is open; the probe of the
  streaming application has no say.\<close>

theorem doctor_tunnel_layers:
  "let report = fst (run_state (doctor env c live persisted streamer) w) in
   dr_tunnel_available report \<longleftrightarrow>
    (\<exists>d. persisted = Some d \<and> live \<noteq> None \<and> pst_daemon_pid d = live \<and> pst_daemon_running d \<and> pst_runtime_ready d \<and>
       snap_state (pst_lifecycle d) = Connected \<and> snap_missed (pst_lifecycle d) = 0) \<and>
    dr_adb_state report = Inr ''device'' \<and> dr_reverse_mappings_healthy report \<and>
    (\<exists>s. dr_android_vpn report = Inr s \<and> av_vpn_fd_open s = Some True \<and>
       (av_state s = Some ''connected'' \<or> av_state s = Some ''degraded''))"
proof -
  obtain a w1 where a: "run_state (device_state env c) w = (a, w1)" by fastforce
  obtain m w2 where m: "run_state (mapping_health env c) w1 = (m, w2)" by fastforce
  obtain v w3 where v: "run_state (android_status env c) w2 = (v, w3)" by fastforce
  have android: "android_ready v \<longleftrightarrow> (\<exists>s. map_error AdbError_message v = Inr s \<and> av_vpn_fd_open s = Some True \<and>
       (av_state s = Some ''connected'' \<or> av_state s = Some ''degraded''))"
    by (cases v) (auto simp: android_ready_def map_error_def)
  have adb: "a = Inr ''device'' \<longleftrightarrow> map_error AdbError_message a = Inr ''device''"
    by (cases a) (auto simp: map_error_def)
  show ?thesis
    unfolding doctor_def
    by (auto simp: a m v Let_def tunnel_layers_available_def host_ready_def control_ready_def android adb
        split: option.splits)
qed

end
