(* ===== verification/Cli.thy ===== *)
theory Cli
  imports Admin HostFiles
begin

text \<open>
  The public commands (\<^verbatim>\<open>main.rs\<close>): start, stop, status and repair.  They act on the daemon, on its files and on
  the headset, all of which other processes change at any time.  What a command reads is therefore an answer
  of its environment, which may differ at every turn; what it does is recorded in a log, and its ADB
  transactions are those of \<open>AdbTransactions\<close>.
\<close>

section \<open>What a command sees and does\<close>

datatype adb_step = InstallApk | StartAndroid | StopAndroid | FinishControlStop | StopUnresponsive | RepairMappings

datatype cli_event =
    Acquired bool
  | Asked string "admin_error + AdminResponse"
  | SawIdentity "pid option"
  | SawRuntime bool
  | SawProcess pid bool
  | SawStatus "StateSnapshot option"
  | SawChild "io_kind + bool"
  | AdbDone adb_step bool
  | Spawned SessionId bool "io_kind + pid"
  | Killed "io_kind + unit"
  | Terminated "io_kind + unit"
  | RemovedIdentity
  | Wrote StateSnapshot "pid option" "io_kind + unit"
  | Slept duration

record Sys =
  sy_log :: "cli_event list"
  sy_adb :: adb_world

type_synonym 'a cli = "(Sys, 'a) state"

text \<open>The environment: each field but the first three is asked with the number of events so far.\<close>

datatype EmbeddedApkError = ApkMissing | ApkInvalid | ApkIo io_kind

record 't cli_env =
  ce_adb :: adb_env
  ce_session :: SessionId
  ce_apk :: "EmbeddedApkError + unit"
  ce_acquire :: "nat \<Rightarrow> io_kind + unit"
  ce_identity :: "nat \<Rightarrow> pid option"
  ce_running :: "nat \<Rightarrow> pid \<Rightarrow> bool"
  ce_runtime_lock :: "nat \<Rightarrow> string option"
  ce_admin :: "nat \<Rightarrow> string \<Rightarrow> duration \<Rightarrow> admin_error + AdminResponse"
  ce_status :: "nat \<Rightarrow> 't PersistedStatus option"
  ce_write :: "nat \<Rightarrow> io_kind + unit"
  ce_spawn :: "nat \<Rightarrow> io_kind + pid"
  ce_exited :: "nat \<Rightarrow> io_kind + bool"
  ce_kill :: "nat \<Rightarrow> io_kind + unit"
  ce_terminate :: "nat \<Rightarrow> pid \<Rightarrow> io_kind + unit"
  ce_unix_ms :: "nat \<Rightarrow> nat"
  ce_takes :: "nat \<Rightarrow> duration"

definition turn :: "Sys \<Rightarrow> nat" where "turn s = length (sy_log s)"

definition logged :: "cli_event list \<Rightarrow> Sys \<Rightarrow> Sys" where
  "logged es s = s\<lparr>sy_log := sy_log s @ es\<rparr>"

definition observe :: "(nat \<Rightarrow> 'a) \<Rightarrow> ('a \<Rightarrow> cli_event) \<Rightarrow> 'a cli" where
  "observe answer event = State (\<lambda>s. let a = answer (turn s) in (a, logged [event a] s))"

definition transact :: "adb_step \<Rightarrow> ('e + 'a) adb \<Rightarrow> ('e + 'a) cli" where
  "transact step job = State (\<lambda>s.
     let (r, w) = run_state job (sy_adb s) in (r, logged [AdbDone step (\<not> isl r)] (s\<lparr>sy_adb := w\<rparr>)))"

definition pause :: "'t cli_env \<Rightarrow> duration \<Rightarrow> Sys \<Rightarrow> Sys" where
  "pause env d s = logged [Slept d]
     (s\<lparr>sy_adb := (sy_adb s)\<lparr>aw_now := aw_now (sy_adb s) + d + ce_takes env (turn s)\<rparr>\<rparr>)"

section \<open>Errors\<close>

datatype cli_error =
    OperationActive io_kind
  | AlreadyRunning pid
  | UnverifiedRuntime
  | ApkFailed EmbeddedApkError
  | TransactionFailed TransactionError
  | SpawnError io_kind
  | DaemonExitedEarly
  | DaemonNotReady
  | AndroidReportedError "string option"
  | DaemonExitedBeforeStarted
  | StartedTimedOut
  | ChildUnknown io_kind
  | QuiesceFailed io_kind
  | RollbackFailed cli_error TransactionError
  | LaneFailedQuiesced
  | LaneFailedUnsafe
  | TerminateFailed io_kind
  | StoreFailed io_kind
  | DaemonActive

section \<open>The pieces\<close>

definition materialize :: "bytes option \<Rightarrow> io_kind + unit \<Rightarrow> bytes option \<Rightarrow> io_kind + unit \<Rightarrow> (EmbeddedApkError + unit) \<times> bytes option" where
  "materialize embedded create_dir existing wr =
     (case embedded of
        None \<Rightarrow> (Inl ApkMissing, existing)
      | Some apk \<Rightarrow>
          if length apk < 4 \<or> take 2 apk \<noteq> ascii ''PK'' then (Inl ApkInvalid, existing)
          else
            (case create_dir of
               Inl k \<Rightarrow> (Inl (ApkIo k), existing)
             | Inr _ \<Rightarrow>
                 if existing = Some apk then (Inr (), existing)
                 else (case wr of Inl k \<Rightarrow> (Inl (ApkIo k), existing) | Inr _ \<Rightarrow> (Inr (), Some apk))))"

definition acquire_lifecycle_operation :: "'t cli_env \<Rightarrow> (io_kind + unit) cli" where
  "acquire_lifecycle_operation env = observe (ce_acquire env) (\<lambda>r. Acquired (\<not> isl r))"

definition daemon_identity :: "'t cli_env \<Rightarrow> pid option cli" where
  "daemon_identity env = observe (ce_identity env) SawIdentity"

definition running_process :: "'t cli_env \<Rightarrow> pid \<Rightarrow> bool cli" where
  "running_process env p = observe (\<lambda>n. ce_running env n p) (SawProcess p)"

definition runtime_active :: "'t cli_env \<Rightarrow> bool cli" where
  "runtime_active env = observe (\<lambda>n. runtime_may_be_active (ce_running env n) (ce_runtime_lock env n)) SawRuntime"

definition ask_admin :: "'t cli_env \<Rightarrow> string \<Rightarrow> duration \<Rightarrow> (admin_error + AdminResponse) cli" where
  "ask_admin env command timeout = observe (\<lambda>n. ce_admin env n command timeout) (Asked command)"

definition terminate_daemon :: "'t cli_env \<Rightarrow> (io_kind + unit) cli" where
  "terminate_daemon env = observe
     (\<lambda>n. case ce_identity env n of None \<Rightarrow> Inl NotFound | Some p \<Rightarrow> ce_terminate env n p) Terminated"

definition remove_identity :: "unit cli" where
  "remove_identity = observe (\<lambda>_. ()) (\<lambda>_. RemovedIdentity)"

definition write_status :: "'t cli_env \<Rightarrow> StateSnapshot \<Rightarrow> pid option \<Rightarrow> (io_kind + unit) cli" where
  "write_status env s p = observe (ce_write env) (Wrote s p)"

definition spawn_daemon :: "'t cli_env \<Rightarrow> SessionId \<Rightarrow> bool \<Rightarrow> (io_kind + pid) cli" where
  "spawn_daemon env session all_traffic = observe (ce_spawn env) (Spawned session all_traffic)"

text \<open>A child that has exited is not killed; then it is waited for.\<close>

definition terminate_spawned_daemon :: "'t cli_env \<Rightarrow> (io_kind + unit) cli" where
  "terminate_spawned_daemon env = observe
     (\<lambda>n. case ce_exited env n of
            Inl k \<Rightarrow> Inl k
          | Inr True \<Rightarrow> Inr ()
          | Inr False \<Rightarrow> ce_kill env n) Killed"

section \<open>Waiting\<close>

text \<open>A loop that looks, returns what it found or sleeps for \<open>d\<close>, up to a deadline.\<close>

function poll_until :: "'t cli_env \<Rightarrow> (nat \<Rightarrow> 'r option \<times> cli_event list) \<Rightarrow> duration \<Rightarrow> instant \<Rightarrow> Sys \<Rightarrow> 'r option \<times> Sys" where
  "poll_until env look d deadline s =
     (if d = 0 \<or> \<not> aw_now (sy_adb s) < deadline then (None, s)
      else
        (case look (turn s) of
           (Some r, es) \<Rightarrow> (Some r, logged es s)
         | (None, es) \<Rightarrow> poll_until env look d deadline (pause env d (logged es s))))"
  by pat_completeness auto
termination by (relation "measure (\<lambda>(env, look, d, deadline, s). deadline - aw_now (sy_adb s))")
    (auto simp: pause_def logged_def)

declare poll_until.simps [simp del]

definition poll_for :: "'t cli_env \<Rightarrow> (nat \<Rightarrow> 'r option \<times> cli_event list) \<Rightarrow> duration \<Rightarrow> duration \<Rightarrow> 'r option cli" where
  "poll_for env look d limit = State (\<lambda>s. poll_until env look d (aw_now (sy_adb s) + limit) s)"

definition millis :: "nat \<Rightarrow> duration" where "millis n = n * 1000000"

definition ready_look :: "'t cli_env \<Rightarrow> pid \<Rightarrow> nat \<Rightarrow> (cli_error + unit) option \<times> cli_event list" where
  "ready_look env p n =
     (if \<not> ce_running env n p then (Some (Inl DaemonExitedEarly), [SawProcess p False])
      else
        (case ce_status env n of
           None \<Rightarrow> (None, [SawProcess p True, SawStatus None])
         | Some d \<Rightarrow>
             (if pst_daemon_pid d = Some p \<and> pst_daemon_running d \<and> pst_runtime_ready d then Some (Inr ()) else None,
              [SawProcess p True, SawStatus (Some (pst_lifecycle d))])))"

definition wait_for_runtime_ready :: "'t cli_env \<Rightarrow> pid \<Rightarrow> (cli_error + unit) cli" where
  "wait_for_runtime_ready env p = do {
     found \<leftarrow> poll_for env (ready_look env p) (millis 50) (seconds 3);
     State_Monad.return (case found of Some r \<Rightarrow> r | None \<Rightarrow> Inl DaemonNotReady)
   }"

definition connected_look :: "'t cli_env \<Rightarrow> SessionId \<Rightarrow> nat \<Rightarrow> (cli_error + unit) option \<times> cli_event list" where
  "connected_look env session n =
     (let status = (case ce_status env n of Some d \<Rightarrow> d | None \<Rightarrow> PersistedStatus_stopped (ce_unix_ms env n));
          s = pst_lifecycle status;
          exited = (case ce_exited env n of
            Inl k \<Rightarrow> Some (Inl (ChildUnknown k))
          | Inr True \<Rightarrow> Some (Inl DaemonExitedBeforeStarted)
          | Inr False \<Rightarrow> None)
      in if snap_session s = Some (SessionId_to_string session) \<and> snap_state s = Connected then (Some (Inr ()), [SawStatus (Some s)])
         else if snap_session s = Some (SessionId_to_string session) \<and> snap_state s = ErrorState
         then (Some (Inl (AndroidReportedError (snap_reason s))), [SawStatus (Some s)])
         else (exited, [SawStatus (Some s), SawChild (ce_exited env n)]))"

definition wait_for_connected :: "'t cli_env \<Rightarrow> SessionId \<Rightarrow> (cli_error + unit) cli" where
  "wait_for_connected env session = do {
     found \<leftarrow> poll_for env (connected_look env session) (millis 50) (seconds 30);
     State_Monad.return (case found of Some r \<Rightarrow> r | None \<Rightarrow> Inl StartedTimedOut)
   }"

definition exit_look :: "'t cli_env \<Rightarrow> nat \<Rightarrow> unit option \<times> cli_event list" where
  "exit_look env n = (if ce_identity env n = None then Some () else None, [SawIdentity (ce_identity env n)])"

definition wait_for_daemon_exit :: "'t cli_env \<Rightarrow> bool cli" where
  "wait_for_daemon_exit env = do {
     found \<leftarrow> poll_for env (exit_look env) (millis 25) (seconds 3);
     State_Monad.return (found \<noteq> None)
   }"

section \<open>Start\<close>

definition error_snapshot :: "SessionId option \<Rightarrow> string \<Rightarrow> StateSnapshot" where
  "error_snapshot session reason =
     \<lparr>snap_state = ErrorState, snap_session = map_option SessionId_to_string session, snap_missed = 0, snap_reason = Some reason\<rparr>"

definition START_FAILED :: string where "START_FAILED = ''Android start transaction failed''"
definition ROLLBACK_UNVERIFIED :: string where
  "ROLLBACK_UNVERIFIED = ''Android did not acknowledge GNR4 STARTED; rollback could not verify VPN closure''"
definition ROLLBACK_COMPLETED :: string where
  "ROLLBACK_COMPLETED = ''Android did not acknowledge GNR4 STARTED; rollback completed''"

definition start_rolled_back ::
  "'t cli_env \<Rightarrow> AdbController \<Rightarrow> SessionId \<Rightarrow> cli_error \<Rightarrow> (cli_error + 'a) cli" where
  "start_rolled_back env c session error = do {
     killed \<leftarrow> terminate_spawned_daemon env;
     (case killed of
        Inl k \<Rightarrow> State_Monad.return (Inl (QuiesceFailed k))
      | Inr _ \<Rightarrow> do {
          rollback \<leftarrow> transact StopUnresponsive (stop_unresponsive (ce_adb env) c);
          _ \<leftarrow> write_status env (error_snapshot (Some session)
                 (if isl rollback then ROLLBACK_UNVERIFIED else ROLLBACK_COMPLETED)) None;
          State_Monad.return (Inl (case rollback of Inl e \<Rightarrow> RollbackFailed error e | Inr _ \<Rightarrow> error))
        })
   }"

text \<open>The daemon has been spawned: the rest of \<^verbatim>\<open>start\<close>, up to the result.\<close>

definition start_spawned ::
  "'t cli_env \<Rightarrow> AdbController \<Rightarrow> SessionId \<Rightarrow> bool \<Rightarrow> pid \<Rightarrow> (cli_error + SessionId \<times> bool \<times> pid) cli" where
  "start_spawned env c session all_traffic p = do {
     ready \<leftarrow> wait_for_runtime_ready env p;
     (case ready of
        Inl e \<Rightarrow> do { _ \<leftarrow> terminate_spawned_daemon env; State_Monad.return (Inl e) }
      | Inr _ \<Rightarrow> do {
          started \<leftarrow> transact StartAndroid (AdbController_start (ce_adb env) c session all_traffic);
          (case started of
             Inl e \<Rightarrow> do {
               _ \<leftarrow> terminate_spawned_daemon env;
               _ \<leftarrow> write_status env (error_snapshot (Some session) START_FAILED) None;
               State_Monad.return (Inl (TransactionFailed e))
             }
           | Inr _ \<Rightarrow> do {
               connected \<leftarrow> wait_for_connected env session;
               (case connected of
                  Inl e \<Rightarrow> start_rolled_back env c session e
                | Inr _ \<Rightarrow> State_Monad.return (Inr (session, all_traffic, p)))
             })
        })
   }"

definition cli_start :: "'t cli_env \<Rightarrow> AdbController \<Rightarrow> string \<Rightarrow> bool \<Rightarrow> (cli_error + SessionId \<times> bool \<times> pid) cli" where
  "cli_start env c apk_path all_traffic = do {
     operation \<leftarrow> acquire_lifecycle_operation env;
     (case operation of
        Inl k \<Rightarrow> State_Monad.return (Inl (OperationActive k))
      | Inr _ \<Rightarrow> do {
          identity \<leftarrow> daemon_identity env;
          alive \<leftarrow> (case identity of None \<Rightarrow> State_Monad.return False | Some p \<Rightarrow> running_process env p);
          if alive then State_Monad.return (Inl (AlreadyRunning (the identity)))
          else do {
            active \<leftarrow> runtime_active env;
            if active then State_Monad.return (Inl UnverifiedRuntime)
            else
              (case ce_apk env of
                 Inl e \<Rightarrow> State_Monad.return (Inl (ApkFailed e))
               | Inr _ \<Rightarrow> do {
                   installed \<leftarrow> transact InstallApk (install_matching_apk (ce_adb env) c apk_path);
                   (case installed of
                      Inl e \<Rightarrow> State_Monad.return (Inl (TransactionFailed e))
                    | Inr _ \<Rightarrow> do {
                        daemon \<leftarrow> spawn_daemon env (ce_session env) all_traffic;
                        (case daemon of
                           Inl k \<Rightarrow> State_Monad.return (Inl (SpawnError k))
                         | Inr p \<Rightarrow> start_spawned env c (ce_session env) all_traffic p)
                      })
                 })
          }
        })
   }"

section \<open>Stop\<close>

definition admin_stop_acknowledges_suppression :: "AdminResponse \<Rightarrow> bool" where
  "admin_stop_acknowledges_suppression response \<longleftrightarrow> an_ok response \<and> an_repairs_suppressed response"

definition stop_android :: "'t cli_env \<Rightarrow> AdbController \<Rightarrow> (cli_error + (TransactionError + unit)) cli" where
  "stop_android env c = do {
     result \<leftarrow> transact StopAndroid (AdbController_stop (ce_adb env) c);
     State_Monad.return (Inr result)
   }"

definition stop_without_lane :: "'t cli_env \<Rightarrow> AdbController \<Rightarrow> (cli_error + (TransactionError + unit)) cli" where
  "stop_without_lane env c = do {
     identity \<leftarrow> daemon_identity env;
     if identity \<noteq> None then do {
       terminated \<leftarrow> terminate_daemon env;
       (case terminated of
          Inl k \<Rightarrow> State_Monad.return (Inl (QuiesceFailed k))
        | Inr _ \<Rightarrow> do {
            remove_identity;
            State (\<lambda>s. ((), pause env ADB_MAPPING_COMMAND_TIMEOUT s));
            State_Monad.return (Inl LaneFailedQuiesced)
          })
     }
     else do {
       active \<leftarrow> runtime_active env;
       if active then State_Monad.return (Inl LaneFailedUnsafe) else stop_android env c
     }
   }"

definition stop_transaction :: "'t cli_env \<Rightarrow> AdbController \<Rightarrow> (cli_error + (TransactionError + unit)) cli" where
  "stop_transaction env c = do {
     control_stop \<leftarrow> ask_admin env ''stop'' (seconds 8);
     (case control_stop of
        Inl _ \<Rightarrow> stop_without_lane env c
      | Inr response \<Rightarrow>
          if admin_stop_acknowledges_suppression response then do {
            finished \<leftarrow> transact FinishControlStop (finish_control_stop (ce_adb env) c);
            (case finished of
               Inr _ \<Rightarrow> State_Monad.return (Inr (Inr ()))
             | Inl _ \<Rightarrow> stop_android env c)
          }
          else if an_repairs_suppressed response then stop_android env c
          else stop_without_lane env c)
   }"

definition terminate_checked :: "'t cli_env \<Rightarrow> (cli_error + unit) cli" where
  "terminate_checked env = do {
     terminated \<leftarrow> terminate_daemon env;
     State_Monad.return (case terminated of Inl k \<Rightarrow> Inl (TerminateFailed k) | Inr _ \<Rightarrow> Inr ())
   }"

definition stop_daemon :: "'t cli_env \<Rightarrow> bool \<Rightarrow> (cli_error + unit) cli" where
  "stop_daemon env stopped_ok = do {
     identity \<leftarrow> daemon_identity env;
     if identity = None then State_Monad.return (Inr ())
     else if stopped_ok then do {
       shutdown \<leftarrow> ask_admin env ''shutdown'' (seconds 3);
       if (case shutdown of Inl _ \<Rightarrow> False | Inr response \<Rightarrow> an_ok response) then do {
         exited \<leftarrow> wait_for_daemon_exit env;
         if exited then State_Monad.return (Inr ()) else terminate_checked env
       }
       else terminate_checked env
     }
     else terminate_checked env
   }"

definition STOP_UNVERIFIED :: string where "STOP_UNVERIFIED = ''explicit stop could not be verified''"

definition stopped_snapshot :: StateSnapshot where
  "stopped_snapshot = \<lparr>snap_state = Stopped, snap_session = None, snap_missed = 0, snap_reason = None\<rparr>"

definition stop_finish :: "'t cli_env \<Rightarrow> TransactionError + unit \<Rightarrow> (cli_error + unit) cli" where
  "stop_finish env result = do {
     daemon \<leftarrow> stop_daemon env (\<not> isl result);
     (case daemon of
        Inl e \<Rightarrow> State_Monad.return (Inl e)
      | Inr _ \<Rightarrow> do {
          remove_identity;
          wrote \<leftarrow> write_status env (if isl result then error_snapshot None STOP_UNVERIFIED else stopped_snapshot) None;
          State_Monad.return
            (case wrote of
               Inl k \<Rightarrow> Inl (StoreFailed k)
             | Inr _ \<Rightarrow> (case result of Inl e \<Rightarrow> Inl (TransactionFailed e) | Inr _ \<Rightarrow> Inr ()))
        })
   }"

definition cli_stop :: "'t cli_env \<Rightarrow> AdbController \<Rightarrow> (cli_error + unit) cli" where
  "cli_stop env c = do {
     operation \<leftarrow> acquire_lifecycle_operation env;
     (case operation of
        Inl k \<Rightarrow> State_Monad.return (Inl (OperationActive k))
      | Inr _ \<Rightarrow> do {
          result \<leftarrow> stop_transaction env c;
          (case result of
             Inl e \<Rightarrow> State_Monad.return (Inl e)
           | Inr stop_result \<Rightarrow> stop_finish env stop_result)
        })
   }"

section \<open>Status and repair\<close>

definition reflect_missing_runtime :: "StateSnapshot \<Rightarrow> StateSnapshot" where
  "reflect_missing_runtime s =
     (case snap_state s of
        Preparing \<Rightarrow> s\<lparr>snap_state := Degraded, snap_reason := Some ''host runtime is not running; Quest VPN state is retained''\<rparr>
      | Connected \<Rightarrow> s\<lparr>snap_state := Degraded, snap_reason := Some ''host runtime is not running; Quest VPN state is retained''\<rparr>
      | Degraded \<Rightarrow> s\<lparr>snap_state := Degraded, snap_reason := Some ''host runtime is not running; Quest VPN state is retained''\<rparr>
      | Stopping \<Rightarrow> s\<lparr>snap_state := ErrorState, snap_reason := Some ''host runtime exited during Stop; VPN state is unverified''\<rparr>
      | Stopped \<Rightarrow> s
      | ErrorState \<Rightarrow> s)"

text \<open>The document and the answer of Android that \<^verbatim>\<open>status\<close> prints.\<close>

definition status_live :: "'t cli_env \<Rightarrow> 't PersistedStatus \<Rightarrow> 't PersistedStatus cli" where
  "status_live env status = do {
     answer \<leftarrow> ask_admin env ''status'' (seconds 1);
     State_Monad.return
       (case answer of
          Inl _ \<Rightarrow> status
        | Inr response \<Rightarrow>
            if an_ok response
            then (case an_status response of None \<Rightarrow> status | Some live \<Rightarrow> status\<lparr>pst_lifecycle := live\<rparr>)
            else status)
   }"

definition cli_status :: "'t cli_env \<Rightarrow> AdbController \<Rightarrow> ('t PersistedStatus \<times> (AdbError + AndroidVpnStatus)) cli" where
  "cli_status env c = do {
     status \<leftarrow> observe (\<lambda>n. case ce_status env n of Some d \<Rightarrow> d | None \<Rightarrow> PersistedStatus_stopped (ce_unix_ms env n))
       (\<lambda>d. SawStatus (Some (pst_lifecycle d)));
     identity \<leftarrow> daemon_identity env;
     status \<leftarrow>
       (let status = status\<lparr>pst_daemon_running := (identity \<noteq> None)\<rparr> in
        if identity \<noteq> None then status_live env status
        else State_Monad.return
          (status\<lparr>pst_runtime_ready := False, pst_lifecycle := reflect_missing_runtime (pst_lifecycle status)\<rparr>));
     android \<leftarrow> State (\<lambda>s. let (r, w) = run_state (android_status (ce_adb env) c) (sy_adb s) in (r, s\<lparr>sy_adb := w\<rparr>));
     State_Monad.return (status, android)
   }"

definition cli_repair :: "'t cli_env \<Rightarrow> AdbController \<Rightarrow> (cli_error + unit) cli" where
  "cli_repair env c = do {
     operation \<leftarrow> acquire_lifecycle_operation env;
     (case operation of
        Inl k \<Rightarrow> State_Monad.return (Inl (OperationActive k))
      | Inr _ \<Rightarrow> do {
          identity \<leftarrow> daemon_identity env;
          active \<leftarrow> (if identity \<noteq> None then State_Monad.return True else runtime_active env);
          if active then State_Monad.return (Inl DaemonActive)
          else do {
            repaired \<leftarrow> transact RepairMappings (repair_mappings (ce_adb env) c);
            State_Monad.return (case repaired of Inl e \<Rightarrow> Inl (TransactionFailed e) | Inr _ \<Rightarrow> Inr ())
          }
        })
   }"

end
