(* ===== verification/Triples.thy ===== *)
theory Triples
  imports Prelude "HOL-Library.State_Monad"
begin

text \<open>
  Rules for the programs of the state monad: a triple says what holds of the result and the state after a
  program that starts in a state with the precondition.  The public commands (\<open>CliProps\<close>) and the runtime of
  the host (\<open>HostRunProps\<close>) are proved with them.  \<open>and_then\<close> is the question mark operator of Rust.
\<close>

definition and_then :: "('s, 'e + 'a) state \<Rightarrow> ('a \<Rightarrow> ('s, 'e + 'b) state) \<Rightarrow> ('s, 'e + 'b) state" where
  "and_then m k = m \<bind> (\<lambda>r. case r of Inl e \<Rightarrow> State_Monad.return (Inl e) | Inr a \<Rightarrow> k a)"

definition triple :: "('s \<Rightarrow> bool) \<Rightarrow> ('s, 'a) state \<Rightarrow> ('a \<Rightarrow> 's \<Rightarrow> bool) \<Rightarrow> bool" where
  "triple P m Q \<longleftrightarrow> (\<forall>s. P s \<longrightarrow> Q (fst (run_state m s)) (snd (run_state m s)))"

lemma triple_return: "(\<And>s. P s \<Longrightarrow> Q x s) \<Longrightarrow> triple P (State_Monad.return x) Q"
  by (simp add: triple_def)

lemma triple_bind: "triple P m R \<Longrightarrow> (\<And>x. triple (R x) (k x) Q) \<Longrightarrow> triple P (m \<bind> k) Q"
  by (auto simp: triple_def split_beta)

lemma triple_if: "(b \<Longrightarrow> triple P m Q) \<Longrightarrow> (\<not> b \<Longrightarrow> triple P m' Q) \<Longrightarrow> triple P (if b then m else m') Q"
  by simp

lemma triple_conseq: "triple P' m Q' \<Longrightarrow> (\<And>s. P s \<Longrightarrow> P' s) \<Longrightarrow> (\<And>r s. Q' r s \<Longrightarrow> Q r s) \<Longrightarrow> triple P m Q"
  by (auto simp: triple_def)

lemma triple_pre: "triple P' m Q \<Longrightarrow> (\<And>s. P s \<Longrightarrow> P' s) \<Longrightarrow> triple P m Q"
  by (auto simp: triple_def)

lemma triple_sum:
  "(\<And>e. r = Inl e \<Longrightarrow> triple P (f e) Q) \<Longrightarrow> (\<And>a. r = Inr a \<Longrightarrow> triple P (g a) Q) \<Longrightarrow>
   triple P (case r of Inl e \<Rightarrow> f e | Inr a \<Rightarrow> g a) Q"
  by (cases r) auto

lemma triple_option:
  "(r = None \<Longrightarrow> triple P f Q) \<Longrightarrow> (\<And>a. r = Some a \<Longrightarrow> triple P (g a) Q) \<Longrightarrow>
   triple P (case r of None \<Rightarrow> f | Some a \<Rightarrow> g a) Q"
  by (cases r) auto

lemma triple_and_then:
  "triple P m R \<Longrightarrow> (\<And>e s. R (Inl e) s \<Longrightarrow> Q (Inl e) s) \<Longrightarrow> (\<And>a. triple (R (Inr a)) (k a) Q) \<Longrightarrow> triple P (and_then m k) Q"
  unfolding and_then_def by (rule triple_bind, assumption) (rule triple_sum, auto simp: triple_def)

lemma triple_conj: "triple P m Q \<Longrightarrow> triple P m Q' \<Longrightarrow> triple P m (\<lambda>r s. Q r s \<and> Q' r s)"
  by (simp add: triple_def)

end
