(* ===== verification/CliProps.thy ===== *)
theory CliProps
  imports Cli AdbProps Triples
begin

text \<open>
  Properties of the public commands, by rules for triples over what a command has logged and the world of
  ADB: when a stop may touch the headset, what a successful stop and a successful start leave behind, and
  what a failed start undoes.
\<close>

section \<open>Rules\<close>

lemma triple_observe:
  "(\<And>s. P s \<Longrightarrow> Q (answer (turn s)) (logged [event (answer (turn s))] s)) \<Longrightarrow> triple P (observe answer event) Q"
  by (simp add: triple_def observe_def Let_def)

lemma triple_transact:
  "(\<And>s r w. P s \<Longrightarrow> run_state job (sy_adb s) = (r, w) \<Longrightarrow> Q r (logged [AdbDone step (\<not> isl r)] (s\<lparr>sy_adb := w\<rparr>))) \<Longrightarrow>
   triple P (transact step job) Q"
  by (auto simp: triple_def transact_def split_beta)

lemma triple_pause: "(\<And>s. P s \<Longrightarrow> Q () (pause env d s)) \<Longrightarrow> triple P (State (\<lambda>s. ((), pause env d s))) Q"
  by (simp add: triple_def)

text \<open>A loop keeps what its looks and pauses keep; its result is what one of the looks found.\<close>

lemma poll_triple:
  assumes look: "\<And>s. I s \<Longrightarrow> I (logged (snd (look (turn s))) s)" and paused: "\<And>s. I s \<Longrightarrow> I (pause env d s)"
    and found: "\<And>s r es. I s \<Longrightarrow> look (turn s) = (Some r, es) \<Longrightarrow> Q (Some r) (logged es s)" and late: "\<And>s. I s \<Longrightarrow> Q None s"
  shows "triple I (poll_for env look d limit) Q"
proof -
  have "Q (fst (poll_until env look d deadline s)) (snd (poll_until env look d deadline s))" if "I s" for deadline s
    using that
  proof (induction "deadline - aw_now (sy_adb s)" arbitrary: s rule: less_induct)
    case less
    obtain r es where seen: "look (turn s) = (r, es)" by fastforce
    then have kept: "I (logged es s)" using look [OF less.prems] by simp
    show ?case
    proof (cases "d = 0 \<or> \<not> aw_now (sy_adb s) < deadline")
      case True
      then show ?thesis using late [OF less.prems] by (simp add: poll_until.simps [of env look])
    next
      case False
      then have "deadline - aw_now (sy_adb (pause env d (logged es s))) < deadline - aw_now (sy_adb s)"
        by (auto simp: pause_def logged_def)
      from less.hyps [OF this paused [OF kept]] False seen found [OF less.prems] show ?thesis
        by (cases r) (simp_all add: poll_until.simps [of env look d deadline s])
    qed
  qed
  then show ?thesis by (simp add: triple_def poll_for_def)
qed

section \<open>Logs in which every event is allowed by what precedes it\<close>

definition ordered :: "(cli_event list \<Rightarrow> cli_event \<Rightarrow> bool) \<Rightarrow> cli_event list \<Rightarrow> bool" where
  "ordered allowed l \<longleftrightarrow> (\<forall>i < length l. allowed (take i l) (l ! i))"

lemma ordered_snoc [simp]: "ordered allowed (l @ [e]) \<longleftrightarrow> ordered allowed l \<and> allowed l e"
  by (auto simp: ordered_def nth_append less_Suc_eq)

lemma ordered_Nil [simp]: "ordered allowed []"
  by (simp add: ordered_def)

section \<open>When a stop touches the headset\<close>

text \<open>A stop may remove mappings or close the VPN itself once the daemon has confirmed that its repairs are
  suppressed, or when it has seen neither the identity of a daemon nor a live owner of the runtime lock.\<close>

definition may_tear_down :: "cli_event list \<Rightarrow> bool" where
  "may_tear_down l \<longleftrightarrow>
     (\<exists>response. Asked ''stop'' (Inr response) \<in> set l \<and> an_repairs_suppressed response) \<or>
     SawIdentity None \<in> set l \<and> SawRuntime False \<in> set l"

definition tears_down :: "cli_event \<Rightarrow> bool" where
  "tears_down e \<longleftrightarrow> (\<exists>ok. e \<in> set [AdbDone StopAndroid ok, AdbDone FinishControlStop ok])"

text \<open>Every such transaction of the log, and every document that says stopped, is justified by what precedes it.\<close>

definition justified :: "cli_event list \<Rightarrow> cli_event \<Rightarrow> bool" where
  "justified l e \<longleftrightarrow> (tears_down e \<longrightarrow> may_tear_down l) \<and>
     (\<forall>s p r. e = Wrote s p r \<longrightarrow> snap_state s = Stopped \<longrightarrow>
        AdbDone StopAndroid True \<in> set l \<or> AdbDone FinishControlStop True \<in> set l)"

definition safe_log :: "cli_event list \<Rightarrow> bool" where
  "safe_log l \<longleftrightarrow> ordered justified l"

lemma safe_log_snoc [simp]: "safe_log (l @ [e]) \<longleftrightarrow> safe_log l \<and> justified l e"
  by (simp add: safe_log_def)

lemma safe_log_Nil [simp]: "safe_log []"
  by (simp add: safe_log_def)

lemma justified_simps [simp]:
  "justified l (Acquired b)" "justified l (Asked c a)" "justified l (SawIdentity i)" "justified l (SawRuntime b)"
  "justified l (Terminated t)" "justified l RemovedIdentity" "justified l (Slept d)"
  "justified l (AdbDone StopAndroid ok) \<longleftrightarrow> may_tear_down l" "justified l (AdbDone FinishControlStop ok) \<longleftrightarrow> may_tear_down l"
  "justified l (Wrote s p r) \<longleftrightarrow> (snap_state s = Stopped \<longrightarrow>
     AdbDone StopAndroid True \<in> set l \<or> AdbDone FinishControlStop True \<in> set l)"
  by (auto simp: justified_def tears_down_def)

lemma may_tear_down_snoc: "may_tear_down l \<Longrightarrow> may_tear_down (l @ [e])"
  by (auto simp: may_tear_down_def)

lemmas cli_run = observe_def transact_def logged_def turn_def split_beta Let_def pause_def

text \<open>What a successful stop has done with the headset since the calls \<open>old\<close>: a verified teardown, asked for by the
  stop request to Android, or after the daemon answered that Android has stopped and its repairs are suppressed.\<close>

definition stop_verified :: "'t cli_env \<Rightarrow> AdbController \<Rightarrow> adb_call list \<Rightarrow> Sys \<Rightarrow> bool" where
  "stop_verified env c old s \<longleftrightarrow>
     verified_teardown (ce_adb env) c (stop_request c) old (aw_calls (sy_adb s)) \<or>
     (\<exists>response. Asked ''stop'' (Inr response) \<in> set (sy_log s) \<and> admin_stop_acknowledges_suppression response) \<and>
       verified_teardown (ce_adb env) c [] old (aw_calls (sy_adb s))"

text \<open>The assertion the pieces of a stop share: the log is safe, and a verified stop has torn down the session.\<close>

definition stop_ok :: "'t cli_env \<Rightarrow> AdbController \<Rightarrow> adb_call list \<Rightarrow> bool \<Rightarrow> Sys \<Rightarrow> bool" where
  "stop_ok env c old verified s \<longleftrightarrow> safe_log (sy_log s) \<and> prefix old (aw_calls (sy_adb s)) \<and>
     (verified \<longrightarrow> (AdbDone StopAndroid True \<in> set (sy_log s) \<or> AdbDone FinishControlStop True \<in> set (sy_log s)) \<and>
        stop_verified env c old s)"

abbreviation stop_may :: "'t cli_env \<Rightarrow> AdbController \<Rightarrow> adb_call list \<Rightarrow> Sys \<Rightarrow> bool" where
  "stop_may env c old s \<equiv> stop_ok env c old False s \<and> may_tear_down (sy_log s)"

abbreviation verified :: "cli_error + (TransactionError + unit) \<Rightarrow> bool" where
  "verified r \<equiv> r = Inr (Inr ())"

lemma stop_android_ok: "triple (stop_may env c old) (stop_android env c) (\<lambda>r. stop_ok env c old (verified r))"
proof -
  have "stop_ok env c old (verified (Inr r)) (logged [AdbDone StopAndroid (\<not> isl r)] (s\<lparr>sy_adb := w\<rparr>))"
    if "stop_may env c old s" and run: "run_state (AdbController_stop (ce_adb env) c) (sy_adb s) = (r, w)" for s r w
  proof -
    have before: "prefix old (aw_calls (sy_adb s))" using that by (simp add: stop_ok_def)
    then have "prefix old (aw_calls w)" using stop_run [OF run] adds_prefix by blast
    moreover have "verified_teardown (ce_adb env) c (stop_request c) old (aw_calls w)" if "r = Inr ()"
      using stop_success_is_verified [OF _ before] run that by blast
    ultimately show ?thesis using that by (cases r) (auto simp: stop_ok_def stop_verified_def logged_def)
  qed
  then show ?thesis unfolding stop_android_def
    by (intro triple_bind [OF triple_transact [where Q = "\<lambda>r. stop_ok env c old (verified (Inr r))"]] triple_return) auto
qed

text \<open>Reading, asking and terminating leave the assertion as it is.\<close>

lemma stop_ok_logged:
  "stop_ok env c old b s \<Longrightarrow> justified (sy_log s) e \<Longrightarrow> stop_ok env c old b (logged [e] s)"
  by (auto simp: stop_ok_def stop_verified_def logged_def)

lemma stop_ok_pause: "stop_ok env c old b s \<Longrightarrow> stop_ok env c old b (pause env' d s)"
  by (auto simp: stop_ok_def stop_verified_def logged_def pause_def)

lemma stop_observe:
  "(\<And>n l. justified l (event (answer n))) \<Longrightarrow> triple (stop_ok env c old b) (observe answer event) (\<lambda>_. stop_ok env c old b)"
  by (rule triple_observe) (simp add: stop_ok_logged)

lemma stop_without_lane_ok:
  "triple (stop_ok env c old False) (stop_without_lane env c) (\<lambda>r. stop_ok env c old (verified r))"
proof -
  let ?J = "stop_ok env c old False"
  have quiesce: "triple ?J (terminate_daemon env) (\<lambda>_. ?J)" "triple ?J remove_identity (\<lambda>_. ?J)"
    unfolding terminate_daemon_def remove_identity_def by (rule stop_observe; simp)+
  have identity: "triple ?J (daemon_identity env) (\<lambda>i s. ?J s \<and> (i = None \<longrightarrow> SawIdentity None \<in> set (sy_log s)))"
    unfolding daemon_identity_def by (rule triple_observe) (auto simp: stop_ok_def logged_def)
  have runtime: "triple (\<lambda>s. ?J s \<and> SawIdentity None \<in> set (sy_log s)) (runtime_active env)
      (\<lambda>active s. ?J s \<and> (\<not> active \<longrightarrow> may_tear_down (sy_log s)))"
    unfolding runtime_active_def by (rule triple_observe) (auto simp: stop_ok_def logged_def may_tear_down_def)
  show ?thesis unfolding stop_without_lane_def
    apply (rule triple_bind [OF identity], rule triple_if)
     apply (rule triple_pre, rule triple_bind [OF quiesce(1)])
      apply (rule triple_sum, rule triple_return, simp)
      apply (rule triple_bind [OF quiesce(2)], rule triple_bind [OF triple_pause [where Q = "\<lambda>_. ?J"]])
       apply (simp add: stop_ok_pause)
      apply (rule triple_return, simp)
     apply simp
    apply (rule triple_bind, rule triple_pre [OF runtime], simp)
    apply (rule triple_if, rule triple_return, simp)
    apply (rule triple_pre [OF stop_android_ok], simp)
    done
qed

lemma stop_transaction_ok:
  "triple (stop_ok env c old False) (stop_transaction env c) (\<lambda>r. stop_ok env c old (verified r))"
proof -
  let ?J = "stop_ok env c old False"
  let ?A = "\<lambda>s. \<exists>response. Asked ''stop'' (Inr response) \<in> set (sy_log s) \<and> admin_stop_acknowledges_suppression response"
  have asked: "triple ?J (ask_admin env ''stop'' (seconds 8)) (\<lambda>a s. ?J s \<and>
      (\<forall>response. a = Inr response \<longrightarrow> an_repairs_suppressed response \<longrightarrow> may_tear_down (sy_log s)) \<and>
      (\<forall>response. a = Inr response \<longrightarrow> admin_stop_acknowledges_suppression response \<longrightarrow> ?A s))"
    unfolding ask_admin_def by (rule triple_observe) (auto simp: stop_ok_def logged_def may_tear_down_def)
  have finish: "triple (\<lambda>s. stop_may env c old s \<and> ?A s)
      (transact FinishControlStop (finish_control_stop (ce_adb env) c))
      (\<lambda>r s. (r = Inr () \<longrightarrow> stop_ok env c old True s) \<and> stop_may env c old s)"
  proof (rule triple_transact)
    fix s r w assume before: "stop_may env c old s \<and> ?A s"
      and run: "run_state (finish_control_stop (ce_adb env) c) (sy_adb s) = (r, w)"
    then have "prefix old (aw_calls w)" "r = Inr () \<Longrightarrow> verified_teardown (ce_adb env) c [] old (aw_calls w)"
      using finish_control_stop_cleans [OF run] finish_control_stop_success [of "ce_adb env" c "sy_adb s" w old]
      by (auto simp: stop_ok_def dest: adds_prefix)
    with before show "(r = Inr () \<longrightarrow> stop_ok env c old True (logged [AdbDone FinishControlStop (\<not> isl r)] (s\<lparr>sy_adb := w\<rparr>))) \<and>
        stop_may env c old (logged [AdbDone FinishControlStop (\<not> isl r)] (s\<lparr>sy_adb := w\<rparr>))"
      by (auto simp: stop_ok_def stop_verified_def logged_def may_tear_down_snoc)
  qed
  show ?thesis unfolding stop_transaction_def
    apply (rule triple_bind [OF asked], rule triple_sum)
     apply (rule triple_pre [OF stop_without_lane_ok], simp)
    apply (rule triple_if)
     apply (rule triple_bind, rule triple_pre [OF finish], simp add: admin_stop_acknowledges_suppression_def)
     apply (rule triple_sum, rule triple_pre [OF stop_android_ok], simp)
     apply (rule triple_return, simp)
    apply (rule triple_if)
     apply (rule triple_pre [OF stop_android_ok], simp)
    apply (rule triple_pre [OF stop_without_lane_ok], simp)
    done
qed

lemma stop_daemon_ok: "triple (stop_ok env c old b) (stop_daemon env b') (\<lambda>_. stop_ok env c old b)"
proof -
  let ?J = "stop_ok env c old b"
  have seen: "triple ?J (daemon_identity env) (\<lambda>_. ?J)" "triple ?J (ask_admin env command timeout) (\<lambda>_. ?J)"
    "triple ?J (terminate_daemon env) (\<lambda>_. ?J)" for command timeout
    unfolding daemon_identity_def ask_admin_def terminate_daemon_def by (rule stop_observe; simp)+
  have terminated: "triple ?J (terminate_checked env) (\<lambda>_. ?J)"
    unfolding terminate_checked_def by (rule triple_bind [OF seen(3)], rule triple_return)
  have exited: "triple ?J (wait_for_daemon_exit env) (\<lambda>_. ?J)"
    unfolding wait_for_daemon_exit_def
    by (rule triple_bind [OF poll_triple [where Q = "\<lambda>_. ?J" and I = ?J]])
       (auto simp: exit_look_def stop_ok_logged stop_ok_pause intro: triple_return)
  show ?thesis unfolding stop_daemon_def
    by (rule triple_bind seen(1) triple_if triple_bind [OF seen(2)] triple_bind [OF exited] terminated triple_return | assumption)+
qed

lemma stop_finish_ok:
  "triple (stop_ok env c old (\<not> isl result)) (stop_finish env result) (\<lambda>r s. stop_ok env c old (r = Inr ()) s \<and>
     (r = Inr () \<longrightarrow> sy_log s \<noteq> [] \<and> last (sy_log s) = Wrote stopped_snapshot None (Inr ())))"
proof -
  let ?J = "stop_ok env c old (\<not> isl result)"
  let ?s = "if isl result then error_snapshot None STOP_UNVERIFIED else stopped_snapshot"
  have "triple ?J (write_status env ?s None) (\<lambda>r s. ?J s \<and> sy_log s \<noteq> [] \<and> last (sy_log s) = Wrote ?s None r)"
    unfolding write_status_def
    by (rule triple_observe) (auto simp: stop_ok_def stop_verified_def logged_def error_snapshot_def)
  then have "triple ?J (do { wrote \<leftarrow> write_status env ?s None; State_Monad.return
      (case wrote of Inl k \<Rightarrow> Inl (StoreFailed k)
       | Inr _ \<Rightarrow> (case result of Inl e \<Rightarrow> Inl (TransactionFailed e) | Inr _ \<Rightarrow> Inr ())) })
     (\<lambda>r s. stop_ok env c old (r = Inr ()) s \<and> (r = Inr () \<longrightarrow> sy_log s \<noteq> [] \<and> last (sy_log s) = Wrote stopped_snapshot None (Inr ())))"
    by (rule triple_bind, intro triple_return) (auto simp: stop_ok_def split: sum.splits)
  moreover have "triple ?J remove_identity (\<lambda>_. ?J)" unfolding remove_identity_def by (rule stop_observe) simp
  ultimately show ?thesis unfolding stop_finish_def
    by (intro triple_bind [OF stop_daemon_ok] triple_sum triple_return triple_bind [where R = "\<lambda>_. ?J" and m = remove_identity])
       (simp_all add: stop_ok_def)
qed

lemma cli_stop_ok:
  "triple (\<lambda>s. sy_log s = [] \<and> aw_calls (sy_adb s) = old) (cli_stop env c) (\<lambda>r s. stop_ok env c old (r = Inr ()) s \<and>
     (r = Inr () \<longrightarrow> sy_log s \<noteq> [] \<and> last (sy_log s) = Wrote stopped_snapshot None (Inr ())))"
proof -
  have acquired: "triple (\<lambda>s. sy_log s = [] \<and> aw_calls (sy_adb s) = old) (acquire_lifecycle_operation env) (\<lambda>_. stop_ok env c old False)"
    unfolding acquire_lifecycle_operation_def by (rule triple_observe) (simp add: stop_ok_def logged_def safe_log_snoc [of "[]", simplified])
  show ?thesis unfolding cli_stop_def
    apply (rule triple_bind [OF acquired], rule triple_sum, rule triple_return, simp)
    apply (rule triple_bind [OF stop_transaction_ok], rule triple_sum, rule triple_return, simp)
    subgoal for _ _ _ r by (rule triple_pre [OF stop_finish_ok]) (cases r; simp add: stop_ok_def)
    done
qed

text \<open>A command starts with an empty log.\<close>

definition fresh :: "adb_world \<Rightarrow> Sys" where "fresh w = \<lparr>sy_log = [], sy_adb = w\<rparr>"

text \<open>C25. A stop touches the headset only when no daemon can race it: whatever the daemon, its files, the lock and
  ADB answer at each turn, every ADB teardown of the stop command comes after an answer of the daemon that
  its repairs are suppressed, or after it has seen neither a daemon identity nor a live owner of the runtime
  lock; and it writes the state stopped only after a teardown that succeeded.\<close>

theorem stop_command_safe: "safe_log (sy_log (snd (run_state (cli_stop env c) (fresh w))))"
  using cli_stop_ok [of "aw_calls w" env c] by (simp add: triple_def stop_ok_def fresh_def)

text \<open>C26. When the stop command reports success, the headset is clean, whichever of its paths it took.  Its last ADB calls,
  all made by this command, are the request to stop, unless the daemon answered that Android had stopped and
  that its repairs are suppressed, then dumps of the VPN service of which the last one succeeded and shows it
  closed, then the removal of every mapping and a listing that shows no product port.  On a device that behaves as the
  service dump and \<^verbatim>\<open>adb reverse\<close> document, the VPN is therefore closed and none of the product ports is mapped
  when the command returns.  The last thing the command did was to write a stopped state without a daemon.\<close>

theorem stop_command_is_clean:
  assumes "reverse_contract (ce_adb env) mapped" "service_contract (ce_adb env) vpn_open"
    and "run_state (cli_stop env c) (fresh w) = (Inr (), s)"
  shows "stop_verified env c (aw_calls w) s \<and> device_clean vpn_open mapped (aw_calls (sy_adb s)) \<and>
    last (sy_log s) = Wrote stopped_snapshot None (Inr ())"
proof -
  have "sy_log (fresh w) = []" "aw_calls (sy_adb (fresh w)) = aw_calls w" by (simp_all add: fresh_def)
  with cli_stop_ok [of "aw_calls w" env c] assms(3) have "stop_verified env c (aw_calls w) s"
    "last (sy_log s) = Wrote stopped_snapshot None (Inr ())"
    unfolding triple_def stop_ok_def by (metis fst_conv snd_conv)+
  moreover from this(1) have "device_clean vpn_open mapped (aw_calls (sy_adb s))"
    unfolding stop_verified_def using teardown_clean [OF assms(1,2)] by blast
  ultimately show ?thesis by blast
qed

section \<open>What a start does\<close>

text \<open>The order of a start: nothing is spawned and no ADB transaction is run before the lifecycle operation is acquired, a
  daemon is spawned only when none was seen, Android is started only with a daemon, only a spawned daemon is
  killed, and an unanswered start is rolled back only after the daemon has been killed.\<close>

definition spawned :: "cli_event list \<Rightarrow> bool" where
  "spawned l \<longleftrightarrow> (\<exists>session all_traffic p. Spawned session all_traffic (Inr p) \<in> set l)"

definition start_allowed :: "cli_event list \<Rightarrow> cli_event \<Rightarrow> bool" where
  "start_allowed l e \<longleftrightarrow>
     (case e of
        Spawned _ _ _ \<Rightarrow> Acquired True \<in> set l \<and> SawRuntime False \<in> set l \<and>
          (SawIdentity None \<in> set l \<or> (\<exists>p. SawIdentity (Some p) \<in> set l \<and> SawProcess p False \<in> set l))
      | Killed _ \<Rightarrow> spawned l
      | AdbDone step _ \<Rightarrow> Acquired True \<in> set l \<and> (step = StartAndroid \<longrightarrow> spawned l) \<and>
          (step = StopUnresponsive \<longrightarrow> Killed (Inr ()) \<in> set l)
      | _ \<Rightarrow> True)"

definition all_mapped :: "'t cli_env \<Rightarrow> (adb_call list \<Rightarrow> (string \<times> string) set) \<Rightarrow> Sys \<Rightarrow> bool" where
  "all_mapped env mapped s \<longleftrightarrow>
     (reverse_contract (ce_adb env) mapped \<longrightarrow> mapping_pair ` set REVERSE_MAPPINGS \<subseteq> mapped (aw_calls (sy_adb s)))"

text \<open>What holds between the pieces: the operation is acquired, the log is in order, it contains \<open>known\<close>, a daemon was
  spawned only if \<open>sp\<close> and Android started only if \<open>st\<close>; then the start intent of this session is the last ADB call
  and the mappings are installed.\<close>

definition start_inv ::
  "'t cli_env \<Rightarrow> AdbController \<Rightarrow> bool \<Rightarrow> (adb_call list \<Rightarrow> (string \<times> string) set) \<Rightarrow> cli_event set \<Rightarrow> bool \<Rightarrow> bool \<Rightarrow> Sys \<Rightarrow> bool" where
  "start_inv env c all_traffic mapped known sp st s \<longleftrightarrow> Acquired True \<in> set (sy_log s) \<and>
     ordered start_allowed (sy_log s) \<and> known \<subseteq> set (sy_log s) \<and>
     (spawned (sy_log s) \<longrightarrow> sp) \<and> (AdbDone StartAndroid True \<in> set (sy_log s) \<longrightarrow> st) \<and>
     (st \<longrightarrow> suffix (start_calls c (ce_session env) all_traffic) (aw_calls (sy_adb s)) \<and> all_mapped env mapped s)"

text \<open>A start of Android that was undone: the daemon is gone, and a forced stop issued after the start intent of this session
  was verified, so that the headset is clean; or the error says that this rollback failed.\<close>

definition start_undone ::
  "'t cli_env \<Rightarrow> AdbController \<Rightarrow> bool \<Rightarrow> (adb_call list \<Rightarrow> (string \<times> string) set) \<Rightarrow> (adb_call list \<Rightarrow> bool) \<Rightarrow> cli_error \<Rightarrow> Sys \<Rightarrow> bool" where
  "start_undone env c all_traffic mapped vpn_open e s \<longleftrightarrow> Killed (Inr ()) \<in> set (sy_log s) \<and>
     (AdbDone StopUnresponsive True \<in> set (sy_log s) \<and>
        (\<exists>u. verified_teardown (ce_adb env) c (force_stop_request c) (u @ start_calls c (ce_session env) all_traffic)
               (aw_calls (sy_adb s))) \<and>
        (reverse_contract (ce_adb env) mapped \<longrightarrow> service_contract (ce_adb env) vpn_open \<longrightarrow>
           device_clean vpn_open mapped (aw_calls (sy_adb s))) \<or>
      AdbDone StopUnresponsive False \<in> set (sy_log s) \<and> (\<exists>cause failed. e = RollbackFailed cause failed))"

text \<open>The result of a start.  An error names a failed kill only once Android was started; before, the result of the kill
  is dropped by the code.\<close>

definition start_done ::
  "'t cli_env \<Rightarrow> AdbController \<Rightarrow> bool \<Rightarrow> (adb_call list \<Rightarrow> (string \<times> string) set) \<Rightarrow> (adb_call list \<Rightarrow> bool) \<Rightarrow>
     cli_error + SessionId \<times> bool \<times> pid \<Rightarrow> Sys \<Rightarrow> bool" where
  "start_done env c all_traffic mapped vpn_open r s \<longleftrightarrow> ordered start_allowed (sy_log s) \<and>
     (case r of
        Inl e \<Rightarrow> (spawned (sy_log s) \<longrightarrow> (\<exists>k. Killed k \<in> set (sy_log s))) \<and>
          (AdbDone StartAndroid True \<in> set (sy_log s) \<longrightarrow>
             start_undone env c all_traffic mapped vpn_open e s \<or>
             (\<exists>k. e = QuiesceFailed k \<and> Killed (Inl k) \<in> set (sy_log s)))
      | Inr (session, all, p) \<Rightarrow>
          session = ce_session env \<and> all = all_traffic \<and> Spawned session all_traffic (Inr p) \<in> set (sy_log s) \<and>
          suffix (start_calls c session all_traffic) (aw_calls (sy_adb s)) \<and> all_mapped env mapped s \<and>
          (\<exists>snap. last (sy_log s) = SawStatus (Some snap) \<and> snap_state snap = Connected \<and>
             snap_session snap = Some (SessionId_to_string session)))"

definition quiet :: "cli_event \<Rightarrow> bool" where
  "quiet e \<longleftrightarrow> (case e of Spawned _ _ (Inr _) \<Rightarrow> False | AdbDone StartAndroid True \<Rightarrow> False | _ \<Rightarrow> True)"

lemma start_inv_log:
  assumes "start_inv env c all_traffic mapped known sp st s" "start_allowed (sy_log s) e" "quiet e"
  shows "start_inv env c all_traffic mapped (insert e known) sp st (logged [e] s)"
  using assms
  by (auto simp: start_inv_def logged_def spawned_def all_mapped_def quiet_def)

lemma start_inv_known: "start_inv env c all_traffic mapped known sp st s \<Longrightarrow> known' \<subseteq> known \<Longrightarrow> start_inv env c all_traffic mapped known' sp st s"
  by (auto simp: start_inv_def)

lemma start_inv_pause: "start_inv env c all_traffic mapped known sp st s \<Longrightarrow> start_inv env c all_traffic mapped known sp st (pause env' d s)"
  by (auto simp: start_inv_def logged_def spawned_def all_mapped_def pause_def start_allowed_def)

text \<open>Observations may be made at any time.\<close>

definition harmless :: "cli_event \<Rightarrow> bool" where
  "harmless e \<longleftrightarrow> (case e of Spawned _ _ _ \<Rightarrow> False | AdbDone _ _ \<Rightarrow> False | Killed _ \<Rightarrow> False | _ \<Rightarrow> True)"

lemma harmless_log:
  "harmless e \<Longrightarrow> start_inv env c all_traffic mapped known sp st s \<Longrightarrow> start_inv env c all_traffic mapped (insert e known) sp st (logged [e] s)"
  by (rule start_inv_log) (auto simp: harmless_def start_allowed_def quiet_def split: cli_event.splits)

lemma harmless_logs:
  "list_all harmless es \<Longrightarrow> start_inv env c all_traffic mapped known sp st s \<Longrightarrow> start_inv env c all_traffic mapped (set es \<union> known) sp st (logged es s)"
proof (induction es arbitrary: known s)
  case (Cons e es)
  then have "start_inv env c all_traffic mapped (set es \<union> insert e known) sp st (logged es (logged [e] s))"
    using harmless_log by (intro Cons.IH) auto
  then show ?case by (simp add: logged_def)
qed (simp add: logged_def)

lemma start_observe:
  "(\<And>n. harmless (event (answer n))) \<Longrightarrow>
   triple (start_inv env c all_traffic mapped known sp st) (observe answer event) (\<lambda>r. start_inv env c all_traffic mapped (insert (event r) known) sp st)"
  by (rule triple_observe) (rule harmless_log)

lemma ready_ok:
  "triple (start_inv env c all_traffic mapped known sp st) (wait_for_runtime_ready env p) (\<lambda>_. start_inv env c all_traffic mapped known sp st)"
proof -
  let ?I = "start_inv env c all_traffic mapped known sp st"
  have "?I (logged (snd (ready_look env p n)) s)" if "?I s" for s n
    using harmless_logs [OF _ that, of "snd (ready_look env p n)"]
    by (auto simp: ready_look_def harmless_def split: option.splits intro: start_inv_known)
  then have "triple ?I (poll_for env (ready_look env p) (millis 50) (seconds 3)) (\<lambda>_. ?I)"
    by (intro poll_triple) (auto simp: start_inv_pause, metis snd_conv)
  then show ?thesis unfolding wait_for_runtime_ready_def by (rule triple_bind) (simp add: triple_return)
qed

lemma connected_ok:
  "triple (start_inv env c all_traffic mapped known sp st) (wait_for_connected env session) (\<lambda>r s. start_inv env c all_traffic mapped known sp st s \<and>
     (r = Inr () \<longrightarrow> (\<exists>snap. last (sy_log s) = SawStatus (Some snap) \<and> snap_state snap = Connected \<and>
        snap_session snap = Some (SessionId_to_string session))))"
proof -
  let ?I = "start_inv env c all_traffic mapped known sp st"
  have keep: "?I (logged (snd (connected_look env session n)) s)" if "?I s" for s n
    using harmless_logs [OF _ that, of "snd (connected_look env session n)"]
    by (auto simp: connected_look_def harmless_def Let_def intro: start_inv_known)
  have "triple ?I (poll_for env (connected_look env session) (millis 50) (seconds 30)) (\<lambda>r s. ?I s \<and>
     (r = Some (Inr ()) \<longrightarrow> (\<exists>snap. last (sy_log s) = SawStatus (Some snap) \<and> snap_state snap = Connected \<and>
        snap_session snap = Some (SessionId_to_string session))))"
  proof (rule poll_triple)
    fix s r es assume I: "?I s" and found: "connected_look env session (turn s) = (Some r, es)"
    then have "?I (logged es s)" using keep [OF I, of "turn s"] by simp
    moreover have "r = Inr () \<longrightarrow> (\<exists>snap. es = [SawStatus (Some snap)] \<and> snap_state snap = Connected \<and>
        snap_session snap = Some (SessionId_to_string session))"
      using found by (auto simp: connected_look_def Let_def split: if_splits sum.splits bool.splits)
    ultimately show "?I (logged es s) \<and> (Some r = Some (Inr ()) \<longrightarrow> (\<exists>snap. last (sy_log (logged es s)) = SawStatus (Some snap) \<and>
        snap_state snap = Connected \<and> snap_session snap = Some (SessionId_to_string session)))"
      by (auto simp: logged_def)
  qed (simp_all add: keep start_inv_pause)
  then show ?thesis unfolding wait_for_connected_def
    by (rule triple_bind) (auto intro!: triple_return split: option.splits)
qed

lemma killed_ok:
  assumes "Spawned session all_traffic (Inr p) \<in> known"
  shows "triple (start_inv env c all_traffic mapped known sp st) (terminate_spawned_daemon env)
     (\<lambda>k. start_inv env c all_traffic mapped (insert (Killed k) known) sp st)"
  unfolding terminate_spawned_daemon_def
proof (rule triple_observe, rule start_inv_log, assumption)
  fix s assume "start_inv env c all_traffic mapped known sp st s"
  then have "spawned (sy_log s)" using assms by (auto simp: start_inv_def spawned_def)
  then show "start_allowed (sy_log s) (Killed (case ce_exited env (turn s) of
      Inl k \<Rightarrow> Inl k | Inr True \<Rightarrow> Inr () | Inr False \<Rightarrow> ce_kill env (turn s)))"
    by (simp add: start_allowed_def)
qed (simp add: quiet_def)

lemma wrote_ok:
  "triple (start_inv env c all_traffic mapped known sp st) (write_status env snap p) (\<lambda>_. start_inv env c all_traffic mapped known sp st)"
proof -
  have "triple (start_inv env c all_traffic mapped known sp st) (write_status env snap p)
      (\<lambda>r. start_inv env c all_traffic mapped (insert (Wrote snap p r) known) sp st)"
    unfolding write_status_def by (rule start_observe) (simp add: harmless_def)
  then show ?thesis by (rule triple_conseq) (auto intro: start_inv_known)
qed

lemma rolled_back_ok:
  assumes "Spawned (ce_session env) all_traffic (Inr p) \<in> known"
  shows "triple (start_inv env c all_traffic mapped known True True) (start_rolled_back env c (ce_session env) e)
     (start_done env c all_traffic mapped vpn_open)"
proof -
  let ?R = "\<lambda>r s. ordered start_allowed (sy_log s) \<and>
    start_undone env c all_traffic mapped vpn_open (case r of Inl te \<Rightarrow> RollbackFailed e te | Inr _ \<Rightarrow> e) s"
  have undone: "triple (start_inv env c all_traffic mapped (insert (Killed (Inr ())) known) True True)
      (transact StopUnresponsive (stop_unresponsive (ce_adb env) c)) ?R"
  proof (rule triple_transact)
    fix s r w assume inv: "start_inv env c all_traffic mapped (insert (Killed (Inr ())) known) True True s"
      and run: "run_state (stop_unresponsive (ce_adb env) c) (sy_adb s) = (r, w)"
    obtain u where u: "aw_calls (sy_adb s) = u @ start_calls c (ce_session env) all_traffic"
      using inv by (auto simp: start_inv_def suffix_def)
    then have torn: "verified_teardown (ce_adb env) c (force_stop_request c) (u @ start_calls c (ce_session env) all_traffic) (aw_calls w)"
      if "r = Inr ()" using forced_stop_success_is_verified [of "ce_adb env" c "sy_adb s" w] run that by simp
    show "?R r (logged [AdbDone StopUnresponsive (\<not> isl r)] (s\<lparr>sy_adb := w\<rparr>))"
    proof (cases r)
      case (Inl te)
      then show ?thesis using inv by (auto simp: start_inv_def logged_def start_allowed_def start_undone_def)
    next
      case (Inr x)
      then show ?thesis
        using inv torn teardown_clean [of "ce_adb env" mapped vpn_open c, OF _ _ torn]
        by (auto simp: start_inv_def logged_def start_allowed_def start_undone_def)
    qed
  qed
  have wrote: "triple (?R r) (write_status env snap None) (\<lambda>_. ?R r)" for r snap
    unfolding write_status_def by (rule triple_observe) (auto simp: logged_def start_allowed_def start_undone_def)
  show ?thesis unfolding start_rolled_back_def
    apply (rule triple_bind [OF killed_ok [OF assms]], rule triple_sum)
     apply (rule triple_return, auto simp: start_done_def start_inv_def)[1]
    apply (rule triple_bind, rule triple_pre [OF undone], simp)
    apply (rule triple_bind [OF wrote], rule triple_return)
    apply (auto simp: start_done_def start_undone_def)
    done
qed

lemma android_started_ok:
  "triple (start_inv env c all_traffic mapped {Spawned (ce_session env) all_traffic (Inr p)} True False)
     (transact StartAndroid (AdbController_start (ce_adb env) c (ce_session env) all_traffic))
     (\<lambda>r. start_inv env c all_traffic mapped {Spawned (ce_session env) all_traffic (Inr p)} True (\<not> isl r))"
proof (rule triple_transact)
  fix s r w
  let ?session = "ce_session env"
  assume inv: "start_inv env c all_traffic mapped {Spawned ?session all_traffic (Inr p)} True False s"
    and run: "run_state (AdbController_start (ce_adb env) c ?session all_traffic) (sy_adb s) = (r, w)"
  have "all_mapped env mapped (s\<lparr>sy_adb := w\<rparr>)" if "r = Inr receipt" for receipt
    using run start_success_is_mapped [of "ce_adb env" mapped c ?session all_traffic "sy_adb s" receipt w] that
    by (simp add: all_mapped_def)
  moreover have "suffix (start_calls c ?session all_traffic) (aw_calls w)" if "r = Inr receipt" for receipt
    using start_run [OF run] that by (auto simp: adds_calls_def suffix_def)
  ultimately show "start_inv env c all_traffic mapped {Spawned ?session all_traffic (Inr p)} True (\<not> isl r)
      (logged [AdbDone StartAndroid (\<not> isl r)] (s\<lparr>sy_adb := w\<rparr>))"
    using inv by (cases r) (auto simp: start_inv_def logged_def start_allowed_def all_mapped_def spawned_def)
qed

lemma spawned_ok:
  "triple (start_inv env c all_traffic mapped {Spawned (ce_session env) all_traffic (Inr p)} True False)
     (start_spawned env c (ce_session env) all_traffic p) (start_done env c all_traffic mapped vpn_open)"
  unfolding start_spawned_def
  apply (rule triple_bind [OF ready_ok], rule triple_sum)
   apply (rule triple_bind [OF killed_ok], simp, rule triple_return, auto simp: start_done_def start_inv_def)[1]
  apply (rule triple_bind [OF android_started_ok], rule triple_sum)
   apply (rule triple_bind [OF killed_ok], simp, rule triple_bind [OF wrote_ok], rule triple_return)
   apply (auto simp: start_done_def start_inv_def)[1]
  apply (rule triple_bind [OF connected_ok], rule triple_sum)
   apply (rule triple_pre, rule rolled_back_ok [where p = p and known = "{Spawned (ce_session env) all_traffic (Inr p)}"])
    apply (simp_all)[2]
  apply (rule triple_return, simp add: start_done_def start_inv_def)
  done

text \<open>Before the daemon is spawned.\<close>

lemma identity_ok:
  "triple (start_inv env c all_traffic mapped known sp st) (daemon_identity env) (\<lambda>i. start_inv env c all_traffic mapped (insert (SawIdentity i) known) sp st)"
  "triple (start_inv env c all_traffic mapped known sp st) (running_process env p) (\<lambda>b. start_inv env c all_traffic mapped (insert (SawProcess p b) known) sp st)"
  "triple (start_inv env c all_traffic mapped known sp st) (runtime_active env) (\<lambda>b. start_inv env c all_traffic mapped (insert (SawRuntime b) known) sp st)"
  unfolding daemon_identity_def running_process_def runtime_active_def
  by (rule start_observe; simp add: harmless_def)+

lemma acquired_ok:
  "triple (\<lambda>s. sy_log s = []) (acquire_lifecycle_operation env)
     (\<lambda>r s. if isl r then sy_log s = [Acquired False] else start_inv env c all_traffic mapped {} False False s)"
  unfolding acquire_lifecycle_operation_def
  by (rule triple_observe)
     (auto simp: start_inv_def logged_def spawned_def start_allowed_def ordered_snoc [of _ "[]", simplified])

lemma refused_done: "sy_log s = [Acquired False] \<Longrightarrow> start_done env c all_traffic mapped vpn_open (Inl e) s"
  by (simp add: start_done_def spawned_def start_allowed_def ordered_snoc [of _ "[]", simplified])

text \<open>What was seen that allows a new daemon.\<close>

definition no_daemon_seen :: "'t cli_env \<Rightarrow> AdbController \<Rightarrow> bool \<Rightarrow> (adb_call list \<Rightarrow> (string \<times> string) set) \<Rightarrow> Sys \<Rightarrow> bool" where
  "no_daemon_seen env c all_traffic mapped s \<longleftrightarrow> start_inv env c all_traffic mapped {} False False s \<and>
     (SawIdentity None \<in> set (sy_log s) \<or> (\<exists>p. SawIdentity (Some p) \<in> set (sy_log s) \<and> SawProcess p False \<in> set (sy_log s)))"

lemma spawn_ok:
  "triple (\<lambda>s. no_daemon_seen env c all_traffic mapped s \<and> SawRuntime False \<in> set (sy_log s)) (spawn_daemon env session all_traffic)
     (\<lambda>r s. (case r of Inl _ \<Rightarrow> start_inv env c all_traffic mapped {} False False s
             | Inr p \<Rightarrow> start_inv env c all_traffic mapped {Spawned session all_traffic (Inr p)} True False s))"
  unfolding spawn_daemon_def
  by (rule triple_observe)
     (auto simp: no_daemon_seen_def start_inv_def logged_def spawned_def start_allowed_def split: sum.splits)

lemma start_inv_done: "start_inv env c all_traffic mapped known False False s \<Longrightarrow> start_done env c all_traffic mapped vpn_open (Inl e) s"
  by (auto simp: start_inv_def start_done_def)

lemma cli_start_ok: "triple (\<lambda>s. sy_log s = []) (cli_start env c apk all_traffic) (start_done env c all_traffic mapped vpn_open)"
proof -
  let ?N = "no_daemon_seen env c all_traffic mapped"
  have alive: "triple (start_inv env c all_traffic mapped {SawIdentity identity} False False)
      (case identity of None \<Rightarrow> State_Monad.return False | Some p \<Rightarrow> running_process env p)
      (\<lambda>b s. start_inv env c all_traffic mapped {} False False s \<and> (\<not> b \<longrightarrow> ?N s))" for identity
  proof (rule triple_option)
    show "triple (start_inv env c all_traffic mapped {SawIdentity identity} False False) (running_process env p)
        (\<lambda>b s. start_inv env c all_traffic mapped {} False False s \<and> (\<not> b \<longrightarrow> ?N s))" if "identity = Some p" for p
      by (rule triple_conseq [OF identity_ok(2) [where known = "{SawIdentity identity}" and mapped = mapped
            and sp = False and st = False]])
         (auto simp: that no_daemon_seen_def start_inv_def)
  qed (rule triple_return, auto simp: no_daemon_seen_def start_inv_def)
  have runtime: "triple ?N (runtime_active env) (\<lambda>b s. ?N s \<and> (\<not> b \<longrightarrow> SawRuntime False \<in> set (sy_log s)))"
    unfolding runtime_active_def
    by (rule triple_observe)
       (auto simp: no_daemon_seen_def start_inv_def logged_def spawned_def start_allowed_def)
  have installed: "triple (\<lambda>s. ?N s \<and> SawRuntime False \<in> set (sy_log s))
      (transact InstallApk (install_matching_apk (ce_adb env) c apk)) (\<lambda>_ s. ?N s \<and> SawRuntime False \<in> set (sy_log s))"
    by (rule triple_transact) (auto simp: no_daemon_seen_def start_inv_def logged_def spawned_def start_allowed_def)
  have early: "triple P (State_Monad.return (Inl e)) (start_done env c all_traffic mapped vpn_open)"
    if "\<And>s. P s \<Longrightarrow> start_inv env c all_traffic mapped {} False False s" for P e
    by (rule triple_return) (auto dest: that intro: start_inv_done)
  show ?thesis unfolding cli_start_def
    apply (rule triple_bind [OF acquired_ok [where c = c and all_traffic = all_traffic and mapped = mapped]], rule triple_sum)
     apply (rule triple_return, simp add: refused_done)
    apply (rule triple_pre [where P' = "start_inv env c all_traffic mapped {} False False"])
    apply (rule triple_bind [OF identity_ok(1)], rule triple_bind [OF alive], rule triple_if, rule early, simp)
    apply (rule triple_bind, rule triple_pre [OF runtime], simp)
    apply (rule triple_if, rule early, simp add: no_daemon_seen_def)
    apply (rule triple_sum, rule early, simp add: no_daemon_seen_def)
    apply (rule triple_bind, rule triple_pre [OF installed], simp)
    apply (rule triple_sum, rule early, simp add: no_daemon_seen_def)
    apply (rule triple_bind [OF spawn_ok], rule triple_sum, rule early, simp)
    apply (rule triple_pre [OF spawned_ok], simp_all)
    done
qed

text \<open>C27. A start is exclusive and either completes or is undone, whatever the daemon, its files and ADB answer at
  each turn.  It spawns a daemon and runs an ADB transaction only after it has acquired the lifecycle operation, and a
  daemon only after no live daemon and no live runtime was seen.  A start that fails after it spawned a daemon
  has tried to kill it.  If Android had been started, either the daemon was killed and the forced stop that
  followed the start intent was verified, which leaves the headset clean on a device that behaves as documented, or
  the error says so: it names the failed kill, or the failed rollback.  A start that succeeds
  has seen its own session connected as its last act, with the daemon it reports and, on a device that behaves as
  \<^verbatim>\<open>adb reverse\<close> documents, all mappings installed.\<close>

theorem start_command_completes_or_undone:
  "let (r, s) = run_state (cli_start env c apk all_traffic) (fresh w) in start_done env c all_traffic mapped vpn_open r s"
  using cli_start_ok [of env c apk all_traffic mapped vpn_open] by (simp add: triple_def fresh_def split_beta)

section \<open>An identity that no longer names a daemon\<close>

text \<open>Outside Windows the identity is only a number in a file.  Once the daemon is gone without removing it, the
  admin socket does not answer and the number cannot be terminated: every stop then ends before it touches the
  headset and keeps the file, so the next one ends in the same way.\<close>

lemma stale_identity_blocks_stop:
  assumes "\<And>n. ce_acquire env n = Inr ()" "\<And>n. ce_identity env n = Some p"
    and "\<And>n command timeout. ce_admin env n command timeout = Inl failed" "\<And>n. ce_terminate env n p = Inl k"
  shows "run_state (cli_stop env c) (fresh w) = (Inl (QuiesceFailed k),
    \<lparr>sy_log = [Acquired True, Asked ''stop'' (Inl failed), SawIdentity (Some p), Terminated (Inl k)], sy_adb = w\<rparr>)"
  by (simp add: cli_stop_def acquire_lifecycle_operation_def stop_transaction_def ask_admin_def stop_without_lane_def
      daemon_identity_def terminate_daemon_def observe_def logged_def turn_def fresh_def Let_def assms)

section \<open>Witnesses\<close>

text \<open>A command without a daemon, on the sample headset.\<close>

definition alone_env :: "unit cli_env" where
  "alone_env = \<lparr>ce_adb = sample_adb, ce_session = sample_session_id, ce_apk = Inr (), ce_acquire = (\<lambda>_. Inr ()),
     ce_identity = (\<lambda>_. None), ce_running = (\<lambda>_ _. False), ce_runtime_lock = (\<lambda>_. None),
     ce_admin = (\<lambda>_ _ _. Inl AdminTimeout), ce_status = (\<lambda>_. None), ce_write = (\<lambda>_. Inr ()),
     ce_spawn = (\<lambda>_. Inl OtherIo), ce_exited = (\<lambda>_. Inr True), ce_kill = (\<lambda>_. Inr ()),
     ce_terminate = (\<lambda>_ _. Inl NotFound), ce_unix_ms = (\<lambda>_. 0), ce_takes = (\<lambda>_. 0)\<rparr>"

lemma alone_stop: "\<exists>s. run_state (cli_stop alone_env AdbController_new) (fresh w) = (Inr (), s)"
proof -
  obtain w' where stop: "run_state (AdbController_stop sample_adb AdbController_new) w = (Inr (), w')" using sample_stop by blast
  show ?thesis
    by (simp add: cli_stop_def acquire_lifecycle_operation_def stop_transaction_def ask_admin_def stop_without_lane_def
        daemon_identity_def runtime_active_def runtime_may_be_active_def stop_android_def transact_def stop_finish_def
        stop_daemon_def remove_identity_def write_status_def observe_def logged_def turn_def fresh_def Let_def
        alone_env_def stop)
qed

theorem stop_command_is_clean_witness:
  "\<exists>s. run_state (cli_stop alone_env AdbController_new) (fresh \<lparr>aw_calls = [], aw_now = 0\<rparr>) = (Inr (), s) \<and>
     stop_verified alone_env AdbController_new [] s \<and> device_clean sample_open sample_mapped (aw_calls (sy_adb s)) \<and>
     last (sy_log s) = Wrote stopped_snapshot None (Inr ())"
proof -
  obtain s where run: "run_state (cli_stop alone_env AdbController_new) (fresh \<lparr>aw_calls = [], aw_now = 0\<rparr>) = (Inr (), s)"
    using alone_stop by blast
  moreover have "ce_adb alone_env = sample_adb" by (simp add: alone_env_def)
  ultimately show ?thesis
    using stop_command_is_clean [OF _ _ run, of sample_mapped sample_open] sample_contract sample_service by simp
qed

end
