(* ===== verification/Broker.thy ===== *)
theory Broker
  imports Messages Cli Pool
begin

text \<open>
  The per-user command broker (\<^verbatim>\<open>main.rs\<close>): the public commands and the form in which they travel, the gate that
  admits one command at a time, the bounded texts of a response, the environment with the ADB program, and the
  handler of a connection with its client.  Texts are UTF-8 bytes; paths are strings; \<^verbatim>\<open>serde_json\<close> and the
  commands themselves are arguments.
\<close>

section \<open>Commands\<close>

record StartArgs =
  sa_virtual_desktop_only :: bool
  sa_all_traffic :: bool

definition routes_all_traffic :: "StartArgs \<Rightarrow> bool" where
  "routes_all_traffic args \<longleftrightarrow> sa_all_traffic args \<or> \<not> sa_virtual_desktop_only args"

definition from_all_traffic :: "bool \<Rightarrow> StartArgs" where
  "from_all_traffic all_traffic = \<lparr>sa_virtual_desktop_only = (\<not> all_traffic), sa_all_traffic = False\<rparr>"

datatype DiagnosticsCommand = Capture u64 | Export string

datatype Command =
    Start StartArgs
  | Stop
  | Status bool
  | Repair
  | Doctor
  | Diagnostics DiagnosticsCommand
  | Version
  | Daemon SessionId bool

datatype BrokerCommand =
    BStart bool
  | BStop
  | BStatus bool
  | BRepair
  | BDoctor
  | BDiagnosticsCapture u64
  | BDiagnosticsExport string
  | BVersion

datatype broker_error = DurationOutOfRange | DaemonNotForwarded

definition command_runs_client_side :: "Command \<Rightarrow> bool" where
  "command_runs_client_side command = (case command of Diagnostics (Capture _) \<Rightarrow> True | _ \<Rightarrow> False)"

definition command_requires_lifecycle_serialization :: "Command \<Rightarrow> bool" where
  "command_requires_lifecycle_serialization command =
     (case command of Start _ \<Rightarrow> True | Stop \<Rightarrow> True | Repair \<Rightarrow> True | _ \<Rightarrow> False)"

fun into_public_command :: "BrokerCommand \<Rightarrow> broker_error + Command" where
  "into_public_command (BStart all_traffic) = Inr (Start (from_all_traffic all_traffic))"
| "into_public_command BStop = Inr Stop"
| "into_public_command (BStatus as_json) = Inr (Status as_json)"
| "into_public_command BRepair = Inr Repair"
| "into_public_command BDoctor = Inr Doctor"
| "into_public_command (BDiagnosticsCapture d) =
     (if 1 \<le> d \<and> d \<le> 3600 then Inr (Diagnostics (Capture d)) else Inl DurationOutOfRange)"
| "into_public_command (BDiagnosticsExport path) = Inr (Diagnostics (Export path))"
| "into_public_command BVersion = Inr Version"

fun BrokerCommand_try_from :: "Command \<Rightarrow> broker_error + BrokerCommand" where
  "BrokerCommand_try_from (Start args) = Inr (BStart (routes_all_traffic args))"
| "BrokerCommand_try_from Stop = Inr BStop"
| "BrokerCommand_try_from (Status as_json) = Inr (BStatus as_json)"
| "BrokerCommand_try_from Repair = Inr BRepair"
| "BrokerCommand_try_from Doctor = Inr BDoctor"
| "BrokerCommand_try_from (Diagnostics (Capture d)) = Inr (BDiagnosticsCapture d)"
| "BrokerCommand_try_from (Diagnostics (Export path)) = Inr (BDiagnosticsExport path)"
| "BrokerCommand_try_from Version = Inr BVersion"
| "BrokerCommand_try_from (Daemon session all_traffic) = Inl DaemonNotForwarded"

fun response_timeout :: "BrokerCommand \<Rightarrow> duration" where
  "response_timeout (BStart _) = seconds (15 * 60)"
| "response_timeout BStop = seconds 30"
| "response_timeout (BStatus _) = seconds 15"
| "response_timeout BDoctor = seconds 15"
| "response_timeout BRepair = seconds 660"
| "response_timeout (BDiagnosticsCapture d) = seconds (unat (min d 3600) + 30)"
| "response_timeout (BDiagnosticsExport _) = seconds 60"
| "response_timeout BVersion = seconds 5"

section \<open>The gate\<close>

record BrokerGateState =
  bg_active :: bool
  bg_shutting_down :: bool

definition BrokerGate_default :: BrokerGateState where
  "BrokerGate_default = \<lparr>bg_active = False, bg_shutting_down = False\<rparr>"

definition begin_command :: "BrokerGateState \<Rightarrow> BrokerGateState option" where
  "begin_command g = (if bg_active g \<or> bg_shutting_down g then None else Some (g\<lparr>bg_active := True\<rparr>))"

definition finish_command :: "BrokerGateState \<Rightarrow> BrokerGateState" where
  "finish_command g = g\<lparr>bg_active := False\<rparr>"

section \<open>Responses\<close>

definition BROKER_PROTOCOL_VERSION :: u16 where "BROKER_PROTOCOL_VERSION = 6"
definition MAX_BROKER_TEXT :: nat where "MAX_BROKER_TEXT = 32 * 1024"

definition truncation_suffix :: bytes where
  "truncation_suffix = [0x0A] @ ascii ''[broker output truncated]'' @ [0x0A]"

definition is_char_boundary :: "bytes \<Rightarrow> nat \<Rightarrow> bool" where
  "is_char_boundary t i \<longleftrightarrow> i = 0 \<or> i = length t \<or> i < length t \<and> \<not> utf8_cont (t ! i)"

function boundary_below :: "bytes \<Rightarrow> nat \<Rightarrow> nat" where
  "boundary_below t i = (if is_char_boundary t i then i else boundary_below t (i - 1))"
  by pat_completeness auto
termination by (relation "measure snd") (auto simp: is_char_boundary_def)

declare boundary_below.simps [simp del]

definition bounded_broker_text :: "bytes \<Rightarrow> bytes" where
  "bounded_broker_text t =
     (if length t > MAX_BROKER_TEXT
      then take (boundary_below t (MAX_BROKER_TEXT - length truncation_suffix)) t @ truncation_suffix
      else if t \<noteq> [] \<and> last t = 0x0A then t else t @ [0x0A])"

record BrokerResponse =
  br_protocol_version :: u16
  br_exit_code :: u8
  br_stdout :: bytes
  br_stderr :: bytes

definition BrokerResponse_success :: "bytes \<Rightarrow> BrokerResponse" where
  "BrokerResponse_success stdout = \<lparr>br_protocol_version = BROKER_PROTOCOL_VERSION, br_exit_code = 0,
     br_stdout = bounded_broker_text stdout, br_stderr = []\<rparr>"

definition BrokerResponse_failure :: "bytes \<Rightarrow> BrokerResponse" where
  "BrokerResponse_failure error = \<lparr>br_protocol_version = BROKER_PROTOCOL_VERSION, br_exit_code = 1,
     br_stdout = [], br_stderr = bounded_broker_text (ascii ''Error: '' @ error)\<rparr>"

section \<open>The context\<close>

record BrokerRequest =
  bq_protocol_version :: u16
  bq_instance_root :: string
  bq_adb_program :: string
  bq_command :: BrokerCommand

text \<open>The root directory of the broker and the ADB program in use; the controller is the one of that program.\<close>

record BrokerContext =
  bx_root :: string
  bx_adb_program :: string

definition ensure_adb_with :: "(string \<Rightarrow> string \<Rightarrow> 'e + string) \<Rightarrow> BrokerContext \<Rightarrow> ('e + string) \<times> BrokerContext" where
  "ensure_adb_with repair x =
     (case repair (bx_adb_program x) (bx_root x) of
        Inl e \<Rightarrow> (Inl e, x)
      | Inr adb_program \<Rightarrow>
          if adb_program = bx_adb_program x then (Inr adb_program, x)
          else (Inr adb_program, x\<lparr>bx_adb_program := adb_program\<rparr>))"

text \<open>The commands the broker executes, by the ADB program they are given; \<open>bh_repair_program\<close> is
  \<^verbatim>\<open>repair_adb_if_missing\<close>.\<close>

record broker_handlers =
  bh_repair_program :: "string \<Rightarrow> string \<Rightarrow> bytes + string"
  bh_version :: bytes
  bh_export :: "string \<Rightarrow> bytes + bytes"
  bh_capture :: "u64 \<Rightarrow> string \<Rightarrow> bytes + bytes"
  bh_start :: "string \<Rightarrow> StartArgs \<Rightarrow> bytes + bytes"
  bh_repair :: "string \<Rightarrow> bytes + bytes"
  bh_public :: "string \<Rightarrow> Command \<Rightarrow> bytes + bytes"

definition with_repaired ::
  "broker_handlers \<Rightarrow> (string \<Rightarrow> bytes + bytes) \<Rightarrow> BrokerContext \<Rightarrow> (bytes + bytes) \<times> BrokerContext" where
  "with_repaired hs job x =
     (case ensure_adb_with (bh_repair_program hs) x of
        (Inl e, x) \<Rightarrow> (Inl e, x)
      | (Inr adb_program, x) \<Rightarrow> (job adb_program, x))"

definition execute_adb_command :: "broker_handlers \<Rightarrow> Command \<Rightarrow> BrokerContext \<Rightarrow> (bytes + bytes) \<times> BrokerContext" where
  "execute_adb_command hs command x =
     (case command of
        Start args \<Rightarrow> with_repaired hs (\<lambda>program. bh_start hs program args) x
      | Repair \<Rightarrow> with_repaired hs (bh_repair hs) x
      | _ \<Rightarrow> (bh_public hs (bx_adb_program x) command, x))"

definition BrokerContext_execute :: "broker_handlers \<Rightarrow> Command \<Rightarrow> BrokerContext \<Rightarrow> (bytes + bytes) \<times> BrokerContext" where
  "BrokerContext_execute hs command x =
     (case command of
        Version \<Rightarrow> (Inr (bh_version hs), x)
      | Diagnostics (Export path) \<Rightarrow> (bh_export hs path, x)
      | Diagnostics (Capture d) \<Rightarrow> (bh_capture hs d (bx_adb_program x), x)
      | _ \<Rightarrow> execute_adb_command hs command x)"

section \<open>A connection\<close>

definition mismatch_text :: "u16 \<Rightarrow> bytes" where
  "mismatch_text v = ascii (''broker protocol mismatch: client '' @ show_nat (unat v) @ '', broker '' @
     show_nat (unat BROKER_PROTOCOL_VERSION))"

definition other_root_text :: "string \<Rightarrow> string \<Rightarrow> bytes" where
  "other_root_text mine theirs = ascii (''this per-user broker owns '' @ mine @
     ''; exit its tray before using --home '' @ theirs)"

definition other_adb_text :: bytes where
  "other_adb_text = ascii ''this per-user broker owns a different ADB executable; exit its tray before changing --adb''"

definition broker_error_text :: "broker_error \<Rightarrow> bytes" where
  "broker_error_text e = ascii (case e of
     DurationOutOfRange \<Rightarrow> ''diagnostics capture duration must be between 1 and 3600 seconds''
   | DaemonNotForwarded \<Rightarrow> ''the internal daemon cannot be forwarded to the broker'')"

text \<open>The response to a request.  \<open>coordinator\<close> executes the lifecycle commands once the tray has one.\<close>

definition broker_respond ::
  "broker_handlers \<Rightarrow> (Command \<Rightarrow> BrokerContext \<Rightarrow> (bytes + bytes) \<times> BrokerContext) option \<Rightarrow> BrokerRequest \<Rightarrow>
   BrokerContext \<Rightarrow> BrokerResponse \<times> BrokerContext" where
  "broker_respond hs coordinator request x =
     (if bq_protocol_version request \<noteq> BROKER_PROTOCOL_VERSION
      then (BrokerResponse_failure (mismatch_text (bq_protocol_version request)), x)
      else if bq_instance_root request \<noteq> bx_root x
      then (BrokerResponse_failure (other_root_text (bx_root x) (bq_instance_root request)), x)
      else if bq_adb_program request \<noteq> bx_adb_program x then (BrokerResponse_failure other_adb_text, x)
      else
        (case into_public_command (bq_command request) of
           Inl e \<Rightarrow> (BrokerResponse_failure (broker_error_text e), x)
         | Inr command \<Rightarrow>
             (case (case coordinator of
                      Some run \<Rightarrow> if command_requires_lifecycle_serialization command then run command x
                                  else BrokerContext_execute hs command x
                    | None \<Rightarrow> BrokerContext_execute hs command x) of
                (Inr stdout, x) \<Rightarrow> (BrokerResponse_success stdout, x)
              | (Inl error, x) \<Rightarrow> (BrokerResponse_failure error, x))))"

datatype connection_error = BrokerBusy | RequestTimedOut | ResponseTimedOut | BrokerMessage message_error

text \<open>A connection as the pool sees it: waiting for the gate, holding it, or finished.\<close>

datatype broker_connection = BC_Waiting | BC_Holding | BC_Finished "connection_error + unit"

record broker_host =
  bo_gate :: BrokerGateState
  bo_context :: BrokerContext

definition connection_begin :: "broker_host \<Rightarrow> broker_host \<times> broker_connection" where
  "connection_begin o' = (case begin_command (bo_gate o') of
     None \<Rightarrow> (o', BC_Finished (Inl BrokerBusy))
   | Some g \<Rightarrow> (o'\<lparr>bo_gate := g\<rparr>, BC_Holding))"

text \<open>What the handler does with the gate in hand: whether request and response come in time, their texts, the
  bytes of the client and the sink for the answer.  The guard is dropped on every path.\<close>

record broker_io =
  bi_request_timely :: bool
  bi_response_late :: "nat option"
  bi_decode :: "bytes \<Rightarrow> BrokerRequest option"
  bi_encode :: "BrokerResponse \<Rightarrow> bytes option"

definition connection_answer ::
  "broker_handlers \<Rightarrow> (Command \<Rightarrow> BrokerContext \<Rightarrow> (bytes + bytes) \<times> BrokerContext) option \<Rightarrow> broker_io \<Rightarrow>
   byte_stream \<Rightarrow> byte_sink \<Rightarrow> BrokerContext \<Rightarrow> (connection_error + unit) \<times> byte_sink \<times> BrokerContext" where
  "connection_answer hs coordinator io stream sink x =
     (if \<not> bi_request_timely io then (Inl RequestTimedOut, sink, x)
      else
        (case read_broker_frame (bi_decode io) stream of
           Inl e \<Rightarrow> (Inl (BrokerMessage e), sink, x)
         | Inr (request, stream) \<Rightarrow>
             (case broker_respond hs coordinator request x of
                (response, x) \<Rightarrow>
                  (case write_broker_frame (bi_encode io) response sink of
                     Inl e \<Rightarrow> (Inl (BrokerMessage e), sink, x)
                   | Inr sink' \<Rightarrow>
                       (case bi_response_late io of
                          None \<Rightarrow> (Inr (), sink', x)
                        | Some n \<Rightarrow> (Inl ResponseTimedOut,
                            sink\<lparr>written := written sink @ take n (message_bytes (bi_encode io) response)\<rparr>, x))))))"

definition connection_finish ::
  "broker_handlers \<Rightarrow> (Command \<Rightarrow> BrokerContext \<Rightarrow> (bytes + bytes) \<times> BrokerContext) option \<Rightarrow> broker_io \<Rightarrow>
   byte_stream \<Rightarrow> byte_sink \<Rightarrow> broker_host \<Rightarrow> broker_host \<times> broker_connection" where
  "connection_finish hs coordinator io stream sink o' =
     (case connection_answer hs coordinator io stream sink (bo_context o') of
        (r, sink, x) \<Rightarrow> (\<lparr>bo_gate = finish_command (bo_gate o'), bo_context = x\<rparr>, BC_Finished r))"

text \<open>Connections interleave; other threads may exchange the ADB program meanwhile.\<close>

inductive connection_step :: "broker_host \<times> broker_connection \<Rightarrow> broker_host \<times> broker_connection \<Rightarrow> bool" where
  begins: "connection_begin o' = (o'', a) \<Longrightarrow> connection_step (o', BC_Waiting) (o'', a)"
| finishes: "connection_finish hs coordinator io stream sink o' = (o'', a) \<Longrightarrow> connection_step (o', BC_Holding) (o'', a)"

definition connection_start :: "broker_host \<Rightarrow> broker_host \<times> broker_connection \<Rightarrow> bool" where
  "connection_start o' r \<longleftrightarrow> r = (o', BC_Waiting)"

definition connection_env :: "broker_host \<Rightarrow> broker_host \<Rightarrow> bool" where
  "connection_env o' o'' \<longleftrightarrow> bo_gate o'' = bo_gate o'"

section \<open>The client\<close>

definition broker_request :: "BrokerContext \<Rightarrow> BrokerCommand \<Rightarrow> BrokerRequest" where
  "broker_request mine command = \<lparr>bq_protocol_version = BROKER_PROTOCOL_VERSION, bq_instance_root = bx_root mine,
     bq_adb_program = bx_adb_program mine, bq_command = command\<rparr>"

datatype client_error = ClientMessage message_error | OtherVersion u16 | BrokerDeadline

text \<open>\<open>elapsed\<close> is how long opening the pipe and the exchange take.\<close>

definition send_broker_command ::
  "(BrokerRequest \<Rightarrow> bytes option) \<Rightarrow> (bytes \<Rightarrow> BrokerResponse option) \<Rightarrow> BrokerContext \<Rightarrow> BrokerCommand \<Rightarrow> duration \<Rightarrow>
   byte_sink \<Rightarrow> byte_stream \<Rightarrow> (client_error + BrokerResponse) \<times> byte_sink" where
  "send_broker_command encode decode mine command elapsed sink stream =
     (if elapsed > response_timeout command + seconds 5 then (Inl BrokerDeadline, sink)
      else
        (case write_broker_frame encode (broker_request mine command) sink of
           Inl e \<Rightarrow> (Inl (ClientMessage e), sink)
         | Inr sink \<Rightarrow>
             ((case read_broker_frame decode stream of
                 Inl e \<Rightarrow> Inl (ClientMessage e)
               | Inr (response, stream) \<Rightarrow>
                   if br_protocol_version response \<noteq> BROKER_PROTOCOL_VERSION
                   then Inl (OtherVersion (br_protocol_version response)) else Inr response), sink)))"

end
