(* ===== verification/BrokerProps.thy ===== *)
theory BrokerProps
  imports Broker
begin

text \<open>
  Properties of the broker: a command survives the journey to it, its texts stay valid and bounded so that every
  response fits a frame, and it executes one command at a time.
\<close>

section \<open>Texts\<close>

lemma boundary_below: "is_char_boundary t (boundary_below t i) \<and> boundary_below t i \<le> i"
proof (induction t i rule: boundary_below.induct)
  case (1 t i)
  then show ?case by (cases "is_char_boundary t i") (auto simp: boundary_below.simps [of t i])
qed

text \<open>A prefix of valid UTF-8 that ends where a character begins is valid.\<close>

lemma second_is_cont: "utf8_second3 a b \<Longrightarrow> utf8_cont b" "utf8_second4 a b \<Longrightarrow> utf8_cont b"
  by (simp_all add: utf8_second3_def utf8_second4_def utf8_cont_def word_le_nat_alt split: if_splits)

text \<open>The four classes of leading bytes.\<close>

definition utf8_lead :: "nat \<Rightarrow> u8 \<Rightarrow> bool" where
  "utf8_lead n x \<longleftrightarrow> \<not> x < 0x80 \<and>
     (if 0xC2 \<le> x \<and> x \<le> 0xDF then n = 2 else if 0xE0 \<le> x \<and> x \<le> 0xEF then n = 3
      else 0xF0 \<le> x \<and> x \<le> 0xF4 \<and> n = 4)"

lemma utf8_lead_cases:
  "x < 0x80 \<Longrightarrow> utf8_valid (x # r) = utf8_valid r"
  "utf8_lead 2 x \<Longrightarrow> utf8_valid (x # r) = (case r of b # q \<Rightarrow> utf8_cont b \<and> utf8_valid q | _ \<Rightarrow> False)"
  "utf8_lead 3 x \<Longrightarrow> utf8_valid (x # r) =
     (case r of b # c # q \<Rightarrow> utf8_second3 x b \<and> utf8_cont c \<and> utf8_valid q | _ \<Rightarrow> False)"
  "utf8_lead 4 x \<Longrightarrow> utf8_valid (x # r) =
     (case r of b # c # d # q \<Rightarrow> utf8_second4 x b \<and> utf8_cont c \<and> utf8_cont d \<and> utf8_valid q | _ \<Rightarrow> False)"
  unfolding utf8_lead_def utf8_valid.simps by (auto split: if_splits)

lemma utf8_leads: "utf8_valid (x # r) \<Longrightarrow> x < 0x80 \<or> utf8_lead 2 x \<or> utf8_lead 3 x \<or> utf8_lead 4 x"
  unfolding utf8_lead_def utf8_valid.simps by (simp split: if_splits) 

lemma utf8_prefix:
  "utf8_valid (a @ b) \<Longrightarrow> b \<noteq> [] \<Longrightarrow> \<not> utf8_cont (hd b) \<Longrightarrow> utf8_valid a"
proof (induction a rule: length_induct)
  case (1 a)
  obtain y ys where b: "b = y # ys" and y: "\<not> utf8_cont y" using 1(3,4) by (cases b) auto
  have shorter: "utf8_valid q" if "length q < length a" "utf8_valid (q @ b)" for q using 1 that by blast
  show ?case
  proof (cases a)
    case (Cons x r)
    then have ok: "utf8_valid (x # r @ b)" using 1(2) by simp
    then consider (one) "x < 0x80" | (two) "utf8_lead 2 x" | (three) "utf8_lead 3 x" | (four) "utf8_lead 4 x"
      using utf8_leads by blast
    then show ?thesis
    proof cases
      case one
      then show ?thesis using ok shorter [of r] Cons by (simp add: utf8_lead_cases(1) del: utf8_valid.simps)
    next
      case two
      then show ?thesis using ok shorter y Cons
        by (cases r) (auto simp: utf8_lead_cases(2) b simp del: utf8_valid.simps(2))
    next
      case three
      then show ?thesis using ok shorter y second_is_cont(1) Cons
        by (cases r; cases "tl r") (auto simp: utf8_lead_cases(3) b simp del: utf8_valid.simps(2) split: list.splits)
    next
      case four
      then show ?thesis using ok shorter y second_is_cont(2) Cons
        by (cases r; cases "tl r"; cases "tl (tl r)")
           (auto simp: utf8_lead_cases(4) b simp del: utf8_valid.simps(2) split: list.splits)
    qed
  qed simp
qed

lemma utf8_append: "utf8_valid a \<Longrightarrow> utf8_valid b \<Longrightarrow> utf8_valid (a @ b)"
proof (induction a rule: length_induct)
  case (1 a)
  show ?case
  proof (cases a)
    case (Cons x r)
    then have ok: "utf8_valid (x # r)" using 1(2) by simp
    have shorter: "utf8_valid (q @ b)" if "length q < length a" "utf8_valid q" for q using 1 that by blast
    from utf8_leads [OF ok] show ?thesis
      using ok shorter Cons
      by (elim disjE) (auto simp: utf8_lead_cases simp del: utf8_valid.simps(2) split: list.splits)
  qed (simp add: 1(3))
qed

lemma utf8_take: "utf8_valid t \<Longrightarrow> is_char_boundary t i \<Longrightarrow> utf8_valid (take i t)"
proof (cases "i < length t")
  case True
  assume "utf8_valid t" "is_char_boundary t i"
  then show ?thesis
    using True utf8_prefix [of "take i t" "drop i t"] by (cases "i = 0") (auto simp: is_char_boundary_def hd_drop_conv_nth)
qed simp

lemma truncation_suffix: "length truncation_suffix = 27" "last truncation_suffix = 0x0A" "utf8_valid truncation_suffix"
  by (simp_all add: truncation_suffix_def ascii_def)

lemma bounded_text:
  assumes "utf8_valid t"
  shows "utf8_valid (bounded_broker_text t)" "length (bounded_broker_text t) \<le> MAX_BROKER_TEXT + 1"
    "bounded_broker_text t \<noteq> [] \<and> last (bounded_broker_text t) = 0x0A"
proof -
  let ?n = "boundary_below t (MAX_BROKER_TEXT - length truncation_suffix)"
  have n: "is_char_boundary t ?n" "?n \<le> MAX_BROKER_TEXT - length truncation_suffix" using boundary_below by simp_all
  show "utf8_valid (bounded_broker_text t)"
    using utf8_append [OF utf8_take [OF assms n(1)] truncation_suffix(3)] assms utf8_append [OF assms, of "[0x0A]"]
    by (simp add: bounded_broker_text_def)
  show "length (bounded_broker_text t) \<le> MAX_BROKER_TEXT + 1"
    using n(2) by (auto simp: bounded_broker_text_def truncation_suffix(1) MAX_BROKER_TEXT_def)
  show "bounded_broker_text t \<noteq> [] \<and> last (bounded_broker_text t) = 0x0A"
    using truncation_suffix by (cases "truncation_suffix = []") (auto simp: bounded_broker_text_def)
qed

text \<open>What the broker relies on: JSON writes a byte of a string with at most six bytes, and the rest of a response
  with at most 128.\<close>

definition json_size :: "(BrokerResponse \<Rightarrow> bytes option) \<Rightarrow> bool" where
  "json_size encode \<longleftrightarrow> (\<forall>r. \<exists>t. encode r = Some t \<and> length t \<le> 6 * (length (br_stdout r) + length (br_stderr r)) + 128)"

text \<open>Whatever a command prints or fails with, its response can be sent: the text is cut at the beginning of a
  character, so that it stays valid UTF-8 and ends with a newline, and even if every byte has to be escaped
  the response fits the frame limit of the client.\<close>

theorem broker_response_fits:
  assumes "utf8_valid t" "json_size encode"
  shows "\<forall>response \<in> {BrokerResponse_success t, BrokerResponse_failure t}.
    fits MAX_BROKER_FRAME encode response \<and> utf8_valid (br_stdout response) \<and> utf8_valid (br_stderr response)"
proof
  fix response assume *: "response \<in> {BrokerResponse_success t, BrokerResponse_failure t}"
  have "utf8_valid (ascii ''Error: '')" by (simp add: ascii_def)
  then have e: "utf8_valid (ascii ''Error: '' @ t)" using assms(1) by (rule utf8_append)
  have "length (br_stdout response) + length (br_stderr response) \<le> MAX_BROKER_TEXT + 1"
    using * bounded_text(2) [OF assms(1)] bounded_text(2) [OF e]
    by (auto simp: BrokerResponse_success_def BrokerResponse_failure_def)
  moreover obtain u where "encode response = Some u"
    "length u \<le> 6 * (length (br_stdout response) + length (br_stderr response)) + 128"
    using assms(2) unfolding json_size_def by blast
  ultimately have "fits MAX_BROKER_FRAME encode response"
    by (simp add: fits_def MAX_BROKER_TEXT_def MAX_BROKER_FRAME_def)
  then show "fits MAX_BROKER_FRAME encode response \<and> utf8_valid (br_stdout response) \<and> utf8_valid (br_stderr response)"
    using * bounded_text(1) [OF assms(1)] bounded_text(1) [OF e]
    by (auto simp: BrokerResponse_success_def BrokerResponse_failure_def)
qed

section \<open>Commands\<close>

text \<open>A command that reaches the broker is the one that was sent: it is decoded without error, with the same
  arguments, and a start routes the same traffic however its flags were given.  (The duration of a capture is
  the one the command line admits.)\<close>

theorem broker_command_roundtrip:
  assumes "BrokerCommand_try_from command = Inr b" "\<And>d. command = Diagnostics (Capture d) \<Longrightarrow> 1 \<le> d \<and> d \<le> 3600"
  shows "\<exists>command'. into_public_command b = Inr command' \<and> BrokerCommand_try_from command' = Inr b \<and>
    (case (command, command') of
       (Start args, Start args') \<Rightarrow> routes_all_traffic args' = routes_all_traffic args
     | _ \<Rightarrow> command' = command)"
  using assms
  by (cases command rule: BrokerCommand_try_from.cases) (auto simp: routes_all_traffic_def from_all_traffic_def)

section \<open>One command at a time\<close>

definition holding :: "broker_connection \<Rightarrow> nat" where
  "holding a = (if a = BC_Holding then 1 else 0)"

definition gate_gauge :: "broker_host \<Rightarrow> nat" where
  "gate_gauge o' = (if bg_active (bo_gate o') then 1 else 0)"

interpretation broker_gate: shared_gauge connection_env connection_start connection_step "\<lambda>_. True" gate_gauge holding
proof unfold_locales
  show "connection_step (g, a) (g', a') \<Longrightarrow> True \<Longrightarrow> holding a \<le> gate_gauge g \<Longrightarrow>
      True \<and> gate_gauge g' + holding a = gate_gauge g + holding a'" for g a g' a'
    by (erule connection_step.cases)
       (auto simp: connection_begin_def connection_finish_def begin_command_def finish_command_def gate_gauge_def holding_def
         split: option.splits if_splits prod.splits)
qed (auto simp: connection_env_def connection_start_def gate_gauge_def holding_def)

text \<open>In every interleaving of connections the broker executes at most one command at a time, and its gate is
  closed exactly while one is executed: whatever way a connection ends, by an error, a timeout or a response,
  it leaves the gate open for the next.\<close>

theorem broker_one_command:
  assumes "pool_reachable connection_env connection_start connection_step
      \<lparr>bo_gate = BrokerGate_default, bo_context = x\<rparr> (host, connections)"
  shows "sum_list (map holding connections) \<le> 1 \<and> (bg_active (bo_gate host) \<longleftrightarrow> BC_Holding \<in> set connections)"
proof -
  have sum: "gate_gauge host = sum_list (map holding connections)"
    using broker_gate.pool_gauge [OF assms] by (simp add: gate_gauge_def BrokerGate_default_def)
  have "sum_list (map holding connections) = 0 \<longleftrightarrow> BC_Holding \<notin> set connections"
    by (induction connections) (auto simp: holding_def)
  then show ?thesis using sum by (simp only: gate_gauge_def split: if_splits) simp_all
qed

section \<open>Witnesses\<close>

definition plain_encode :: "BrokerResponse \<Rightarrow> bytes option" where
  "plain_encode r = Some (br_stdout r @ br_stderr r)"

text \<open>Two connections: the second one finds the gate closed.\<close>

definition idle_broker :: broker_host where
  "idle_broker = \<lparr>bo_gate = BrokerGate_default, bo_context = \<lparr>bx_root = ''root'', bx_adb_program = ''adb''\<rparr>\<rparr>"

definition busy_broker :: broker_host where
  "busy_broker = idle_broker\<lparr>bo_gate := \<lparr>bg_active = True, bg_shutting_down = False\<rparr>\<rparr>"

abbreviation broker_reachable :: "broker_host \<times> broker_connection list \<Rightarrow> bool" where
  "broker_reachable \<equiv> pool_reachable connection_env connection_start connection_step idle_broker"

lemma busy_reachable: "broker_reachable (busy_broker, [BC_Holding, BC_Finished (Inl BrokerBusy)])"
proof -
  let ?step = "pool_step connection_env connection_start connection_step"
  have first: "connection_step (idle_broker, BC_Waiting) (busy_broker, BC_Holding)"
    by (rule begins) (simp add: connection_begin_def begin_command_def idle_broker_def busy_broker_def BrokerGate_default_def)
  have second: "connection_step (busy_broker, BC_Waiting) (busy_broker, BC_Finished (Inl BrokerBusy))"
    by (rule begins) (simp add: connection_begin_def begin_command_def busy_broker_def)
  have "?step (idle_broker, []) (idle_broker, [BC_Waiting])"
    using pool_spawn [of connection_start idle_broker idle_broker BC_Waiting connection_env connection_step "[]"]
    by (simp add: connection_start_def)
  moreover have "?step (idle_broker, [BC_Waiting]) (busy_broker, [BC_Holding])"
    using pool_move [of 0 "[BC_Waiting]" connection_step idle_broker busy_broker BC_Holding connection_env connection_start] first
    by simp
  moreover have "?step (busy_broker, [BC_Holding]) (busy_broker, [BC_Holding, BC_Waiting])"
    using pool_spawn [of connection_start busy_broker busy_broker BC_Waiting connection_env connection_step "[BC_Holding]"]
    by (simp add: connection_start_def)
  moreover have "?step (busy_broker, [BC_Holding, BC_Waiting]) (busy_broker, [BC_Holding, BC_Finished (Inl BrokerBusy)])"
    using pool_move [of 1 "[BC_Holding, BC_Waiting]" connection_step busy_broker busy_broker "BC_Finished (Inl BrokerBusy)"
        connection_env connection_start] second by simp
  ultimately show ?thesis using pool_init pool_next by metis
qed

end
