(* ===== verification/Tray.thy ===== *)
theory Tray
  imports Broker
begin

text \<open>
  The notification-area application (\<^verbatim>\<open>main.rs\<close>): its menu, the choice of an icon image, what it makes of the
  state of the host, and its coordinator, the one task that starts and stops the link.  The user, the window
  and the broker change the intent and queue requests at any time; the coordinator is a step relation whose
  steps lie between two accesses to what it shares with them.  What the commands achieve is an argument of the
  steps.
\<close>

section \<open>The menu\<close>

datatype TrayCommand = ToggleLink | DiagnoseAndFix | TrayExit

definition TRAY_TOGGLE_ID :: nat where "TRAY_TOGGLE_ID = 1001"
definition TRAY_DIAGNOSE_ID :: nat where "TRAY_DIAGNOSE_ID = 1002"
definition TRAY_EXIT_ID :: nat where "TRAY_EXIT_ID = 1003"

definition tray_command_from_id :: "nat \<Rightarrow> TrayCommand option" where
  "tray_command_from_id n =
     (if n = TRAY_TOGGLE_ID then Some ToggleLink
      else if n = TRAY_DIAGNOSE_ID then Some DiagnoseAndFix
      else if n = TRAY_EXIT_ID then Some TrayExit else None)"

fun tray_command_id :: "TrayCommand \<Rightarrow> nat" where
  "tray_command_id ToggleLink = TRAY_TOGGLE_ID"
| "tray_command_id DiagnoseAndFix = TRAY_DIAGNOSE_ID"
| "tray_command_id TrayExit = TRAY_EXIT_ID"

record TrayMenuEntry =
  me_command :: "TrayCommand option"
  me_label :: "string option"
  me_checked :: bool

definition tray_menu_entries :: "bool \<Rightarrow> TrayMenuEntry list" where
  "tray_menu_entries desired_on =
     [\<lparr>me_command = Some ToggleLink, me_label = Some ''Wired link'', me_checked = desired_on\<rparr>,
      \<lparr>me_command = Some DiagnoseAndFix, me_label = Some ''Diagnose and fix'', me_checked = False\<rparr>,
      \<lparr>me_command = None, me_label = None, me_checked = False\<rparr>,
      \<lparr>me_command = Some TrayExit, me_label = Some ''Exit'', me_checked = False\<rparr>]"

definition windows_power_event_is_resume :: "u32 \<Rightarrow> nat \<Rightarrow> bool" where
  "windows_power_event_is_resume message wparam \<longleftrightarrow> message = 0x0218 \<and> wparam = 0x0012"

section \<open>The icon\<close>

definition le_value :: "bytes \<Rightarrow> nat" where "le_value bs = be_value (rev bs)"

definition ico_side :: "u8 \<Rightarrow> nat" where "ico_side b = (if b = 0 then 256 else unat b)"

text \<open>What the search remembers: the image, its distance and its width.\<close>

record ico_best =
  ib_image :: "bytes option"
  ib_distance :: nat
  ib_width :: nat

definition ico_entries_end :: "nat \<Rightarrow> nat" where "ico_entries_end count = 6 + count * 16"

definition ico_usable :: "bytes \<Rightarrow> nat \<Rightarrow> nat \<Rightarrow> bool" where
  "ico_usable ico entries_end index \<longleftrightarrow>
     (let entry = 6 + index * 16;
          len = le_value (subslice (entry + 8) (entry + 12) ico); offset = le_value (subslice (entry + 12) (entry + 16) ico)
      in ico_side (ico ! entry) = ico_side (ico ! (entry + 1)) \<and>
         checked_add offset len \<noteq> None \<and> offset \<ge> entries_end \<and> offset + len \<le> length ico \<and> len \<noteq> 0)"

definition ico_image :: "bytes \<Rightarrow> nat \<Rightarrow> bytes" where
  "ico_image ico index =
     (let entry = 6 + index * 16;
          len = le_value (subslice (entry + 8) (entry + 12) ico); offset = le_value (subslice (entry + 12) (entry + 16) ico)
      in subslice offset (offset + len) ico)"

definition ico_width :: "bytes \<Rightarrow> nat \<Rightarrow> nat" where "ico_width ico index = ico_side (ico ! (6 + index * 16))"

definition abs_diff :: "nat \<Rightarrow> nat \<Rightarrow> nat" where "abs_diff a b = (if a \<le> b then b - a else a - b)"

definition ico_pass :: "bytes \<Rightarrow> nat \<Rightarrow> nat \<Rightarrow> nat \<Rightarrow> ico_best \<Rightarrow> ico_best" where
  "ico_pass ico entries_end desired index best =
     (if \<not> ico_usable ico entries_end index then best
      else
        let width = ico_width ico index; distance = abs_diff width desired in
        if distance < ib_distance best \<or> distance = ib_distance best \<and> width > ib_width best
        then \<lparr>ib_image = Some (ico_image ico index), ib_distance = distance, ib_width = width\<rparr> else best)"

definition ico_header_ok :: "bytes \<Rightarrow> bool" where
  "ico_header_ok ico \<longleftrightarrow> length ico \<ge> 6 \<and> le_value (subslice 0 2 ico) = 0 \<and> le_value (subslice 2 4 ico) = 1"

definition ico_count :: "bytes \<Rightarrow> nat" where "ico_count ico = le_value (subslice 4 6 ico)"

definition ico_image_for_size :: "bytes \<Rightarrow> nat \<Rightarrow> bytes option" where
  "ico_image_for_size ico desired =
     (if \<not> ico_header_ok ico then None
      else
        let count = ico_count ico; entries_end = ico_entries_end count in
        if count = 0 \<or> entries_end > length ico then None
        else ib_image (fold (ico_pass ico entries_end desired) [0..<count]
               \<lparr>ib_image = None, ib_distance = 2 ^ 32 - 1, ib_width = 0\<rparr>))"

section \<open>The state of the host as the tray sees it\<close>

record TrayHostObservation =
  to_lifecycle :: HostState
  to_daemon_running :: bool
  to_runtime_visible :: bool

text \<open>The status document, the identity, the running processes and the runtime lock, as far as they can be read.\<close>

definition TrayHostObservation_capture ::
  "'t PersistedStatus option \<Rightarrow> nat \<Rightarrow> pid option \<Rightarrow> (pid \<Rightarrow> bool) \<Rightarrow> string option \<Rightarrow> TrayHostObservation" where
  "TrayHostObservation_capture status now identity running runtime_lock =
     \<lparr>to_lifecycle = snap_state (pst_lifecycle (case status of Some d \<Rightarrow> d | None \<Rightarrow> PersistedStatus_stopped now)),
      to_daemon_running = (case identity of None \<Rightarrow> False | Some p \<Rightarrow> running p),
      to_runtime_visible = runtime_may_be_active running runtime_lock\<rparr>"

definition is_verified_off :: "TrayHostObservation \<Rightarrow> bool" where
  "is_verified_off o' \<longleftrightarrow> \<not> to_daemon_running o' \<and> \<not> to_runtime_visible o' \<and> to_lifecycle o' = Stopped"

datatype TrayReconcileAction = NoAction | StartLink | StopLink

definition tray_reconcile_action :: "bool \<Rightarrow> TrayHostObservation \<Rightarrow> TrayReconcileAction" where
  "tray_reconcile_action desired_on o' =
     (if \<not> desired_on then (if is_verified_off o' then NoAction else StopLink)
      else if to_daemon_running o'
      then (if to_lifecycle o' \<in> set [Preparing, Connected, Degraded] then NoAction else StopLink)
      else if to_runtime_visible o' \<or> to_lifecycle o' \<in> set [Connected, Degraded, Stopping, ErrorState]
      then StopLink else StartLink)"

definition tray_should_report_reconcile_error :: "bool \<Rightarrow> bool \<Rightarrow> bool" where
  "tray_should_report_reconcile_error report_stop_error exit_requested \<longleftrightarrow> report_stop_error \<or> exit_requested"

text \<open>The dash of the texts is written as a hyphen.\<close>

definition tray_tooltip :: "bool \<Rightarrow> TrayHostObservation option \<Rightarrow> string" where
  "tray_tooltip desired_on observation =
     (if \<not> desired_on then
        (if (case observation of None \<Rightarrow> False | Some o' \<Rightarrow> is_verified_off o') then ''Wired link: off''
         else ''Wired link: stopping'')
      else if (case observation of None \<Rightarrow> False | Some o' \<Rightarrow> to_daemon_running o' \<and> to_lifecycle o' = Connected)
      then ''Quest VD Wired - connected''
      else if (case observation of None \<Rightarrow> False | Some o' \<Rightarrow> to_lifecycle o' = Degraded)
      then ''Wired link: headset asleep - reconnecting''
      else ''Wired link: connecting - allow USB debugging'')"

section \<open>What the tray shares\<close>

datatype tray_intent = IntentOn | IntentOff | IntentExiting

datatype TrayCoordinatorRequest =
    Wake bool
  | ResumeRequest
  | DiagnoseRequest
  | ExitRequest
  | External Command nat

text \<open>What happened, for the properties: an exit was asked for, the coordinator decided an action, a command of the
  broker was answered, an error was shown, a diagnosis ended, the exit was completed.\<close>

datatype tray_event =
    ExitAsked
  | Decided TrayReconcileAction
  | Answered nat "bytes + bytes"
  | Reported bytes
  | DiagnosisComplete
  | ExitComplete TrayHostObservation

record Tray =
  ty_intent :: tray_intent
  ty_diagnosing :: bool
  ty_queue :: "TrayCoordinatorRequest list"
  ty_closed :: bool
  ty_issued :: nat
  ty_log :: "tray_event list"

definition tray_desired_on :: "Tray \<Rightarrow> bool" where "tray_desired_on t \<longleftrightarrow> ty_intent t = IntentOn"
definition tray_exit_requested :: "Tray \<Rightarrow> bool" where "tray_exit_requested t \<longleftrightarrow> ty_intent t = IntentExiting"

text \<open>Sending to the coordinator fails once it has returned.\<close>

definition tray_send :: "TrayCoordinatorRequest \<Rightarrow> Tray \<Rightarrow> Tray" where
  "tray_send r t = (if ty_closed t then t else t\<lparr>ty_queue := ty_queue t @ [r]\<rparr>)"

text \<open>The loops of \<^verbatim>\<open>compare_exchange\<close> end with one exchange from the current value.\<close>

definition handle_toggle :: "Tray \<Rightarrow> Tray" where
  "handle_toggle t =
     (if ty_intent t = IntentExiting then t
      else
        let target = (if ty_intent t = IntentOn then IntentOff else IntentOn) in
        tray_send (Wake (target \<noteq> IntentOn)) (t\<lparr>ty_intent := target\<rparr>))"

definition handle_diagnose :: "Tray \<Rightarrow> Tray" where
  "handle_diagnose t =
     (if tray_exit_requested t \<or> ty_diagnosing t then t
      else if ty_closed t then t else tray_send DiagnoseRequest (t\<lparr>ty_diagnosing := True\<rparr>))"

definition handle_host_resume :: "Tray \<Rightarrow> Tray" where
  "handle_host_resume t = (if tray_exit_requested t \<or> \<not> tray_desired_on t then t else tray_send ResumeRequest t)"

definition handle_exit :: "Tray \<Rightarrow> Tray" where
  "handle_exit t = tray_send ExitRequest (t\<lparr>ty_intent := IntentExiting, ty_log := ty_log t @ [ExitAsked]\<rparr>)"

text \<open>\<^verbatim>\<open>execute_external\<close> up to its wait: \<open>None\<close> when the command is refused.\<close>

definition handle_external :: "Command \<Rightarrow> Tray \<Rightarrow> nat option \<times> Tray" where
  "handle_external command t =
     (let refused = (case command of Start _ \<Rightarrow> ty_intent t = IntentExiting | _ \<Rightarrow> False);
          intent = (case command of
            Start _ \<Rightarrow> IntentOn
          | Stop \<Rightarrow> if ty_intent t = IntentExiting then IntentExiting else IntentOff
          | _ \<Rightarrow> ty_intent t)
      in if refused then (None, t)
         else
           let t = t\<lparr>ty_intent := intent\<rparr> in
           if ty_closed t then (None, t)
           else (Some (ty_issued t), (tray_send (External command (ty_issued t)) t)\<lparr>ty_issued := ty_issued t + 1\<rparr>))"

section \<open>The backend\<close>

text \<open>Asking a running daemon to recover, up to three times; the answers of its attempts, in order.\<close>

fun resume_attempts :: "(admin_error + AdminResponse) list \<Rightarrow> bool" where
  "resume_attempts [] = False"
| "resume_attempts (Inr response # answers) = (an_ok response \<or> resume_attempts answers)"
| "resume_attempts (Inl _ # answers) = resume_attempts answers"

definition backend_host_resume :: "bool \<Rightarrow> bool \<Rightarrow> (admin_error + AdminResponse) list \<Rightarrow> bool" where
  "backend_host_resume desired_on daemon_running answers =
     (if \<not> desired_on \<or> \<not> daemon_running then True else resume_attempts (take 3 answers))"

text \<open>\<^verbatim>\<open>diagnose_and_fix\<close>: the outcome of the repair of ADB and of a stop and a start if they are run; whether the link
  is still wanted after the stop.\<close>

datatype fix_step = FixStop | FixStart

definition diagnose_and_fix ::
  "bool \<Rightarrow> bytes + unit \<Rightarrow> bool \<Rightarrow> bytes + unit \<Rightarrow> bool \<Rightarrow> bytes + unit \<Rightarrow> bytes + unit \<Rightarrow> (bytes + unit) \<times> fix_step list" where
  "diagnose_and_fix desired_on ensured active stop_result still_on start_result adb_state =
     (case ensured of
        Inl e \<Rightarrow> (Inl e, [])
      | Inr _ \<Rightarrow>
          if \<not> desired_on then (adb_state, [])
          else if active \<and> isl stop_result then (stop_result, [FixStop])
          else if \<not> still_on then (Inr (), if active then [FixStop] else [])
          else (start_result, (if active then [FixStop] else []) @ [FixStart]))"

section \<open>The coordinator\<close>

definition TRAY_RETRY_INITIAL :: duration where "TRAY_RETRY_INITIAL = millis 750"
definition TRAY_RETRY_MAX :: duration where "TRAY_RETRY_MAX = seconds 8"

definition next_tray_retry_delay :: "duration \<Rightarrow> duration" where
  "next_tray_retry_delay current = min (current * 2) TRAY_RETRY_MAX"

datatype coordinator_phase =
    Receiving
  | Handling TrayCoordinatorRequest
  | Reconciling
  | Acting TrayReconcileAction
  | Observing
  | Settling bool
  | Returned

record Coordinator =
  co_retry_delay :: duration
  co_report_next_stop_error :: bool
  co_report_exit_error :: bool
  co_phase :: coordinator_phase

definition Coordinator_start :: Coordinator where
  "Coordinator_start = \<lparr>co_retry_delay = TRAY_RETRY_INITIAL, co_report_next_stop_error = False,
     co_report_exit_error = False, co_phase = Receiving\<rparr>"

type_synonym tray_world = "Tray \<times> Coordinator"

definition tray_log :: "tray_event list \<Rightarrow> Tray \<Rightarrow> Tray" where
  "tray_log es t = t\<lparr>ty_log := ty_log t @ es\<rparr>"

text \<open>Every request but the wake of the timer starts the retries again.\<close>

definition on_request :: "TrayCoordinatorRequest \<Rightarrow> Coordinator \<Rightarrow> Coordinator" where
  "on_request r c =
     (let c = (if r \<noteq> Wake False then c\<lparr>co_retry_delay := TRAY_RETRY_INITIAL\<rparr> else c) in c\<lparr>co_phase := Handling r\<rparr>)"

text \<open>Handling a request, with the outcome of what the backend does for it.\<close>

definition on_handled :: "TrayCoordinatorRequest \<Rightarrow> bytes + bytes \<Rightarrow> tray_world \<Rightarrow> tray_world" where
  "on_handled r outcome w =
     (let (t, c) = w; c = c\<lparr>co_phase := Reconciling\<rparr>; errors = (case outcome of Inl e \<Rightarrow> [Reported e] | Inr _ \<Rightarrow> []) in
      case r of
        Wake report_stop_error \<Rightarrow>
          (t, c\<lparr>co_report_next_stop_error := co_report_next_stop_error c \<or> report_stop_error\<rparr>)
      | ResumeRequest \<Rightarrow> (tray_log errors t, c)
      | DiagnoseRequest \<Rightarrow> ((tray_log (errors @ [DiagnosisComplete]) t)\<lparr>ty_diagnosing := False\<rparr>, c)
      | ExitRequest \<Rightarrow> (t, c\<lparr>co_report_exit_error := True\<rparr>)
      | External command ticket \<Rightarrow> (tray_log [Answered ticket outcome] t, c))"

text \<open>\<^verbatim>\<open>reconcile_tray_desired_state\<close>: decide on a first observation, act, and compare with a second one.\<close>

definition on_reconcile :: "TrayHostObservation \<Rightarrow> tray_world \<Rightarrow> tray_world" where
  "on_reconcile o' w =
     (let (t, c) = w; action = tray_reconcile_action (tray_desired_on t) o' in
      (tray_log [Decided action] t, c\<lparr>co_phase := (if action = NoAction then Observing else Acting action)\<rparr>))"

definition on_acted :: "bytes + unit \<Rightarrow> tray_world \<Rightarrow> tray_world" where
  "on_acted result w =
     (let (t, c) = w in
      case result of
        Inr _ \<Rightarrow> (t, c\<lparr>co_phase := Observing\<rparr>)
      | Inl e \<Rightarrow>
          let c = c\<lparr>co_retry_delay := next_tray_retry_delay (co_retry_delay c), co_phase := Receiving\<rparr> in
          if tray_should_report_reconcile_error (co_report_next_stop_error c) (co_report_exit_error c)
          then (tray_log [Reported e] t, c\<lparr>co_report_next_stop_error := False, co_report_exit_error := False\<rparr>)
          else (t, c))"

definition on_observed :: "TrayHostObservation \<Rightarrow> tray_world \<Rightarrow> tray_world" where
  "on_observed o' w =
     (let (t, c) = w; converged = (tray_reconcile_action (tray_desired_on t) o' = NoAction);
          c = (if converged then c\<lparr>co_retry_delay := TRAY_RETRY_INITIAL\<rparr> else c)
      in (t, c\<lparr>co_report_next_stop_error := False, co_phase := Settling converged\<rparr>))"

text \<open>Returning drops the receiver with what is still queued.\<close>

definition on_settled :: "TrayHostObservation \<Rightarrow> tray_world \<Rightarrow> tray_world" where
  "on_settled o' w =
     (let (t, c) = w in
      if tray_exit_requested t \<and> is_verified_off o'
      then ((tray_log [ExitComplete o'] t)\<lparr>ty_closed := True, ty_queue := []\<rparr>, c\<lparr>co_phase := Returned\<rparr>)
      else (t, c\<lparr>co_phase := Receiving\<rparr>))"

section \<open>The application\<close>

inductive tray_step :: "tray_world \<Rightarrow> tray_world \<Rightarrow> bool" where
  user_toggle: "tray_step (t, c) (handle_toggle t, c)"
| user_diagnose: "tray_step (t, c) (handle_diagnose t, c)"
| user_exit: "tray_step (t, c) (handle_exit t, c)"
| host_resume: "tray_step (t, c) (handle_host_resume t, c)"
| broker_command: "command_requires_lifecycle_serialization command \<Longrightarrow>
    tray_step (t, c) (snd (handle_external command t), c)"
| window_ready: "tray_step (t, c) (tray_send (Wake False) t, c)"
| receive: "co_phase c = Receiving \<Longrightarrow> ty_queue t = r # rs \<Longrightarrow> tray_step (t, c) (t\<lparr>ty_queue := rs\<rparr>, on_request r c)"
| timer: "co_phase c = Receiving \<Longrightarrow> tray_step (t, c) (t, on_request (Wake False) c)"
| handled: "co_phase c = Handling r \<Longrightarrow> tray_step (t, c) (on_handled r outcome (t, c))"
| reconcile: "co_phase c = Reconciling \<Longrightarrow> tray_step (t, c) (on_reconcile o' (t, c))"
| acted: "co_phase c = Acting action \<Longrightarrow> tray_step (t, c) (on_acted result (t, c))"
| observed: "co_phase c = Observing \<Longrightarrow> tray_step (t, c) (on_observed o' (t, c))"
| settled: "co_phase c = Settling converged \<Longrightarrow> tray_step (t, c) (on_settled o' (t, c))"

definition Tray_start :: Tray where
  "Tray_start = \<lparr>ty_intent = IntentOn, ty_diagnosing = False, ty_queue = [], ty_closed = False, ty_issued = 0, ty_log = []\<rparr>"

inductive tray_reachable :: "tray_world \<Rightarrow> bool" where
  started: "tray_reachable (Tray_start, Coordinator_start)"
| stepped: "tray_reachable w \<Longrightarrow> tray_step w w' \<Longrightarrow> tray_reachable w'"

end
