(* ===== verification/TrayProps.thy ===== *)
theory TrayProps
  imports Tray
begin

text \<open>
  Properties of the notification-area application: an exit is final and complete only when the link was seen off,
  the commands of the broker are answered once and in order, the retries are bounded, the reconciliation
  converges, and the icon is the best image of the file.
\<close>

lemmas handle_defs = handle_toggle_def handle_diagnose_def handle_exit_def handle_host_resume_def handle_external_def
  tray_send_def tray_exit_requested_def tray_desired_on_def

lemmas coordinator_defs = on_request_def on_handled_def on_reconcile_def on_acted_def on_observed_def on_settled_def
  tray_log_def

section \<open>Exit\<close>

definition no_start_after_exit :: "tray_event list \<Rightarrow> bool" where
  "no_start_after_exit l \<longleftrightarrow> (\<forall>i < length l. l ! i = Decided StartLink \<longrightarrow> ExitAsked \<notin> set (take i l))"

lemma no_start_snoc [simp]:
  "no_start_after_exit (l @ [e]) \<longleftrightarrow> no_start_after_exit l \<and> (e = Decided StartLink \<longrightarrow> ExitAsked \<notin> set l)"
  by (auto simp: no_start_after_exit_def nth_append less_Suc_eq)

lemma no_start_snoc2 [simp]:
  "no_start_after_exit (l @ [a, b]) \<longleftrightarrow> no_start_after_exit (l @ [a]) \<and> (b = Decided StartLink \<longrightarrow> ExitAsked \<notin> set (l @ [a]))"
  using no_start_snoc [of "l @ [a]" b] by simp

lemma no_start_Nil [simp]: "no_start_after_exit []"
  by (simp add: no_start_after_exit_def)

definition exit_inv :: "tray_world \<Rightarrow> bool" where
  "exit_inv w \<longleftrightarrow> (let (t, c) = w in
     (ExitAsked \<in> set (ty_log t) \<longleftrightarrow> ty_intent t = IntentExiting) \<and> no_start_after_exit (ty_log t) \<and>
     (\<forall>o'. ExitComplete o' \<in> set (ty_log t) \<longrightarrow> is_verified_off o' \<and> ExitAsked \<in> set (ty_log t)))"

lemma start_only_wanted: "tray_reconcile_action on o' = StartLink \<Longrightarrow> on"
  by (auto simp: tray_reconcile_action_def split: if_splits)

lemma handle_exit_inv:
  assumes "exit_inv (t, c)"
  shows "exit_inv (handle_toggle t, c)" "exit_inv (handle_diagnose t, c)" "exit_inv (handle_exit t, c)"
    "exit_inv (handle_host_resume t, c)" "exit_inv (snd (handle_external command t), c)" "exit_inv (tray_send r t, c)"
    "exit_inv (t\<lparr>ty_queue := q\<rparr>, c')" "exit_inv (t, c')"
  using assms
  by (auto simp: exit_inv_def handle_defs Let_def split: if_splits Command.splits)

lemma coordinator_exit_inv:
  assumes "exit_inv (t, c)"
  shows "exit_inv (on_handled r outcome (t, c))" "exit_inv (on_reconcile o' (t, c))" "exit_inv (on_acted result (t, c))"
    "exit_inv (on_observed o' (t, c))" "exit_inv (on_settled o' (t, c))"
proof -
  show "exit_inv (on_handled r outcome (t, c))"
    using assms by (cases r; cases outcome) (auto simp: exit_inv_def coordinator_defs Let_def)
  show "exit_inv (on_reconcile o' (t, c))"
    using assms start_only_wanted [of "tray_desired_on t" o']
    by (auto simp: exit_inv_def on_reconcile_def tray_log_def Let_def tray_desired_on_def)
  show "exit_inv (on_acted result (t, c))"
    using assms by (cases result) (auto simp: exit_inv_def coordinator_defs Let_def)
  show "exit_inv (on_observed o' (t, c))" "exit_inv (on_settled o' (t, c))"
    using assms by (auto simp: exit_inv_def coordinator_defs Let_def tray_exit_requested_def)
qed

lemma exit_inv_step: "tray_step w w' \<Longrightarrow> exit_inv w \<Longrightarrow> exit_inv w'"
  by (induction rule: tray_step.induct) (auto simp: handle_exit_inv coordinator_exit_inv)

text \<open>A property of all states the application can reach.\<close>

lemma tray_reachable_inv:
  assumes "tray_reachable w" "I (Tray_start, Coordinator_start)" "\<And>w w'. tray_step w w' \<Longrightarrow> I w \<Longrightarrow> I w'"
  shows "I w"
  using assms(1) by induction (use assms(2,3) in auto)

section \<open>Requests\<close>

definition queued :: "TrayCoordinatorRequest list \<Rightarrow> nat list" where
  "queued rs = concat (map (\<lambda>r. case r of External _ n \<Rightarrow> [n] | _ \<Rightarrow> []) rs)"

definition answered :: "tray_event list \<Rightarrow> nat list" where
  "answered l = concat (map (\<lambda>e. case e of Answered n _ \<Rightarrow> [n] | _ \<Rightarrow> []) l)"

definition in_hand :: "Coordinator \<Rightarrow> TrayCoordinatorRequest list" where
  "in_hand c = (case co_phase c of Handling r \<Rightarrow> [r] | _ \<Rightarrow> [])"

lemma queued_simps [simp]:
  "queued [] = []" "queued (r # rs) = (case r of External _ n \<Rightarrow> [n] | _ \<Rightarrow> []) @ queued rs" "queued (a @ b) = queued a @ queued b"
  by (simp_all add: queued_def)

lemma answered_simps [simp]: "answered [] = []" "answered (a @ b) = answered a @ answered b"
  "answered [ExitAsked] = []" "answered [Decided a'] = []" "answered [Answered n x] = [n]" "answered [Reported e] = []"
  "answered [DiagnosisComplete] = []" "answered [ExitComplete o'] = []" "answered [Reported e, DiagnosisComplete] = []"
  by (simp_all add: answered_def)

definition diagnoses :: "TrayCoordinatorRequest list \<Rightarrow> nat" where
  "diagnoses rs = length (filter ((=) DiagnoseRequest) rs)"

definition request_inv :: "tray_world \<Rightarrow> bool" where
  "request_inv w \<longleftrightarrow> (let (t, c) = w; pending = in_hand c @ ty_queue t in
     (ty_closed t \<longleftrightarrow> co_phase c = Returned) \<and>
     (if ty_closed t then \<exists>n \<le> ty_issued t. answered (ty_log t) = [0..<n]
      else answered (ty_log t) @ queued pending = [0..<ty_issued t] \<and>
        diagnoses pending = (if ty_diagnosing t then 1 else 0)))"

lemma upt_prefix: "a @ b = [0..<m] \<Longrightarrow> \<exists>n \<le> m. a = [0..<n]"
  by (metis append_eq_conv_conj diff_zero le_add1 length_append length_upt take_upt add_0 upt_conv_Nil)

lemma request_inv_handles:
  assumes "request_inv (t, c)"
  shows "request_inv (handle_toggle t, c)" "request_inv (handle_diagnose t, c)" "request_inv (handle_exit t, c)"
    "request_inv (handle_host_resume t, c)" "request_inv (snd (handle_external command t), c)" "request_inv (tray_send (Wake b) t, c)"
  using assms
  by (auto simp: request_inv_def handle_defs diagnoses_def Let_def split: Command.splits)

lemma request_inv_coordinator:
  assumes "request_inv (t, c)"
  shows "co_phase c = Receiving \<Longrightarrow> ty_queue t = r # rs \<Longrightarrow> request_inv (t\<lparr>ty_queue := rs\<rparr>, on_request r c)"
    "co_phase c = Receiving \<Longrightarrow> request_inv (t, on_request (Wake False) c)"
    "co_phase c = Reconciling \<Longrightarrow> request_inv (on_reconcile o' (t, c))"
    "co_phase c = Acting action \<Longrightarrow> request_inv (on_acted result (t, c))"
    "co_phase c = Observing \<Longrightarrow> request_inv (on_observed o' (t, c))"
    "co_phase c = Settling converged \<Longrightarrow> request_inv (on_settled o' (t, c))"
  using assms
  by (auto simp: request_inv_def coordinator_defs in_hand_def diagnoses_def Let_def upt_prefix split: sum.splits if_splits)

lemma request_inv_handled:
  assumes "request_inv (t, c)" "co_phase c = Handling r"
  shows "request_inv (on_handled r outcome (t, c))"
  using assms
  by (cases r; cases outcome)
     (auto simp: request_inv_def coordinator_defs in_hand_def diagnoses_def Let_def split: if_splits)

lemma request_inv_step: "tray_step w w' \<Longrightarrow> request_inv w \<Longrightarrow> request_inv w'"
  by (induction rule: tray_step.induct) (auto simp: request_inv_handles request_inv_coordinator request_inv_handled)

section \<open>Retries\<close>

definition retry_inv :: "tray_world \<Rightarrow> bool" where
  "retry_inv w \<longleftrightarrow> TRAY_RETRY_INITIAL \<le> co_retry_delay (snd w) \<and> co_retry_delay (snd w) \<le> TRAY_RETRY_MAX"

lemma retry_inv_step: "tray_step w w' \<Longrightarrow> retry_inv w \<Longrightarrow> retry_inv w'"
  by (induction rule: tray_step.induct)
     (auto simp: retry_inv_def coordinator_defs Let_def next_tray_retry_delay_def TRAY_RETRY_INITIAL_def TRAY_RETRY_MAX_def
       millis_def seconds_def split: sum.splits TrayCoordinatorRequest.splits)

lemma tray_start_invs:
  "exit_inv (Tray_start, Coordinator_start)" "request_inv (Tray_start, Coordinator_start)"
  "retry_inv (Tray_start, Coordinator_start)"
  by (simp_all add: exit_inv_def request_inv_def retry_inv_def Tray_start_def Coordinator_start_def in_hand_def diagnoses_def
      TRAY_RETRY_INITIAL_def TRAY_RETRY_MAX_def millis_def seconds_def)

section \<open>Properties\<close>

text \<open>C28. Exit is final and honest.  However the user, the window, the broker and the coordinator interleave: once an
  exit was asked for, no reconciliation decides to start the link any more, whatever is toggled or requested
  afterwards; and the application completes an exit only after an observation in which no daemon runs, no
  runtime is visible and the recorded state is stopped.\<close>

theorem tray_exit_is_final:
  assumes "tray_reachable (t, c)"
  shows "no_start_after_exit (ty_log t) \<and>
    (\<forall>o'. ExitComplete o' \<in> set (ty_log t) \<longrightarrow> is_verified_off o' \<and> ExitAsked \<in> set (ty_log t))"
proof -
  have "exit_inv (t, c)" using tray_reachable_inv [of "(t, c)" exit_inv] assms tray_start_invs(1) exit_inv_step by blast
  then show ?thesis unfolding exit_inv_def by auto
qed

text \<open>The commands of the broker are answered in the order in which they were accepted and each at most once;
  while the application runs, every command that has not been answered is waiting or being executed, and the
  diagnosis is marked as active exactly while one is waiting or running.  The coordinator retries after
  between 750 milliseconds and 8 seconds.\<close>

theorem tray_requests_accounted:
  assumes "tray_reachable (t, c)"
  shows "(\<exists>n \<le> ty_issued t. answered (ty_log t) = [0..<n]) \<and>
    (\<not> ty_closed t \<longrightarrow> answered (ty_log t) @ queued (in_hand c @ ty_queue t) = [0..<ty_issued t] \<and>
       (ty_diagnosing t \<longleftrightarrow> diagnoses (in_hand c @ ty_queue t) = 1)) \<and>
    millis 750 \<le> co_retry_delay c \<and> co_retry_delay c \<le> seconds 8"
proof -
  have "request_inv (t, c)" using tray_reachable_inv [of "(t, c)" request_inv] assms tray_start_invs(2) request_inv_step by blast
  moreover have "retry_inv (t, c)" using tray_reachable_inv [of "(t, c)" retry_inv] assms tray_start_invs(3) retry_inv_step by blast
  ultimately show ?thesis
    using upt_prefix
    by (auto simp: request_inv_def retry_inv_def TRAY_RETRY_INITIAL_def TRAY_RETRY_MAX_def split: if_splits)
qed

section \<open>Convergence\<close>

text \<open>The intent and the host agree exactly if there is nothing to do.\<close>

lemma nothing_to_do:
  "tray_reconcile_action on o' = NoAction \<longleftrightarrow>
     (if on then to_daemon_running o' \<and> to_lifecycle o' \<in> {Preparing, Connected, Degraded} else is_verified_off o')"
  by (auto simp: tray_reconcile_action_def)

text \<open>What a successful start and a successful stop leave behind, as the commands promise.\<close>

definition link_after :: "TrayReconcileAction \<Rightarrow> TrayHostObservation \<Rightarrow> TrayHostObservation" where
  "link_after action o' =
     (case action of
        NoAction \<Rightarrow> o'
      | StartLink \<Rightarrow> \<lparr>to_lifecycle = Connected, to_daemon_running = True, to_runtime_visible = True\<rparr>
      | StopLink \<Rightarrow> \<lparr>to_lifecycle = Stopped, to_daemon_running = False, to_runtime_visible = False\<rparr>)"

definition reconcile_round :: "bool \<Rightarrow> TrayHostObservation \<Rightarrow> TrayHostObservation" where
  "reconcile_round on o' = link_after (tray_reconcile_action on o') o'"

text \<open>From any state of the host, a crashed daemon or a stale document included, two rounds whose commands
  succeed bring the link to what is wanted, and a start is only decided when nothing is left to stop.\<close>

lemma reconcile_converges: "tray_reconcile_action on (reconcile_round on (reconcile_round on o')) = NoAction"
  by (cases "tray_reconcile_action on o'"; cases on)
     (simp_all add: reconcile_round_def link_after_def tray_reconcile_action_def is_verified_off_def)

section \<open>The icon\<close>

text \<open>One entry is better than another if it is closer to the wanted size, or as close and wider.\<close>

definition ico_worse :: "bytes \<Rightarrow> nat \<Rightarrow> nat \<Rightarrow> nat \<Rightarrow> bool" where
  "ico_worse ico desired j i \<longleftrightarrow>
     abs_diff (ico_width ico i) desired < abs_diff (ico_width ico j) desired \<or>
     abs_diff (ico_width ico i) desired = abs_diff (ico_width ico j) desired \<and> ico_width ico j \<le> ico_width ico i"

definition ico_best_of :: "bytes \<Rightarrow> nat \<Rightarrow> nat \<Rightarrow> nat \<Rightarrow> ico_best \<Rightarrow> bool" where
  "ico_best_of ico e desired n best \<longleftrightarrow>
     (case ib_image best of
        None \<Rightarrow> (\<forall>j<n. \<not> ico_usable ico e j) \<and> ib_distance best = 2 ^ 32 - 1 \<and> ib_width best = 0
      | Some img \<Rightarrow> \<exists>i<n. ico_usable ico e i \<and> img = ico_image ico i \<and>
          ib_distance best = abs_diff (ico_width ico i) desired \<and> ib_width best = ico_width ico i \<and>
          (\<forall>j<n. ico_usable ico e j \<longrightarrow> ico_worse ico desired j i))"

lemma ico_width_pos: "0 < ico_width ico i \<and> ico_width ico i \<le> 256"
  by (auto simp: ico_width_def ico_side_def unat_gt_0 less_imp_le)

lemma ico_best_pass:
  assumes "ico_best_of ico e desired n best" "desired < 2 ^ 32"
  shows "ico_best_of ico e desired (Suc n) (ico_pass ico e desired n best)"
proof (cases "ico_usable ico e n")
  case False
  then show ?thesis using assms(1)
    by (auto simp: ico_pass_def ico_best_of_def less_Suc_eq split: option.splits)
next
  case True
  have far: "abs_diff (ico_width ico n) desired \<le> 2 ^ 32 - 1"
    using assms(2) ico_width_pos [of ico n] by (auto simp: abs_diff_def)
  show ?thesis
  proof (cases "ib_image best")
    case None
    then show ?thesis using assms(1) True far ico_width_pos [of ico n]
      by (auto simp: ico_pass_def ico_best_of_def less_Suc_eq Let_def ico_worse_def)
  next
    case (Some img)
    then obtain i where i: "i < n" "ico_usable ico e i" "img = ico_image ico i"
      "ib_distance best = abs_diff (ico_width ico i) desired" "ib_width best = ico_width ico i"
      "\<forall>j<n. ico_usable ico e j \<longrightarrow> ico_worse ico desired j i"
      using assms(1) by (auto simp: ico_best_of_def)
    show ?thesis
    proof (cases "ico_pass ico e desired n best = best")
      case True
      then have "ico_worse ico desired n i"
        using \<open>ico_usable ico e n\<close> i(4,5) by (auto simp: ico_pass_def ico_worse_def Let_def split: if_splits)
      with i Some True show ?thesis by (auto simp: ico_best_of_def less_Suc_eq)
    next
      case False
      then have "\<forall>j<n. ico_usable ico e j \<longrightarrow> ico_worse ico desired j n"
        using i(4-6) by (auto simp: ico_pass_def ico_worse_def Let_def split: if_splits)
      with False \<open>ico_usable ico e n\<close> show ?thesis
        by (auto simp: ico_best_of_def ico_pass_def less_Suc_eq ico_worse_def Let_def split: if_splits)
    qed
  qed
qed

text \<open>The icon is the best image of the file: if an image is returned, it is the data of a square, complete entry
  that lies in the file behind the directory, and no other such entry is closer to the wanted size, or as close
  and wider; if none is returned, the header is wrong or no entry is usable.  No malformed file is read out of
  its bounds.\<close>

theorem ico_image_is_best:
  assumes "desired < 2 ^ 32"
  shows "case ico_image_for_size ico desired of
      None \<Rightarrow> \<not> ico_header_ok ico \<or> ico_count ico = 0 \<or> ico_entries_end (ico_count ico) > length ico \<or>
        (\<forall>j < ico_count ico. \<not> ico_usable ico (ico_entries_end (ico_count ico)) j)
    | Some img \<Rightarrow> \<exists>i < ico_count ico. ico_usable ico (ico_entries_end (ico_count ico)) i \<and> img = ico_image ico i \<and>
        (\<forall>j < ico_count ico. ico_usable ico (ico_entries_end (ico_count ico)) j \<longrightarrow> ico_worse ico desired j i)"
proof -
  let ?e = "ico_entries_end (ico_count ico)"
  have "ico_best_of ico ?e desired n (fold (ico_pass ico ?e desired) [0..<n] \<lparr>ib_image = None, ib_distance = 2 ^ 32 - 1, ib_width = 0\<rparr>)" for n
    by (induction n) (auto simp: ico_best_of_def [of _ _ _ 0] intro: ico_best_pass [OF _ assms])
  from this [of "ico_count ico"] show ?thesis
    by (auto simp: ico_image_for_size_def ico_best_of_def Let_def split: option.splits)
qed

section \<open>Witnesses\<close>

text \<open>The user exits while the link is off; the coordinator takes the request, finds the link off and returns.\<close>

definition link_off :: TrayHostObservation where
  "link_off = \<lparr>to_lifecycle = Stopped, to_daemon_running = False, to_runtime_visible = False\<rparr>"

definition exit_run :: tray_world where
  "exit_run = (let t = handle_exit Tray_start; w = (t\<lparr>ty_queue := []\<rparr>, on_request ExitRequest Coordinator_start) in
     on_settled link_off (on_observed link_off (on_reconcile link_off (on_handled ExitRequest (Inr []) w))))"

lemma exit_run_value:
  "exit_run = (\<lparr>ty_intent = IntentExiting, ty_diagnosing = False, ty_queue = [], ty_closed = True, ty_issued = 0,
       ty_log = [ExitAsked, Decided NoAction, ExitComplete link_off]\<rparr>,
     \<lparr>co_retry_delay = TRAY_RETRY_INITIAL, co_report_next_stop_error = False, co_report_exit_error = True, co_phase = Returned\<rparr>)"
  by (simp add: exit_run_def handle_exit_def tray_send_def Tray_start_def Coordinator_start_def coordinator_defs Let_def
      tray_reconcile_action_def is_verified_off_def link_off_def tray_desired_on_def tray_exit_requested_def)

lemma exit_run_reachable: "tray_reachable exit_run"
proof -
  let ?t = "handle_exit Tray_start" and ?c = "on_request ExitRequest Coordinator_start"
  let ?w1 = "(?t\<lparr>ty_queue := []\<rparr>, ?c)"
  have 1: "tray_reachable (?t, Coordinator_start)" by (rule stepped [OF started user_exit])
  have 2: "tray_reachable ?w1"
    by (rule stepped [OF 1 receive]) (simp_all add: Coordinator_start_def handle_exit_def tray_send_def Tray_start_def)
  have 3: "tray_reachable (on_handled ExitRequest (Inr []) ?w1)"
    by (rule stepped [OF 2 handled]) (simp add: on_request_def Let_def)
  obtain t2 c2 where w2: "on_handled ExitRequest (Inr []) ?w1 = (t2, c2)" by fastforce
  then have 4: "tray_reachable (on_reconcile link_off (t2, c2))"
    by (intro stepped [OF 3 [unfolded w2] reconcile]) (auto simp: on_handled_def Let_def)
  obtain t3 c3 where w3: "on_reconcile link_off (t2, c2) = (t3, c3)" by fastforce
  have off: "\<not> tray_desired_on t2" using w2 by (auto simp: on_handled_def handle_exit_def tray_send_def Tray_start_def tray_desired_on_def)
  have 5: "tray_reachable (on_observed link_off (t3, c3))"
    by (intro stepped [OF 4 [unfolded w3] observed])
       (use w3 off in \<open>auto simp: on_reconcile_def tray_reconcile_action_def is_verified_off_def link_off_def Let_def\<close>)
  obtain t4 c4 where w4: "on_observed link_off (t3, c3) = (t4, c4)" by fastforce
  have "tray_reachable (on_settled link_off (t4, c4))"
    by (rule stepped [OF 5 [unfolded w4] settled]) (use w4 in \<open>auto simp: on_observed_def Let_def\<close>)
  then show ?thesis by (simp add: exit_run_def w2 w3 w4 Let_def)
qed

theorem tray_exit_is_final_witness:
  "no_start_after_exit [ExitAsked, Decided NoAction, ExitComplete link_off] \<and> is_verified_off link_off"
  using tray_exit_is_final [OF exit_run_reachable [unfolded exit_run_value]] by simp

text \<open>The broker hands over a stop and the user asks for a diagnosis; both wait.\<close>

definition waiting_run :: tray_world where
  "waiting_run = (handle_diagnose (snd (handle_external Stop Tray_start)), Coordinator_start)"

lemma waiting_run_value:
  "waiting_run = (\<lparr>ty_intent = IntentOff, ty_diagnosing = True, ty_queue = [External Stop 0, DiagnoseRequest], ty_closed = False,
     ty_issued = 1, ty_log = []\<rparr>, Coordinator_start)"
  by (simp add: waiting_run_def handle_external_def handle_diagnose_def tray_send_def Tray_start_def tray_exit_requested_def)

lemma waiting_run_reachable: "tray_reachable waiting_run"
  unfolding waiting_run_def by (intro stepped [OF _ user_diagnose] stepped [OF started broker_command])
    (simp add: command_requires_lifecycle_serialization_def)

text \<open>A file with one image of 32 pixels and four bytes.\<close>

definition sample_ico :: bytes where
  "sample_ico = [0, 0, 1, 0, 1, 0] @ [32, 32, 0, 0, 1, 0, 32, 0, 4, 0, 0, 0, 22, 0, 0, 0] @ [1, 2, 3, 4]"

end
