(* ===== verification/HostRun.thy ===== *)
theory HostRun
  imports HostFiles Admin SocksServer Triples
begin

text \<open>
  \<^verbatim>\<open>HostRuntime::run\<close> (\<^verbatim>\<open>runtime.rs\<close>): what the daemon does from the lock on its runtime to the removal of its
  identity, as a program over the files it shares with the other processes, with every early return.  The
  servers it starts are those of the other theories; here they appear as the writes they make to the state
  store meanwhile, and as the way they end.  The metrics task is modelled by the sample it takes in a round.
\<close>

section \<open>Configuration\<close>

text \<open>The paths of the configuration are the files of the state below.\<close>

record RuntimeConfig =
  rc_control_bind :: SocketAddr
  rc_socks_bind :: SocketAddr
  rc_udp_bind :: SocketAddr
  rc_session_id :: SessionId
  rc_all_traffic :: bool
  rc_adb :: AdbController
  rc_adb_program :: string

definition RuntimeConfig_new :: "SessionId \<Rightarrow> bool \<Rightarrow> AdbController \<Rightarrow> string \<Rightarrow> RuntimeConfig" where
  "RuntimeConfig_new session_id all_traffic adb adb_program =
     \<lparr>rc_control_bind = V4 [127, 0, 0, 1] CONTROL_PORT, rc_socks_bind = V4 [127, 0, 0, 1] SOCKS_PORT,
      rc_udp_bind = V4 [127, 0, 0, 1] UDP_STREAM_PORT, rc_session_id = session_id, rc_all_traffic = all_traffic,
      rc_adb = adb, rc_adb_program = adb_program\<rparr>"

text \<open>The errors of the runtime; those of the admin endpoint are \<open>admin_error\<close>.\<close>

datatype RuntimeError =
    RE_NonLoopback SocketAddr
  | RE_Control ControlError
  | RE_Socks SocksError
  | RE_Io io_kind
  | RE_Admin admin_error

definition HostRuntime_new :: "RuntimeConfig \<Rightarrow> RuntimeError + RuntimeConfig" where
  "HostRuntime_new config =
     (if \<not> is_loopback (rc_control_bind config) then Inl (RE_NonLoopback (rc_control_bind config))
      else if \<not> is_loopback (rc_socks_bind config) then Inl (RE_NonLoopback (rc_socks_bind config))
      else if \<not> is_loopback (rc_udp_bind config) then Inl (RE_NonLoopback (rc_udp_bind config))
      else Inr config)"

definition MAX_UDP_ASSOCIATIONS :: nat where "MAX_UDP_ASSOCIATIONS = 256"

definition udp_socks_config :: "SocketAddr \<Rightarrow> SocksConfig" where
  "udp_socks_config address = SocksConfig_default\<lparr>co_bind := address, co_command_policy := FwdUdpOnly,
     co_max_connections := MAX_UDP_ASSOCIATIONS\<rparr>"

definition tcp_socks_config :: "SocketAddr \<Rightarrow> SocksConfig" where
  "tcp_socks_config address = SocksConfig_default\<lparr>co_bind := address, co_command_policy := ConnectOnly\<rparr>"

section \<open>Waiting for the admin endpoint\<close>

text \<open>\<open>answers n\<close> is whether the \<open>n\<close>-th status command was answered with success, and how long it took.  A timeout is
  one of the other I/O errors.\<close>

function wait_for_admin_ready ::
  "(nat \<Rightarrow> bool \<times> duration) \<Rightarrow> instant \<Rightarrow> instant \<Rightarrow> nat \<Rightarrow> (RuntimeError + unit) \<times> instant" where
  "wait_for_admin_ready answers deadline now n =
     (case answers n of (ok, took) \<Rightarrow>
        if ok then (Inr (), now + took)
        else if deadline \<le> now + took then (Inl (RE_Io OtherIo), now + took)
        else wait_for_admin_ready answers deadline (now + took + 25 * 1000000) (n + 1))"
  by pat_completeness auto
termination by (relation "measure (\<lambda>(answers, deadline, now, n). deadline - now)") auto

declare wait_for_admin_ready.simps [simp del]

section \<open>The state of a run\<close>

datatype run_event =
    JobInstalled | Locked | LogOpened | StartRecorded | IdentityWritten | MarkedNotReady | TokenLoaded
  | Bound SocketAddr | TasksSpawned | AdminAnswered | MarkedReady | Ended | RepairsStopped | TasksAborted
  | IdentityRemoved | Unlocked

text \<open>The files the daemon shares with other processes.  Each entry of the log says what was done and which daemon
  a reader of the status file then took for ready.\<close>

record 'f host_disk =
  hd_lock :: lock_dir
  hd_identity :: "string option"
  hd_token :: "string option"
  hd_status :: "'f store_files"
  hd_log :: "(run_event \<times> pid option) list"

datatype run_end =
    ControlEnded "unit + (ControlError + unit)"
  | TcpEnded "unit + (SocksError + unit)"
  | UdpEnded "unit + (SocksError + unit)"
  | AdminEnded "unit + (admin_error + unit)"
  | ShutdownNotified
  | Interrupted "io_kind + unit"

text \<open>What a run depends on; the functions of a number are asked with the length of the log.  \<open>re_tasks\<close> are the
  writes of the observer (a snapshot) and of the metrics task (with telemetry) since the last event.\<close>

record ('t, 'f) run_env =
  re_pid :: pid
  re_running :: "pid \<Rightarrow> bool"
  re_guard_fails :: "guard_state \<Rightarrow> io_kind option"
  re_codec :: "('t, 'f) status_codec"
  re_fails :: "nat \<Rightarrow> io_kind option"
  re_identity_left :: "string option"
  re_store :: "nat \<Rightarrow> nat \<times> 'f store_io"
  re_fresh_token :: SessionId
  re_token_io :: token_io
  re_tasks :: "nat \<Rightarrow> (nat \<times> 'f store_io \<times> StateSnapshot \<times> 't option) list"
  re_answers :: "nat \<Rightarrow> bool \<times> duration"
  re_now :: instant
  re_snapshot :: StateSnapshot
  re_end :: run_end

type_synonym ('f, 'a) runner = "('f host_disk, RuntimeError + 'a) state"

definition entered :: "('t, 'f) run_env \<Rightarrow> run_event \<Rightarrow> 'f host_disk \<Rightarrow> 'f host_disk" where
  "entered env e d = d\<lparr>hd_log := hd_log d @ [(e, ready_daemon (re_codec env) (hd_status d))]\<rparr>"

definition mark :: "('t, 'f) run_env \<Rightarrow> run_event \<Rightarrow> ('f, unit) runner" where
  "mark env e = State (\<lambda>d. (Inr (), entered env e d))"

text \<open>An operation that only succeeds or fails.\<close>

definition attempt :: "('t, 'f) run_env \<Rightarrow> run_event \<Rightarrow> ('f, unit) runner" where
  "attempt env e = State (\<lambda>d. case re_fails env (length (hd_log d)) of
     Some k \<Rightarrow> (Inl (RE_Io k), d)
   | None \<Rightarrow> (Inr (), entered env e d))"

definition lift_result :: "('e \<Rightarrow> RuntimeError) \<Rightarrow> 'e + 'a \<Rightarrow> ('f, 'a) runner" where
  "lift_result f r = State_Monad.return (map_error f r)"

fun task_op :: "pid \<Rightarrow> nat \<times> 'f store_io \<times> StateSnapshot \<times> 't option \<Rightarrow> nat \<times> 'f store_io \<times> 't store_op" where
  "task_op me (now, io, s, None) = (now, io, W_State s (Some me))"
| "task_op me (now, io, s, Some t) = (now, io, W_Telemetry s (Some me) t)"

definition tasks_write :: "('t, 'f) run_env \<Rightarrow> ('f, unit) runner" where
  "tasks_write env = State (\<lambda>d. (Inr (), d\<lparr>hd_status :=
     store_run (re_codec env) (map (task_op (re_pid env)) (re_tasks env (length (hd_log d)))) (hd_status d)\<rparr>))"

definition store_write :: "('t, 'f) run_env \<Rightarrow> 't store_op \<Rightarrow> run_event \<Rightarrow> ('f, unit) runner" where
  "store_write env op e = State (\<lambda>d.
     let (now, io) = re_store env (length (hd_log d)); (r, fs) = store_apply (re_codec env) (now, io, op) (hd_status d);
         d = d\<lparr>hd_status := fs\<rparr>
     in case r of Inl k \<Rightarrow> (Inl (RE_Io k), d) | Inr _ \<Rightarrow> (Inr (), entered env e d))"

section \<open>The run\<close>

definition acquire_runtime :: "('t, 'f) run_env \<Rightarrow> ('f, guard_state) runner" where
  "acquire_runtime env = State (\<lambda>d.
     (case OperationGuard_acquire (re_guard_fails env) (re_running env) (re_pid env) (hd_lock d) of (g, l) \<Rightarrow>
        let d = d\<lparr>hd_lock := l\<rparr> in
        (case g of
           G_Held _ \<Rightarrow> (Inr g, entered env Locked d)
         | G_Failed k \<Rightarrow> (Inl (RE_Io k), d)
         | _ \<Rightarrow> (Inl (RE_Io OtherIo), d))))"

definition drop_runtime :: "('t, 'f) run_env \<Rightarrow> guard_state \<Rightarrow> ('f host_disk, unit) state" where
  "drop_runtime env g = State (\<lambda>d. ((), entered env Unlocked (d\<lparr>hd_lock := snd (OperationGuard_drop g (hd_lock d))\<rparr>)))"

text \<open>Outside Windows the identity is the number of the process; a failed write leaves anything in its place.\<close>

definition write_daemon_identity :: "('t, 'f) run_env \<Rightarrow> ('f, unit) runner" where
  "write_daemon_identity env = State (\<lambda>d. case re_fails env (length (hd_log d)) of
     Some k \<Rightarrow> (Inl (RE_Io k), d\<lparr>hd_identity := re_identity_left env\<rparr>)
   | None \<Rightarrow> (Inr (), entered env IdentityWritten (d\<lparr>hd_identity := Some (show_nat (unat (re_pid env)))\<rparr>)))"

definition load_token :: "('t, 'f) run_env \<Rightarrow> ('f, string) runner" where
  "load_token env = State (\<lambda>d.
     (case load_or_create_admin_token (re_fresh_token env) (re_token_io env) (hd_token d) of
        (Inl k, f) \<Rightarrow> (Inl (RE_Io k), d\<lparr>hd_token := f\<rparr>)
      | (Inr token, f) \<Rightarrow> (Inr token, entered env TokenLoaded (d\<lparr>hd_token := f\<rparr>))))"

definition preparing_snapshot :: "SessionId \<Rightarrow> StateSnapshot" where
  "preparing_snapshot session = \<lparr>snap_state = Preparing, snap_session = Some (SessionId_to_string session), snap_missed = 0, snap_reason = None\<rparr>"

text \<open>Up to the bound listeners: the control server, the token of the admin endpoint and the two SOCKS servers.\<close>

definition host_prepare :: "('t, 'f) run_env \<Rightarrow> RuntimeConfig \<Rightarrow> ('f, ControlState \<times> string \<times> SocksState \<times> SocksState) runner" where
  "host_prepare env config =
     and_then (attempt env LogOpened) (\<lambda>_.
     and_then (attempt env StartRecorded) (\<lambda>_.
     and_then (write_daemon_identity env) (\<lambda>_.
     and_then (store_write env (W_NotReady (preparing_snapshot (rc_session_id config)) (re_pid env)) MarkedNotReady) (\<lambda>_.
     (let gate = wait_for_activation RelayGateState_default in
      and_then (lift_result RE_Control (ControlServer_new (rc_control_bind config) (rc_session_id config))) (\<lambda>control.
      and_then (load_token env) (\<lambda>token.
      and_then (lift_result RE_Socks (SocksServer_new (tcp_socks_config (rc_socks_bind config)) (Some []) (Some gate))) (\<lambda>tcp.
      and_then (lift_result RE_Socks (SocksServer_new (udp_socks_config (rc_udp_bind config)) (Some []) (Some gate))) (\<lambda>udp.
      and_then (attempt env (Bound (rc_control_bind config))) (\<lambda>_.
      and_then (attempt env (Bound (rc_socks_bind config))) (\<lambda>_.
      and_then (attempt env (Bound (rc_udp_bind config))) (\<lambda>_.
        State_Monad.return (Inr (control, token, tcp, udp))))))))))))))"

definition await_admin :: "('t, 'f) run_env \<Rightarrow> ('f, unit) runner" where
  "await_admin env =
     (case fst (wait_for_admin_ready (re_answers env) (re_now env + 3 * 1000000000) (re_now env) 0) of
        Inl e \<Rightarrow> State_Monad.return (Inl e)
      | Inr _ \<Rightarrow> mark env AdminAnswered)"

text \<open>The tasks are spawned; the host announces that it is ready once the admin endpoint answers.\<close>

definition host_announce :: "('t, 'f) run_env \<Rightarrow> ('f, unit) runner" where
  "host_announce env =
     and_then (mark env TasksSpawned) (\<lambda>_.
     and_then (tasks_write env) (\<lambda>_.
     and_then (await_admin env) (\<lambda>_.
     and_then (tasks_write env) (\<lambda>_.
       store_write env (W_Ready (re_snapshot env) (re_pid env)) MarkedReady))))"

fun flatten_runtime_task :: "('e \<Rightarrow> RuntimeError) \<Rightarrow> unit + ('e + unit) \<Rightarrow> RuntimeError + unit" where
  "flatten_runtime_task f (Inl _) = Inl (RE_Io OtherIo)"
| "flatten_runtime_task f (Inr (Inl e)) = Inl (f e)"
| "flatten_runtime_task f (Inr (Inr _)) = Inr ()"

fun end_result :: "run_end \<Rightarrow> RuntimeError + unit" where
  "end_result (ControlEnded r) = flatten_runtime_task RE_Control r"
| "end_result (TcpEnded r) = flatten_runtime_task RE_Socks r"
| "end_result (UdpEnded r) = flatten_runtime_task RE_Socks r"
| "end_result (AdminEnded r) = flatten_runtime_task RE_Admin r"
| "end_result ShutdownNotified = Inr ()"
| "end_result (Interrupted r) = map_error RE_Io r"

text \<open>Removing the identity is attempted; its failure is ignored.  A write that a blocking task has begun is not
  aborted with its task.\<close>

definition remove_daemon_identity :: "('t, 'f) run_env \<Rightarrow> ('f, unit) runner" where
  "remove_daemon_identity env = State (\<lambda>d. case re_fails env (length (hd_log d)) of
     Some k \<Rightarrow> (Inr (), d)
   | None \<Rightarrow> (Inr (), entered env IdentityRemoved (d\<lparr>hd_identity := None\<rparr>)))"

definition host_end :: "('t, 'f) run_env \<Rightarrow> ('f, unit) runner" where
  "host_end env =
     and_then (tasks_write env) (\<lambda>_.
     and_then (mark env Ended) (\<lambda>_.
     and_then (tasks_write env) (\<lambda>_.
     and_then (mark env RepairsStopped) (\<lambda>_.
     and_then (mark env TasksAborted) (\<lambda>_.
     and_then (tasks_write env) (\<lambda>_.
     and_then (remove_daemon_identity env) (\<lambda>_.
       State_Monad.return (end_result (re_end env)))))))))"

definition host_serve :: "('t, 'f) run_env \<Rightarrow> RuntimeConfig \<Rightarrow> ('f, unit) runner" where
  "host_serve env config =
     and_then (host_prepare env config) (\<lambda>_.
     and_then (host_announce env) (\<lambda>_.
       host_end env))"

definition host_run :: "('t, 'f) run_env \<Rightarrow> RuntimeConfig \<Rightarrow> ('f, unit) runner" where
  "host_run env config =
     and_then (attempt env JobInstalled) (\<lambda>_.
     and_then (acquire_runtime env) (\<lambda>guard. do {
       r \<leftarrow> host_serve env config;
       drop_runtime env guard;
       State_Monad.return r
     }))"

definition run_foreground ::
  "('t, 'f) run_env \<Rightarrow> SessionId \<Rightarrow> bool \<Rightarrow> AdbController \<Rightarrow> string \<Rightarrow> ('f, unit) runner" where
  "run_foreground env session_id all_traffic adb adb_program =
     (case HostRuntime_new (RuntimeConfig_new session_id all_traffic adb adb_program) of
        Inl e \<Rightarrow> State_Monad.return (Inl e)
      | Inr config \<Rightarrow> host_run env config)"

section \<open>The sample of the metrics task\<close>

definition saturating_add64 :: "u64 \<Rightarrow> u64 \<Rightarrow> u64" where
  "saturating_add64 a b = (if unat a + unat b \<ge> 2 ^ 64 then - 1 else a + b)"

text \<open>The two SOCKS servers are reported as one relay: counters of both, datagrams of the UDP lane, flows of the
  TCP lane.\<close>

definition merge_relay :: "SocksStatsSnapshot \<Rightarrow> SocksStatsSnapshot \<Rightarrow> SocksStatsSnapshot" where
  "merge_relay relay tcp = relay
     \<lparr>sn_accepted_connections := saturating_add64 (sn_accepted_connections relay) (sn_accepted_connections tcp),
      sn_rejected_connections := saturating_add64 (sn_rejected_connections relay) (sn_rejected_connections tcp),
      sn_active_connections := saturating_add (sn_active_connections relay) (sn_active_connections tcp),
      sn_tcp_tx_bytes := saturating_add64 (sn_tcp_tx_bytes relay) (sn_tcp_tx_bytes tcp),
      sn_tcp_rx_bytes := saturating_add64 (sn_tcp_rx_bytes relay) (sn_tcp_rx_bytes tcp),
      sn_virtual_desktop := sn_virtual_desktop tcp\<rparr>"

record ProcessSample =
  psa_rss_bytes :: "u64 option"
  psa_cpu_total_millis :: "u64 option"

record RuntimeTelemetry =
  rt_control :: ControlMetricsSnapshot
  rt_android :: "AndroidMetricsV1 option"
  rt_relay :: SocksStatsSnapshot
  rt_adb :: AdbMonitorSnapshot
  rt_process :: ProcessSample

definition runtime_telemetry ::
  "ControlState \<Rightarrow> SocksState \<Rightarrow> SocksState \<Rightarrow> AdbHealthMonitor \<Rightarrow> ProcessSample \<Rightarrow> RuntimeTelemetry" where
  "runtime_telemetry control tcp udp monitor process =
     \<lparr>rt_control = ControlMetrics_snapshot (ct_metrics control), rt_android = cm_android (ct_metrics control),
      rt_relay = merge_relay (SocksServer_stats udp) (SocksServer_stats tcp),
      rt_adb = AdbHealthMonitor_snapshot monitor, rt_process = process\<rparr>"

definition SAMPLE_INTERVAL_US :: nat where "SAMPLE_INTERVAL_US = 1000000"

text \<open>The measured interval and how late it was, in microseconds; the first sample has no predecessor.\<close>

definition sample_timing :: "instant option \<Rightarrow> instant \<Rightarrow> nat \<times> nat" where
  "sample_timing previous now =
     (let interval = (case previous of None \<Rightarrow> SAMPLE_INTERVAL_US | Some p \<Rightarrow> min usize_max ((now - p) div 1000))
      in (interval, interval - SAMPLE_INTERVAL_US))"

record RuntimePersistenceMetrics =
  rp_diagnostics_us :: nat
  rp_rotated :: bool
  rp_status_write_us :: nat
  rp_failed :: bool

definition RuntimePersistenceMetrics_default :: RuntimePersistenceMetrics where
  "RuntimePersistenceMetrics_default = \<lparr>rp_diagnostics_us = 0, rp_rotated = False, rp_status_write_us = 0, rp_failed = False\<rparr>"

text \<open>The blocking half of a round: the record goes to the diagnostics, the status file is written with the telemetry
  in any case; a lost task counts as a failure.\<close>

definition persist_sample ::
  "('t, 'f) status_codec \<Rightarrow> nat \<Rightarrow> 'f store_io \<Rightarrow> pid \<Rightarrow> StateSnapshot \<Rightarrow> 't \<Rightarrow> io_kind + (nat \<times> bool) \<Rightarrow> duration \<Rightarrow>
   'f store_files \<Rightarrow> RuntimePersistenceMetrics \<times> 'f store_files" where
  "persist_sample codec now io me s telemetry recorded took fs =
     (case write_with_telemetry codec now io s (Some me) telemetry fs of (status, fs) \<Rightarrow>
        let (us, rotated) = (case recorded of Inl _ \<Rightarrow> (0, False) | Inr m \<Rightarrow> m) in
        (\<lparr>rp_diagnostics_us = us, rp_rotated = rotated, rp_status_write_us = min usize_max (took div 1000),
          rp_failed = (isl recorded \<or> isl status)\<rparr>, fs))"

definition joined_sample :: "RuntimePersistenceMetrics option \<Rightarrow> RuntimePersistenceMetrics" where
  "joined_sample r = (case r of None \<Rightarrow> RuntimePersistenceMetrics_default\<lparr>rp_failed := True\<rparr> | Some m \<Rightarrow> m)"

section \<open>The process sample\<close>

text \<open>Resident memory on Linux, from the second field of the statm file, in pages; on macOS from \<^verbatim>\<open>ps\<close>, in KiB; the
  processor time on Windows from two file times of 100 nanoseconds.\<close>

definition statm_rss :: "string option \<Rightarrow> u64 option" where
  "statm_rss line =
     (case line of
        None \<Rightarrow> None
      | Some t \<Rightarrow>
          (case split_whitespace t of
             _ # pages # _ \<Rightarrow> map_option (\<lambda>n. word_of_nat (saturating_mul n 4096)) (parse_unsigned usize_max pages)
           | _ \<Rightarrow> None))"

definition ps_rss :: "string option \<Rightarrow> u64 option" where
  "ps_rss out =
     (case out of
        None \<Rightarrow> None
      | Some t \<Rightarrow> map_option (\<lambda>n. word_of_nat (saturating_mul n 1024)) (parse_unsigned usize_max (trim t)))"

definition filetime_ticks :: "u32 \<Rightarrow> u32 \<Rightarrow> u64" where
  "filetime_ticks high low = or (push_bit 32 (ucast high)) (ucast low)"

definition cpu_total_millis :: "(u32 \<times> u32) \<times> (u32 \<times> u32) \<Rightarrow> u64" where
  "cpu_total_millis t = (case t of ((kh, kl), (uh, ul)) \<Rightarrow> saturating_add64 (filetime_ticks kh kl) (filetime_ticks uh ul) div 10000)"

end
