(* ===== verification/HostRunProps.thy ===== *)
theory HostRunProps
  imports HostRun
begin

text \<open>
  Properties of a run of the host: the status file names it as ready only while all its lanes are served, and
  what it leaves behind in each of its outcomes; the wait for the admin endpoint ends in time.
\<close>

section \<open>Ready means served\<close>

abbreviation done_events :: "'f host_disk \<Rightarrow> run_event set" where
  "done_events d \<equiv> fst ` set (hd_log d)"

definition lanes_bound :: "RuntimeConfig \<Rightarrow> run_event set" where
  "lanes_bound config = {Bound (rc_control_bind config), Bound (rc_socks_bind config), Bound (rc_udp_bind config)}"

text \<open>At no entry of the log, once a run has withdrawn what an earlier process with its number announced, does a
  reader take it for ready before everything in \<open>needed\<close> has been done.\<close>

definition honest :: "pid \<Rightarrow> run_event set \<Rightarrow> (run_event \<times> pid option) list \<Rightarrow> bool" where
  "honest me needed log \<longleftrightarrow> (\<forall>i < length log. snd (log ! i) = Some me \<longrightarrow>
     MarkedNotReady \<in> fst ` set (take i log) \<longrightarrow> needed \<subseteq> fst ` set (take i log))"

definition ready_inv :: "('t, 'f) run_env \<Rightarrow> run_event set \<Rightarrow> 'f host_disk \<Rightarrow> bool" where
  "ready_inv env needed d \<longleftrightarrow> honest (re_pid env) needed (hd_log d) \<and>
     (MarkedNotReady \<in> done_events d \<longrightarrow> ready_daemon (re_codec env) (hd_status d) = Some (re_pid env) \<longrightarrow> needed \<subseteq> done_events d)"

lemma honest_snoc:
  "honest me needed (log @ [(e, r)]) \<longleftrightarrow> honest me needed log \<and>
     (r = Some me \<longrightarrow> MarkedNotReady \<in> fst ` set log \<longrightarrow> needed \<subseteq> fst ` set log)"
  by (auto simp: honest_def less_Suc_eq nth_append)

lemma events_entered [simp]: "done_events (entered env e d) = insert e (done_events d)"
  by (simp add: entered_def)

lemma entered_simps [simp]:
  "hd_status (entered env e d) = hd_status d" "hd_identity (entered env e d) = hd_identity d" "hd_lock (entered env e d) = hd_lock d"
  by (simp_all add: entered_def)

lemma entered_inv:
  assumes "ready_inv env needed d" "e = MarkedNotReady \<Longrightarrow> ready_daemon (re_codec env) (hd_status d) \<noteq> Some (re_pid env)"
  shows "ready_inv env needed (entered env e d)"
  using assms by (auto simp: ready_inv_def entered_def honest_snoc)

lemma entered_ready [simp]: "e \<noteq> MarkedNotReady \<Longrightarrow> ready_inv env needed d \<Longrightarrow> ready_inv env needed (entered env e d)"
  by (rule entered_inv) simp_all

lemma ready_inv_updates [simp]:
  "ready_inv env needed (d\<lparr>hd_identity := i\<rparr>) = ready_inv env needed d" "ready_inv env needed (d\<lparr>hd_token := t\<rparr>) = ready_inv env needed d"
  "ready_inv env needed (d\<lparr>hd_lock := l\<rparr>) = ready_inv env needed d"
  by (simp_all add: ready_inv_def)

text \<open>The tasks of the host write under its own number, so they never make it ready.\<close>

lemma tasks_never_announce:
  assumes "codec_ok codec" "ready_daemon codec (store_run codec (map (task_op me) ws) fs) = Some me"
  shows "ready_daemon codec fs = Some me"
  using assms(2)
proof (induction ws arbitrary: fs)
  case (Cons w ws)
  obtain now io s t where w: "w = (now, io, s, t)" by (cases w) auto
  have own: "owner_after (snd (snd (task_op me w))) r = Some me \<Longrightarrow> r = Some me" for r
    by (cases t) (simp_all add: w split: if_splits)
  have "ready_daemon codec (snd (store_apply codec (task_op me w) fs)) = Some me"
    using Cons.IH Cons.prems by (simp add: store_run_def)
  then show ?case
    using store_apply_ready [OF assms(1), of "task_op me w" fs] own
    by (cases "fst (store_apply codec (task_op me w) fs)") simp_all
qed (simp add: store_run_def)

text \<open>What has been done is not forgotten; each rule adds what its step does.\<close>

definition ready_at :: "('t, 'f) run_env \<Rightarrow> run_event set \<Rightarrow> run_event set \<Rightarrow> 'f host_disk \<Rightarrow> bool" where
  "ready_at env needed S d \<longleftrightarrow> ready_inv env needed d \<and> S \<subseteq> done_events d"

definition ready_post :: "('t, 'f) run_env \<Rightarrow> run_event set \<Rightarrow> run_event set \<Rightarrow> RuntimeError + 'a \<Rightarrow> 'f host_disk \<Rightarrow> bool" where
  "ready_post env needed S r d \<longleftrightarrow> ready_inv env needed d \<and> (isl r \<or> S \<subseteq> done_events d)"

lemma ready_attempt:
  assumes "e \<noteq> MarkedNotReady"
  shows "triple (ready_at env needed S) (attempt env e) (ready_post env needed (insert e S))"
  using assms by (auto simp: triple_def attempt_def ready_at_def ready_post_def split: option.splits)

lemma ready_mark:
  assumes "e \<noteq> MarkedNotReady"
  shows "triple (ready_at env needed S) (mark env e) (ready_post env needed (insert e S))"
  using assms by (auto simp: triple_def mark_def ready_at_def ready_post_def)

lemma ready_lift: "triple (ready_at env needed S) (lift_result f r) (ready_post env needed S)"
  by (simp add: triple_def lift_result_def ready_at_def ready_post_def)

lemma ready_tasks:
  assumes "codec_ok (re_codec env)"
  shows "triple (ready_at env needed S) (tasks_write env) (ready_post env needed S)"
  using tasks_never_announce [OF assms, of "re_pid env"]
  unfolding triple_def tasks_write_def ready_at_def ready_post_def ready_inv_def by simp

lemma ready_identity: "triple (ready_at env needed S) (write_daemon_identity env) (ready_post env needed S)"
  by (auto simp: triple_def write_daemon_identity_def ready_at_def ready_post_def split: option.splits)

lemma ready_token: "triple (ready_at env needed S) (load_token env) (ready_post env needed S)"
  by (auto simp: triple_def load_token_def ready_at_def ready_post_def split: prod.splits sum.splits)

lemma ready_store:
  assumes "codec_ok (re_codec env)"
    and "op = W_NotReady s (re_pid env) \<and> e = MarkedNotReady \<or> op = W_Ready s (re_pid env) \<and> e = MarkedReady \<and> needed \<subseteq> S"
  shows "triple (ready_at env needed S) (store_write env op e) (ready_post env needed S)"
  unfolding triple_def
proof (intro allI impI)
  fix d assume d: "ready_at env needed S d"
  obtain now io where io: "re_store env (length (hd_log d)) = (now, io)" by fastforce
  obtain r fs where run: "store_apply (re_codec env) (now, io, op) (hd_status d) = (r, fs)" by fastforce
  have ready: "ready_daemon (re_codec env) fs =
      (case r of Inl _ \<Rightarrow> ready_daemon (re_codec env) (hd_status d) | Inr _ \<Rightarrow> owner_after op (ready_daemon (re_codec env) (hd_status d)))"
    using store_apply_ready [OF assms(1), of "(now, io, op)" "hd_status d"] by (simp add: run split: sum.splits)
  have "ready_inv env needed (d\<lparr>hd_status := fs\<rparr>)"
    using d assms(2) ready by (auto simp: ready_at_def ready_inv_def split: sum.splits)
  moreover have "e = MarkedNotReady \<Longrightarrow> r = Inr () \<Longrightarrow> ready_daemon (re_codec env) fs = None" using assms(2) ready by auto
  ultimately show "ready_post env needed S (fst (run_state (store_write env op e) d)) (snd (run_state (store_write env op e) d))"
    using d by (auto simp: store_write_def io run Let_def ready_post_def ready_at_def entered_inv split: sum.splits)
qed

lemma ready_step:
  assumes "triple (ready_at env needed S) m (ready_post env needed S')" "\<And>a. triple (ready_at env needed S') (k a) (ready_post env needed T)"
  shows "triple (ready_at env needed S) (and_then m k) (ready_post env needed T)"
  using assms(1)
proof (rule triple_and_then)
  show "triple (ready_post env needed S' (Inr a)) (k a) (ready_post env needed T)" for a
    using assms(2) [of a] by (simp add: triple_def ready_post_def ready_at_def)
qed (simp add: ready_post_def)

lemmas ready_withdraw = ready_store [OF _ disjI1 [OF conjI [OF refl refl]]]
lemmas ready_rules = ready_attempt ready_mark ready_lift ready_tasks ready_identity ready_token ready_withdraw

lemma ready_return: "triple (ready_at env needed S) (State_Monad.return r) (ready_post env needed S)"
  by (rule triple_return) (simp add: ready_at_def ready_post_def)

lemma ready_weaken: "triple (ready_at env needed S) m (ready_post env needed T) \<Longrightarrow> T' \<subseteq> T \<Longrightarrow> triple (ready_at env needed S) m (ready_post env needed T')"
  by (auto simp: triple_def ready_post_def)

lemma ready_prepare:
  assumes "codec_ok (re_codec env)"
  shows "triple (ready_at env needed {}) (host_prepare env config) (ready_post env needed (lanes_bound config))"
  unfolding host_prepare_def Let_def lanes_bound_def
  by (rule ready_step ready_rules assms run_event.distinct)+ (rule ready_weaken [OF ready_return], auto)

lemma ready_await: "triple (ready_at env needed S) (await_admin env) (ready_post env needed (insert AdminAnswered S))"
  unfolding await_admin_def
  by (rule triple_sum)
     (auto intro!: triple_return ready_mark [THEN triple_conseq] simp: ready_at_def ready_post_def)

abbreviation served :: "RuntimeConfig \<Rightarrow> run_event set" where
  "served config \<equiv> insert AdminAnswered (insert TasksSpawned (lanes_bound config))"

lemma ready_announce:
  assumes "codec_ok (re_codec env)"
  shows "triple (ready_at env (served config) (lanes_bound config)) (host_announce env) (ready_post env (served config) (served config))"
  unfolding host_announce_def
  by (rule ready_step ready_rules ready_await assms run_event.distinct)+
     (rule ready_store [OF assms disjI2 [OF conjI [OF refl conjI [OF refl subset_refl]]]])

lemma ready_remove: "triple (ready_at env needed S) (remove_daemon_identity env) (ready_post env needed S)"
  by (auto simp: triple_def remove_daemon_identity_def ready_at_def ready_post_def split: option.splits)

lemma ready_end:
  assumes "codec_ok (re_codec env)"
  shows "triple (ready_at env needed S) (host_end env) (ready_post env needed S)"
  unfolding host_end_def
  by (rule ready_step ready_rules ready_remove assms run_event.distinct)+ (rule ready_weaken [OF ready_return], auto)

lemma ready_serve:
  assumes "codec_ok (re_codec env)"
  shows "triple (ready_at env (served config) {}) (host_serve env config) (ready_post env (served config) {})"
  unfolding host_serve_def
  by (rule ready_step ready_prepare ready_announce ready_weaken [OF ready_end] assms empty_subsetI)+

lemma ready_acquire: "triple (ready_at env needed S) (acquire_runtime env) (ready_post env needed S)"
  by (auto simp: triple_def acquire_runtime_def ready_at_def ready_post_def Let_def split: prod.splits guard_state.splits)

lemma ready_run:
  assumes "codec_ok (re_codec env)"
  shows "triple (ready_at env (served config) {}) (host_run env config) (ready_post env (served config) {})"
  unfolding host_run_def
proof (rule ready_step [OF ready_weaken [OF ready_attempt]])
  show "triple (ready_at env (served config) {}) (and_then (acquire_runtime env) (\<lambda>guard. do {
      r \<leftarrow> host_serve env config; drop_runtime env guard; State_Monad.return r })) (ready_post env (served config) {})" for a :: unit
  proof (rule ready_step [OF ready_acquire], rule triple_bind [OF ready_serve [OF assms]], rule triple_bind)
    show "triple (ready_post env (served config) {} r) (drop_runtime env g) (\<lambda>_. ready_inv env (served config))" for g and r :: "RuntimeError + unit"
      by (simp add: triple_def drop_runtime_def ready_post_def)
  qed (simp add: triple_def ready_post_def)
qed simp_all

text \<open>C29. Once the host has withdrawn what an earlier process with its number announced, the status file never
  names it as ready before the three lanes are bound, the tasks are running and the admin endpoint has answered:
  at every step of every run, whichever operations fail and whatever the other tasks write to the status file in
  between.\<close>

theorem host_ready_is_served:
  assumes "codec_ok (re_codec env)" "hd_log d = []" "run_state (host_run env config) d = (r, d')"
  shows "honest (re_pid env) (served config) (hd_log d')"
proof -
  have "ready_at env (served config) {} d" using assms(2) by (simp add: ready_at_def ready_inv_def honest_def)
  with ready_run [OF assms(1), of config] assms(3) show ?thesis
    unfolding triple_def ready_post_def ready_inv_def by (metis fst_conv snd_conv)
qed

section \<open>What a run leaves behind\<close>

text \<open>Up to its end a run has not removed its identity and, once written, has left it as it is.\<close>

definition kept :: "('t, 'f) run_env \<Rightarrow> run_event set \<Rightarrow> 'f host_disk \<Rightarrow> bool" where
  "kept env S d \<longleftrightarrow> done_events d \<inter> {Ended, IdentityRemoved, Unlocked} = {} \<and> S \<subseteq> done_events d \<and>
     (IdentityWritten \<in> done_events d \<longrightarrow> hd_identity d = Some (show_nat (unat (re_pid env))))"

definition kept_post :: "('t, 'f) run_env \<Rightarrow> run_event set \<Rightarrow> RuntimeError + 'a \<Rightarrow> 'f host_disk \<Rightarrow> bool" where
  "kept_post env S r = kept env (if isl r then {} else S)"

lemma kept_weaken: "kept env S d \<Longrightarrow> T \<subseteq> S \<Longrightarrow> kept env T d"
  by (auto simp: kept_def)

lemma entered_kept [simp]:
  "e \<notin> {Ended, IdentityRemoved, Unlocked, IdentityWritten} \<Longrightarrow> kept env S d \<Longrightarrow> kept env S (entered env e d)"
  by (auto simp: kept_def)

lemma kept_updates [simp]:
  "kept env S (d\<lparr>hd_token := t\<rparr>) = kept env S d" "kept env S (d\<lparr>hd_lock := l\<rparr>) = kept env S d"
  "kept env S (d\<lparr>hd_status := fs\<rparr>) = kept env S d"
  by (simp_all add: kept_def)

lemma kept_step:
  assumes "triple (kept env S) m (kept_post env S')" "\<And>a. triple (kept env S') (k a) (kept_post env T)"
  shows "triple (kept env S) (and_then m k) (kept_post env T)"
  using assms(1) by (rule triple_and_then) (use assms(2) in \<open>simp_all add: kept_post_def\<close>)

lemma kept_posts: "kept env S d \<Longrightarrow> kept_post env S r d"
  by (auto simp: kept_post_def intro: kept_weaken)

lemma kept_rules:
  "e \<notin> {Ended, IdentityRemoved, Unlocked, IdentityWritten} \<Longrightarrow> triple (kept env S) (attempt env e) (kept_post env S)"
  "e \<notin> {Ended, IdentityRemoved, Unlocked, IdentityWritten} \<Longrightarrow> triple (kept env S) (mark env e) (kept_post env S)"
  "e \<notin> {Ended, IdentityRemoved, Unlocked, IdentityWritten} \<Longrightarrow> triple (kept env S) (store_write env op e) (kept_post env S)"
  "triple (kept env S) (tasks_write env) (kept_post env S)"
  "triple (kept env S) (lift_result f r) (kept_post env S)"
  "triple (kept env S) (load_token env) (kept_post env S)"
  "triple (kept env S) (await_admin env) (kept_post env S)"
  "triple (kept env S) (State_Monad.return x) (kept_post env S)"
  by (auto simp: triple_def attempt_def mark_def store_write_def tasks_write_def lift_result_def load_token_def
      await_admin_def Let_def split_beta intro!: kept_posts split: option.splits sum.splits prod.splits)

definition early :: "'f host_disk \<Rightarrow> bool" where
  "early d \<longleftrightarrow> done_events d \<subseteq> {JobInstalled, Locked, LogOpened, StartRecorded}"

lemma early_kept: "early d \<Longrightarrow> kept env {} d"
  by (auto simp: early_def kept_def)

lemma early_attempt: "e \<in> {JobInstalled, Locked, LogOpened, StartRecorded} \<Longrightarrow> triple early (attempt env e) (\<lambda>_. early)"
  by (auto simp: triple_def attempt_def early_def split: option.splits)

lemma early_identity: "triple early (write_daemon_identity env) (kept_post env {IdentityWritten})"
  by (auto simp: triple_def write_daemon_identity_def early_def kept_def kept_post_def split: option.splits)

lemma early_step:
  assumes "e \<in> {LogOpened, StartRecorded}" "triple early (k ()) (kept_post env S)"
  shows "triple early (and_then (attempt env e) k) (kept_post env S)"
  using assms by (intro triple_and_then [OF early_attempt]) (auto simp: kept_post_def intro: early_kept)

lemma identity_step:
  assumes "triple (kept env {IdentityWritten}) (k ()) (kept_post env S)"
  shows "triple early (and_then (write_daemon_identity env) k) (kept_post env S)"
  using assms by (intro triple_and_then [OF early_identity]) (simp_all add: kept_post_def)

lemma kept_prepare: "triple early (host_prepare env config) (kept_post env {IdentityWritten})"
  unfolding host_prepare_def Let_def
  by (rule early_step, simp)+ (rule identity_step, (rule kept_step kept_rules | simp)+)

lemma kept_announce: "triple (kept env S) (host_announce env) (kept_post env (insert MarkedReady S))"
proof -
  have last: "triple (kept env S) (store_write env (W_Ready s p) MarkedReady) (kept_post env (insert MarkedReady S))" for s p
    by (auto simp: triple_def store_write_def kept_post_def kept_def Let_def split_beta split: sum.splits)
  show ?thesis
    unfolding host_announce_def by (rule kept_step, (rule kept_rules last | simp)+)+
qed

text \<open>A run that has served: how it ended is its result, repairs were stopped before its tasks, and its identity is
  gone unless it could not be removed.\<close>

definition retired :: "('t, 'f) run_env \<Rightarrow> RuntimeError + unit \<Rightarrow> 'f host_disk \<Rightarrow> bool" where
  "retired env r d \<longleftrightarrow> r = end_result (re_end env) \<and> {MarkedReady, Ended, RepairsStopped, TasksAborted} \<subseteq> done_events d \<and>
     hd_identity d = (if IdentityRemoved \<in> done_events d then None else Some (show_nat (unat (re_pid env))))"

lemma retired_end: "triple (kept env {MarkedReady, IdentityWritten}) (host_end env) (retired env)"
  by (auto simp: triple_def host_end_def and_then_def tasks_write_def mark_def remove_daemon_identity_def retired_def kept_def
      Let_def split: option.splits)

text \<open>A run that ended before it served.\<close>

definition abandoned :: "('t, 'f) run_env \<Rightarrow> RuntimeError + unit \<Rightarrow> 'f host_disk \<Rightarrow> bool" where
  "abandoned env r d \<longleftrightarrow> isl r \<and> Ended \<notin> done_events d \<and>
     (IdentityWritten \<in> done_events d \<longrightarrow> read_daemon_pid (hd_identity d) = Some (re_pid env))"

lemma kept_abandoned: "kept env S d \<Longrightarrow> isl r \<Longrightarrow> (if Ended \<in> done_events d then retired env r d else abandoned env r d)"
  using read_own_identity by (auto simp: kept_def abandoned_def)

lemma serve_leaves: "triple early (host_serve env config) (\<lambda>r d. if Ended \<in> done_events d then retired env r d else abandoned env r d)"
  unfolding host_serve_def
proof (rule triple_and_then [OF kept_prepare])
  fix a :: "ControlState \<times> string \<times> SocksState \<times> SocksState"
  show "triple (kept_post env {IdentityWritten} (Inr a)) (and_then (host_announce env) (\<lambda>_. host_end env))
      (\<lambda>r d. if Ended \<in> done_events d then retired env r d else abandoned env r d)"
  proof (rule triple_and_then)
    show "triple (kept_post env {IdentityWritten} (Inr a)) (host_announce env) (kept_post env {MarkedReady, IdentityWritten})"
      using kept_announce [of env "{IdentityWritten}"] by (simp add: kept_post_def)
    show "triple (kept_post env {MarkedReady, IdentityWritten} (Inr b)) (host_end env)
        (\<lambda>r d. if Ended \<in> done_events d then retired env r d else abandoned env r d)" for b :: unit
      using retired_end [of env] by (auto simp: triple_def kept_post_def retired_def)
  qed (rule kept_abandoned, simp_all add: kept_post_def)
qed (rule kept_abandoned, simp_all add: kept_post_def)

lemma leaves_updates [simp]:
  "retired env r (entered env Unlocked (d\<lparr>hd_lock := l\<rparr>)) = retired env r d"
  "abandoned env r (entered env Unlocked (d\<lparr>hd_lock := l\<rparr>)) = abandoned env r d"
  by (simp_all add: retired_def abandoned_def)

text \<open>C30. What a run of the host leaves behind.  When it does not get the runtime lock it has changed neither the identity,
  nor the state, nor the token.  Otherwise
  the lock is free again, and: a run that served has the result of whatever ended it, stopped the repairs before it
  aborted its tasks, and has removed its identity (or was unable to); a run that failed before it announced itself
  returns the error, and from the moment it wrote its identity that identity stays and still reads as the number of
  the process, though the process ends with this error.\<close>

theorem host_run_leaves:
  assumes "hd_log d = []" "run_state (host_run env config) d = (r, d')"
  shows "if Unlocked \<in> done_events d'
    then ld_entry (hd_lock d') = None \<and> (if Ended \<in> done_events d' then retired env r d' else abandoned env r d')
    else isl r \<and> hd_identity d' = hd_identity d \<and> hd_status d' = hd_status d \<and> hd_token d' = hd_token d"
proof (cases "re_fails env 0")
  case (Some k)
  with assms show ?thesis by (auto simp: host_run_def and_then_def attempt_def)
next
  case None
  let ?d = "entered env JobInstalled d"
  have job: "run_state (attempt env JobInstalled) d = (Inr (), ?d)" using None assms(1) by (simp add: attempt_def)
  obtain g d1 where acquired: "run_state (acquire_runtime env) ?d = (g, d1)" by fastforce
  show ?thesis
  proof (cases g)
    case (Inl e)
    then have "done_events d1 = {JobInstalled}" "hd_identity d1 = hd_identity d" "hd_status d1 = hd_status d" "hd_token d1 = hd_token d"
      using acquired assms(1)
      by (auto simp: acquire_runtime_def entered_def Let_def split: prod.splits guard_state.splits)
    then show ?thesis using assms(2) Inl job acquired by (auto simp: host_run_def and_then_def)
  next
    case (Inr g')
    then have "early d1" and held: "\<exists>n. g' = G_Held n"
      using acquired assms(1)
      by (auto simp: acquire_runtime_def entered_def early_def Let_def split: prod.splits guard_state.splits)
    moreover obtain r2 d2 where serve: "run_state (host_serve env config) d1 = (r2, d2)" by fastforce
    ultimately have "if Ended \<in> done_events d2 then retired env r2 d2 else abandoned env r2 d2"
      using serve_leaves [of env config] unfolding triple_def by (metis fst_conv snd_conv)
    moreover have "r = r2" "d' = entered env Unlocked (d2\<lparr>hd_lock := snd (OperationGuard_drop g' (hd_lock d2))\<rparr>)"
      using assms(2) Inr job acquired serve by (auto simp: host_run_def and_then_def drop_runtime_def)
    ultimately show ?thesis using held by (auto simp: OperationGuard_drop_def)
  qed
qed

text \<open>The wait for the admin endpoint ends 25 milliseconds and one command after its deadline at the latest.\<close>

lemma admin_wait_bounded:
  assumes "\<And>n. snd (answers n) \<le> limit"
  shows "snd (wait_for_admin_ready answers deadline now n) \<le> max now (deadline + 25 * 1000000) + limit"
  using assms
proof (induction answers deadline now n rule: wait_for_admin_ready.induct)
  case (1 answers deadline now n)
  obtain ok took where a: "answers n = (ok, took)" by fastforce
  have took: "took \<le> limit" using 1(2) [of n] a by simp
  show ?case
  proof (cases "ok \<or> deadline \<le> now + took")
    case True
    then show ?thesis using took by (subst wait_for_admin_ready.simps) (auto simp: a)
  next
    case False
    then have "snd (wait_for_admin_ready answers deadline (now + took + 25 * 1000000) (n + 1)) \<le> max (now + took + 25 * 1000000) (deadline + 25 * 1000000) + limit"
      using 1(1) [OF a [symmetric]] 1(2) a by simp
    then show ?thesis using False by (subst wait_for_admin_ready.simps) (auto simp: a)
  qed
qed

section \<open>Witnesses\<close>

text \<open>A host whose files work; the control port is taken in the first run, and free in the second.\<close>

definition sample_run :: "(nat \<Rightarrow> io_kind option) \<Rightarrow> (unit, unit PersistedStatus) run_env" where
  "sample_run fails = \<lparr>re_pid = 7, re_running = (\<lambda>_. False), re_guard_fails = sound_files, re_codec = sample_codec, re_fails = fails, re_identity_left = None,
     re_store = (\<lambda>_. (0, StoreOk)), re_fresh_token = SessionId (replicate 16 7), re_token_io = TokenWritten,
     re_tasks = (\<lambda>n. if n = 11 then [(0, StoreOk, sample_snapshot, Some ())] else []), re_answers = (\<lambda>_. (True, 0)), re_now = 0,
     re_snapshot = sample_snapshot, re_end = ShutdownNotified\<rparr>"

definition empty_disk :: "unit PersistedStatus host_disk" where
  "empty_disk = \<lparr>hd_lock = \<lparr>ld_entry = None, ld_serial = 0\<rparr>, hd_identity = None, hd_token = None,
     hd_status = \<lparr>sf_status = None, sf_temporary = None\<rparr>, hd_log = []\<rparr>"

definition sample_config :: RuntimeConfig where
  "sample_config = RuntimeConfig_new (SessionId (replicate 16 7)) False AdbController_new ''adb''"

definition port_taken :: "nat \<Rightarrow> io_kind option" where
  "port_taken n = (if n = 7 then Some OtherIo else None)"

lemma sample_servers:
  "\<exists>st. ControlServer_new (rc_control_bind sample_config) (rc_session_id sample_config) = Inr st"
  "\<exists>st. SocksServer_new (tcp_socks_config (rc_socks_bind sample_config)) log gate = Inr st"
  "\<exists>st. SocksServer_new (udp_socks_config (rc_udp_bind sample_config)) log gate = Inr st"
  by (simp_all add: sample_config_def RuntimeConfig_new_def ControlServer_new_def SocksServer_new_def is_loopback_def
      tcp_socks_config_def udp_socks_config_def SocksConfig_default_def MAX_UDP_ASSOCIATIONS_def FwdUdpConfig_default_def
      begin_start_def guard_defs StateMachine_new_def SessionId_ZERO_def
      DEFAULT_ASSOCIATION_BYTE_BUDGET_def)

lemmas run_defs = host_run_def host_serve_def host_prepare_def host_announce_def host_end_def and_then_def acquire_runtime_def
  acquire_alone write_daemon_identity_def store_write_def load_token_def load_or_create_admin_token_def drop_runtime_def attempt_def
  mark_def tasks_write_def await_admin_def remove_daemon_identity_def lift_result_def map_error_def entered_def
  write_runtime_not_ready_def write_runtime_ready_def write_with_telemetry_def write_document_def store_run_def Let_def
  empty_disk_def sample_run_def port_taken_def sample_codec_def

lemma taken_run:
  "run_state (host_run (sample_run port_taken) sample_config) empty_disk = (r, d) \<Longrightarrow>
     r = Inl (RE_Io OtherIo) \<and>
     done_events d = {JobInstalled, Locked, LogOpened, StartRecorded, IdentityWritten, MarkedNotReady, TokenLoaded, Unlocked}"
proof -
  obtain c t u where new:
    "ControlServer_new (rc_control_bind sample_config) (rc_session_id sample_config) = Inr c"
    "SocksServer_new (tcp_socks_config (rc_socks_bind sample_config)) (Some []) (Some (wait_for_activation RelayGateState_default)) = Inr t"
    "SocksServer_new (udp_socks_config (rc_udp_bind sample_config)) (Some []) (Some (wait_for_activation RelayGateState_default)) = Inr u"
    using sample_servers by metis
  assume "run_state (host_run (sample_run port_taken) sample_config) empty_disk = (r, d)"
  then show ?thesis
    by (auto simp: run_defs new)
qed

lemma free_run:
  "run_state (host_run (sample_run (\<lambda>_. None)) sample_config) empty_disk = (r, d) \<Longrightarrow> MarkedReady \<in> done_events d \<and> length (hd_log d) = 18"
proof -
  obtain c t u where new:
    "ControlServer_new (rc_control_bind sample_config) (rc_session_id sample_config) = Inr c"
    "SocksServer_new (tcp_socks_config (rc_socks_bind sample_config)) (Some []) (Some (wait_for_activation RelayGateState_default)) = Inr t"
    "SocksServer_new (udp_socks_config (rc_udp_bind sample_config)) (Some []) (Some (wait_for_activation RelayGateState_default)) = Inr u"
    using sample_servers by metis
  have "fst (wait_for_admin_ready (\<lambda>_. (True, 0)) deadline now n) = Inr ()" for deadline now n
    by (subst wait_for_admin_ready.simps) simp
  moreover assume "run_state (host_run (sample_run (\<lambda>_. None)) sample_config) empty_disk = (r, d)"
  ultimately show ?thesis by (auto simp: run_defs new)
qed

theorem host_ready_is_served_witness:
  "honest 7 (served sample_config) (hd_log (snd (run_state (host_run (sample_run (\<lambda>_. None)) sample_config) empty_disk))) \<and>
   MarkedReady \<in> done_events (snd (run_state (host_run (sample_run (\<lambda>_. None)) sample_config) empty_disk))"
proof -
  obtain r d where run: "run_state (host_run (sample_run (\<lambda>_. None)) sample_config) empty_disk = (r, d)" by fastforce
  have "codec_ok (re_codec (sample_run (\<lambda>_. None)))" "hd_log empty_disk = []" "re_pid (sample_run (\<lambda>_. None)) = 7"
    by (simp_all add: sample_run_def codec_ok_def sample_codec_def empty_disk_def)
  with host_ready_is_served [OF _ _ run] free_run [OF run] run show ?thesis by simp
qed

theorem host_run_leaves_witness:
  "\<exists>d. run_state (host_run (sample_run port_taken) sample_config) empty_disk = (Inl (RE_Io OtherIo), d) \<and>
     ld_entry (hd_lock d) = None \<and> read_daemon_pid (hd_identity d) = Some 7"
proof -
  obtain r d where run: "run_state (host_run (sample_run port_taken) sample_config) empty_disk = (r, d)" by fastforce
  have "hd_log empty_disk = []" "re_pid (sample_run port_taken) = 7" by (simp_all add: empty_disk_def sample_run_def)
  with host_run_leaves [OF _ run] taken_run [OF run] run show ?thesis by (auto simp: abandoned_def)
qed

end
