(* ===== verification/Bootstrap.thy ===== *)
theory Bootstrap
  imports RustText
begin

text \<open>
  The ADB program of the host (\<^verbatim>\<open>adb.rs\<close>): which program is used, and on Windows the repair that downloads the
  platform tools when none answers.  The installation directory is a map from relative paths to contents.  The
  script that PowerShell runs is modelled command by command; the download, SHA-256 and the archive format are
  arguments, and every file operation may fail, leaving part of its work behind.
\<close>

section \<open>Constants and paths\<close>

definition PLATFORM_TOOLS_VERSION :: string where "PLATFORM_TOOLS_VERSION = ''37.0.0''"
definition PLATFORM_TOOLS_WINDOWS_SHA256 :: string where
  "PLATFORM_TOOLS_WINDOWS_SHA256 = ''4fe305812db074cea32903a489d061eb4454cbc90a49e8fea677f4b7af764918''"

definition path_join :: "string \<Rightarrow> string \<Rightarrow> string" where
  "path_join a b = a @ [CHR 0x5C] @ b"

definition platform_tools_dir :: string where "platform_tools_dir = ''platform-tools-'' @ PLATFORM_TOOLS_VERSION"

definition adb_exe :: string where "adb_exe = path_join ''platform-tools'' ''adb.exe''"
definition required_files :: "string list" where
  "required_files = [adb_exe, path_join ''platform-tools'' ''AdbWinApi.dll'', path_join ''platform-tools'' ''AdbWinUsbApi.dll'']"
definition marker_file :: string where "marker_file = ''.verified-sha256''"

definition local_adb :: "string \<Rightarrow> string" where
  "local_adb app_root = path_join (path_join app_root platform_tools_dir) adb_exe"

section \<open>Resolution\<close>

text \<open>The installation directory, if it exists, and the archive beside it.\<close>

record tools_disk =
  tk_install :: "(string \<rightharpoonup> string) option"
  tk_archive :: "string option"

definition verified_local_adb :: "string \<Rightarrow> tools_disk \<Rightarrow> string option" where
  "verified_local_adb app_root fs =
     (case tk_install fs of
        None \<Rightarrow> None
      | Some tree \<Rightarrow>
          if list_all (\<lambda>p. tree p \<noteq> None) required_files \<and>
             (case tree marker_file of None \<Rightarrow> False | Some value \<Rightarrow> trim value = PLATFORM_TOOLS_WINDOWS_SHA256)
          then Some (local_adb app_root) else None)"

definition verified_local_adb_elsewhere :: "string \<Rightarrow> string option" where
  "verified_local_adb_elsewhere app_root = None"

definition resolve_adb_program :: "string option \<Rightarrow> string option \<Rightarrow> string" where
  "resolve_adb_program configured local =
     (case configured of
        Some p \<Rightarrow> p
      | None \<Rightarrow> (case local of Some p \<Rightarrow> p | None \<Rightarrow> ''adb''))"

section \<open>The script\<close>

record archive_format =
  ar_sha256 :: "string \<Rightarrow> string"
  ar_expand :: "string \<Rightarrow> (string \<rightharpoonup> string) option"

text \<open>How the script fares: the download fails, leaving some bytes; it arrives, and then unpacking runs to its end,
  or fails or is killed with the unpacked files of \<open>X\<close>; or the process is killed before it unpacks.\<close>

datatype script_run =
    DownloadFails "string option"
  | KilledBefore "string option"
  | Arrived string
  | ArrivedBroken string "string set" bool

text \<open>The state after the script, and whether it succeeded; \<open>None\<close> stands for a process that did not end in time.\<close>

definition expand_into :: "archive_format \<Rightarrow> string \<Rightarrow> string set \<Rightarrow> (string \<rightharpoonup> string) option \<Rightarrow> (string \<rightharpoonup> string) option" where
  "expand_into format content X install =
     (case ar_expand format content of
        None \<Rightarrow> install
      | Some tree \<Rightarrow> Some ((case install of None \<Rightarrow> Map.empty | Some old \<Rightarrow> old) ++ tree |` X))"

fun run_script :: "archive_format \<Rightarrow> script_run \<Rightarrow> tools_disk \<Rightarrow> bool option \<times> tools_disk" where
  "run_script format (DownloadFails junk) fs = (Some False, fs\<lparr>tk_archive := junk\<rparr>)"
| "run_script format (KilledBefore junk) fs = (None, fs\<lparr>tk_archive := junk\<rparr>)"
| "run_script format (Arrived content) fs =
     (if ar_sha256 format content \<noteq> PLATFORM_TOOLS_WINDOWS_SHA256 then (Some False, fs\<lparr>tk_archive := None\<rparr>)
      else
        (Some (ar_expand format content \<noteq> None),
         fs\<lparr>tk_archive := Some content, tk_install := expand_into format content UNIV (tk_install fs)\<rparr>))"
| "run_script format (ArrivedBroken content X killed) fs =
     (if ar_sha256 format content \<noteq> PLATFORM_TOOLS_WINDOWS_SHA256 then (Some False, fs\<lparr>tk_archive := None\<rparr>)
      else
        (if killed then None else Some False,
         fs\<lparr>tk_archive := Some content, tk_install := expand_into format content X (tk_install fs)\<rparr>))"

section \<open>The repair\<close>

datatype 'io AdbBootstrapError = BE_Io 'io | BE_PowerShell | BE_IncompleteArchive

text \<open>The outcomes of one repair: whether each program answers \<^verbatim>\<open>version\<close>, and of its file operations.  A removal that
  fails keeps the files of a set; a failing write of the marker leaves a prefix of it.\<close>

record 'io repair_env =
  rv_answers :: "nat \<Rightarrow> string \<Rightarrow> bool"
  rv_create_root :: "'io option"
  rv_remove_old :: "('io \<times> string set) option"
  rv_spawn :: "'io option"
  rv_script :: script_run
  rv_archive_stays :: bool
  rv_cleanup_keeps :: "string set option"
  rv_marker :: "('io \<times> nat) option"

definition cleanup_install :: "'io repair_env \<Rightarrow> tools_disk \<Rightarrow> tools_disk" where
  "cleanup_install env fs = fs\<lparr>tk_install :=
     (case rv_cleanup_keeps env of None \<Rightarrow> None | Some X \<Rightarrow> map_option (\<lambda>t. t |` X) (tk_install fs))\<rparr>"

text \<open>After PowerShell has succeeded.\<close>

definition finish_install :: "'io repair_env \<Rightarrow> string \<Rightarrow> tools_disk \<Rightarrow> ('io AdbBootstrapError + string) \<times> tools_disk" where
  "finish_install env app_root fs =
     (let tree = (case tk_install fs of None \<Rightarrow> Map.empty | Some t \<Rightarrow> t);
          marker = PLATFORM_TOOLS_WINDOWS_SHA256 @ [CHR 0x0A] in
      if \<not> list_all (\<lambda>p. tree p \<noteq> None) required_files then (Inl BE_IncompleteArchive, cleanup_install env fs)
      else
        (case rv_marker env of
           Some (k, n) \<Rightarrow> (Inl (BE_Io k), fs\<lparr>tk_install := Some (tree(marker_file \<mapsto> take n marker))\<rparr>)
         | None \<Rightarrow> (Inr (local_adb app_root), fs\<lparr>tk_install := Some (tree(marker_file \<mapsto> marker))\<rparr>)))"

text \<open>The download and what follows it.\<close>

definition download_tools ::
  "archive_format \<Rightarrow> 'io repair_env \<Rightarrow> string \<Rightarrow> tools_disk \<Rightarrow> ('io AdbBootstrapError + string) \<times> tools_disk" where
  "download_tools format env app_root fs =
     (case rv_spawn env of
        Some k \<Rightarrow> (Inl (BE_Io k), fs)
      | None \<Rightarrow>
          (case run_script format (rv_script env) fs of
             (None, fs) \<Rightarrow> (Inl BE_PowerShell, fs)
           | (Some success, fs) \<Rightarrow>
               let fs = (if rv_archive_stays env then fs else fs\<lparr>tk_archive := None\<rparr>) in
               if \<not> success then (Inl BE_PowerShell, cleanup_install env fs) else finish_install env app_root fs))"

definition repair_adb_if_missing ::
  "archive_format \<Rightarrow> 'io repair_env \<Rightarrow> string \<Rightarrow> string \<Rightarrow> tools_disk \<Rightarrow> ('io AdbBootstrapError + string) \<times> tools_disk" where
  "repair_adb_if_missing format env configured app_root fs =
     (if rv_answers env 0 configured then (Inr configured, fs)
      else
        (case (case verified_local_adb app_root fs of
                 Some adb \<Rightarrow> if adb \<noteq> configured \<and> rv_answers env 1 adb then Some adb else None
               | None \<Rightarrow> None) of
           Some adb \<Rightarrow> (Inr adb, fs)
         | None \<Rightarrow>
             (case rv_create_root env of
                Some k \<Rightarrow> (Inl (BE_Io k), fs)
              | None \<Rightarrow>
                  (case tk_install fs of
                     None \<Rightarrow> download_tools format env app_root fs
                   | Some tree \<Rightarrow>
                       (case rv_remove_old env of
                          Some (k, X) \<Rightarrow> (Inl (BE_Io k), fs\<lparr>tk_install := Some (tree |` X)\<rparr>)
                        | None \<Rightarrow> download_tools format env app_root (fs\<lparr>tk_install := None\<rparr>))))))"

definition repair_adb_elsewhere :: "string \<Rightarrow> 'io AdbBootstrapError + string" where
  "repair_adb_elsewhere configured = Inr configured"

section \<open>Only pinned files are verified\<close>

text \<open>What the repair relies on: the pinned archive holds no file under the name of the marker.\<close>

definition marker_free :: "archive_format \<Rightarrow> bool" where
  "marker_free format \<longleftrightarrow> (\<forall>content tree. ar_sha256 format content = PLATFORM_TOOLS_WINDOWS_SHA256 \<longrightarrow>
     ar_expand format content = Some tree \<longrightarrow> tree marker_file = None)"

text \<open>With a marker, the other files all come from one archive with the pinned checksum.\<close>

definition pinned :: "archive_format \<Rightarrow> tools_disk \<Rightarrow> bool" where
  "pinned format fs \<longleftrightarrow> (\<forall>tree. tk_install fs = Some tree \<longrightarrow> tree marker_file \<noteq> None \<longrightarrow>
     (\<exists>content files. ar_sha256 format content = PLATFORM_TOOLS_WINDOWS_SHA256 \<and> ar_expand format content = Some files \<and>
        tree(marker_file := None) \<subseteq>\<^sub>m files))"

lemma pinned_simps [simp]:
  "pinned format (fs\<lparr>tk_archive := a\<rparr>) = pinned format fs" "pinned format (fs\<lparr>tk_install := None\<rparr>)"
  by (simp_all add: pinned_def)

lemma restrict_le: "t |` X \<subseteq>\<^sub>m t"
  by (auto simp: map_le_def restrict_map_def)

lemma pinned_restrict: "pinned format fs \<Longrightarrow> tk_install fs = Some tree \<Longrightarrow> pinned format (fs\<lparr>tk_install := Some (tree |` X)\<rparr>)"
proof -
  assume *: "pinned format fs" "tk_install fs = Some tree"
  have "(tree |` X) marker_file \<noteq> None \<Longrightarrow> tree marker_file \<noteq> None" by (auto simp: restrict_map_def split: if_splits)
  moreover have "(tree |` X)(marker_file := None) \<subseteq>\<^sub>m files" if "tree(marker_file := None) \<subseteq>\<^sub>m files" for files
    using that by (force simp: map_le_def restrict_map_def dom_def)
  ultimately show ?thesis using * by (auto simp: pinned_def)
qed

lemma pinned_cleanup: "pinned format fs \<Longrightarrow> pinned format (cleanup_install env fs)"
  by (cases "tk_install fs"; cases "rv_cleanup_keeps env") (auto simp: cleanup_install_def pinned_restrict)

text \<open>What the script leaves in an empty place: files of a pinned archive, and never a marker.\<close>

definition unpacked :: "archive_format \<Rightarrow> tools_disk \<Rightarrow> bool" where
  "unpacked format fs \<longleftrightarrow> (\<forall>tree. tk_install fs = Some tree \<longrightarrow> tree marker_file = None \<and>
     (\<exists>content files. ar_sha256 format content = PLATFORM_TOOLS_WINDOWS_SHA256 \<and> ar_expand format content = Some files \<and> tree \<subseteq>\<^sub>m files))"

lemma unpacked_pinned: "unpacked format fs \<Longrightarrow> pinned format fs"
  by (auto simp: unpacked_def pinned_def)

lemma expand_unpacked:
  assumes "marker_free format" "ar_sha256 format content = PLATFORM_TOOLS_WINDOWS_SHA256"
  shows "unpacked format (fs\<lparr>tk_install := expand_into format content X None\<rparr>)"
proof -
  have "(files |` X) marker_file = None" if "ar_expand format content = Some files" for files
    using assms that by (auto simp: marker_free_def restrict_map_def)
  then show ?thesis
    using assms(2) restrict_le by (fastforce simp: unpacked_def expand_into_def split: option.splits)
qed

lemma run_script_unpacked:
  assumes "marker_free format" "tk_install fs = None" "run_script format run fs = (r, fs')"
  shows "unpacked format fs'"
proof -
  have none: "unpacked format (fs\<lparr>tk_archive := a\<rparr>)" for a using assms(2) by (simp add: unpacked_def)
  show ?thesis
    using assms none expand_unpacked [OF assms(1)] by (cases run) (auto split: if_splits)
qed

lemma finish_pinned:
  assumes "unpacked format fs"
  shows "pinned format (snd (finish_install env app_root fs))"
proof -
  have install: "pinned format (fs\<lparr>tk_install := Some (tree(marker_file \<mapsto> m))\<rparr>)"
    if "tk_install fs = Some tree" for tree m
  proof -
    from assms that obtain content files where "ar_sha256 format content = PLATFORM_TOOLS_WINDOWS_SHA256"
      "ar_expand format content = Some files" "tree \<subseteq>\<^sub>m files" "tree marker_file = None" by (auto simp: unpacked_def)
    moreover from this have "(tree(marker_file \<mapsto> m))(marker_file := None) \<subseteq>\<^sub>m files" by (auto simp: map_le_def)
    ultimately show ?thesis by (auto simp: pinned_def)
  qed
  show ?thesis
    using install pinned_cleanup [OF unpacked_pinned [OF assms]]
    by (cases "tk_install fs") (auto simp: finish_install_def Let_def required_files_def split: option.splits)
qed

lemma download_pinned:
  assumes "marker_free format" "tk_install fs = None"
  shows "pinned format (snd (download_tools format env app_root fs))"
proof (cases "rv_spawn env")
  case None
  obtain r fs' where run: "run_script format (rv_script env) fs = (r, fs')" by fastforce
  then have u: "unpacked format fs'" using run_script_unpacked assms by blast
  then have "unpacked format (fs'\<lparr>tk_archive := a\<rparr>)" for a by (simp add: unpacked_def)
  with u None run show ?thesis
    by (cases r) (auto simp: download_tools_def Let_def intro: pinned_cleanup unpacked_pinned finish_pinned)
qed (use assms in \<open>simp add: download_tools_def pinned_def\<close>)

lemma repair_pinned:
  assumes "marker_free format" "pinned format fs"
  shows "pinned format (snd (repair_adb_if_missing format env configured app_root fs))"
  using assms download_pinned [OF assms(1)] pinned_restrict [OF assms(2)]
  by (auto simp: repair_adb_if_missing_def split: option.splits)

text \<open>C32. Whatever repairs have run, and wherever their downloads, file operations and scripts failed or were
  killed, a local program that the host takes for verified consists of files of one archive whose SHA-256 is the
  pinned one.\<close>

theorem verified_adb_is_pinned:
  assumes "marker_free format"
    and "fs = fold (\<lambda>(env, configured). snd \<circ> repair_adb_if_missing format env configured app_root) runs
      \<lparr>tk_install = None, tk_archive = None\<rparr>"
    and "verified_local_adb app_root fs = Some adb"
  shows "\<exists>content files tree. ar_sha256 format content = PLATFORM_TOOLS_WINDOWS_SHA256 \<and>
    ar_expand format content = Some files \<and> tk_install fs = Some tree \<and> map tree required_files = map files required_files"
proof -
  have "pinned format (fold (\<lambda>(env, configured). snd \<circ> repair_adb_if_missing format env configured app_root) runs fs0)"
    if "pinned format fs0" for fs0
    using that by (induction runs arbitrary: fs0) (auto simp: repair_pinned [OF assms(1)])
  moreover have "pinned format \<lparr>tk_install = None, tk_archive = None\<rparr>" by (simp add: pinned_def)
  ultimately have "pinned format fs" unfolding assms(2) by blast
  moreover obtain tree where tree: "tk_install fs = Some tree" "list_all (\<lambda>p. tree p \<noteq> None) required_files" "tree marker_file \<noteq> None"
    using assms(3) by (auto simp: verified_local_adb_def split: option.splits if_splits)
  ultimately obtain content files where archive: "ar_sha256 format content = PLATFORM_TOOLS_WINDOWS_SHA256"
    "ar_expand format content = Some files" and le: "tree(marker_file := None) \<subseteq>\<^sub>m files"
    unfolding pinned_def by blast
  have "tree p = files p" if "p \<in> set required_files" for p
  proof -
    have "p \<noteq> marker_file" using that by (auto simp: required_files_def adb_exe_def path_join_def marker_file_def)
    moreover have "tree p \<noteq> None" using tree(2) that by (auto simp: list_all_iff)
    ultimately show ?thesis using le by (auto simp: map_le_def dom_def split: if_splits)
  qed
  with archive tree(1) show ?thesis by (metis map_eq_conv)
qed

text \<open>A repair that succeeds returns a program that answered, or the local one that was just installed and that
  every later resolution without an override finds.\<close>

theorem repaired_adb_usable:
  assumes "repair_adb_if_missing format env configured app_root fs = (Inr adb, fs')"
  shows "(rv_answers env 0 adb \<or> rv_answers env 1 adb) \<and> fs' = fs \<or>
    adb = local_adb app_root \<and> resolve_adb_program None (verified_local_adb app_root fs') = adb"
proof -
  have marker: "trim (PLATFORM_TOOLS_WINDOWS_SHA256 @ [CHR 0x0A]) = PLATFORM_TOOLS_WINDOWS_SHA256" by code_simp
  have other: "p \<noteq> marker_file" if "p \<in> set required_files" for p
    using that by (auto simp: required_files_def adb_exe_def path_join_def marker_file_def)
  have finish: "resolve_adb_program None (verified_local_adb app_root fs'') = adb \<and> adb = local_adb app_root"
    if "finish_install env app_root fs1 = (Inr adb, fs'')" for fs1 fs''
    using that marker other
    by (force simp: finish_install_def Let_def verified_local_adb_def resolve_adb_program_def list_all_iff split: if_splits option.splits)
  have "resolve_adb_program None (verified_local_adb app_root fs'') = adb \<and> adb = local_adb app_root"
    if "download_tools format env app_root fs1 = (Inr adb, fs'')" for fs1 fs''
    using that finish by (auto simp: download_tools_def Let_def split: option.splits prod.splits if_splits)
  with assms show ?thesis
    by (auto simp: repair_adb_if_missing_def split: option.splits if_splits)
qed

section \<open>Witnesses\<close>

text \<open>An archive format with one archive, and a first repair that is killed while it unpacks.\<close>

definition sample_format :: archive_format where
  "sample_format = \<lparr>ar_sha256 = (\<lambda>c. if c = ''zip'' then PLATFORM_TOOLS_WINDOWS_SHA256 else ''other''),
     ar_expand = (\<lambda>c. Some (\<lambda>p. if p \<in> set required_files then Some c else None))\<rparr>"

definition sample_repair :: "script_run \<Rightarrow> unit repair_env" where
  "sample_repair script = \<lparr>rv_answers = (\<lambda>_ _. False), rv_create_root = None, rv_remove_old = None, rv_spawn = None,
     rv_script = script, rv_archive_stays = False, rv_cleanup_keeps = None, rv_marker = None\<rparr>"

lemma sample_marker_free: "marker_free sample_format"
  by (auto simp: marker_free_def sample_format_def required_files_def adb_exe_def path_join_def marker_file_def)

lemma sample_install:
  "repair_adb_if_missing sample_format (sample_repair (Arrived ''zip'')) ''adb'' ''home'' \<lparr>tk_install = t, tk_archive = a\<rparr> =
     (Inr (local_adb ''home''), \<lparr>tk_install = Some ((\<lambda>p. if p \<in> set required_files then Some ''zip'' else None)
        (marker_file \<mapsto> PLATFORM_TOOLS_WINDOWS_SHA256 @ [CHR 0x0A])), tk_archive = None\<rparr>)"
  by (auto simp: repair_adb_if_missing_def sample_repair_def download_tools_def finish_install_def sample_format_def expand_into_def
      list_all_iff split: option.splits)

lemma sample_killed:
  "snd (repair_adb_if_missing sample_format (sample_repair (ArrivedBroken ''zip'' {adb_exe} True)) ''adb'' ''home''
     \<lparr>tk_install = None, tk_archive = None\<rparr>) =
   \<lparr>tk_install = Some ((\<lambda>p. if p \<in> set required_files then Some ''zip'' else None) |` {adb_exe}), tk_archive = Some ''zip''\<rparr>"
  by (simp add: repair_adb_if_missing_def sample_repair_def download_tools_def sample_format_def expand_into_def verified_local_adb_def)

lemma sample_verified:
  "verified_local_adb ''home'' \<lparr>tk_install = Some ((\<lambda>p. if p \<in> set required_files then Some ''zip'' else None)
     (marker_file \<mapsto> PLATFORM_TOOLS_WINDOWS_SHA256 @ [CHR 0x0A])), tk_archive = None\<rparr> = Some (local_adb ''home'')"
proof -
  have "trim (PLATFORM_TOOLS_WINDOWS_SHA256 @ [CHR 0x0A]) = PLATFORM_TOOLS_WINDOWS_SHA256" by code_simp
  then show ?thesis by (auto simp: verified_local_adb_def list_all_iff)
qed

theorem verified_adb_is_pinned_witness:
  "\<exists>content files. ar_sha256 sample_format content = PLATFORM_TOOLS_WINDOWS_SHA256 \<and> ar_expand sample_format content = Some files \<and>
     map (\<lambda>p. Some ''zip'') required_files = map files required_files"
  using verified_adb_is_pinned [OF sample_marker_free refl, of "''home''"
      "[(sample_repair (ArrivedBroken ''zip'' {adb_exe} True), ''adb''), (sample_repair (Arrived ''zip''), ''adb'')]" "local_adb ''home''"]
  by (auto simp: sample_killed sample_install sample_verified sample_format_def)

end
