(* ===== verification/Capture.thy ===== *)
theory Capture
  imports AdbLaws
begin

text \<open>
  The execution of one ADB command (\<^verbatim>\<open>adb.rs\<close>): how a child is set up and torn down, and the two reader threads
  that carry its output through a bounded channel to the collecting loop of \<open>Adb\<close>.  The child, the readers and the
  collector take their steps in any order.  An output that the loop returns is the whole output of the child.
\<close>

section \<open>Setting up and tearing down\<close>

datatype child_action = TerminateJob | CancelReaders | KillChild

text \<open>Killing the direct child, unless it has been seen to have exited.\<close>

definition terminate_direct_child :: "bool \<Rightarrow> child_action list" where
  "terminate_direct_child exited = (if exited then [] else [KillChild])"

definition terminate_child_tree :: "bool \<Rightarrow> bool \<Rightarrow> child_action list" where
  "terminate_child_tree readers exited =
     [TerminateJob] @ (if readers then [CancelReaders] else []) @ terminate_direct_child exited"

text \<open>What can go wrong before the loop: the job object, the pipes that were not captured, the two threads.\<close>

record capture_setup =
  cs_contain :: "string option"
  cs_stdout_piped :: bool
  cs_stderr_piped :: bool
  cs_stdout_thread :: "string option"
  cs_stderr_thread :: "string option"

definition begin_capture :: "capture_setup \<Rightarrow> bool \<Rightarrow> (AdbError + unit) \<times> child_action list" where
  "begin_capture su exited =
     (case cs_contain su of
        Some e \<Rightarrow> (Inl (AE_Containment e), terminate_direct_child exited)
      | None \<Rightarrow>
          if \<not> cs_stdout_piped su
          then (Inl (AE_Read ''ADB stdout was not captured''), terminate_child_tree False exited)
          else if \<not> cs_stderr_piped su
          then (Inl (AE_Read ''ADB stderr was not captured''), terminate_child_tree False exited)
          else
            (case cs_stdout_thread su of
               Some e \<Rightarrow> (Inl (AE_Read (''could not start ADB stdout reader: '' @ e)), terminate_child_tree False exited)
             | None \<Rightarrow>
                 (case cs_stderr_thread su of
                    Some e \<Rightarrow> (Inl (AE_Read (''could not start ADB stderr reader: '' @ e)), terminate_child_tree True exited)
                  | None \<Rightarrow> (Inr (), []))))"

text \<open>\<^verbatim>\<open>SystemAdb::execute_once\<close>: the child is spawned, set up and collected.\<close>

definition execute_once ::
  "string \<Rightarrow> string option \<Rightarrow> capture_setup \<Rightarrow> bool \<Rightarrow> (bytes \<Rightarrow> string) \<Rightarrow> duration \<Rightarrow> collect_round list \<Rightarrow>
   (AdbError + AdbOutput) option" where
  "execute_once program spawn_error su exited lossy timeout rounds =
     (case spawn_error of
        Some e \<Rightarrow> Some (Inl (AE_Spawn program e))
      | None \<Rightarrow>
          (case fst (begin_capture su exited) of
             Inl e \<Rightarrow> Some (Inl e)
           | Inr _ \<Rightarrow> collect_child_output lossy timeout rounds Collect_start))"

section \<open>The readers and the channel\<close>

definition OUTPUT_CHANNEL_CAPACITY :: nat where "OUTPUT_CHANNEL_CAPACITY = 16"
definition READ_BUFFER :: nat where "READ_BUFFER = 16 * 1024"

datatype reader = Reading | Sending OutputEvent | ReaderStopped

text \<open>What each stream carries: the bytes that wait in its pipe, everything the child wrote to it, whether the
  child has closed it, and its reader; the channel, what the collector has received, and the cancellation.\<close>

record capture =
  cp_pipe :: "OutputStream \<Rightarrow> bytes"
  cp_written :: "OutputStream \<Rightarrow> bytes"
  cp_closed :: "OutputStream \<Rightarrow> bool"
  cp_reader :: "OutputStream \<Rightarrow> reader"
  cp_channel :: "OutputEvent list"
  cp_received :: "OutputEvent list"
  cp_cancelled :: bool

definition capture_start :: capture where
  "capture_start = \<lparr>cp_pipe = (\<lambda>_. []), cp_written = (\<lambda>_. []), cp_closed = (\<lambda>_. False), cp_reader = (\<lambda>_. Reading),
     cp_channel = [], cp_received = [], cp_cancelled = False\<rparr>"

text \<open>One read of \<^verbatim>\<open>stream_output\<close> that did not fail: up to \<open>n\<close> bytes, or the end of the stream; \<open>None\<close> while it blocks.\<close>

definition read_pipe :: "OutputStream \<Rightarrow> nat \<Rightarrow> capture \<Rightarrow> (OutputEvent \<times> capture) option" where
  "read_pipe s n x =
     (let bs = take (min n READ_BUFFER) (cp_pipe x s) in
      if cp_pipe x s = [] then (if cp_closed x s then Some (Finished s, x) else None)
      else if bs = [] then None
      else Some (Chunk s bs, x\<lparr>cp_pipe := (cp_pipe x)(s := drop (length bs) (cp_pipe x s))\<rparr>))"

definition set_reader :: "OutputStream \<Rightarrow> reader \<Rightarrow> capture \<Rightarrow> capture" where
  "set_reader s r x = x\<lparr>cp_reader := (cp_reader x)(s := r)\<rparr>"

text \<open>After an event has been sent the reader goes on only behind a chunk.\<close>

fun reader_after :: "OutputEvent \<Rightarrow> reader" where
  "reader_after (Chunk _ _) = Reading"
| "reader_after _ = ReaderStopped"

fun is_chunk :: "OutputEvent \<Rightarrow> bool" where
  "is_chunk (Chunk _ _) = True"
| "is_chunk _ = False"

inductive capture_step :: "capture \<Rightarrow> capture \<Rightarrow> bool" where
  child_writes: "\<not> cp_closed x s \<Longrightarrow>
    capture_step x (x\<lparr>cp_pipe := (cp_pipe x)(s := cp_pipe x s @ bs), cp_written := (cp_written x)(s := cp_written x s @ bs)\<rparr>)"
| child_closes: "capture_step x (x\<lparr>cp_closed := (cp_closed x)(s := True)\<rparr>)"
| reader_cancelled: "cp_reader x s = Reading \<Longrightarrow> cp_cancelled x \<Longrightarrow> capture_step x (set_reader s ReaderStopped x)"
| reader_reads: "cp_reader x s = Reading \<Longrightarrow> \<not> cp_cancelled x \<Longrightarrow> read_pipe s n x = Some (e, x') \<Longrightarrow>
    capture_step x (set_reader s (Sending e) x')"
| reader_fails: "cp_reader x s = Reading \<Longrightarrow> \<not> cp_cancelled x \<Longrightarrow> capture_step x (set_reader s (Sending (Failed s error)) x)"
| reader_drops: "cp_reader x s = Sending e \<Longrightarrow> is_chunk e \<Longrightarrow> cp_cancelled x \<Longrightarrow> capture_step x (set_reader s ReaderStopped x)"
| reader_sends: "cp_reader x s = Sending e \<Longrightarrow> length (cp_channel x) < OUTPUT_CHANNEL_CAPACITY \<Longrightarrow>
    capture_step x (set_reader s (reader_after e) (x\<lparr>cp_channel := cp_channel x @ [e]\<rparr>))"
| collector_receives: "cp_channel x = e # es \<Longrightarrow>
    capture_step x (x\<lparr>cp_channel := es, cp_received := cp_received x @ [e]\<rparr>)"
| collector_cancels: "capture_step x (x\<lparr>cp_cancelled := True\<rparr>)"

inductive capture_reachable :: "capture \<Rightarrow> bool" where
  capture_init: "capture_reachable capture_start"
| capture_next: "capture_reachable x \<Longrightarrow> capture_step x x' \<Longrightarrow> capture_reachable x'"

section \<open>Nothing is lost\<close>

text \<open>The events of the readers in the order of the channel, and the one a reader holds.\<close>

abbreviation sent :: "capture \<Rightarrow> OutputEvent list" where
  "sent x \<equiv> cp_received x @ cp_channel x"

definition held_events :: "OutputStream \<Rightarrow> capture \<Rightarrow> OutputEvent list" where
  "held_events s x = (case cp_reader x s of Sending e \<Rightarrow> [e] | _ \<Rightarrow> [])"

fun event_stream :: "OutputEvent \<Rightarrow> OutputStream" where
  "event_stream (Chunk s _) = s"
| "event_stream (Finished s) = s"
| "event_stream (Failed s _) = s"

definition of_stream :: "OutputStream \<Rightarrow> OutputEvent list \<Rightarrow> OutputEvent list" where
  "of_stream s es = filter (\<lambda>e. event_stream e = s) es"

text \<open>Of one stream: chunks, and at most one event that ends them, which the reader has stopped behind; while the reader
  is at work the chunks and the pipe are what the child wrote, and its report of the end means that nothing is left.\<close>

definition stream_log :: "OutputStream \<Rightarrow> capture \<Rightarrow> OutputEvent list" where
  "stream_log s x = of_stream s (sent x) @ held_events s x"

definition log_ok :: "OutputStream \<Rightarrow> reader \<Rightarrow> OutputEvent list \<Rightarrow> bytes \<Rightarrow> bytes \<Rightarrow> bool \<Rightarrow> bool" where
  "log_ok s r es pipe w closed \<longleftrightarrow> list_all (\<lambda>e. event_stream e = s) es \<and> list_all is_chunk (butlast es) \<and>
     (case r of Reading \<Rightarrow> list_all is_chunk es | Sending e \<Rightarrow> es \<noteq> [] \<and> last es = e | ReaderStopped \<Rightarrow> True) \<and>
     (r \<noteq> ReaderStopped \<or> Finished s \<in> set es \<longrightarrow> stream_bytes s es @ pipe = w) \<and>
     (Finished s \<in> set es \<longrightarrow> pipe = [] \<and> closed)"

definition stream_ok :: "capture \<Rightarrow> OutputStream \<Rightarrow> bool" where
  "stream_ok x s \<longleftrightarrow> log_ok s (cp_reader x s) (stream_log s x) (cp_pipe x s) (cp_written x s) (cp_closed x s)"

lemma of_stream_simps [simp]:
  "of_stream s [] = []" "of_stream s (e # es) = (if event_stream e = s then e # of_stream s es else of_stream s es)"
  "of_stream s (es @ es') = of_stream s es @ of_stream s es'"
  by (simp_all add: of_stream_def)

lemma held_simps [simp]:
  "held_events s (set_reader s' r x) = (if s = s' then (case r of Sending e \<Rightarrow> [e] | _ \<Rightarrow> []) else held_events s x)"
  by (simp add: held_events_def set_reader_def)

lemma set_reader_simps [simp]:
  "cp_reader (set_reader s r x) = (cp_reader x)(s := r)" "cp_pipe (set_reader s r x) = cp_pipe x"
  "cp_written (set_reader s r x) = cp_written x" "cp_closed (set_reader s r x) = cp_closed x"
  "cp_channel (set_reader s r x) = cp_channel x" "cp_received (set_reader s r x) = cp_received x"
  by (simp_all add: set_reader_def)

lemma stream_bytes_stop: "\<not> is_chunk e \<Longrightarrow> stream_bytes s [e] = []"
  by (cases e) auto

lemma chunks_not_finished: "list_all is_chunk es \<Longrightarrow> Finished s \<notin> set es"
  by (auto simp: list_all_iff)

text \<open>The moves of one stream.\<close>

lemma log_write: "log_ok s r es pipe w False \<Longrightarrow> log_ok s r es (pipe @ bs) (w @ bs) False"
  by (auto simp: log_ok_def)

lemma log_close: "log_ok s r es pipe w c \<Longrightarrow> log_ok s r es pipe w True"
  by (auto simp: log_ok_def)

lemma log_stop: "log_ok s Reading es pipe w c \<Longrightarrow> log_ok s ReaderStopped es pipe w c"
  by (auto simp: log_ok_def)

lemma log_read:
  assumes "log_ok s Reading es pipe w c"
    and "e = Chunk s bs \<and> pipe = bs @ rest \<or> e = Finished s \<and> pipe = [] \<and> rest = [] \<and> c \<or> (\<exists>error. e = Failed s error) \<and> rest = pipe"
  shows "log_ok s (Sending e) (es @ [e]) rest w c"
  using assms chunks_not_finished [of es s] by (auto simp: log_ok_def)

lemma log_send: "log_ok s (Sending e) es pipe w c \<Longrightarrow> log_ok s (reader_after e) es pipe w c"
  by (cases es rule: rev_cases; cases e) (auto simp: log_ok_def)

lemma log_drop: "log_ok s (Sending e) es pipe w c \<Longrightarrow> log_ok s ReaderStopped (butlast es) pipe w c"
  by (cases es rule: rev_cases) (auto simp: log_ok_def butlast_append list_all_iff dest: in_set_butlastD)

lemma read_pipe_result:
  assumes "read_pipe s n x = Some (e, x')"
  shows "e = Finished s \<and> cp_pipe x s = [] \<and> cp_closed x s \<and> x' = x \<or>
    (\<exists>bs rest. e = Chunk s bs \<and> cp_pipe x s = bs @ rest \<and> x' = x\<lparr>cp_pipe := (cp_pipe x)(s := rest)\<rparr>)"
proof (cases "cp_pipe x s = []")
  case False
  let ?bs = "take (min n READ_BUFFER) (cp_pipe x s)"
  have "cp_pipe x s = ?bs @ drop (length ?bs) (cp_pipe x s)" by (simp add: min_def)
  moreover have "e = Chunk s ?bs" "x' = x\<lparr>cp_pipe := (cp_pipe x)(s := drop (length ?bs) (cp_pipe x s))\<rparr>"
    using assms False unfolding read_pipe_def Let_def by (simp_all split: if_splits)
  ultimately show ?thesis by blast
qed (use assms in \<open>auto simp: read_pipe_def Let_def split: if_splits\<close>)

lemma stream_ok_step:
  assumes "capture_step x x'" "\<And>s. stream_ok x s"
  shows "stream_ok x' t"
  using assms(1)
proof cases
  case (child_writes s bs)
  then show ?thesis using assms(2) [of t] log_write by (auto simp: stream_ok_def stream_log_def held_events_def)
next
  case (child_closes s)
  then show ?thesis using assms(2) [of t] log_close by (auto simp: stream_ok_def stream_log_def held_events_def)
next
  case (reader_cancelled s)
  then show ?thesis using assms(2) [of t] log_stop [of t] by (auto simp: stream_ok_def stream_log_def held_events_def)
next
  case (reader_reads s n e x1)
  from read_pipe_result [OF reader_reads(4)]
  have keep: "cp_reader x1 = cp_reader x" "cp_written x1 = cp_written x" "cp_closed x1 = cp_closed x" "cp_channel x1 = cp_channel x"
    "cp_received x1 = cp_received x" "t \<noteq> s \<Longrightarrow> cp_pipe x1 t = cp_pipe x t"
    and read: "e = Finished s \<and> cp_pipe x s = [] \<and> cp_pipe x1 s = [] \<and> cp_closed x s \<or> (\<exists>bs. e = Chunk s bs \<and> cp_pipe x s = bs @ cp_pipe x1 s)"
    by auto
  show ?thesis
  proof (cases "t = s")
    case True
    have "log_ok s Reading (stream_log s x) (cp_pipe x s) (cp_written x s) (cp_closed x s)"
      using assms(2) [of s] reader_reads(2) by (simp add: stream_ok_def)
    from log_read [OF this, of e _ "cp_pipe x1 s"] read
    have "log_ok s (Sending e) (stream_log s x @ [e]) (cp_pipe x1 s) (cp_written x s) (cp_closed x s)" by auto
    then show ?thesis using True reader_reads(1,2) keep by (simp add: stream_ok_def stream_log_def held_events_def)
  next
    case False
    then show ?thesis using False reader_reads(1) keep assms(2) [of t] by (simp add: stream_ok_def stream_log_def held_events_def)
  qed
next
  case (reader_fails s error)
  have "log_ok s (Sending (Failed s error)) (stream_log s x @ [Failed s error]) (cp_pipe x s) (cp_written x s) (cp_closed x s)"
    using log_read [of s "stream_log s x" "cp_pipe x s" "cp_written x s" "cp_closed x s" "Failed s error" _ "cp_pipe x s"]
      assms(2) [of s] reader_fails(2) by (auto simp: stream_ok_def)
  then show ?thesis
    using reader_fails(1,2) assms(2) [of t] by (cases "t = s") (simp_all add: stream_ok_def stream_log_def held_events_def)
next
  case (reader_drops s e)
  have "log_ok s ReaderStopped (butlast (stream_log s x)) (cp_pipe x s) (cp_written x s) (cp_closed x s)"
    using log_drop assms(2) [of s] reader_drops(2) by (simp add: stream_ok_def)
  then show ?thesis
    using reader_drops(1,2) assms(2) [of t]
    by (cases "t = s") (simp_all add: stream_ok_def stream_log_def held_events_def butlast_append)
next
  case (reader_sends s e)
  have ok: "log_ok s (Sending e) (stream_log s x) (cp_pipe x s) (cp_written x s) (cp_closed x s)"
    using assms(2) [of s] reader_sends(2) by (simp add: stream_ok_def)
  then have e: "event_stream e = s" using reader_sends(2) by (auto simp: log_ok_def stream_log_def held_events_def)
  show ?thesis
    using log_send [OF ok] e reader_sends(1,2) assms(2) [of t]
    by (cases "t = s"; cases e) (auto simp: stream_ok_def stream_log_def held_events_def)
qed (use assms(2) [of t] in \<open>auto simp: stream_ok_def stream_log_def held_events_def\<close>)

lemma stream_ok_reachable: "capture_reachable x \<Longrightarrow> stream_ok x s"
proof (induction arbitrary: s rule: capture_reachable.induct)
  case capture_init
  show ?case by (simp add: stream_ok_def stream_log_def held_events_def capture_start_def log_ok_def)
qed (rule stream_ok_step)

lemma stream_bytes_of: "stream_bytes s (of_stream s es) = stream_bytes s es"
  by (induction s es rule: stream_bytes.induct) auto

lemma prefix_with_last:
  assumes "prefix xs ys" "e \<in> set xs" "list_all P (butlast ys)" "\<not> P e"
  shows "xs = ys"
proof (rule ccontr)
  assume "xs \<noteq> ys"
  then obtain z zs where "ys = xs @ z # zs" using assms(1) by (metis prefixE append_Nil2 neq_Nil_conv)
  then have "xs = take (length xs) (butlast ys)" by (simp add: butlast_append)
  then have "set xs \<subseteq> set (butlast ys)" by (metis set_take_subset)
  then show False using assms by (auto simp: list_all_iff)
qed

text \<open>Once the end of a stream has been seen, everything the child wrote to it has been seen, and it is closed.\<close>

lemma finished_complete:
  assumes "capture_reachable x" "prefix seen (cp_received x)" "Finished s \<in> set seen"
  shows "stream_bytes s seen = cp_written x s \<and> cp_closed x s"
proof -
  have ok: "log_ok s (cp_reader x s) (stream_log s x) (cp_pipe x s) (cp_written x s) (cp_closed x s)"
    using stream_ok_reachable [OF assms(1)] by (simp add: stream_ok_def)
  have "prefix (of_stream s seen) (stream_log s x)"
    using assms(2) by (auto simp: prefix_def stream_log_def)
  moreover have mem: "Finished s \<in> set (of_stream s seen)" using assms(3) by (simp add: of_stream_def)
  ultimately have "of_stream s seen = stream_log s x"
    using ok by (intro prefix_with_last [where P = is_chunk and e = "Finished s"]) (simp_all add: log_ok_def)
  with ok mem stream_bytes_of [of s seen] show ?thesis by (auto simp: log_ok_def)
qed

text \<open>C31. A command that returns an output returns all of it: whatever the order in which the child writes, the readers
  read and send, and the loop receives, both streams of the child are closed, and what is reported of each is the
  bounded capture of everything the child wrote to it.\<close>

theorem command_output_exact:
  assumes "capture_reachable x" "prefix (concat (map round_events rounds)) (cp_received x)"
    and "execute_once program spawn_error su exited lossy timeout rounds = Some (Inr out)"
  shows "cp_closed x Stdout \<and> cp_closed x Stderr \<and> ao_stdout out = lossy (bounded_capture (cp_written x Stdout)) \<and>
    ao_stderr out = lossy (bounded_capture (cp_written x Stderr))"
proof -
  have "collect_child_output lossy timeout rounds Collect_start = Some (Inr out)"
    using assms(3) by (auto simp: execute_once_def split: option.splits sum.splits)
  from collect_output [OF collected_start this] obtain seen where
    "prefix seen (concat (map round_events rounds))" "\<forall>s. Finished s \<in> set seen"
    "ao_stdout out = lossy (bounded_capture (stream_bytes Stdout seen))"
    "ao_stderr out = lossy (bounded_capture (stream_bytes Stderr seen))" by auto
  moreover from this(1) assms(2) have "prefix seen (cp_received x)" by (rule prefix_order.order_trans)
  ultimately show ?thesis using finished_complete [OF assms(1)] by metis
qed

text \<open>The memory of a capture is bounded: the channel by its capacity, each chunk by the buffer of a read.\<close>

definition channel_bounded :: "capture \<Rightarrow> bool" where
  "channel_bounded x \<longleftrightarrow> length (cp_channel x) \<le> OUTPUT_CHANNEL_CAPACITY \<and>
     (\<forall>s bs. Chunk s bs \<in> set (cp_channel x) \<or> (\<exists>t. cp_reader x t = Sending (Chunk s bs)) \<longrightarrow> length bs \<le> READ_BUFFER)"

lemma channel_step: "capture_step x x' \<Longrightarrow> channel_bounded x \<Longrightarrow> channel_bounded x'"
proof (induction rule: capture_step.induct)
  case (reader_reads x s n e x')
  moreover from read_pipe_result [OF reader_reads(3)] have "cp_channel x' = cp_channel x" "cp_reader x' = cp_reader x" by auto
  moreover have "length bs \<le> READ_BUFFER" if "e = Chunk t bs" for t bs
    using reader_reads(3) that by (auto simp: read_pipe_def Let_def split: if_splits)
  ultimately show ?case unfolding channel_bounded_def by (simp split: if_splits) blast
next
  case (reader_sends x s e)
  then show ?case unfolding channel_bounded_def by (cases e) (auto split: if_splits)
qed (auto simp: channel_bounded_def)

lemma capture_bounded: "capture_reachable x \<Longrightarrow> channel_bounded x"
proof (induction rule: capture_reachable.induct)
  case capture_init
  show ?case by (simp add: channel_bounded_def capture_start_def)
qed (rule channel_step)

text \<open>When the setup fails, the child is killed unless it had exited.\<close>

lemma begin_capture_kills: "begin_capture su exited = (Inl e, actions) \<Longrightarrow> exited \<or> KillChild \<in> set actions"
  by (auto simp: begin_capture_def terminate_child_tree_def terminate_direct_child_def split: option.splits if_splits)

section \<open>Witness\<close>

text \<open>A child that writes one byte and exits; the loop drains the byte and both ends.\<close>

definition sample_events :: "OutputEvent list" where
  "sample_events = [Chunk Stdout [104], Finished Stdout, Finished Stderr]"

definition sample_round :: collect_round where
  "sample_round = \<lparr>cr_drained = sample_events, cr_disconnected = True, cr_try_wait = Inr (Some 0), cr_disarm = Inr (), cr_expired = False,
     cr_received = R_Timeout\<rparr>"

lemma sends: "capture_reachable x \<Longrightarrow> cp_reader x s = Reading \<Longrightarrow> \<not> cp_cancelled x \<Longrightarrow> cp_channel x = [] \<Longrightarrow>
    read_pipe s n x = Some (e, x') \<Longrightarrow> cp_channel x' = [] \<Longrightarrow>
    capture_reachable (x'\<lparr>cp_reader := (cp_reader x')(s := reader_after e), cp_channel := [], cp_received := cp_received x' @ [e]\<rparr>)"
proof -
  assume *: "capture_reachable x" "cp_reader x s = Reading" "\<not> cp_cancelled x" "cp_channel x = []" "read_pipe s n x = Some (e, x')"
    "cp_channel x' = []"
  have 1: "capture_reachable (set_reader s (Sending e) x')" by (rule capture_next [OF *(1) reader_reads [OF *(2,3,5)]])
  have 2: "capture_reachable (set_reader s (reader_after e) ((set_reader s (Sending e) x')\<lparr>cp_channel := [e]\<rparr>))"
    using capture_next [OF 1 reader_sends [of _ s e]] *(6) by (simp add: OUTPUT_CHANNEL_CAPACITY_def)
  show ?thesis
    using capture_next [OF 2 collector_receives [of _ e "[]"]] *(6) by (simp add: set_reader_def)
qed

lemma sample_capture: "\<exists>x. capture_reachable x \<and> cp_received x = sample_events \<and> cp_written x Stdout = [104]"
proof -
  let ?x = "\<lambda>pipe reader received. \<lparr>cp_pipe = (\<lambda>_. [])(Stdout := pipe), cp_written = (\<lambda>_. [])(Stdout := [104]), cp_closed = (\<lambda>_. True),
    cp_reader = reader, cp_channel = [], cp_received = received, cp_cancelled = False\<rparr>"
  have all: "((\<lambda>_. False)(Stdout := True, Stderr := True)) = (\<lambda>_. True)" by (metis (full_types) OutputStream.exhaust fun_upd_apply)
  have 1: "capture_reachable (capture_start\<lparr>cp_pipe := (\<lambda>_. [])(Stdout := [104]), cp_written := (\<lambda>_. [])(Stdout := [104])\<rparr>)"
    using capture_next [OF capture_init child_writes [of capture_start Stdout "[104]"]] by (simp add: capture_start_def)
  have 2: "capture_reachable (?x [104] (\<lambda>_. Reading) [])"
    using capture_next [OF capture_next [OF 1 child_closes [of _ Stdout]] child_closes [of _ Stderr]] all by (simp add: capture_start_def)
  have 3: "capture_reachable (?x [] (\<lambda>_. Reading) [Chunk Stdout [104]])"
    using sends [OF 2, of Stdout 1 "Chunk Stdout [104]" "?x [] (\<lambda>_. Reading) []"] by (simp add: read_pipe_def READ_BUFFER_def Let_def fun_upd_idem)
  have 4: "capture_reachable (?x [] ((\<lambda>_. Reading)(Stdout := ReaderStopped)) [Chunk Stdout [104], Finished Stdout])"
    using sends [OF 3, of Stdout 1 "Finished Stdout" "?x [] (\<lambda>_. Reading) [Chunk Stdout [104]]"] by (simp add: read_pipe_def)
  have "capture_reachable (?x [] ((\<lambda>_. Reading)(Stdout := ReaderStopped, Stderr := ReaderStopped)) sample_events)"
    using sends [OF 4, of Stderr 1 "Finished Stderr" "?x [] ((\<lambda>_. Reading)(Stdout := ReaderStopped)) [Chunk Stdout [104], Finished Stdout]"]
    by (simp add: read_pipe_def sample_events_def)
  then show ?thesis by (intro exI) (auto simp: sample_events_def)
qed

lemma sample_char: "char_of (104 :: nat) = CHR ''h''"
  by code_simp

lemma sample_execution:
  "execute_once ''adb'' None \<lparr>cs_contain = None, cs_stdout_piped = True, cs_stderr_piped = True, cs_stdout_thread = None,
     cs_stderr_thread = None\<rparr> False (map (\<lambda>b. char_of (unat b))) 1000 [sample_round] = Some (Inr \<lparr>ao_status = 0, ao_stdout = ''h'', ao_stderr = []\<rparr>)"
  by (simp add: execute_once_def begin_capture_def collect_pass_def sample_round_def sample_events_def OUTPUT_EVENT_DRAIN_BUDGET_def
      Collect_start_def OutputAccumulator_default_def OutputAccumulator_push_def OutputAccumulator_finish_def MAX_ADB_OUTPUT_BYTES_def
      readers_done_def sample_char)

theorem command_output_exact_witness: "map (\<lambda>b. char_of (unat b)) (bounded_capture [104]) = ''h''"
proof -
  obtain x where x: "capture_reachable x" "cp_received x = sample_events" "cp_written x Stdout = [104]" using sample_capture by blast
  have "prefix (concat (map round_events [sample_round])) (cp_received x)"
    by (simp add: x(2) round_events_def sample_round_def sample_events_def OUTPUT_EVENT_DRAIN_BUDGET_def)
  from command_output_exact [OF x(1) this sample_execution] x(3) show ?thesis by simp
qed

end
