(* ===== verification/Containment.thy ===== *)
theory Containment
  imports Capture
begin

text \<open>
  The processes of one ADB command (\<^verbatim>\<open>adb.rs\<close>): the job object that contains them on Windows
  (\<^verbatim>\<open>CommandContainment\<close>), the ways in which \<^verbatim>\<open>collect_child_output\<close> ends, and what each of them leaves alive.  A failed
  command leaves nothing behind of what it started; a command that is answered keeps it, as the ADB server that a
  command starts has to outlive it.  The last sections hold the recovery of the ADB server and the texts of the errors.
\<close>

section \<open>The processes of a command\<close>

text \<open>Processes are numbered, the child that the host has spawned is \<open>CHILD\<close>.  \<open>cw_job\<close> are the processes ever assigned
  to the job: a process that a member starts is a member.\<close>

definition CHILD :: nat where "CHILD = 0"

record command_world =
  cw_alive :: "nat list"
  cw_job :: "nat list"
  cw_kill_on_close :: bool
  cw_job_open :: bool

definition spawned_command :: command_world where
  "spawned_command = \<lparr>cw_alive = [CHILD], cw_job = [], cw_kill_on_close = False, cw_job_open = False\<rparr>"

definition child_exited :: "command_world \<Rightarrow> bool" where
  "child_exited w \<longleftrightarrow> CHILD \<notin> set (cw_alive w)"

datatype tree_event = Forks nat nat | Exits nat

fun tree_step :: "tree_event \<Rightarrow> command_world \<Rightarrow> command_world" where
  "tree_step (Forks p q) w =
     (if p \<in> set (cw_alive w) \<and> q \<notin> set (cw_alive w)
      then w\<lparr>cw_alive := cw_alive w @ [q], cw_job := (if p \<in> set (cw_job w) then cw_job w @ [q] else cw_job w)\<rparr>
      else w)"
| "tree_step (Exits p) w = w\<lparr>cw_alive := filter (\<lambda>q. q \<noteq> p) (cw_alive w)\<rparr>"

definition tree_run :: "tree_event list \<Rightarrow> command_world \<Rightarrow> command_world" where
  "tree_run es w = fold tree_step es w"

section \<open>The containment\<close>

text \<open>What the three calls that set up the job report.\<close>

record containment_calls =
  jb_create :: "string option"
  jb_limit :: "string option"
  jb_assign :: "string option"

text \<open>The flag is \<^verbatim>\<open>armed\<close>; outside Windows there is nothing to hold.\<close>

datatype CommandContainment = JobContainment bool | NoContainment

definition kill_members :: "command_world \<Rightarrow> command_world" where
  "kill_members w = w\<lparr>cw_alive := filter (\<lambda>p. p \<notin> set (cw_job w)) (cw_alive w)\<rparr>"

text \<open>\<^verbatim>\<open>Drop\<close>: the only handle of the job is closed.\<close>

fun CommandContainment_drop :: "CommandContainment \<Rightarrow> command_world \<Rightarrow> command_world" where
  "CommandContainment_drop NoContainment w = w"
| "CommandContainment_drop (JobContainment _) w =
     (if cw_kill_on_close w then kill_members w else w)\<lparr>cw_job_open := False\<rparr>"

definition CommandContainment_assign ::
  "bool \<Rightarrow> containment_calls \<Rightarrow> command_world \<Rightarrow> (string + CommandContainment) \<times> command_world" where
  "CommandContainment_assign windows calls w =
     (if \<not> windows then (Inr NoContainment, w)
      else
        (case jb_create calls of
           Some e \<Rightarrow> (Inl e, w)
         | None \<Rightarrow>
             let w = w\<lparr>cw_job := [], cw_kill_on_close := False, cw_job_open := True\<rparr>; containment = JobContainment True in
             (case jb_limit calls of
                Some e \<Rightarrow> (Inl e, CommandContainment_drop containment w)
              | None \<Rightarrow>
                  let w = w\<lparr>cw_kill_on_close := True\<rparr> in
                  (case jb_assign calls of
                     Some e \<Rightarrow> (Inl e, CommandContainment_drop containment w)
                   | None \<Rightarrow> (Inr containment, w\<lparr>cw_job := [CHILD]\<rparr>)))))"

fun CommandContainment_terminate :: "CommandContainment \<Rightarrow> command_world \<Rightarrow> command_world" where
  "CommandContainment_terminate NoContainment w = w"
| "CommandContainment_terminate (JobContainment armed) w = (if armed then kill_members w else w)"

text \<open>\<open>answer\<close> is what the call that lifts the limit reports.\<close>

fun CommandContainment_disarm ::
  "string + unit \<Rightarrow> CommandContainment \<Rightarrow> command_world \<Rightarrow> (string + unit) \<times> CommandContainment \<times> command_world" where
  "CommandContainment_disarm answer NoContainment w = (Inr (), NoContainment, w)"
| "CommandContainment_disarm answer (JobContainment armed) w =
     (if \<not> armed then (Inr (), JobContainment armed, w)
      else
        (case answer of
           Inl e \<Rightarrow> (Inl e, JobContainment armed, w)
         | Inr _ \<Rightarrow> (Inr (), JobContainment False, w\<lparr>cw_kill_on_close := False\<rparr>)))"

section \<open>Collecting a contained command\<close>

fun child_action_on :: "CommandContainment \<Rightarrow> child_action \<Rightarrow> command_world \<Rightarrow> command_world" where
  "child_action_on containment TerminateJob w = CommandContainment_terminate containment w"
| "child_action_on containment CancelReaders w = w"
| "child_action_on containment KillChild w = w\<lparr>cw_alive := filter (\<lambda>p. p \<noteq> CHILD) (cw_alive w)\<rparr>"

text \<open>The actions of an early return, after which the containment goes out of scope.\<close>

definition abandon :: "CommandContainment \<Rightarrow> child_action list \<Rightarrow> command_world \<Rightarrow> command_world" where
  "abandon containment actions w = CommandContainment_drop containment (fold (child_action_on containment) actions w)"

text \<open>The loop of \<^verbatim>\<open>collect_child_output\<close>; before each pass the processes of the command take steps of their own.  Of the
  errors of a pass only that of \<^verbatim>\<open>disarm\<close>, the one that is a containment error, returns without terminating the tree.\<close>

fun collect_contained ::
  "(bytes \<Rightarrow> string) \<Rightarrow> duration \<Rightarrow> (tree_event list \<times> collect_round) list \<Rightarrow> Collect \<Rightarrow> CommandContainment \<Rightarrow>
   command_world \<Rightarrow> ((AdbError + AdbOutput) \<times> command_world) option" where
  "collect_contained lossy timeout [] c containment w = None"
| "collect_contained lossy timeout ((es, round) # rounds) c containment w =
     (let w = tree_run es w;
          (disarmed, containment', w') = CommandContainment_disarm (cr_disarm round) containment w in
      case collect_pass lossy timeout (round\<lparr>cr_disarm := disarmed\<rparr>) c of
        Inl (AE_Containment e) \<Rightarrow> Some (Inl (AE_Containment e), CommandContainment_drop containment' w')
      | Inl e \<Rightarrow> Some (Inl e, abandon containment (terminate_child_tree True (child_exited w)) w)
      | Inr (Inl out) \<Rightarrow> Some (Inr out, CommandContainment_drop containment' w')
      | Inr (Inr c) \<Rightarrow> collect_contained lossy timeout rounds c containment w)"

text \<open>The whole of \<^verbatim>\<open>collect_child_output\<close>.  The child runs from the moment it is spawned: \<open>early\<close> is what its tree does
  before the job is there.\<close>

definition collect_command ::
  "bool \<Rightarrow> (bytes \<Rightarrow> string) \<Rightarrow> duration \<Rightarrow> containment_calls \<Rightarrow> capture_setup \<Rightarrow> tree_event list \<Rightarrow>
   (tree_event list \<times> collect_round) list \<Rightarrow> command_world \<Rightarrow> ((AdbError + AdbOutput) \<times> command_world) option" where
  "collect_command windows lossy timeout calls su early rounds w =
     (let w = tree_run early w in
      case CommandContainment_assign windows calls w of
        (Inl e, w) \<Rightarrow> Some (Inl (AE_Containment e), fold (child_action_on NoContainment) (terminate_direct_child (child_exited w)) w)
      | (Inr containment, w) \<Rightarrow>
          (case begin_capture (su\<lparr>cs_contain := None\<rparr>) (child_exited w) of
             (Inl e, actions) \<Rightarrow> Some (Inl e, abandon containment actions w)
           | (Inr _, _) \<Rightarrow> collect_contained lossy timeout rounds Collect_start containment w))"

section \<open>Which processes are left\<close>

text \<open>The state between the calls: everything of the command that lives is in the armed job.\<close>

definition all_contained :: "command_world \<Rightarrow> bool" where
  "all_contained w \<longleftrightarrow> set (cw_alive w) \<subseteq> set (cw_job w) \<and> cw_kill_on_close w"

lemma tree_step_contained: "all_contained w \<Longrightarrow> all_contained (tree_step e w)"
  by (cases e) (auto simp: all_contained_def)

lemma tree_run_contained: "all_contained w \<Longrightarrow> all_contained (tree_run es w)"
  unfolding tree_run_def by (induction es arbitrary: w) (simp_all add: tree_step_contained)

lemma kill_members_contained: "all_contained w \<Longrightarrow> cw_alive (kill_members w) = []"
  by (auto simp: all_contained_def kill_members_def filter_empty_conv)

lemma drop_contained: "all_contained w \<Longrightarrow> cw_alive (CommandContainment_drop (JobContainment armed) w) = []"
  using kill_members_contained [of w] by (simp add: all_contained_def)

text \<open>No action starts a process, and a drop neither.\<close>

lemma action_alive: "set (cw_alive (child_action_on containment a w)) \<subseteq> set (cw_alive w)"
  by (cases a; cases containment) (auto simp: kill_members_def)

lemma action_job: "cw_job (child_action_on containment a w) = cw_job w \<and>
    cw_kill_on_close (child_action_on containment a w) = cw_kill_on_close w"
  by (cases a; cases containment) (auto simp: kill_members_def)

lemma actions_contained: "all_contained w \<Longrightarrow> all_contained (fold (child_action_on containment) as w)"
proof (induction as arbitrary: w)
  case (Cons a as)
  have "all_contained (child_action_on containment a w)"
    using Cons.prems action_alive [of containment a w] action_job [of containment a w] by (auto simp: all_contained_def)
  with Cons.IH show ?case by simp
qed simp

lemma abandon_contained: "all_contained w \<Longrightarrow> cw_alive (abandon (JobContainment armed) as w) = []"
  unfolding abandon_def by (intro drop_contained actions_contained)

text \<open>Of the errors of a pass only that of \<^verbatim>\<open>disarm\<close> is a containment error.\<close>

lemma event_error: "apply_output_event e c = Inl x \<Longrightarrow> \<exists>t. x = AE_Read t"
  by (cases "(e, c)" rule: apply_output_event.cases) auto

lemma events_error: "apply_output_events es c = Inl x \<Longrightarrow> \<exists>t. x = AE_Read t"
  by (induction es arbitrary: c) (auto split: sum.splits dest: event_error)

lemma pass_containment_error:
  "collect_pass lossy timeout round c = Inl (AE_Containment e) \<Longrightarrow> cr_disarm round = Inl e"
  unfolding collect_pass_def
  by (auto simp: Let_def reader_stopped_def split: sum.splits if_splits received.splits dest!: event_error events_error)

lemma pass_answered: "collect_pass lossy timeout round c = Inr (Inl out) \<Longrightarrow> cr_disarm round = Inr ()"
  unfolding collect_pass_def by (auto simp: Let_def split: sum.splits if_splits received.splits)

text \<open>The outcomes of a pass under an armed job.\<close>

lemma armed_pass:
  assumes "w1 = tree_run es w"
  shows "collect_contained lossy timeout ((es, round) # rounds) c (JobContainment True) w =
    (case collect_pass lossy timeout round c of
       Inl (AE_Containment e) \<Rightarrow> Some (Inl (AE_Containment e), CommandContainment_drop (JobContainment True) w1)
     | Inl e \<Rightarrow> Some (Inl e, abandon (JobContainment True) (terminate_child_tree True (child_exited w1)) w1)
     | Inr (Inl out) \<Rightarrow> Some (Inr out, w1\<lparr>cw_kill_on_close := False, cw_job_open := False\<rparr>)
     | Inr (Inr c) \<Rightarrow> collect_contained lossy timeout rounds c (JobContainment True) w1)"
proof -
  define d where "d = fst (CommandContainment_disarm (cr_disarm round) (JobContainment True) w1)"
  have d: "d = cr_disarm round" unfolding d_def by (simp split: sum.split)
  then have same: "round\<lparr>cr_disarm := d\<rparr> = round" by simp
  have disarmed: "CommandContainment_disarm (cr_disarm round) (JobContainment True) w1 =
      (d, case cr_disarm round of Inl _ \<Rightarrow> (JobContainment True, w1) | Inr _ \<Rightarrow> (JobContainment False, w1\<lparr>cw_kill_on_close := False\<rparr>))"
    unfolding d by (simp split: sum.split)
  show ?thesis
  proof (cases "collect_pass lossy timeout round c")
    case (Inl x)
    then show ?thesis
      using pass_containment_error [of lossy timeout round c]
      unfolding collect_contained.simps Let_def assms [symmetric] disarmed case_prod_conv same
      by (cases x) (simp_all del: CommandContainment_drop.simps split: sum.split)
  next
    case (Inr x)
    then show ?thesis
      using pass_answered [of lossy timeout round c]
      unfolding collect_contained.simps Let_def assms [symmetric] disarmed case_prod_conv same
      by (cases x) (simp_all split: sum.split)
  qed
qed

lemma collect_contained_failed:
  assumes "collect_contained lossy timeout rounds c (JobContainment True) w = Some (Inl e, w')" "all_contained w"
  shows "cw_alive w' = []"
  using assms
proof (induction rounds arbitrary: c w)
  case (Cons r rounds)
  obtain es round where r: "r = (es, round)" by (cases r)
  have ok: "all_contained (tree_run es w)" using Cons.prems(2) by (rule tree_run_contained)
  note run = Cons.prems(1) [unfolded r armed_pass [OF refl]]
  show ?case
  proof (cases "collect_pass lossy timeout round c")
    case (Inl x)
    then show ?thesis
      using run drop_contained [OF ok, of True] abandon_contained [OF ok, of True]
      by (cases x) (auto simp del: CommandContainment_drop.simps)
  next
    case (Inr x)
    then show ?thesis using run Cons.IH [OF _ ok] by (cases x) auto
  qed
qed simp

lemma assign_results:
  assumes "CommandContainment_assign True calls w = (r, w')" "cw_alive w = [CHILD]"
  shows "(case r of Inl _ \<Rightarrow> cw_alive w' = [CHILD] | Inr containment \<Rightarrow> containment = JobContainment True \<and> all_contained w')"
  using assms
  by (auto simp: CommandContainment_assign_def all_contained_def kill_members_def Let_def split: option.splits)

text \<open>C33. A command that fails leaves nothing running: on Windows, when the child has started no process before the job
  object was assigned, then after every error of \<^verbatim>\<open>collect_child_output\<close> (of the set-up of the job, the pipes or the
  reader threads, of a reader, of a wait, of the release of the job, or the timeout) the child and everything it has started since, at any
  depth, is dead.\<close>

theorem failed_command_leaves_no_process:
  assumes "collect_command True lossy timeout calls su [] rounds spawned_command = Some (Inl e, w)"
  shows "cw_alive w = []"
proof -
  obtain r w1 where assign: "CommandContainment_assign True calls spawned_command = (r, w1)" by fastforce
  note result = assign_results [OF this]
  note run = assms [unfolded collect_command_def tree_run_def Let_def, simplified, unfolded assign]
  show ?thesis
  proof (cases r)
    case (Inl x)
    then have "cw_alive w1 = [CHILD]" using result by (simp add: spawned_command_def)
    then show ?thesis using run Inl by (auto simp: terminate_direct_child_def child_exited_def)
  next
    case (Inr containment)
    then have c: "containment = JobContainment True" and ok: "all_contained w1"
      using result by (simp_all add: spawned_command_def)
    obtain started actions where "begin_capture (su\<lparr>cs_contain := None\<rparr>) (child_exited w1) = (started, actions)" by fastforce
    then show ?thesis
      using run Inr c abandon_contained [OF ok, of True] collect_contained_failed [OF _ ok]
      by (cases started) auto
  qed
qed

text \<open>A command that times out at once, after its child has started another process.\<close>

definition timeout_round :: collect_round where
  "timeout_round = \<lparr>cr_drained = [], cr_disconnected = False, cr_try_wait = Inr None, cr_disarm = Inr (),
     cr_expired = True, cr_received = R_Timeout\<rparr>"

definition plain_setup :: capture_setup where
  "plain_setup = \<lparr>cs_contain = None, cs_stdout_piped = True, cs_stderr_piped = True, cs_stdout_thread = None,
     cs_stderr_thread = None\<rparr>"

definition job_granted :: containment_calls where
  "job_granted = \<lparr>jb_create = None, jb_limit = None, jb_assign = None\<rparr>"

lemmas containment_run_defs = collect_command_def CommandContainment_assign_def begin_capture_def spawned_command_def
  timeout_round_def plain_setup_def job_granted_def tree_run_def CHILD_def collect_pass_def Collect_start_def
  abandon_def terminate_child_tree_def terminate_direct_child_def kill_members_def child_exited_def
  OUTPUT_EVENT_DRAIN_BUDGET_def readers_done_def

definition timed_out_tree :: "(AdbError + AdbOutput) \<times> command_world" where
  "timed_out_tree = (Inl (AE_Timeout 5), \<lparr>cw_alive = [], cw_job = [0, 7, 8], cw_kill_on_close = True, cw_job_open = False\<rparr>)"

lemma timed_out_run:
  "collect_command True (\<lambda>_. []) 5 job_granted plain_setup [] [([Forks 0 7, Forks 7 8, Exits 0], timeout_round)] spawned_command =
     Some timed_out_tree"
  by (simp add: containment_run_defs timed_out_tree_def)

theorem failed_command_leaves_no_process_witness: "cw_alive (snd timed_out_tree) = []"
proof -
  have "timed_out_tree = (Inl (AE_Timeout 5), snd timed_out_tree)" by (simp add: timed_out_tree_def)
  with timed_out_run have "collect_command True (\<lambda>_. []) 5 job_granted plain_setup []
      [([Forks 0 7, Forks 7 8, Exits 0], timeout_round)] spawned_command = Some (Inl (AE_Timeout 5), snd timed_out_tree)" by simp
  from failed_command_leaves_no_process [OF this] show ?thesis .
qed

text \<open>The hypothesis on the early steps is needed: the child is not started suspended, and a process that it starts before
  the job object is assigned to it is no member and survives the termination.\<close>

theorem early_descendant_escapes:
  "map_option (cw_alive \<circ> snd) (collect_command True (\<lambda>_. []) 5 job_granted plain_setup [Forks 0 7] [([], timeout_round)] spawned_command) =
     Some [7]"
  by (simp add: containment_run_defs)

text \<open>Outside Windows only the direct child is killed.\<close>

theorem descendants_survive_without_job:
  "map_option (cw_alive \<circ> snd) (collect_command False (\<lambda>_. []) 5 job_granted plain_setup [] [([Forks 0 7], timeout_round)] spawned_command) =
     Some [7]"
  by (simp add: containment_run_defs)

subsection \<open>A command that is answered\<close>

text \<open>The host kills nobody then: the processes that live are those that the steps of the tree have left, on either platform.\<close>

lemma tree_step_alive: "cw_alive w = cw_alive v \<Longrightarrow> cw_alive (tree_step e w) = cw_alive (tree_step e v)"
  by (cases e) auto

lemma tree_run_alive: "cw_alive w = cw_alive v \<Longrightarrow> cw_alive (tree_run es w) = cw_alive (tree_run es v)"
  unfolding tree_run_def
proof (induction es arbitrary: w v)
  case (Cons e es)
  have "cw_alive (fold tree_step es (tree_step e w)) = cw_alive (fold tree_step es (tree_step e v))"
    by (rule Cons.IH) (rule tree_step_alive [OF Cons.prems])
  then show ?case by simp
qed simp

lemma answered_drop:
  assumes "CommandContainment_disarm answer containment w = (Inr (), containment', w')" "containment \<noteq> JobContainment False"
  shows "cw_alive (CommandContainment_drop containment' w') = cw_alive w"
  using assms by (cases containment) (auto split: if_splits sum.splits)

lemma collect_contained_answered:
  assumes "collect_contained lossy timeout rounds c containment w = Some (Inr out, w')" "containment \<noteq> JobContainment False"
  shows "\<exists>n. cw_alive w' = cw_alive (tree_run (concat (map fst (take n rounds))) w)"
  using assms(1)
proof (induction rounds arbitrary: c w)
  case (Cons r rounds)
  obtain es round where r: "r = (es, round)" by (cases r)
  obtain d containment' w1 where disarm:
    "CommandContainment_disarm (cr_disarm round) containment (tree_run es w) = (d, containment', w1)" by (metis prod_cases3)
  note run = Cons.prems [unfolded r collect_contained.simps Let_def disarm case_prod_conv]
  show ?case
  proof (cases "collect_pass lossy timeout (round\<lparr>cr_disarm := d\<rparr>) c")
    case (Inl x)
    then show ?thesis using run by (cases x) simp_all
  next
    case (Inr x)
    show ?thesis
    proof (cases x)
      case (Inl out')
      with pass_answered [of lossy timeout "round\<lparr>cr_disarm := d\<rparr>" c out'] Inr have "d = Inr ()" by simp
      with answered_drop [OF disarm [unfolded this]] assms(2) run Inr Inl
      have "cw_alive w' = cw_alive (tree_run es w)" by simp
      then show ?thesis using r by (intro exI [of _ 1]) simp
    next
      case going: (Inr c')
      with run Inr have "collect_contained lossy timeout rounds c' containment (tree_run es w) = Some (Inr out, w')" by simp
      from Cons.IH [OF this] obtain n where
        "cw_alive w' = cw_alive (tree_run (concat (map fst (take n rounds))) (tree_run es w))" ..
      then show ?thesis using r by (intro exI [of _ "Suc n"]) (simp add: tree_run_def)
    qed
  qed
qed simp

theorem answered_command_keeps_its_processes:
  assumes "collect_command windows lossy timeout calls su early rounds w = Some (Inr out, w')"
  shows "\<exists>n. cw_alive w' = cw_alive (tree_run (early @ concat (map fst (take n rounds))) w)"
proof -
  obtain r w1 where assign: "CommandContainment_assign windows calls (tree_run early w) = (r, w1)" by fastforce
  note run = assms [unfolded collect_command_def Let_def assign]
  obtain containment where r: "r = Inr containment" using run by (cases r) simp_all
  have alive: "cw_alive w1 = cw_alive (tree_run early w)" "containment \<noteq> JobContainment False"
    using assign r by (auto simp: CommandContainment_assign_def Let_def split: if_splits option.splits)
  obtain started actions where "begin_capture (su\<lparr>cs_contain := None\<rparr>) (child_exited w1) = (started, actions)" by fastforce
  with run r have "collect_contained lossy timeout rounds Collect_start containment w1 = Some (Inr out, w')"
    by (cases started) simp_all
  from collect_contained_answered [OF this alive(2)] obtain n where
    "cw_alive w' = cw_alive (tree_run (concat (map fst (take n rounds))) w1)" ..
  with tree_run_alive [OF alive(1)] show ?thesis by (intro exI [of _ n]) (simp add: tree_run_def)
qed

subsection \<open>What the caller sees\<close>

text \<open>The result is that of \<open>execute_once\<close>, where the processes are left out: what is shown of its output holds here.\<close>

lemma collect_contained_result:
  "map_option fst (collect_contained lossy timeout rounds c (JobContainment True) w) =
     collect_child_output lossy timeout (map snd rounds) c"
proof (induction rounds arbitrary: c w)
  case (Cons r rounds)
  obtain es round where r: "r = (es, round)" by (cases r)
  show ?case unfolding r armed_pass [OF refl] using Cons.IH by (simp split: sum.split AdbError.split)
qed simp

theorem collect_command_refines_execute_once:
  "map_option fst (collect_command True lossy timeout calls su early rounds w) =
     execute_once program None
       (su\<lparr>cs_contain := (case fst (CommandContainment_assign True calls (tree_run early w)) of Inl e \<Rightarrow> Some e | Inr _ \<Rightarrow> None)\<rparr>)
       exited lossy timeout (map snd rounds)"
proof -
  obtain r w1 where assign: "CommandContainment_assign True calls (tree_run early w) = (r, w1)" by fastforce
  show ?thesis
  proof (cases r)
    case (Inl e)
    then show ?thesis by (simp add: collect_command_def assign execute_once_def begin_capture_def)
  next
    case (Inr containment)
    then have "containment = JobContainment True"
      using assign by (auto simp: CommandContainment_assign_def Let_def split: option.splits)
    with Inr show ?thesis
      by (simp add: collect_command_def assign execute_once_def begin_capture_def collect_contained_result split: option.split)
  qed
qed

section \<open>Recovery of the ADB server\<close>

text \<open>\<^verbatim>\<open>SystemAdb::recover_server\<close>: the servers are killed by name, under a lock of the process.  Whether that works is not
  looked at; only a poisoned lock is an error.\<close>

datatype recovery_action = KillAdbServers duration | RecoveryPause duration

definition SystemAdb_recover_server :: "bool \<Rightarrow> bool \<Rightarrow> bool \<Rightarrow> duration \<Rightarrow> (AdbError + unit) \<times> recovery_action list" where
  "SystemAdb_recover_server windows poisoned spawned timeout =
     (if windows
      then (if poisoned then (Inl (AE_Read ''ADB server recovery lock is poisoned''), [])
            else (Inr (), (if spawned then [KillAdbServers 5000000000] else []) @ [RecoveryPause 250000000]))
      else (Inr (), []))"

section \<open>The text of a transaction error\<close>

definition join_with :: "string \<Rightarrow> string list \<Rightarrow> string" where
  "join_with separator ts = (case ts of [] \<Rightarrow> [] | t # ts \<Rightarrow> t @ concat (map (\<lambda>t. separator @ t) ts))"

definition debug_list :: "string list \<Rightarrow> string" where
  "debug_list ts = ''['' @ join_with '', '' ts @ '']''"

definition ReverseMapping_debug :: "ReverseMapping \<Rightarrow> string" where
  "ReverseMapping_debug mapping =
     ''ReverseMapping { remote: '' @ show_nat (unat (rm_remote mapping)) @ '', local: '' @ show_nat (unat (rm_local mapping)) @ '' }''"

text \<open>The entries of the list as the transactions format them; \<open>quote\<close> is the \<^verbatim>\<open>Debug\<close> form of a string, and the message of a
  timeout is without its duration, as in \<open>AdbError_message\<close>.\<close>

fun failure_message :: "(string \<Rightarrow> string) \<Rightarrow> failure \<Rightarrow> string" where
  "failure_message quote (F_Error e) = AdbError_message e"
| "failure_message quote (F_Context context e) = context @ '': '' @ AdbError_message e"
| "failure_message quote (F_Missing context missing) =
     context @ '': '' @ debug_list (map ReverseMapping_debug missing)"
| "failure_message quote (F_RemoveStatus remote status stderr) =
     ''remove tcp:'' @ show_nat (unat remote) @ '': ADB exited with '' @ show_int status @ '': '' @ stderr"
| "failure_message quote (F_RemoveError remote e) = ''remove tcp:'' @ show_nat (unat remote) @ '': '' @ AdbError_message e"
| "failure_message quote (F_Remaining owned) =
     ''product reverse mappings remain after removal: '' @
       debug_list (map (\<lambda>(remote, local). ''('' @ quote remote @ '', '' @ quote local @ '')'') owned)"
| "failure_message quote (F_Refused mapping) = ''refusing non-product reverse mapping '' @ ReverseMapping_debug mapping"
| "failure_message quote F_WrongVersion =
     ''installed '' @ ANDROID_PACKAGE @ '' does not match versionCode='' @ ANDROID_VERSION_CODE @ '', versionName='' @ ANDROID_VERSION_NAME"

definition TransactionError_display :: "(string \<Rightarrow> string) \<Rightarrow> TransactionError \<Rightarrow> string" where
  "TransactionError_display quote e =
     ''ADB '' @ te_phase e @ '' failed'' @
     (case map (failure_message quote) (te_failures e) of
        [failure] \<Rightarrow> '': '' @ failure
      | failures \<Rightarrow> if failures \<noteq> [] then '': '' @ join_with ''; '' failures else [])"

text \<open>No failure of a transaction is missing from its text.\<close>

lemma join_with_contains:
  assumes "t \<in> set ts"
  shows "\<exists>before after. join_with separator ts = before @ t @ after"
proof (cases ts)
  case (Cons u us)
  show ?thesis
  proof (cases "t = u")
    case False
    with assms Cons obtain xs ys where "us = xs @ t # ys" by (auto dest: split_list)
    then have "join_with separator ts =
        (u @ concat (map (\<lambda>t. separator @ t) xs) @ separator) @ t @ concat (map (\<lambda>t. separator @ t) ys)"
      by (simp add: join_with_def Cons)
    then show ?thesis by blast
  qed (use Cons in \<open>force simp: join_with_def\<close>)
qed (use assms in simp)

theorem transaction_error_names_failures:
  assumes "f \<in> set (te_failures e)"
  shows "\<exists>before after. TransactionError_display quote e = before @ failure_message quote f @ after"
proof -
  let ?ms = "map (failure_message quote) (te_failures e)"
  let ?head = "''ADB '' @ te_phase e @ '' failed: ''"
  obtain m ms where ms: "?ms = m # ms" using assms by (cases ?ms) auto
  have "TransactionError_display quote e = ?head @ join_with ''; '' ?ms"
    unfolding TransactionError_display_def ms by (cases ms) (simp_all add: join_with_def)
  moreover obtain before after where "join_with ''; '' ?ms = before @ failure_message quote f @ after"
    using join_with_contains [of "failure_message quote f" ?ms "''; ''"] assms by auto
  ultimately have "TransactionError_display quote e = (?head @ before) @ failure_message quote f @ after" by simp
  then show ?thesis by blast
qed

end
