(* ===== verification/TrayWindow.thy ===== *)
theory TrayWindow
  imports TrayProps "HOL-Library.Sublist"
begin

text \<open>
  The window of the notification-area application (\<^verbatim>\<open>run_windows_tray\<close>, \<^verbatim>\<open>window_proc\<close>, \<^verbatim>\<open>report_tray_error\<close> and
  \<^verbatim>\<open>exit_complete\<close> of \<^verbatim>\<open>main.rs\<close>): how it is set up, how it dispatches messages, its menu, its icon and its message
  boxes, and how it runs beside the coordinator and the broker.  A menu and a message box run message loops of
  their own inside \<^verbatim>\<open>window_proc\<close>, so calls of \<^verbatim>\<open>window_proc\<close> nest: the calls that wait are kept as frames.
\<close>

section \<open>Messages\<close>

type_synonym message = "u32 \<times> nat \<times> nat"

definition TRAY_CALLBACK_MESSAGE :: u32 where "TRAY_CALLBACK_MESSAGE = 0x8000 + 41"
definition TRAY_SHOW_EXISTING_MESSAGE :: u32 where "TRAY_SHOW_EXISTING_MESSAGE = 0x8000 + 42"
definition TRAY_EXIT_COMPLETE_MESSAGE :: u32 where "TRAY_EXIT_COMPLETE_MESSAGE = 0x8000 + 43"
definition TRAY_ERROR_MESSAGE :: u32 where "TRAY_ERROR_MESSAGE = 0x8000 + 44"
definition TRAY_ICON_TIMER_ID :: nat where "TRAY_ICON_TIMER_ID = 41"

definition WM_NULL :: u32 where "WM_NULL = 0"
definition WM_DESTROY :: u32 where "WM_DESTROY = 0x0002"
definition WM_CLOSE :: u32 where "WM_CLOSE = 0x0010"
definition WM_COMMAND :: u32 where "WM_COMMAND = 0x0111"
definition WM_TIMER :: u32 where "WM_TIMER = 0x0113"
definition WM_LBUTTONDBLCLK :: u32 where "WM_LBUTTONDBLCLK = 0x0203"
definition WM_RBUTTONUP :: u32 where "WM_RBUTTONUP = 0x0205"
definition WM_POWERBROADCAST :: u32 where "WM_POWERBROADCAST = 0x0218"

lemmas message_numbers = TRAY_CALLBACK_MESSAGE_def TRAY_SHOW_EXISTING_MESSAGE_def TRAY_EXIT_COMPLETE_MESSAGE_def
  TRAY_ERROR_MESSAGE_def WM_NULL_def WM_DESTROY_def WM_CLOSE_def WM_COMMAND_def WM_TIMER_def WM_LBUTTONDBLCLK_def
  WM_RBUTTONUP_def WM_POWERBROADCAST_def

section \<open>The window\<close>

datatype window_frame = MenuFrame | BoxFrame

datatype window_phase = NotCreated | Created | Published | Pumping | Ended "string + unit"

text \<open>\<open>wi_published\<close> is \<^verbatim>\<open>TRAY_WINDOW\<close>, \<open>wi_last_error\<close> is \<^verbatim>\<open>TRAY_LAST_ERROR\<close>; its lock is held exactly while a message box
  is open.  \<open>wi_posting\<close> is the message the coordinator is about to post.  \<open>wi_stuck\<close> says that the thread of the
  window waits for the lock it holds itself.\<close>

record Window =
  wi_phase :: window_phase
  wi_hwnd :: bool
  wi_published :: bool
  wi_icon :: "(bool \<times> u16 list) option"
  wi_timer :: bool
  wi_posted :: "message list"
  wi_quit :: bool
  wi_last_error :: "bytes option"
  wi_frames :: "window_frame list"
  wi_shown :: "bytes list"
  wi_stuck :: bool
  wi_posting :: "u32 option"

definition Window_start :: Window where
  "Window_start = \<lparr>wi_phase = NotCreated, wi_hwnd = False, wi_published = False, wi_icon = None, wi_timer = False,
     wi_posted = [], wi_quit = False, wi_last_error = None, wi_frames = [], wi_shown = [], wi_stuck = False, wi_posting = None\<rparr>"

definition error_locked :: "Window \<Rightarrow> bool" where "error_locked w \<longleftrightarrow> BoxFrame \<in> set (wi_frames w)"

text \<open>\<^verbatim>\<open>PostMessageW\<close> to a window that is gone does nothing.\<close>

definition post_message :: "message \<Rightarrow> Window \<Rightarrow> Window" where
  "post_message m w = (if wi_hwnd w then w\<lparr>wi_posted := wi_posted w @ [m]\<rparr> else w)"

section \<open>The icon\<close>

text \<open>\<^verbatim>\<open>szTip\<close> has 128 units; the texts are ASCII (the dash, one unit too, is written as a hyphen).\<close>

definition encode_utf16 :: "string \<Rightarrow> u16 list" where "encode_utf16 s = map (\<lambda>c. of_nat (of_char c)) s"

definition wide_windows :: "string \<Rightarrow> u16 list" where "wide_windows s = encode_utf16 s @ [0]"

definition apply_tooltip :: "string \<Rightarrow> u16 list" where
  "apply_tooltip s = (let units = take 128 (encode_utf16 s) in units @ replicate (128 - length units) 0)"

text \<open>Modifying an icon that was not added fails.\<close>

definition refresh_tray_icon :: "Tray \<Rightarrow> TrayHostObservation \<Rightarrow> Window \<Rightarrow> Window" where
  "refresh_tray_icon t o' w =
     (case wi_icon w of
        None \<Rightarrow> w
      | Some _ \<Rightarrow> w\<lparr>wi_icon := Some (tray_desired_on t, apply_tooltip (tray_tooltip (tray_desired_on t) (Some o')))\<rparr>)"

text \<open>\<^verbatim>\<open>WindowsTrayIcons::load\<close>: the icons created from the two files, with the handles that are left behind.\<close>

definition load_one :: "(bytes \<Rightarrow> nat option) \<Rightarrow> bytes \<Rightarrow> string + nat" where
  "load_one create ico =
     (case ico_image_for_size ico 32 of
        None \<Rightarrow> Inl ''embedded tray icon is malformed''
      | Some img \<Rightarrow>
          if length img \<ge> 2 ^ 32 then Inl ''embedded tray icon is too large''
          else case create img of None \<Rightarrow> Inl ''last_os_error'' | Some h \<Rightarrow> Inr h)"

definition WindowsTrayIcons_load :: "(bytes \<Rightarrow> nat option) \<Rightarrow> bytes \<Rightarrow> bytes \<Rightarrow> (string + nat \<times> nat) \<times> nat list" where
  "WindowsTrayIcons_load create off_ico on_ico =
     (case load_one create off_ico of
        Inl e \<Rightarrow> (Inl e, [])
      | Inr off \<Rightarrow>
          (case load_one create on_ico of
             Inr on \<Rightarrow> (Inr (off, on), [off, on])
           | Inl e \<Rightarrow> (Inl e, remove1 off [off])))"

text \<open>The icons are loaded once and kept.\<close>

definition WindowsTrayIcons_get ::
  "(bytes \<Rightarrow> nat option) \<Rightarrow> bytes \<Rightarrow> bytes \<Rightarrow> (nat \<times> nat) option \<Rightarrow> (string + nat \<times> nat) \<times> (nat \<times> nat) option" where
  "WindowsTrayIcons_get create off_ico on_ico kept =
     (case kept of
        Some icons \<Rightarrow> (Inr icons, kept)
      | None \<Rightarrow>
          (case fst (WindowsTrayIcons_load create off_ico on_ico) of
             Inl e \<Rightarrow> (Inl e, None)
           | Inr icons \<Rightarrow> (Inr icons, Some icons)))"

section \<open>The menu\<close>

definition MF_STRING :: u32 where "MF_STRING = 0"
definition MF_CHECKED :: u32 where "MF_CHECKED = 0x0008"
definition MF_SEPARATOR :: u32 where "MF_SEPARATOR = 0x0800"

definition menu_items :: "bool \<Rightarrow> (u32 \<times> nat \<times> u16 list option) list" where
  "menu_items desired_on =
     map (\<lambda>entry.
       (if me_command entry \<noteq> None then or MF_STRING (if me_checked entry then MF_CHECKED else 0) else MF_SEPARATOR,
        case me_command entry of None \<Rightarrow> 0 | Some command \<Rightarrow> tray_command_id command,
        map_option wide_windows (me_label entry))) (tray_menu_entries desired_on)"

text \<open>\<^verbatim>\<open>show_menu\<close> up to the choice, and from the choice on (0 without one).\<close>

definition show_menu :: "bool \<Rightarrow> Window \<Rightarrow> Window" where
  "show_menu made w = (if made then w\<lparr>wi_frames := MenuFrame # wi_frames w\<rparr> else w)"

definition dispatch_tray_command :: "TrayHostObservation \<Rightarrow> TrayCommand \<Rightarrow> Tray \<times> Window \<Rightarrow> Tray \<times> Window" where
  "dispatch_tray_command o' command tw =
     (let (t, w) = tw;
          t = (case command of ToggleLink \<Rightarrow> handle_toggle t | DiagnoseAndFix \<Rightarrow> handle_diagnose t | TrayExit \<Rightarrow> handle_exit t)
      in (t, refresh_tray_icon t o' w))"

definition menu_chosen :: "TrayHostObservation \<Rightarrow> nat \<Rightarrow> Tray \<times> Window \<Rightarrow> Tray \<times> Window" where
  "menu_chosen o' selected tw =
     (let (t, w) = tw; w = post_message (WM_NULL, 0, 0) (w\<lparr>wi_frames := tl (wi_frames w)\<rparr>) in
      case tray_command_from_id selected of None \<Rightarrow> (t, w) | Some command \<Rightarrow> dispatch_tray_command o' command (t, w))"

section \<open>The window procedure\<close>

definition on_wm_destroy :: "Window \<Rightarrow> Window" where
  "on_wm_destroy w = w\<lparr>wi_published := False, wi_timer := False, wi_icon := None, wi_quit := True\<rparr>"

text \<open>\<^verbatim>\<open>DestroyWindow\<close> sends \<^verbatim>\<open>WM_DESTROY\<close> and drops what is posted to the window.\<close>

definition destroy_window :: "Window \<Rightarrow> Window" where
  "destroy_window w = (if wi_hwnd w then (on_wm_destroy w)\<lparr>wi_hwnd := False, wi_posted := []\<rparr> else w)"

text \<open>The box is shown with the lock held; locking it again on the same thread does not return.\<close>

definition on_error_message :: "Window \<Rightarrow> Window" where
  "on_error_message w =
     (if error_locked w then w\<lparr>wi_stuck := True\<rparr>
      else case wi_last_error w of
        None \<Rightarrow> w
      | Some e \<Rightarrow> w\<lparr>wi_last_error := None, wi_frames := BoxFrame # wi_frames w, wi_shown := wi_shown w @ [e]\<rparr>)"

text \<open>The observation is the one a refreshed icon shows; \<open>made\<close> says whether a menu could be created.\<close>

definition window_proc :: "TrayHostObservation \<Rightarrow> bool \<Rightarrow> message \<Rightarrow> Tray \<times> Window \<Rightarrow> Tray \<times> Window" where
  "window_proc o' made msg tw =
     (let (message, wparam, lparam) = msg; (t, w) = tw in
      if windows_power_event_is_resume message wparam then (handle_host_resume t, w)
      else if message = TRAY_CALLBACK_MESSAGE
      then (t, if (of_nat lparam :: u32) \<in> set [WM_RBUTTONUP, WM_LBUTTONDBLCLK] then show_menu made w else w)
      else if message = TRAY_SHOW_EXISTING_MESSAGE then (t, show_menu made w)
      else if message = TRAY_EXIT_COMPLETE_MESSAGE then (t, destroy_window w)
      else if message = TRAY_ERROR_MESSAGE then (t, on_error_message w)
      else if message = WM_COMMAND
      then (case tray_command_from_id (take_bit 16 wparam) of
              None \<Rightarrow> (t, w) | Some command \<Rightarrow> dispatch_tray_command o' command (t, w))
      else if message = WM_TIMER \<and> wparam = TRAY_ICON_TIMER_ID then (t, refresh_tray_icon t o' w)
      else if message = WM_CLOSE then (handle_exit t, w)
      else if message = WM_DESTROY then (t, on_wm_destroy w)
      else (t, w))"

section \<open>Setting the window up\<close>

text \<open>The outcomes of the calls of the setup.\<close>

record setup_calls =
  su_runtime_set :: bool
  su_icons :: bool
  su_module :: bool
  su_class :: bool
  su_window :: bool
  su_added :: bool

definition setup_window :: "setup_calls \<Rightarrow> Tray \<Rightarrow> Window \<Rightarrow> Window" where
  "setup_window calls t w =
     (if \<not> su_runtime_set calls then w\<lparr>wi_phase := Ended (Inl ''tray runtime was initialized more than once'')\<rparr>
      else if \<not> su_icons calls then w\<lparr>wi_phase := Ended (Inl ''tray icons'')\<rparr>
      else if \<not> su_module calls \<or> \<not> su_class calls \<or> \<not> su_window calls then w\<lparr>wi_phase := Ended (Inl ''last_os_error'')\<rparr>
      else
        let w = w\<lparr>wi_hwnd := True\<rparr> in
        if \<not> su_added calls then (destroy_window w)\<lparr>wi_phase := Ended (Inl ''last_os_error'')\<rparr>
        else w\<lparr>wi_phase := Created,
               wi_icon := Some (tray_desired_on t, apply_tooltip (tray_tooltip (tray_desired_on t) None))\<rparr>)"

definition setup_publish :: "TrayHostObservation \<Rightarrow> Tray \<Rightarrow> Window \<Rightarrow> Window" where
  "setup_publish o' t w = refresh_tray_icon t o' (w\<lparr>wi_published := True, wi_phase := Published\<rparr>)"

definition setup_timer :: "bool \<Rightarrow> Tray \<times> Window \<Rightarrow> Tray \<times> Window" where
  "setup_timer timer_set tw =
     (let (t, w) = tw; t = tray_send (Wake False) t in
      (t, if timer_set then w\<lparr>wi_timer := True, wi_phase := Pumping\<rparr>
          else (destroy_window w)\<lparr>wi_phase := Ended (Inl ''last_os_error'')\<rparr>))"

section \<open>Other instances and the broker\<close>

text \<open>\<open>created\<close> says whether the mutex could be opened, \<open>already\<close> whether it existed; \<open>w\<close> is the window of the instance
  that owns it.\<close>

definition acquire_tray_instance ::
  "string + string \<Rightarrow> bool \<Rightarrow> bool \<Rightarrow> Window \<Rightarrow> (string + string option) \<times> Window" where
  "acquire_tray_instance sid created already w =
     (case sid of
        Inl e \<Rightarrow> (Inl e, w)
      | Inr sid \<Rightarrow>
          if \<not> created then (Inl ''creating tray singleton mutex'', w)
          else if already then (Inr None, post_message (TRAY_SHOW_EXISTING_MESSAGE, 0, 0) w)
          else (Inr (Some (''GnirehtetVdTray_'' @ sid)), w))"

text \<open>\<open>seen i\<close> is the window at look \<open>i\<close>; the looks are 25 milliseconds apart.\<close>

fun request_tray_exit :: "nat \<Rightarrow> nat \<Rightarrow> (nat \<Rightarrow> Window) \<Rightarrow> (nat \<times> Window) option" where
  "request_tray_exit 0 i seen = None"
| "request_tray_exit (Suc n) i seen =
     (if wi_hwnd (seen i) then Some (i, post_message (WM_CLOSE, 0, 0) (seen i)) else request_tray_exit n (i + 1) seen)"

section \<open>What the coordinator does to the window\<close>

text \<open>\<^verbatim>\<open>report_tray_error\<close> up to its post, and \<^verbatim>\<open>exit_complete\<close>.\<close>

definition report_tray_error :: "bytes \<Rightarrow> Window \<Rightarrow> Window" where
  "report_tray_error e w = w\<lparr>wi_last_error := Some e, wi_posting := Some TRAY_ERROR_MESSAGE\<rparr>"

definition exit_complete :: "Window \<Rightarrow> Window" where
  "exit_complete w = w\<lparr>wi_posting := Some TRAY_EXIT_COMPLETE_MESSAGE\<rparr>"

fun on_tray_event :: "tray_event \<Rightarrow> Window \<Rightarrow> Window" where
  "on_tray_event (Reported e) w = report_tray_error e w"
| "on_tray_event (ExitComplete _) w = exit_complete w"
| "on_tray_event _ w = w"

definition post_pending :: "u32 \<Rightarrow> Window \<Rightarrow> Window" where
  "post_pending m w = (let w = w\<lparr>wi_posting := None\<rparr> in if wi_published w then post_message (m, 0, 0) w else w)"

definition reports :: "tray_event list \<Rightarrow> bytes list" where
  "reports l = concat (map (\<lambda>e. case e of Reported x \<Rightarrow> [x] | _ \<Rightarrow> []) l)"

section \<open>The application with its window\<close>

type_synonym tray_app = "Tray \<times> Coordinator \<times> Window"

text \<open>What the system, the user and other instances post: never the two messages of the coordinator, nor \<^verbatim>\<open>WM_DESTROY\<close>.\<close>

definition outside_message :: "u32 \<Rightarrow> bool" where
  "outside_message m \<longleftrightarrow> m \<notin> set [TRAY_EXIT_COMPLETE_MESSAGE, TRAY_ERROR_MESSAGE, WM_DESTROY]"

text \<open>The thread of the window can run \<^verbatim>\<open>window_proc\<close> or return to it.\<close>

definition pumping :: "Window \<Rightarrow> bool" where "pumping w \<longleftrightarrow> wi_phase w = Pumping \<and> \<not> wi_stuck w"

text \<open>A step of the coordinator always changes its phase; the other steps of the tray leave the coordinator alone.
  A report waits for the lock.\<close>

inductive app_step :: "tray_app \<Rightarrow> tray_app \<Rightarrow> bool" where
  app_setup: "wi_phase w = NotCreated \<Longrightarrow> app_step (t, c, w) (t, c, setup_window calls t w)"
| app_publish: "wi_phase w = Created \<Longrightarrow> app_step (t, c, w) (t, c, setup_publish o' t w)"
| app_timer: "wi_phase w = Published \<Longrightarrow> setup_timer timer_set (t, w) = (t', w') \<Longrightarrow> app_step (t, c, w) (t', c, w')"
| app_outside: "outside_message (fst m) \<Longrightarrow> app_step (t, c, w) (t, c, post_message m w)"
| app_instance: "app_step (t, c, w) (t, c, snd (acquire_tray_instance sid created True w))"
| app_broker_lost: "request_tray_exit 40 0 seen = Some (i, w') \<Longrightarrow> seen i = w \<Longrightarrow> app_step (t, c, w) (t, c, w')"
| app_message: "pumping w \<Longrightarrow> wi_posted w = m # ms \<Longrightarrow> window_proc o' made m (t, w\<lparr>wi_posted := ms\<rparr>) = (t', w') \<Longrightarrow>
    app_step (t, c, w) (t', c, w')"
| app_menu: "pumping w \<Longrightarrow> wi_frames w = MenuFrame # fs \<Longrightarrow> menu_chosen o' selected (t, w) = (t', w') \<Longrightarrow>
    app_step (t, c, w) (t', c, w')"
| app_box: "pumping w \<Longrightarrow> wi_frames w = BoxFrame # fs \<Longrightarrow> app_step (t, c, w) (t, c, w\<lparr>wi_frames := fs\<rparr>)"
| app_quit: "pumping w \<Longrightarrow> wi_frames w = [] \<Longrightarrow> wi_posted w = [] \<Longrightarrow> wi_quit w \<Longrightarrow>
    app_step (t, c, w) (t, c, w\<lparr>wi_phase := Ended (Inr ())\<rparr>)"
| app_pump_failed: "pumping w \<Longrightarrow> wi_frames w = [] \<Longrightarrow>
    app_step (t, c, w) (t, c, (destroy_window w)\<lparr>wi_phase := Ended (Inl ''last_os_error'')\<rparr>)"
| app_broker: "command_requires_lifecycle_serialization command \<Longrightarrow> app_step (t, c, w) (snd (handle_external command t), c, w)"
| app_coordinator: "wi_posting w = None \<Longrightarrow> tray_step (t, c) (t', c') \<Longrightarrow> c' \<noteq> c \<Longrightarrow> ty_log t' = ty_log t @ es \<Longrightarrow>
    reports es = [] \<or> \<not> error_locked w \<Longrightarrow> app_step (t, c, w) (t', c', fold on_tray_event es w)"
| app_posts: "wi_posting w = Some m \<Longrightarrow> app_step (t, c, w) (t, c, post_pending m w)"

inductive app_reachable :: "tray_app \<Rightarrow> bool" where
  app_started: "app_reachable (Tray_start, Coordinator_start, Window_start)"
| app_stepped: "app_reachable a \<Longrightarrow> app_step a a' \<Longrightarrow> app_reachable a'"

end
