(* ===== verification/TrayWindowProps.thy ===== *)
theory TrayWindowProps
  imports TrayWindow
begin

text \<open>
  Properties of the notification-area application with its window: it takes only steps of the tray, it ends without
  an error only after the link was seen off, the message that ends it is never lost, the boxes show reported
  errors in their order, and the lock held across a message box can block the window for good.
\<close>

section \<open>The window refines the tray\<close>

lemmas window_defs = refresh_tray_icon_def show_menu_def destroy_window_def on_wm_destroy_def on_error_message_def post_message_def

lemma tray_step_or_same:
  "(t, c) = (handle_toggle t, c) \<or> tray_step (t, c) (handle_toggle t, c)"
  "tray_step (t, c) (handle_diagnose t, c)" "tray_step (t, c) (handle_exit t, c)" "tray_step (t, c) (handle_host_resume t, c)"
  by (auto intro: tray_step.intros)

lemma dispatch_is_tray_step:
  "dispatch_tray_command o' command (t, w) = (t', w') \<Longrightarrow> tray_step (t, c) (t', c)"
  by (cases command) (auto simp: dispatch_tray_command_def Let_def intro: tray_step.intros)

lemma window_proc_is_tray_step:
  "window_proc o' made m (t, w) = (t', w') \<Longrightarrow> t' = t \<or> tray_step (t, c) (t', c)"
  by (auto simp: window_proc_def Let_def split_beta dispatch_is_tray_step split: if_splits option.splits
      intro: tray_step.intros)

lemma menu_is_tray_step:
  "menu_chosen o' selected (t, w) = (t', w') \<Longrightarrow> t' = t \<or> tray_step (t, c) (t', c)"
  by (auto simp: menu_chosen_def Let_def dispatch_is_tray_step split: option.splits)

lemma app_step_simulates:
  "app_step (t, c, w) (t', c', w') \<Longrightarrow> (t', c') = (t, c) \<or> tray_step (t, c) (t', c')"
  by (cases rule: app_step.cases)
     (auto simp: setup_timer_def Let_def dest: window_proc_is_tray_step menu_is_tray_step intro: tray_step.intros)

lemma app_reachable_tray: "app_reachable a \<Longrightarrow> tray_reachable (fst a, fst (snd a))"
proof (induction rule: app_reachable.induct)
  case app_started
  then show ?case by (simp add: started)
next
  case (app_stepped a a')
  then show ?case
    using app_step_simulates [of "fst a" "fst (snd a)" "snd (snd a)" "fst a'" "fst (snd a')" "snd (snd a')"]
    by (auto intro: stepped)
qed

text \<open>A property of all states the application can reach.\<close>

lemma app_reachable_inv:
  assumes "app_reachable a" "I (Tray_start, Coordinator_start, Window_start)"
    "\<And>a a'. app_reachable a \<Longrightarrow> app_step a a' \<Longrightarrow> I a \<Longrightarrow> I a'"
  shows "I a"
  using assms(1) by induction (use assms(2,3) in auto)

section \<open>Leaving\<close>

definition exit_pending :: "Window \<Rightarrow> bool" where
  "exit_pending w \<longleftrightarrow> wi_posting w = Some TRAY_EXIT_COMPLETE_MESSAGE \<or> TRAY_EXIT_COMPLETE_MESSAGE \<in> fst ` set (wi_posted w)"

text \<open>Nobody posts \<^verbatim>\<open>WM_DESTROY\<close>.\<close>

definition only_sent :: "Window \<Rightarrow> bool" where
  "only_sent w \<longleftrightarrow> wi_posting w \<noteq> Some WM_DESTROY \<and> WM_DESTROY \<notin> fst ` set (wi_posted w)"

text \<open>What the window looks like in each phase: \<open>asked\<close> says that an exit was asked for, \<open>returned\<close> that the coordinator
  has returned.\<close>

definition window_ok :: "bool \<Rightarrow> bool \<Rightarrow> Window \<Rightarrow> bool" where
  "window_ok asked returned w \<longleftrightarrow>
     (wi_published w \<longrightarrow> wi_hwnd w) \<and> (\<not> wi_hwnd w \<longrightarrow> wi_posted w = []) \<and> (exit_pending w \<longrightarrow> returned) \<and> only_sent w \<and>
     (case wi_phase w of
        NotCreated \<Rightarrow> \<not> wi_hwnd w \<and> \<not> wi_quit w \<and> \<not> wi_stuck w \<and> \<not> asked
      | Created \<Rightarrow> wi_hwnd w \<and> \<not> wi_published w \<and> \<not> wi_quit w \<and> \<not> wi_stuck w \<and> \<not> asked
      | Published \<Rightarrow> wi_published w \<and> \<not> wi_quit w \<and> \<not> wi_stuck w \<and> \<not> asked
      | Pumping \<Rightarrow> (wi_hwnd w \<longleftrightarrow> wi_published w) \<and> (wi_quit w \<longleftrightarrow> \<not> wi_hwnd w) \<and> (\<not> wi_hwnd w \<longrightarrow> returned) \<and>
          (wi_hwnd w \<and> returned \<longrightarrow> exit_pending w)
      | Ended result \<Rightarrow> \<not> wi_stuck w \<and> (result = Inr () \<longrightarrow> returned))"

definition exit_asked :: "Tray \<Rightarrow> bool" where "exit_asked t \<longleftrightarrow> ExitAsked \<in> set (ty_log t)"

definition leave_inv :: "tray_app \<Rightarrow> bool" where
  "leave_inv a \<longleftrightarrow> (case a of (t, c, w) \<Rightarrow> window_ok (exit_asked t) (co_phase c = Returned) w)"

text \<open>The coordinator has returned exactly if it has completed the exit.\<close>

definition returned_inv :: "tray_world \<Rightarrow> bool" where
  "returned_inv w \<longleftrightarrow> (co_phase (snd w) = Returned \<longleftrightarrow> (\<exists>o'. ExitComplete o' \<in> set (ty_log (fst w))))"

lemma returned_inv_step: "tray_step w w' \<Longrightarrow> returned_inv w \<Longrightarrow> returned_inv w'"
  by (induction rule: tray_step.induct)
     (auto simp: returned_inv_def handle_defs coordinator_defs Let_def
       split: sum.splits TrayCoordinatorRequest.splits Command.splits)

lemma returned_was_asked:
  assumes "tray_reachable (t, c)" "co_phase c = Returned"
  shows "exit_asked t"
proof -
  have "returned_inv (t, c)"
    using tray_reachable_inv [of "(t, c)" returned_inv] assms(1) returned_inv_step
    by (simp add: returned_inv_def Tray_start_def Coordinator_start_def)
  moreover have "exit_inv (t, c)"
    using tray_reachable_inv [of "(t, c)" exit_inv] assms(1) tray_start_invs(1) exit_inv_step by blast
  ultimately show ?thesis using assms(2) unfolding exit_asked_def exit_inv_def returned_inv_def by auto
qed

text \<open>What one step of the coordinator logs.\<close>

lemma coordinator_events:
  assumes "tray_step (t, c) (t', c')" "c' \<noteq> c" "ty_log t' = ty_log t @ es"
  shows "co_phase c \<noteq> Returned \<and>
    (if co_phase c' = Returned then \<exists>o'. es = [ExitComplete o']
     else (\<forall>o'. ExitComplete o' \<notin> set es) \<and> ExitAsked \<notin> set es \<and> (reports es = [] \<or> (\<exists>e. reports es = [e])))"
  using assms
  by (cases rule: tray_step.cases)
     (auto simp: on_request_def on_handled_def on_reconcile_def on_acted_def on_observed_def on_settled_def tray_log_def reports_def
       Let_def split: if_splits sum.splits TrayCoordinatorRequest.splits)

lemma fold_events_none:
  "\<forall>o'. ExitComplete o' \<notin> set es \<Longrightarrow> fold on_tray_event es w = fold report_tray_error (reports es) w"
proof (induction es arbitrary: w)
  case (Cons e es)
  then show ?case by (cases e) (auto simp: reports_def)
qed (simp add: reports_def)

lemma window_ok_report:
  assumes "window_ok asked False w"
  shows "window_ok asked False (report_tray_error e w)"
  using assms
  by (cases "wi_phase w") (auto simp: window_ok_def report_tray_error_def exit_pending_def only_sent_def message_numbers)

lemma window_ok_exit:
  assumes "window_ok asked returned w" "asked"
  shows "window_ok asked True (exit_complete w)"
  using assms
  by (cases "wi_phase w") (auto simp: window_ok_def exit_complete_def exit_pending_def only_sent_def message_numbers)

lemma window_ok_events:
  assumes ok: "window_ok asked (co_phase c = Returned) w"
    and moved: "tray_step (t, c) (t', c')" "c' \<noteq> c" "ty_log t' = ty_log t @ es"
    and asked: "co_phase c' = Returned \<Longrightarrow> asked"
  shows "window_ok asked (co_phase c' = Returned) (fold on_tray_event es w)"
proof (cases "co_phase c' = Returned")
  case True
  with coordinator_events [OF moved] obtain o' where "es = [ExitComplete o']" by auto
  with True ok asked window_ok_exit show ?thesis by simp
next
  case False
  with coordinator_events [OF moved] have quiet: "co_phase c \<noteq> Returned" "\<forall>o'. ExitComplete o' \<notin> set es"
    and "reports es = [] \<or> (\<exists>e. reports es = [e])" by auto
  then consider "reports es = []" | e where "reports es = [e]" by blast
  then show ?thesis
    by cases (use ok quiet False in \<open>simp_all add: fold_events_none window_ok_report\<close>)
qed

lemma window_ok_post:
  assumes "window_ok asked returned w" "fst m = TRAY_EXIT_COMPLETE_MESSAGE \<Longrightarrow> returned" "fst m \<noteq> WM_DESTROY"
  shows "window_ok asked returned (post_message m w)"
  using assms
  by (cases "wi_phase w") (auto simp: window_ok_def post_message_def exit_pending_def only_sent_def)

lemma window_ok_outside:
  "window_ok asked returned w \<Longrightarrow> outside_message (fst m) \<Longrightarrow> window_ok asked returned (post_message m w)"
  by (auto simp: outside_message_def intro: window_ok_post)

lemma own_messages_outside [simp]:
  "outside_message WM_NULL" "outside_message WM_CLOSE" "outside_message TRAY_SHOW_EXISTING_MESSAGE"
  by (simp_all add: outside_message_def message_numbers)

lemma window_ok_posts:
  assumes "window_ok asked returned w" "wi_posting w = Some m"
  shows "window_ok asked returned (post_pending m w)"
  using assms
  by (cases "wi_phase w") (auto simp: window_ok_def post_pending_def post_message_def exit_pending_def only_sent_def Let_def)

lemma window_ok_refresh [simp]: "window_ok asked returned (refresh_tray_icon t o' w) = window_ok asked returned w"
  by (cases "wi_icon w"; cases "wi_phase w") (simp_all add: window_ok_def refresh_tray_icon_def exit_pending_def only_sent_def)

text \<open>Asking for an exit from the window.\<close>

lemma window_ok_asked: "window_ok asked returned w \<Longrightarrow> wi_phase w = Pumping \<Longrightarrow> window_ok asked' returned w"
  by (simp add: window_ok_def)

lemma window_ok_taken:
  assumes "window_ok asked returned w" "wi_phase w = Pumping" "wi_posted w = m # ms" "fst m \<noteq> TRAY_EXIT_COMPLETE_MESSAGE"
  shows "window_ok asked returned (w\<lparr>wi_posted := ms\<rparr>)"
  using assms by (auto simp: window_ok_def exit_pending_def only_sent_def)

lemma window_ok_frames [simp]: "window_ok asked returned (w\<lparr>wi_frames := fs\<rparr>) = window_ok asked returned w"
  by (cases "wi_phase w") (simp_all add: window_ok_def exit_pending_def only_sent_def)

lemma window_ok_error:
  "window_ok asked returned w \<Longrightarrow> wi_phase w = Pumping \<Longrightarrow> window_ok asked returned (on_error_message w)"
  by (auto simp: window_ok_def exit_pending_def only_sent_def on_error_message_def split: option.splits)

lemma window_ok_destroy:
  assumes "window_ok asked True w" "wi_phase w = Pumping" "wi_posted w = m # ms"
  shows "window_ok asked True (destroy_window (w\<lparr>wi_posted := ms\<rparr>))"
  using assms by (auto simp: window_ok_def destroy_window_def on_wm_destroy_def exit_pending_def only_sent_def)

lemma window_ok_setup:
  assumes "window_ok asked returned w" "wi_phase w = NotCreated"
  shows "window_ok asked returned (setup_window calls t w)"
  using assms by (auto simp: window_ok_def setup_window_def destroy_window_def on_wm_destroy_def exit_pending_def only_sent_def Let_def)

lemma window_ok_publish:
  assumes "window_ok asked returned w" "wi_phase w = Created"
  shows "window_ok asked returned (setup_publish o' t w)"
  using assms by (simp add: setup_publish_def) (auto simp: window_ok_def exit_pending_def only_sent_def)

lemma window_ok_timer:
  assumes "window_ok asked returned w" "wi_phase w = Published" "setup_timer b (t, w) = (t', w')" "returned \<longrightarrow> asked"
  shows "window_ok asked returned w'"
  using assms
  by (auto simp: setup_timer_def Let_def window_ok_def destroy_window_def on_wm_destroy_def exit_pending_def only_sent_def split: if_splits)

lemma window_ok_ended:
  assumes "window_ok asked returned w" "wi_phase w = Pumping" "\<not> wi_stuck w"
  shows "wi_quit w \<Longrightarrow> window_ok asked returned (w\<lparr>wi_phase := Ended (Inr ())\<rparr>)"
    "window_ok asked returned ((destroy_window w)\<lparr>wi_phase := Ended (Inl e)\<rparr>)"
  using assms by (auto simp: window_ok_def destroy_window_def on_wm_destroy_def exit_pending_def only_sent_def)

lemma dispatch_window:
  "dispatch_tray_command o' command (t, w) = (t', w') \<Longrightarrow> wi_phase w = Pumping \<Longrightarrow> window_ok asked returned w \<Longrightarrow>
   window_ok asked' returned w'"
  by (auto simp: dispatch_tray_command_def Let_def dest: window_ok_asked)

lemma window_proc_window:
  assumes "window_proc o' made m (t, w\<lparr>wi_posted := ms\<rparr>) = (t', w')" "wi_posted w = m # ms" "wi_phase w = Pumping"
    "window_ok asked returned w"
  shows "window_ok asked' returned w'"
proof (cases "fst m = TRAY_EXIT_COMPLETE_MESSAGE")
  case True
  then have "exit_pending w" using assms(2) by (auto simp: exit_pending_def only_sent_def)
  then have returned using assms(4) by (simp add: window_ok_def)
  moreover have "w' = destroy_window (w\<lparr>wi_posted := ms\<rparr>)"
    using assms(1) True by (auto simp: window_proc_def windows_power_event_is_resume_def message_numbers split_beta)
  moreover have "window_ok asked' returned w" using assms(3,4) window_ok_asked by blast
  ultimately show ?thesis using window_ok_destroy assms(2,3) by simp
next
  case False
  let ?w = "w\<lparr>wi_posted := ms\<rparr>"
  have ok: "window_ok asked' returned ?w" "wi_phase ?w = Pumping"
    using window_ok_taken [OF _ assms(3,2) False] window_ok_asked [OF assms(4,3)] assms(3) by auto
  have "fst m \<noteq> WM_DESTROY" using assms(2,4) by (auto simp: window_ok_def only_sent_def)
  with assms(1) False ok window_ok_error [OF ok] show ?thesis
    by (auto simp: window_proc_def split_beta show_menu_def split: if_splits option.splits dest: dispatch_window)
qed

lemma exit_asked_kept [simp]:
  "exit_asked (snd (handle_external command t)) = exit_asked t" "exit_asked (tray_send r t) = exit_asked t"
  by (auto simp: exit_asked_def handle_external_def tray_send_def Let_def split: Command.splits)

lemma menu_window:
  assumes "menu_chosen o' selected (t, w) = (t', w')" "wi_phase w = Pumping" "window_ok asked returned w"
  shows "window_ok asked' returned w'"
proof -
  let ?w = "post_message (WM_NULL, 0, 0) (w\<lparr>wi_frames := tl (wi_frames w)\<rparr>)"
  have ok: "window_ok asked' returned ?w"
    using window_ok_asked [OF assms(3,2)] by (intro window_ok_outside) simp_all
  have "wi_phase ?w = Pumping" using assms(2) by (simp add: post_message_def)
  with assms(1) ok show ?thesis by (auto simp: menu_chosen_def Let_def split: option.splits dest: dispatch_window)
qed

lemma request_tray_exit_posts:
  "request_tray_exit n k seen = Some (i, w') \<Longrightarrow> w' = post_message (WM_CLOSE, 0, 0) (seen i)"
  by (induction n k seen rule: request_tray_exit.induct) (auto split: if_splits)

lemma instance_window:
  "snd (acquire_tray_instance sid created True w) \<in> {w, post_message (TRAY_SHOW_EXISTING_MESSAGE, 0, 0) w}"
  by (auto simp: acquire_tray_instance_def split: sum.splits)

lemma leave_inv_step:
  assumes "app_reachable a" "app_step a a'" "leave_inv a"
  shows "leave_inv a'"
  using assms(2)
proof (cases rule: app_step.cases)
  case (app_setup w t c calls)
  then show ?thesis using assms(3) by (simp add: leave_inv_def window_ok_setup)
next
  case (app_publish w t c o')
  then show ?thesis using assms(3) by (simp add: leave_inv_def window_ok_publish)
next
  case (app_timer w b t t' w' c)
  moreover have "co_phase c = Returned \<longrightarrow> exit_asked t"
    using app_reachable_tray [OF assms(1)] returned_was_asked app_timer(1) by auto
  moreover have "t' = tray_send (Wake False) t" using app_timer(4) by (simp add: setup_timer_def)
  ultimately show ?thesis using assms(3) window_ok_timer [OF _ app_timer(3,4)] by (simp add: leave_inv_def)
next
  case (app_outside m t c w)
  then show ?thesis using assms(3) by (simp add: leave_inv_def window_ok_outside)
next
  case (app_instance t c w sid created)
  then show ?thesis
    using assms(3) instance_window [of sid created w] by (auto simp: leave_inv_def window_ok_outside)
next
  case (app_broker_lost seen i w' w t c)
  then show ?thesis
    using assms(3) by (auto simp: leave_inv_def window_ok_outside dest!: request_tray_exit_posts)
next
  case (app_message w m ms o' made t t' w' c)
  then show ?thesis using assms(3) window_proc_window [OF app_message(5,4)] by (auto simp: leave_inv_def pumping_def)
next
  case (app_menu w fs o' selected t t' w' c)
  then show ?thesis using assms(3) menu_window [OF app_menu(5)] by (auto simp: leave_inv_def pumping_def)
next
  case (app_box w fs t c)
  then show ?thesis using assms(3) by (simp add: leave_inv_def)
next
  case (app_quit w t c)
  then show ?thesis using assms(3) by (auto simp: leave_inv_def pumping_def window_ok_ended)
next
  case (app_pump_failed w t c)
  then show ?thesis using assms(3) by (auto simp: leave_inv_def pumping_def window_ok_ended)
next
  case (app_broker command t c w)
  then show ?thesis using assms(3) by (simp add: leave_inv_def)
next
  case (app_coordinator w t c t' c' es)
  then have "app_reachable (t', c', fold on_tray_event es w)" using assms(1,2) app_stepped by blast
  then have "co_phase c' = Returned \<Longrightarrow> exit_asked t'" using app_reachable_tray returned_was_asked by fastforce
  moreover have "exit_asked t' = exit_asked t"
    using coordinator_events [OF app_coordinator(4-6)] app_coordinator(6) by (auto simp: exit_asked_def split: if_splits)
  ultimately show ?thesis
    using assms(3) window_ok_events [OF _ app_coordinator(4-6)] app_coordinator(1,2) by (auto simp: leave_inv_def)
next
  case (app_posts w m t c)
  then show ?thesis using assms(3) by (simp add: leave_inv_def window_ok_posts)
qed

lemma leave_inv_reachable: "app_reachable a \<Longrightarrow> leave_inv a"
  by (rule app_reachable_inv [of a leave_inv])
     (simp_all add: leave_inv_step, simp add: leave_inv_def window_ok_def Window_start_def exit_pending_def only_sent_def
       exit_asked_def Tray_start_def)

section \<open>Error boxes\<close>

definition kept_error :: "Window \<Rightarrow> bytes list" where
  "kept_error w = (case wi_last_error w of None \<Rightarrow> [] | Some e \<Rightarrow> [e])"

text \<open>The boxes that were shown, with the error that waits, are some of the reports, and at most one box is open.\<close>

definition boxes_ok :: "bytes list \<Rightarrow> Window \<Rightarrow> bool" where
  "boxes_ok reported w \<longleftrightarrow> subseq (wi_shown w @ kept_error w) reported \<and>
     length (filter ((=) BoxFrame) (wi_frames w)) \<le> 1"

lemma reports_simps [simp]: "reports [] = []" "reports (a @ b) = reports a @ reports b"
  by (simp_all add: reports_def)

lemma reports_one [simp]: "reports [ExitAsked] = []"
  by (simp add: reports_def)

lemma boxes_ok_more: "boxes_ok reported w \<Longrightarrow> boxes_ok (reported @ es) w"
  by (auto simp: boxes_ok_def intro: subseq_order.trans subseq_rev_drop_many)

lemma boxes_ok_report: "boxes_ok reported w \<Longrightarrow> boxes_ok (reported @ [e]) (report_tray_error e w)"
  by (auto simp: boxes_ok_def report_tray_error_def kept_error_def intro!: list_emb_append_mono
      elim: list_emb_append_mono dest: subseq_order.trans [OF subseq_rev_drop_many [OF subseq_order.refl]])

lemma boxes_ok_window [simp]:
  "boxes_ok reported (post_message m w) = boxes_ok reported w"
  "boxes_ok reported (refresh_tray_icon t o' w) = boxes_ok reported w"
  "boxes_ok reported (destroy_window w) = boxes_ok reported w"
  "boxes_ok reported (show_menu made w) = boxes_ok reported w"
  "boxes_ok reported (w\<lparr>wi_posted := ms\<rparr>) = boxes_ok reported w"
  "boxes_ok reported (w\<lparr>wi_phase := p\<rparr>) = boxes_ok reported w"
  "boxes_ok reported (on_wm_destroy w) = boxes_ok reported w"
  "boxes_ok reported (post_pending u w) = boxes_ok reported w"
  "boxes_ok reported (exit_complete w) = boxes_ok reported w"
  by (auto simp: boxes_ok_def kept_error_def window_defs post_pending_def exit_complete_def Let_def split: option.splits)

lemma boxes_ok_frames: "boxes_ok reported w \<Longrightarrow> wi_frames w = f # fs \<Longrightarrow> boxes_ok reported (w\<lparr>wi_frames := fs\<rparr>)"
  by (auto simp: boxes_ok_def kept_error_def split: if_splits)

lemma unlocked_frames: "\<not> error_locked w \<Longrightarrow> filter ((=) BoxFrame) (wi_frames w) = []"
  by (auto simp: error_locked_def filter_empty_conv)

lemma boxes_ok_error: "boxes_ok reported w \<Longrightarrow> boxes_ok reported (on_error_message w)"
  by (auto simp: boxes_ok_def kept_error_def on_error_message_def unlocked_frames split: option.splits)

lemma handles_report_nothing [simp]:
  "reports (ty_log (handle_toggle t)) = reports (ty_log t)" "reports (ty_log (handle_diagnose t)) = reports (ty_log t)"
  "reports (ty_log (handle_exit t)) = reports (ty_log t)" "reports (ty_log (handle_host_resume t)) = reports (ty_log t)"
  "reports (ty_log (snd (handle_external command t))) = reports (ty_log t)" "reports (ty_log (tray_send r t)) = reports (ty_log t)"
  by (auto simp: handle_defs Let_def split: Command.splits)

definition box_inv :: "tray_app \<Rightarrow> bool" where
  "box_inv a \<longleftrightarrow> (case a of (t, c, w) \<Rightarrow> boxes_ok (reports (ty_log t)) w)"

lemma box_inv_dispatch:
  "dispatch_tray_command o' command (t, w) = (t', w') \<Longrightarrow> boxes_ok (reports (ty_log t)) w \<Longrightarrow> boxes_ok (reports (ty_log t')) w'"
  by (cases command) (auto simp: dispatch_tray_command_def Let_def)

lemma box_inv_window_proc:
  "window_proc o' made m (t, w) = (t', w') \<Longrightarrow> boxes_ok (reports (ty_log t)) w \<Longrightarrow> boxes_ok (reports (ty_log t')) w'"
  by (auto simp: window_proc_def split_beta boxes_ok_error split: if_splits option.splits dest: box_inv_dispatch)

lemma box_inv_events:
  assumes "boxes_ok reported w" "tray_step (t, c) (t', c')" "c' \<noteq> c" "ty_log t' = ty_log t @ es"
  shows "boxes_ok (reported @ reports es) (fold on_tray_event es w)"
proof (cases "co_phase c' = Returned")
  case True
  with coordinator_events [OF assms(2-4)] obtain o' where "es = [ExitComplete o']" by auto
  with assms(1) show ?thesis by (simp add: reports_def)
next
  case False
  with coordinator_events [OF assms(2-4)] consider "reports es = []" | e where "reports es = [e]" by auto
  then show ?thesis
    using coordinator_events [OF assms(2-4)] False assms(1) by cases (simp_all add: fold_events_none boxes_ok_report)
qed

lemma box_inv_step: "app_step a a' \<Longrightarrow> box_inv a \<Longrightarrow> box_inv a'"
proof (induction rule: app_step.induct)
  case (app_coordinator w t c t' c' es)
  then show ?case using box_inv_events by (auto simp: box_inv_def)
next
  case (app_menu w fs o' selected t t' w' c)
  then show ?case
    by (auto simp: box_inv_def menu_chosen_def Let_def split: option.splits intro: boxes_ok_frames dest!: box_inv_dispatch)
next
  case (app_instance t c w sid created)
  then show ?case using instance_window [of sid created w] by (auto simp: box_inv_def)
next
  case (app_timer w b t t' w' c)
  then show ?case by (auto simp: box_inv_def setup_timer_def boxes_ok_def kept_error_def destroy_window_def on_wm_destroy_def)
next
  case (app_setup w t c calls)
  then show ?case
    by (auto simp: box_inv_def setup_window_def Let_def boxes_ok_def kept_error_def destroy_window_def on_wm_destroy_def)
next
  case (app_publish w t c o')
  then show ?case by (simp add: box_inv_def setup_publish_def) (simp add: boxes_ok_def kept_error_def)
qed (auto simp: box_inv_def boxes_ok_frames dest!: request_tray_exit_posts dest: box_inv_window_proc)

section \<open>Leaving is possible\<close>

text \<open>What the dispatch of a message keeps, other than the frames and the icon.\<close>

definition same_queue :: "Window \<Rightarrow> Window \<Rightarrow> bool" where
  "same_queue w w' \<longleftrightarrow> wi_posted w' = wi_posted w \<and> wi_hwnd w' = wi_hwnd w \<and> wi_phase w' = wi_phase w \<and>
     wi_stuck w' = wi_stuck w \<and> wi_quit w' = wi_quit w"

lemma dispatch_same_queue: "dispatch_tray_command o' command (t, w) = (t', w') \<Longrightarrow> same_queue w w'"
  by (auto simp: dispatch_tray_command_def Let_def same_queue_def refresh_tray_icon_def split: option.splits)

lemma window_proc_same_queue:
  assumes "window_proc o' made m (t, w) = (t', w')" "wi_frames w = []" "fst m \<notin> {TRAY_EXIT_COMPLETE_MESSAGE, WM_DESTROY}"
  shows "same_queue w w'"
  using assms
  by (auto simp: window_proc_def split_beta show_menu_def same_queue_def refresh_tray_icon_def on_error_message_def error_locked_def
      split: if_splits option.splits dest: dispatch_same_queue [unfolded same_queue_def])

text \<open>The menus and boxes can be closed, without a choice.\<close>

lemma frames_close:
  assumes "pumping w"
  shows "\<exists>w' k. app_step\<^sup>*\<^sup>* (t, c, w) (t, c, w') \<and> wi_frames w' = [] \<and>
    same_queue (w\<lparr>wi_posted := wi_posted w @ (if wi_hwnd w then replicate k (WM_NULL, 0, 0) else [])\<rparr>) w'"
  using assms
proof (induction "wi_frames w" arbitrary: w)
  case Nil
  then show ?case by (intro exI [of _ w] exI [of _ 0]) (simp add: same_queue_def)
next
  case (Cons f fs)
  define w1 where "w1 = (if f = BoxFrame then w\<lparr>wi_frames := fs\<rparr> else post_message (WM_NULL, 0, 0) (w\<lparr>wi_frames := fs\<rparr>))"
  have step: "app_step (t, c, w) (t, c, w1)"
  proof (cases f)
    case BoxFrame
    then show ?thesis using Cons.hyps(2) [symmetric] Cons.prems by (simp add: w1_def app_box)
  next
    case MenuFrame
    moreover have "menu_chosen (undefined :: TrayHostObservation) 0 (t, w) = (t, w1)"
      using MenuFrame Cons.hyps(2) [symmetric]
      by (simp add: menu_chosen_def w1_def tray_command_from_id_def TRAY_TOGGLE_ID_def TRAY_DIAGNOSE_ID_def TRAY_EXIT_ID_def)
    ultimately show ?thesis using Cons.hyps(2) [symmetric] Cons.prems by (metis app_menu)
  qed
  have "fs = wi_frames w1" "pumping w1" using Cons.prems by (auto simp: w1_def post_message_def pumping_def)
  from Cons.hyps(1) [OF this] obtain w' k where rest: "app_step\<^sup>*\<^sup>* (t, c, w1) (t, c, w')" "wi_frames w' = []"
    "same_queue (w1\<lparr>wi_posted := wi_posted w1 @ (if wi_hwnd w1 then replicate k (WM_NULL, 0, 0) else [])\<rparr>) w'" by blast
  have "same_queue (w\<lparr>wi_posted := wi_posted w @ (if wi_hwnd w then replicate (if f = BoxFrame then k else Suc k) (WM_NULL, 0, 0) else [])\<rparr>) w'"
    using rest(3) by (auto simp: same_queue_def w1_def post_message_def)
  then show ?case using rest(1,2) step by (meson converse_rtranclp_into_rtranclp)
qed

text \<open>The application can leave its loop from here.\<close>

definition can_leave :: "tray_app \<Rightarrow> bool" where
  "can_leave a \<longleftrightarrow> (\<exists>t c w. app_step\<^sup>*\<^sup>* a (t, c, w) \<and> wi_phase w = Ended (Inr ()))"

lemma can_leave_steps: "app_step\<^sup>*\<^sup>* a a' \<Longrightarrow> can_leave a' \<Longrightarrow> can_leave a"
  unfolding can_leave_def by (meson rtranclp_trans)

lemma can_leave_quit:
  assumes "pumping w" "wi_frames w = []" "wi_posted w = []" "wi_quit w"
  shows "can_leave (t, c, w)"
  unfolding can_leave_def
  by (intro exI conjI, rule r_into_rtranclp, rule app_quit [OF assms]) simp

lemma exit_message_taken:
  assumes "pumping w" "wi_hwnd w" "wi_frames w = []" "wi_posted w = m # ms" "fst m = TRAY_EXIT_COMPLETE_MESSAGE"
  shows "can_leave (t, c, w)"
proof -
  let ?w = "destroy_window (w\<lparr>wi_posted := ms\<rparr>)"
  have "window_proc (undefined :: TrayHostObservation) True m (t, w\<lparr>wi_posted := ms\<rparr>) = (t, ?w)"
    using assms(5) by (cases m) (simp add: window_proc_def windows_power_event_is_resume_def message_numbers)
  then have "app_step (t, c, w) (t, c, ?w)" using app_message [OF assms(1,4)] by simp
  moreover have "can_leave (t, c, ?w)"
    by (rule can_leave_quit) (use assms(1-3) in \<open>simp_all add: pumping_def destroy_window_def on_wm_destroy_def\<close>)
  ultimately show ?thesis using can_leave_steps by blast
qed

lemma exit_message_reached:
  assumes "pumping w" "wi_hwnd w" "wi_frames w = []" "wi_posted w = before @ m' # after" "fst m' = TRAY_EXIT_COMPLETE_MESSAGE"
    "WM_DESTROY \<notin> fst ` set before"
  shows "can_leave (t, c, w)"
  using assms
proof (induction before arbitrary: t w after)
  case Nil
  then show ?case using exit_message_taken by auto
next
  case (Cons m before)
  show ?case
  proof (cases "fst m = TRAY_EXIT_COMPLETE_MESSAGE")
    case True
    then show ?thesis using Cons.prems exit_message_taken by auto
  next
    case False
    let ?w = "w\<lparr>wi_posted := before @ m' # after\<rparr>"
    obtain t1 w1 where proc: "window_proc (undefined :: TrayHostObservation) True m (t, ?w) = (t1, w1)" by fastforce
    then have 1: "app_step (t, c, w) (t1, c, w1)" using app_message [OF Cons.prems(1)] Cons.prems(4) by simp
    have same: "same_queue ?w w1"
      using window_proc_same_queue [OF proc] Cons.prems(3,6) False by auto
    then have live: "pumping w1" "wi_hwnd w1" using Cons.prems(1,2) by (simp_all add: same_queue_def pumping_def)
    from frames_close [OF this(1)] obtain w2 k where 2: "app_step\<^sup>*\<^sup>* (t1, c, w1) (t1, c, w2)" "wi_frames w2 = []"
      "same_queue (w1\<lparr>wi_posted := wi_posted w1 @ (if wi_hwnd w1 then replicate k (WM_NULL, 0, 0) else [])\<rparr>) w2" by blast
    then have "pumping w2" "wi_hwnd w2" "wi_posted w2 = before @ m' # (after @ replicate k (WM_NULL, 0, 0))"
      using same live by (simp_all add: same_queue_def pumping_def)
    then have "can_leave (t1, c, w2)" using Cons.IH [OF _ _ 2(2)] Cons.prems(5,6) by simp
    then show ?thesis using 1 2(1) can_leave_steps by (meson converse_rtranclp_into_rtranclp)
  qed
qed

lemma returned_can_leave:
  assumes "app_reachable (t, c, w)" "co_phase c = Returned" "pumping w"
  shows "can_leave (t, c, w)"
proof -
  define w1 where "w1 = (case wi_posting w of None \<Rightarrow> w | Some m \<Rightarrow> post_pending m w)"
  have "app_step\<^sup>*\<^sup>* (t, c, w) (t, c, w1)"
    by (cases "wi_posting w") (auto simp: w1_def intro: r_into_rtranclp app_posts)
  moreover have "can_leave (t, c, w1)"
  proof -
    have ok: "window_ok (exit_asked t) True w" using leave_inv_reachable [OF assms(1)] assms(2) by (simp add: leave_inv_def)
    then have ok1: "window_ok (exit_asked t) True w1" by (auto simp: w1_def window_ok_posts split: option.splits)
    have w1: "wi_posting w1 = None" "pumping w1"
      using assms(3) by (auto simp: w1_def post_pending_def post_message_def pumping_def Let_def split: option.splits)
    from frames_close [OF w1(2)] obtain w2 k where 2: "app_step\<^sup>*\<^sup>* (t, c, w1) (t, c, w2)" "wi_frames w2 = []"
      "same_queue (w1\<lparr>wi_posted := wi_posted w1 @ (if wi_hwnd w1 then replicate k (WM_NULL, 0, 0) else [])\<rparr>) w2" by blast
    have "can_leave (t, c, w2)"
    proof (cases "wi_hwnd w1")
      case False
      then show ?thesis
        using ok1 w1(2) 2(2,3) by (intro can_leave_quit) (auto simp: window_ok_def pumping_def same_queue_def)
    next
      case True
      with ok1 w1 obtain m where "m \<in> set (wi_posted w1)" "fst m = TRAY_EXIT_COMPLETE_MESSAGE"
        by (auto simp: window_ok_def pumping_def exit_pending_def)
      moreover from this obtain before after where split: "wi_posted w1 = before @ m # after" by (meson split_list)
      ultimately show ?thesis
        using True w1(2) 2(2,3) ok1
        by (intro exit_message_reached [where before = before and m' = m and after = "after @ replicate k (WM_NULL, 0, 0)"])
           (auto simp: window_ok_def pumping_def same_queue_def only_sent_def)
    qed
    then show ?thesis using 2(1) can_leave_steps by blast
  qed
  ultimately show ?thesis using can_leave_steps by blast
qed

section \<open>The lock across the message box\<close>

text \<open>Once the thread of the window waits for the lock it holds, it waits for good.\<close>

lemma stuck_step:
  assumes "app_step (t, c, w) (t', c', w')" "wi_stuck w" "wi_phase w = Pumping"
  shows "wi_stuck w' \<and> wi_phase w' = Pumping"
  using assms
proof (cases rule: app_step.cases)
  case (app_coordinator es)
  have "fold on_tray_event es w = w' \<Longrightarrow> wi_stuck w' = wi_stuck w \<and> wi_phase w' = wi_phase w" for es
  proof (induction es arbitrary: w)
    case (Cons e es)
    then show ?case by (cases e) (fastforce simp: report_tray_error_def exit_complete_def)+
  qed simp
  with app_coordinator assms show ?thesis by auto
qed (use instance_window in \<open>auto simp: pumping_def post_message_def post_pending_def Let_def acquire_tray_instance_def
       split: sum.splits dest!: request_tray_exit_posts\<close>)

lemma stuck_steps:
  "app_step\<^sup>*\<^sup>* a a' \<Longrightarrow> wi_stuck (snd (snd a)) \<and> wi_phase (snd (snd a)) = Pumping \<Longrightarrow>
   wi_stuck (snd (snd a')) \<and> wi_phase (snd (snd a')) = Pumping"
proof (induction rule: rtranclp_induct)
  case (step a1 a2)
  then show ?case
    using stuck_step [of "fst a1" "fst (snd a1)" "snd (snd a1)" "fst a2" "fst (snd a2)" "snd (snd a2)"] by simp
qed

lemma coordinator_moves:
  assumes "app_reachable (t, c, w)" "wi_posting w = None" "tray_step (t, c) (t', c')" "co_phase c' \<noteq> co_phase c"
    "ty_log t' = ty_log t @ es" "reports es = [] \<or> wi_frames w = []"
  shows "app_reachable (t', c', fold on_tray_event es w)"
proof -
  have "c' \<noteq> c" "reports es = [] \<or> \<not> error_locked w" using assms(4,6) by (auto simp: error_locked_def)
  then show ?thesis using app_stepped [OF assms(1) app_coordinator [OF assms(2,3) _ assms(5)]] by blast
qed

definition link_up :: TrayHostObservation where
  "link_up = \<lparr>to_lifecycle = Connected, to_daemon_running = True, to_runtime_visible = True\<rparr>"

text \<open>While the link is wanted and up, the coordinator ends a round where it began it.\<close>

lemma quiet_round:
  assumes "app_reachable (t, c, w)" "co_phase c = Reconciling" "ty_intent t = IntentOn" "wi_posting w = None"
  shows "\<exists>t' c'. app_reachable (t', c', w) \<and> co_phase c' = Receiving \<and> ty_intent t' = IntentOn \<and> ty_queue t' = ty_queue t"
proof -
  define t1 where "t1 = tray_log [Decided NoAction] t"
  define c1 where "c1 = c\<lparr>co_phase := Observing\<rparr>"
  define c2 where "c2 = c1\<lparr>co_retry_delay := TRAY_RETRY_INITIAL, co_report_next_stop_error := False, co_phase := Settling True\<rparr>"
  have act: "tray_reconcile_action True link_up = NoAction" by (simp add: tray_reconcile_action_def link_up_def)
  have 1: "on_reconcile link_up (t, c) = (t1, c1)"
    using assms(3) act by (simp add: on_reconcile_def tray_desired_on_def t1_def c1_def)
  have 2: "on_observed link_up (t1, c1) = (t1, c2)"
    using assms(3) act by (simp add: on_observed_def tray_desired_on_def t1_def tray_log_def c2_def)
  have 3: "on_settled link_up (t1, c2) = (t1, c2\<lparr>co_phase := Receiving\<rparr>)"
    using assms(3) by (simp add: on_settled_def tray_exit_requested_def t1_def tray_log_def)
  have r1: "app_reachable (t1, c1, w)"
    using coordinator_moves [OF assms(1,4) reconcile [OF assms(2), of t link_up, unfolded 1], of "[Decided NoAction]"] assms(2)
    by (simp add: t1_def c1_def tray_log_def reports_def)
  have r2: "app_reachable (t1, c2, w)"
    using coordinator_moves [OF r1 assms(4) observed [of c1 t1 link_up, unfolded 2], of "[]"] by (simp add: c1_def c2_def)
  have "app_reachable (t1, c2\<lparr>co_phase := Receiving\<rparr>, w)"
    using coordinator_moves [OF r2 assms(4) settled [of c2 True t1 link_up, unfolded 3], of "[]"] by (simp add: c2_def)
  moreover have "ty_intent t1 = IntentOn" "ty_queue t1 = ty_queue t" using assms(3) by (simp_all add: t1_def tray_log_def)
  ultimately show ?thesis by force
qed

lemma taking_round:
  assumes "app_reachable (t, c, w)" "co_phase c = Receiving" "ty_intent t = IntentOn" "wi_posting w = None" "wi_frames w = []"
    "ty_queue t = r # rs" "r = Wake False \<and> w' = w \<or> r = ResumeRequest \<and> w' = post_pending TRAY_ERROR_MESSAGE (report_tray_error e w)"
  shows "\<exists>t' c'. app_reachable (t', c', w') \<and> co_phase c' = Receiving \<and> ty_intent t' = IntentOn \<and> ty_queue t' = rs"
proof -
  define t1 where "t1 = t\<lparr>ty_queue := rs\<rparr>"
  define c1 where "c1 = on_request r c"
  have r1: "app_reachable (t1, c1, w)"
    using coordinator_moves [OF assms(1,4) receive [OF assms(2,6)], of "[]"] assms(2)
    by (simp add: t1_def c1_def on_request_def Let_def)
  have ph: "co_phase c1 = Handling r" by (simp add: c1_def on_request_def Let_def)
  obtain t2 c2 where t2: "on_handled r (Inl e) (t1, c1) = (t2, c2)" by fastforce
  then have st: "tray_step (t1, c1) (t2, c2)" using handled [OF ph, of t1 "Inl e"] by simp
  from t2 assms(7) have c2: "co_phase c2 = Reconciling" "ty_intent t2 = IntentOn" "ty_queue t2 = rs"
    using assms(3) by (auto simp: on_handled_def t1_def tray_log_def Let_def)
  have "app_reachable (t2, c2, w')"
    using assms(7)
  proof
    assume r: "r = Wake False \<and> w' = w"
    then have "ty_log t2 = ty_log t1" using t2 by (auto simp: on_handled_def Let_def)
    then show ?thesis using coordinator_moves [OF r1 assms(4) st, of "[]"] c2(1) ph r by simp
  next
    assume r: "r = ResumeRequest \<and> w' = post_pending TRAY_ERROR_MESSAGE (report_tray_error e w)"
    then have "ty_log t2 = ty_log t1 @ [Reported e]" using t2 by (auto simp: on_handled_def Let_def tray_log_def)
    then have "app_reachable (t2, c2, report_tray_error e w)"
      using coordinator_moves [OF r1 assms(4) st, of "[Reported e]"] c2(1) ph assms(5) by simp
    then show ?thesis using app_stepped [OF _ app_posts] r by (simp add: report_tray_error_def)
  qed
  moreover have "wi_posting w' = None"
    using assms(4,7) by (auto simp: post_pending_def post_message_def report_tray_error_def Let_def)
  ultimately show ?thesis using quiet_round [OF _ c2(1,2)] c2(3) by metis
qed

text \<open>The window set up, with the wake of the setup queued.\<close>

definition good_setup :: setup_calls where
  "good_setup = \<lparr>su_runtime_set = True, su_icons = True, su_module = True, su_class = True, su_window = True, su_added = True\<rparr>"

definition running_window :: Window where
  "running_window = (setup_publish link_up Tray_start (setup_window good_setup Tray_start Window_start))\<lparr>wi_timer := True, wi_phase := Pumping\<rparr>"

definition running_tray :: Tray where "running_tray = tray_send (Wake False) Tray_start"

lemma running_window_fields [simp]:
  "wi_phase running_window = Pumping" "wi_hwnd running_window" "wi_published running_window" "wi_posted running_window = []"
  "\<not> wi_quit running_window" "wi_last_error running_window = None" "wi_frames running_window = []"
  "wi_shown running_window = []" "\<not> wi_stuck running_window" "wi_posting running_window = None"
  by (simp_all add: running_window_def setup_publish_def setup_window_def refresh_tray_icon_def good_setup_def Window_start_def)

lemma running_reachable: "app_reachable (running_tray, Coordinator_start, running_window)"
proof -
  let ?w1 = "setup_window good_setup Tray_start Window_start" and ?w2 = "setup_publish link_up Tray_start (setup_window good_setup Tray_start Window_start)"
  have 1: "app_reachable (Tray_start, Coordinator_start, ?w1)"
    by (rule app_stepped [OF app_started app_setup]) (simp add: Window_start_def)
  have 2: "app_reachable (Tray_start, Coordinator_start, ?w2)"
    by (rule app_stepped [OF 1 app_publish]) (simp add: setup_window_def good_setup_def)
  show ?thesis
    by (rule app_stepped [OF 2 app_timer [where timer_set = True]])
       (simp_all add: setup_timer_def running_tray_def running_window_def setup_publish_def refresh_tray_icon_def
         setup_window_def good_setup_def)
qed

text \<open>The system announces twice that it resumed.\<close>

definition resume_message :: message where "resume_message = (WM_POWERBROADCAST, 0x0012, 0)"

lemma resume_dispatched:
  assumes "app_reachable (t, c, w)" "pumping w" "wi_hwnd w" "wi_posted w = []" "ty_intent t = IntentOn" "\<not> ty_closed t"
  shows "app_reachable (t\<lparr>ty_queue := ty_queue t @ [ResumeRequest]\<rparr>, c, w)"
proof -
  let ?w = "post_message resume_message w"
  have "app_reachable (t, c, ?w)"
    by (rule app_stepped [OF assms(1) app_outside]) (simp add: resume_message_def outside_message_def message_numbers)
  moreover have "window_proc link_up True resume_message (t, ?w\<lparr>wi_posted := []\<rparr>) = (t\<lparr>ty_queue := ty_queue t @ [ResumeRequest]\<rparr>, w)"
    using assms(3-6)
    by (simp add: window_proc_def resume_message_def windows_power_event_is_resume_def message_numbers handle_host_resume_def
        tray_exit_requested_def tray_desired_on_def tray_send_def post_message_def)
  ultimately show ?thesis
    using app_stepped [OF _ app_message [of ?w resume_message "[]"]] assms(2-4) by (simp add: pumping_def post_message_def)
qed

lemma error_box_opens:
  assumes "app_reachable (t, c, w)" "pumping w" "wi_posted w = (TRAY_ERROR_MESSAGE, 0, 0) # ms"
  shows "app_reachable (t, c, on_error_message (w\<lparr>wi_posted := ms\<rparr>))"
  by (rule app_stepped [OF assms(1) app_message [OF assms(2,3), of link_up True]])
     (simp add: window_proc_def windows_power_event_is_resume_def message_numbers)

lemma stuck_reachable: "\<exists>t c w. app_reachable (t, c, w) \<and> wi_stuck w \<and> wi_phase w = Pumping"
proof -
  define t2 where "t2 = running_tray\<lparr>ty_queue := [Wake False, ResumeRequest, ResumeRequest]\<rparr>"
  define report where "report = (\<lambda>e w. post_pending TRAY_ERROR_MESSAGE (report_tray_error e w))"
  have tray: "ty_intent running_tray = IntentOn" "\<not> ty_closed running_tray" "ty_queue running_tray = [Wake False]"
    by (simp_all add: running_tray_def tray_send_def Tray_start_def)
  have "app_reachable (running_tray\<lparr>ty_queue := [Wake False, ResumeRequest]\<rparr>, Coordinator_start, running_window)"
    using resume_dispatched [OF running_reachable] tray by (simp add: pumping_def)
  from resume_dispatched [OF this] tray have "app_reachable (t2, Coordinator_start, running_window)"
    by (simp add: pumping_def t2_def)
  from taking_round [OF this, of "Wake False" "[ResumeRequest, ResumeRequest]" running_window]
  obtain t3 c3 where 3: "app_reachable (t3, c3, running_window)" "co_phase c3 = Receiving" "ty_intent t3 = IntentOn"
    "ty_queue t3 = [ResumeRequest, ResumeRequest]" using tray by (auto simp: t2_def Coordinator_start_def)
  from taking_round [OF 3(1-3) _ _ 3(4), of "report [1] running_window" "[1]"]
  obtain t4 c4 where 4: "app_reachable (t4, c4, report [1] running_window)" "co_phase c4 = Receiving" "ty_intent t4 = IntentOn"
    "ty_queue t4 = [ResumeRequest]" by (auto simp: report_def)
  from taking_round [OF 4(1-3) _ _ 4(4), of "report [2] (report [1] running_window)" "[2]"]
  obtain t5 c5 where 5: "app_reachable (t5, c5, report [2] (report [1] running_window))"
    by (auto simp: report_def post_pending_def post_message_def report_tray_error_def Let_def)
  let ?w5 = "report [2] (report [1] running_window)" and ?m = "(TRAY_ERROR_MESSAGE, 0, 0) :: message"
  let ?w6 = "on_error_message (?w5\<lparr>wi_posted := [?m]\<rparr>)"
  have w5: "pumping ?w5" "wi_posted ?w5 = [?m, ?m]" "wi_last_error ?w5 = Some [2]" "wi_frames ?w5 = []"
    by (simp_all add: report_def post_pending_def post_message_def report_tray_error_def Let_def pumping_def)
  then have w6: "pumping ?w6" "wi_posted ?w6 = [?m]" "error_locked ?w6" by (simp_all add: on_error_message_def error_locked_def pumping_def)
  have "app_reachable (t5, c5, on_error_message (?w6\<lparr>wi_posted := []\<rparr>))"
    using error_box_opens [OF error_box_opens [OF 5 w5(1,2)] w6(1,2)] .
  moreover have "wi_stuck (on_error_message (?w6\<lparr>wi_posted := []\<rparr>))" "wi_phase (on_error_message (?w6\<lparr>wi_posted := []\<rparr>)) = Pumping"
    using w6(1,3) by (simp_all add: on_error_message_def error_locked_def pumping_def)
  ultimately show ?thesis by blast
qed

section \<open>Properties\<close>

lemma box_inv_reachable: "app_reachable a \<Longrightarrow> box_inv a"
  by (rule app_reachable_inv [of a box_inv])
     (simp_all add: box_inv_step, simp add: box_inv_def boxes_ok_def Window_start_def kept_error_def Tray_start_def)

lemma returned_seen_off:
  assumes "tray_reachable (t, c)" "co_phase c = Returned"
  shows "\<exists>o'. ExitComplete o' \<in> set (ty_log t) \<and> is_verified_off o'"
proof -
  have "returned_inv (t, c)"
    using tray_reachable_inv [of "(t, c)" returned_inv] assms(1) returned_inv_step
    by (simp add: returned_inv_def Tray_start_def Coordinator_start_def)
  moreover have "exit_inv (t, c)"
    using tray_reachable_inv [of "(t, c)" exit_inv] assms(1) tray_start_invs(1) exit_inv_step by blast
  ultimately show ?thesis using assms(2) unfolding exit_inv_def returned_inv_def by auto
qed

text \<open>C35. The window leaves only when the link is off, and it can leave then.  However messages, menus, boxes, other
  instances, the broker and the coordinator interleave: the window is destroyed by its own dispatch, or the message
  loop ends without an error, only after the coordinator completed an exit on an observation with the link off; and
  once the coordinator has returned, whatever menus and boxes are open and whatever is posted before the message
  that ends the application, that message is not lost: the loop can run to its end, unless the thread of the window
  waits for its own lock.\<close>

theorem tray_leaves_only_off:
  assumes "app_reachable (t, c, w)"
  shows "(wi_phase w = Ended (Inr ()) \<or> wi_phase w = Pumping \<and> \<not> wi_hwnd w \<longrightarrow>
      (\<exists>o'. ExitComplete o' \<in> set (ty_log t) \<and> is_verified_off o')) \<and>
    (co_phase c = Returned \<and> wi_phase w = Pumping \<and> \<not> wi_stuck w \<longrightarrow>
      (\<exists>t' c' w'. app_step\<^sup>*\<^sup>* (t, c, w) (t', c', w') \<and> wi_phase w' = Ended (Inr ())))"
proof -
  have "tray_reachable (t, c)" using app_reachable_tray [OF assms] by simp
  moreover have "window_ok (exit_asked t) (co_phase c = Returned) w"
    using leave_inv_reachable [OF assms] by (simp add: leave_inv_def)
  ultimately show ?thesis
    using returned_seen_off [of t c] returned_can_leave [OF assms]
    by (auto simp: window_ok_def pumping_def can_leave_def)
qed

text \<open>The message boxes show reported errors, in the order of the reports and each at most once, with at most one
  box open at a time; a report that is not shown was replaced by a later one or waits for its message.\<close>

theorem tray_boxes_show_reports:
  assumes "app_reachable (t, c, w)"
  shows "subseq (wi_shown w @ kept_error w) (reports (ty_log t)) \<and> length (filter ((=) BoxFrame) (wi_frames w)) \<le> 1"
  using box_inv_reachable [OF assms] by (simp add: box_inv_def boxes_ok_def)

text \<open>C36. The window can block for good.  The box is shown while the lock of the last error is held, and it dispatches
  messages: when two errors are reported before the first message is dispatched, the second message makes the
  same thread lock again.  That state is reachable, and from it the application can never end.\<close>

theorem tray_box_can_deadlock:
  "\<exists>t c w. app_reachable (t, c, w) \<and> wi_stuck w \<and>
     (\<nexists>t' c' w' result. app_step\<^sup>*\<^sup>* (t, c, w) (t', c', w') \<and> wi_phase w' = Ended result)"
proof -
  obtain t c w where "app_reachable (t, c, w)" "wi_stuck w" "wi_phase w = Pumping" using stuck_reachable by blast
  moreover from this have "wi_phase w' = Pumping" if "app_step\<^sup>*\<^sup>* (t, c, w) (t', c', w')" for t' c' w'
    using stuck_steps [OF that] by simp
  ultimately show ?thesis by (metis window_phase.distinct(19))
qed

section \<open>Other facts\<close>

text \<open>Every text of the icon fits, with a terminating zero.\<close>

lemma tooltip_fits:
  "length (tray_tooltip on observation) < 128"
  "\<exists>pad > 0. apply_tooltip (tray_tooltip on observation) = encode_utf16 (tray_tooltip on observation) @ replicate pad 0"
proof -
  show fits: "length (tray_tooltip on observation) < 128" by (simp add: tray_tooltip_def)
  then show "\<exists>pad > 0. apply_tooltip (tray_tooltip on observation) = encode_utf16 (tray_tooltip on observation) @ replicate pad 0"
    by (intro exI [of _ "128 - length (tray_tooltip on observation)"]) (simp add: apply_tooltip_def encode_utf16_def)
qed

text \<open>The items of the menu: a chosen item runs the command of its entry, the separator none.\<close>

lemma chosen_item:
  assumes "i < length (tray_menu_entries on)"
  shows "tray_command_from_id (fst (snd (menu_items on ! i))) = me_command (tray_menu_entries on ! i)"
proof -
  have "i \<in> {0, 1, 2, 3}" using assms by (auto simp: tray_menu_entries_def)
  then show ?thesis
    by (auto simp: menu_items_def tray_menu_entries_def tray_command_from_id_def TRAY_TOGGLE_ID_def TRAY_DIAGNOSE_ID_def TRAY_EXIT_ID_def)
qed

text \<open>No icon handle is left behind unless both are returned.\<close>

lemma icons_not_leaked:
  "case WindowsTrayIcons_load create off_ico on_ico of (Inl e, kept) \<Rightarrow> kept = [] | (Inr (off, on), kept) \<Rightarrow> kept = [off, on]"
  by (auto simp: WindowsTrayIcons_load_def split: sum.splits)

text \<open>A lost broker ends the window that appears within the forty looks.\<close>

lemma request_tray_exit_finds:
  "request_tray_exit n k seen = (if \<exists>i < n. wi_hwnd (seen (k + i))
     then Some (let i = k + (LEAST i. wi_hwnd (seen (k + i))) in (i, post_message (WM_CLOSE, 0, 0) (seen i))) else None)"
proof (induction n k seen rule: request_tray_exit.induct)
  case (2 n k seen)
  show ?case
  proof (cases "wi_hwnd (seen k)")
    case True
    then have "(LEAST i. wi_hwnd (seen (k + i))) = 0" by (intro Least_equality) simp_all
    with True show ?thesis by (auto simp: Let_def intro: exI [of _ 0])
  next
    case False
    have "(\<exists>i < Suc n. wi_hwnd (seen (k + i))) \<longleftrightarrow> (\<exists>i < n. wi_hwnd (seen (k + 1 + i)))"
      using False less_Suc_eq_0_disj by auto
    moreover have "(LEAST i. wi_hwnd (seen (k + i))) = Suc (LEAST i. wi_hwnd (seen (k + 1 + i)))" if "wi_hwnd (seen (k + 1 + i))" for i
      using Least_Suc [of "\<lambda>i. wi_hwnd (seen (k + i))" "Suc i"] that False by simp
    ultimately show ?thesis using 2 [OF False] False by (auto simp: Let_def)
  qed
qed simp

section \<open>Witnesses\<close>

text \<open>The broker is lost, the window closes, the coordinator finds the link off: the application ends.\<close>

lemma closing_reachable:
  "\<exists>t c. app_reachable (t, c, exit_complete running_window) \<and> co_phase c = Returned"
proof -
  let ?w = "post_message (WM_CLOSE, 0, 0) running_window"
  define t1 where "t1 = handle_exit running_tray"
  have t1: "ty_queue t1 = [Wake False, ExitRequest]" "ty_intent t1 = IntentExiting"
    by (simp_all add: t1_def running_tray_def handle_exit_def tray_send_def Tray_start_def)
  define c1 where "c1 = on_request (Wake False) Coordinator_start"
  define t2 where "t2 = t1\<lparr>ty_queue := [ExitRequest]\<rparr>"
  define c2 where "c2 = c1\<lparr>co_phase := Reconciling\<rparr>"
  have "app_reachable (running_tray, Coordinator_start, ?w)"
    by (rule app_stepped [OF running_reachable app_outside]) simp
  then have 1: "app_reachable (t1, Coordinator_start, running_window)"
    by (rule app_stepped [OF _ app_message [where m = "(WM_CLOSE, 0, 0)" and ms = "[]" and o' = link_off and made = True]])
       (simp_all add: post_message_def pumping_def window_proc_def windows_power_event_is_resume_def message_numbers t1_def)
  have 2: "app_reachable (t2, c1, running_window)"
    using coordinator_moves [OF 1 _ receive [OF _ t1(1)], of "[]"] by (simp add: t2_def c1_def on_request_def Coordinator_start_def)
  have h: "on_handled (Wake False) (Inr []) (t2, c1) = (t2, c2)"
    by (simp add: on_handled_def c2_def c1_def on_request_def Coordinator_start_def)
  have 3: "app_reachable (t2, c2, running_window)"
    using coordinator_moves [OF 2 _ handled [of c1 "Wake False" t2 "Inr []", unfolded h], of "[]"]
    by (simp add: c1_def c2_def on_request_def)
  define t3 where "t3 = tray_log [Decided NoAction] t2"
  define c3 where "c3 = c2\<lparr>co_phase := Observing\<rparr>"
  have a: "tray_reconcile_action (tray_desired_on t2) link_off = NoAction" "tray_desired_on t3 = tray_desired_on t2"
    using t1(2) by (simp_all add: tray_reconcile_action_def is_verified_off_def link_off_def t2_def t3_def tray_log_def tray_desired_on_def)
  have r4: "on_reconcile link_off (t2, c2) = (t3, c3)" using a by (simp add: on_reconcile_def t3_def c3_def)
  have 4: "app_reachable (t3, c3, running_window)"
    using coordinator_moves [OF 3 _ reconcile [of c2 t2 link_off, unfolded r4], of "[Decided NoAction]"]
    by (simp add: c2_def c3_def t3_def tray_log_def reports_def)
  define c4 where "c4 = snd (on_observed link_off (t3, c3))"
  have o4: "on_observed link_off (t3, c3) = (t3, c4)" "co_phase c4 = Settling True"
    using a by (simp_all add: c4_def on_observed_def Let_def)
  have 5: "app_reachable (t3, c4, running_window)"
    using coordinator_moves [OF 4 _ observed [of c3 t3 link_off, unfolded o4(1)], of "[]"] o4(2) by (simp add: c3_def)
  have r6: "on_settled link_off (t3, c4) = ((tray_log [ExitComplete link_off] t3)\<lparr>ty_closed := True, ty_queue := []\<rparr>, c4\<lparr>co_phase := Returned\<rparr>)"
    using t1(2) by (simp add: on_settled_def tray_exit_requested_def t2_def t3_def tray_log_def is_verified_off_def link_off_def)
  from coordinator_moves [OF 5 _ settled [OF o4(2), of t3 link_off, unfolded r6], of "[ExitComplete link_off]"] o4(2)
  have "app_reachable ((tray_log [ExitComplete link_off] t3)\<lparr>ty_closed := True, ty_queue := []\<rparr>, c4\<lparr>co_phase := Returned\<rparr>,
      exit_complete running_window)" by (simp add: tray_log_def reports_def)
  then show ?thesis by force
qed

theorem tray_leaves_only_off_witness:
  "\<exists>t c w t' c' w'. app_reachable (t, c, w) \<and> app_step\<^sup>*\<^sup>* (t, c, w) (t', c', w') \<and> wi_phase w' = Ended (Inr ())"
proof -
  obtain t c where "app_reachable (t, c, exit_complete running_window)" "co_phase c = Returned" using closing_reachable by blast
  moreover have "wi_phase (exit_complete running_window) = Pumping" "\<not> wi_stuck (exit_complete running_window)"
    by (simp_all add: exit_complete_def)
  ultimately show ?thesis using tray_leaves_only_off [of t c "exit_complete running_window"] by meson
qed

end
