(* ===== verification/Support.thy ===== *)
theory Support
  imports Broker HostRun
begin

text \<open>
  The local diagnostics as their callers use them: opening the log, recording and exporting (\<^verbatim>\<open>diagnostics.rs\<close>), the
  capture and export commands of the command line and the capture of the broker, and the text of the status
  command (\<^verbatim>\<open>main.rs\<close>).  The JSON writer, clocks and the outcomes of file operations are arguments.
\<close>

section \<open>The log\<close>

text \<open>A log in use: its writer with the directory it writes to.\<close>

type_synonym diagnostics_log = "RotatingWriter \<times> directory"

text \<open>\<open>mkdir\<close> is the outcome of creating the directory, \<open>entries\<close> are the names found in it.\<close>

definition Diagnostics_with_limits ::
  "io_kind option \<Rightarrow> fs_faults \<Rightarrow> string list \<Rightarrow> nat \<Rightarrow> nat \<Rightarrow> directory \<Rightarrow> (io_kind + RotatingWriter) \<times> directory" where
  "Diagnostics_with_limits mkdir faults entries max_bytes file_count d =
     (case mkdir of Some k \<Rightarrow> (Inl k, d) | None \<Rightarrow> RotatingWriter_open faults entries max_bytes file_count d)"

definition Diagnostics_open ::
  "io_kind option \<Rightarrow> fs_faults \<Rightarrow> string list \<Rightarrow> directory \<Rightarrow> (io_kind + RotatingWriter) \<times> directory" where
  "Diagnostics_open mkdir faults entries d = Diagnostics_with_limits mkdir faults entries DEFAULT_MAX_BYTES DEFAULT_FILE_COUNT d"

record DiagnosticWriteMetrics =
  dw_duration_us :: u64
  dw_rotated :: bool

text \<open>What the calls take from outside: the environment variables, the JSON writer, the clock of the events in
  milliseconds and the time a write takes, by the number of the record.\<close>

record diagnostics_io =
  do_env :: "string \<Rightarrow> string option"
  do_encode :: "json \<Rightarrow> string option"
  do_unix_ms :: "nat \<Rightarrow> int"
  do_elapsed :: "nat \<Rightarrow> duration"
  do_faults :: "nat \<Rightarrow> fs_faults"

definition record_with_metrics ::
  "diagnostics_io \<Rightarrow> nat \<Rightarrow> string \<Rightarrow> json \<Rightarrow> diagnostics_log \<Rightarrow> (io_kind + DiagnosticWriteMetrics) \<times> diagnostics_log" where
  "record_with_metrics io n kind fs log =
     (case do_encode io (diagnostics_event (do_env io) (do_unix_ms io n) kind fs) of
        None \<Rightarrow> (Inl OtherIo, log)
      | Some line \<Rightarrow>
          (case write_record (do_faults io n) (line @ [CHR 0x0A]) (fst log) (snd log) of
             (Inl k, w, d) \<Rightarrow> (Inl k, w, d)
           | (Inr rotated, w, d) \<Rightarrow> (Inr \<lparr>dw_duration_us = micros_of (do_elapsed io n), dw_rotated = rotated\<rparr>, w, d)))"

definition Diagnostics_record ::
  "diagnostics_io \<Rightarrow> nat \<Rightarrow> string \<Rightarrow> json \<Rightarrow> diagnostics_log \<Rightarrow> (io_kind + unit) \<times> diagnostics_log" where
  "Diagnostics_record io n kind fs log =
     (case record_with_metrics io n kind fs log of (Inl k, log) \<Rightarrow> (Inl k, log) | (Inr _, log) \<Rightarrow> (Inr (), log))"

text \<open>The outcomes of an export: whether the lock of the log is poisoned and the destination a directory, which logs can be
  opened, which of their lines cannot be read (as text, or at all), and what fails: \<open>xo_write n\<close> is the write of document \<open>n\<close>,
  or the last flush.\<close>

record export_io =
  xo_poisoned :: bool
  xo_is_dir :: bool
  xo_parse :: "string \<Rightarrow> json option"
  xo_created_ms :: int
  xo_mkdir :: "io_kind option"
  xo_create :: "io_kind option"
  xo_opens :: "nat \<Rightarrow> bool"
  xo_line :: "nat \<Rightarrow> nat \<Rightarrow> io_kind option"
  xo_write :: "nat \<Rightarrow> io_kind option"

definition export_destination :: "export_io \<Rightarrow> string \<Rightarrow> string" where
  "export_destination xo destination =
     (if xo_is_dir xo
      then destination @ ''/gnirehtet-vd-support-'' @ show_nat (nat (xo_created_ms xo)) @ ''.jsonl'' else destination)"

definition exported_line :: "export_io \<Rightarrow> (string \<Rightarrow> string option) \<Rightarrow> string \<Rightarrow> json" where
  "exported_line xo env line = (case xo_parse xo line of Some v \<Rightarrow> redact_value env v | None \<Rightarrow> malformed_log_line)"

text \<open>The lines of log \<open>index\<close> from its line \<open>j\<close> on, written as documents from number \<open>n\<close> on.\<close>

fun export_lines ::
  "export_io \<Rightarrow> (string \<Rightarrow> string option) \<Rightarrow> nat \<Rightarrow> nat \<Rightarrow> nat \<Rightarrow> string list \<Rightarrow> io_kind + json list" where
  "export_lines xo env index j n [] = Inr []"
| "export_lines xo env index j n (line # rest) =
     (case xo_line xo index j of
        Some k \<Rightarrow> Inl k
      | None \<Rightarrow>
          (case xo_write xo n of
             Some k \<Rightarrow> Inl k
           | None \<Rightarrow> map_sum id (Cons (exported_line xo env line)) (export_lines xo env index (j + 1) (n + 1) rest)))"

definition opened_log :: "export_io \<Rightarrow> directory \<Rightarrow> nat \<Rightarrow> string option" where
  "opened_log xo d index = (if xo_opens xo index then d (log_path index) else None)"

text \<open>A log that cannot be opened is left out; the flush comes last.\<close>

fun export_logs :: "export_io \<Rightarrow> (string \<Rightarrow> string option) \<Rightarrow> directory \<Rightarrow> nat \<Rightarrow> nat list \<Rightarrow> io_kind + json list" where
  "export_logs xo env d n [] = (case xo_write xo n of Some k \<Rightarrow> Inl k | None \<Rightarrow> Inr [])"
| "export_logs xo env d n (index # rest) =
     (case opened_log xo d index of
        None \<Rightarrow> export_logs xo env d n rest
      | Some content \<Rightarrow>
          (case export_lines xo env index 0 n (lines content) of
             Inl k \<Rightarrow> Inl k
           | Inr documents \<Rightarrow> map_sum id (append documents) (export_logs xo env d (n + length documents) rest)))"

text \<open>The destination and the documents written, one per line; \<open>logs\<close> is the directory of the logs.\<close>

definition Diagnostics_export ::
  "diagnostics_io \<Rightarrow> nat \<Rightarrow> export_io \<Rightarrow> string \<Rightarrow> string \<Rightarrow> diagnostics_log \<Rightarrow> (io_kind + string \<times> json list)" where
  "Diagnostics_export io n xo logs destination log =
     (let (w, d) = log; destination = export_destination xo destination in
      if xo_poisoned xo then Inl OtherIo
      else
        (case (if rw_open w then do_faults io n FsFlush else None) of
           Some k \<Rightarrow> Inl k
         | None \<Rightarrow>
             if list_ex (\<lambda>index. destination = logs @ ''/'' @ log_path index) [0..<rw_file_count w] then Inl InvalidInput
             else
               (case xo_mkdir xo of
                  Some k \<Rightarrow> Inl k
                | None \<Rightarrow>
                    (case xo_create xo of
                       Some k \<Rightarrow> Inl k
                     | None \<Rightarrow>
                         (case xo_write xo 0 of
                            Some k \<Rightarrow> Inl k
                          | None \<Rightarrow>
                              map_sum id (\<lambda>documents. (destination, bundle_metadata (xo_created_ms xo) # documents))
                                (export_logs xo (do_env io) d 1 (rev [0..<rw_file_count w])))))))"

section \<open>The commands\<close>

text \<open>A sequence of records that stops at the first failure.\<close>

fun record_sequence ::
  "diagnostics_io \<Rightarrow> nat \<Rightarrow> (string \<times> json) list \<Rightarrow> diagnostics_log \<Rightarrow> (io_kind + unit) \<times> diagnostics_log" where
  "record_sequence io n [] log = (Inr (), log)"
| "record_sequence io n ((kind, fs) # rest) log =
     (case Diagnostics_record io n kind fs log of
        (Inl k, log) \<Rightarrow> (Inl k, log)
      | (Inr _, log) \<Rightarrow> record_sequence io (n + 1) rest log)"

definition snapshot_fields :: "string \<Rightarrow> string \<Rightarrow> json \<Rightarrow> json" where
  "snapshot_fields capture_id boundary report =
     JObject [(''capture_id'', JString capture_id), (''boundary'', JString boundary), (''report'', report)]"

definition capture_records :: "string \<Rightarrow> u64 \<Rightarrow> json \<Rightarrow> json \<Rightarrow> (string \<times> json) list" where
  "capture_records capture_id seconds' report_start report_end =
     [(''capture_start'', JObject [(''capture_id'', JString capture_id), (''duration_seconds'', JNumber (uint seconds'))]),
      (''doctor_snapshot'', snapshot_fields capture_id ''start'' report_start),
      (''doctor_snapshot'', snapshot_fields capture_id ''end'' report_end),
      (''capture_end'', JObject [(''capture_id'', JString capture_id)])]"

definition captured_text :: "u64 \<Rightarrow> bytes" where
  "captured_text seconds' = ascii (''captured '' @ show_nat (unat seconds') @ ''s of local diagnostics'')"

text \<open>The reports of \<^verbatim>\<open>doctor\<close> at the two ends, made with the controller the caller holds then.\<close>

definition diagnostics_capture ::
  "diagnostics_io \<Rightarrow> SessionId \<Rightarrow> u64 \<Rightarrow> json \<Rightarrow> json \<Rightarrow> diagnostics_log \<Rightarrow> (io_kind + bytes) \<times> diagnostics_log" where
  "diagnostics_capture io fresh seconds' report_start report_end log =
     (case record_sequence io 0 (capture_records (SessionId_to_string fresh) seconds' report_start report_end) log of
        (Inl k, log) \<Rightarrow> (Inl k, log)
      | (Inr _, log) \<Rightarrow> (Inr (captured_text seconds'), log))"

definition exported_text :: "string \<Rightarrow> bytes" where
  "exported_text path = ascii (''redacted support bundle written to '' @ path)"

text \<open>\<^verbatim>\<open>diagnostics\<close> of the command line: \<open>report p\<close> is the report with the ADB program \<open>p\<close> at the start and at the end.\<close>

record diagnostics_call =
  dc_mkdir :: "io_kind option"
  dc_open_faults :: fs_faults
  dc_entries :: "string list"
  dc_io :: diagnostics_io
  dc_export :: export_io
  dc_logs :: string
  dc_fresh :: SessionId
  dc_report_start :: "string \<Rightarrow> json"
  dc_report_end :: "string \<Rightarrow> json"

definition diagnostics_command ::
  "diagnostics_call \<Rightarrow> string \<Rightarrow> DiagnosticsCommand \<Rightarrow> directory \<Rightarrow> (io_kind + bytes) \<times> directory" where
  "diagnostics_command call program command d =
     (case Diagnostics_open (dc_mkdir call) (dc_open_faults call) (dc_entries call) d of
        (Inl k, d) \<Rightarrow> (Inl k, d)
      | (Inr w, d) \<Rightarrow>
          (case command of
             Capture seconds' \<Rightarrow>
               (case diagnostics_capture (dc_io call) (dc_fresh call) seconds' (dc_report_start call program)
                       (dc_report_end call program) (w, d) of
                  (r, w, d) \<Rightarrow> (r, d))
           | Export path \<Rightarrow>
               ((case Diagnostics_export (dc_io call) 0 (dc_export call) (dc_logs call) path (w, d) of
                   Inl k \<Rightarrow> Inl k | Inr (destination, _) \<Rightarrow> Inr (exported_text destination)), d)))"

text \<open>\<^verbatim>\<open>capture_diagnostics\<close> of the broker takes the ADB program of its context at each end, which a repair may have
  replaced in between.\<close>

definition broker_capture_diagnostics ::
  "diagnostics_call \<Rightarrow> string \<Rightarrow> string \<Rightarrow> u64 \<Rightarrow> directory \<Rightarrow> (io_kind + bytes) \<times> directory" where
  "broker_capture_diagnostics call program_start program_end seconds' d =
     (case Diagnostics_open (dc_mkdir call) (dc_open_faults call) (dc_entries call) d of
        (Inl k, d) \<Rightarrow> (Inl k, d)
      | (Inr w, d) \<Rightarrow>
          (case diagnostics_capture (dc_io call) (dc_fresh call) seconds' (dc_report_start call program_start)
                  (dc_report_end call program_end) (w, d) of
             (r, w, d) \<Rightarrow> (r, d)))"

section \<open>The text of the status command\<close>

definition HostState_debug :: "HostState \<Rightarrow> string" where
  "HostState_debug s = (case s of Stopped \<Rightarrow> ''Stopped'' | Preparing \<Rightarrow> ''Preparing'' | Connected \<Rightarrow> ''Connected''
     | Degraded \<Rightarrow> ''Degraded'' | Stopping \<Rightarrow> ''Stopping'' | ErrorState \<Rightarrow> ''Error'')"

definition show_bool :: "bool \<Rightarrow> string" where "show_bool b = (if b then ''true'' else ''false'')"

definition debug_option :: "('a \<Rightarrow> string) \<Rightarrow> 'a option \<Rightarrow> string" where
  "debug_option f x = (case x of None \<Rightarrow> ''None'' | Some a \<Rightarrow> ''Some('' @ f a @ '')'')"

definition show_u64 :: "u64 \<Rightarrow> string" where "show_u64 n = show_nat (unat n)"

definition telemetry_lines :: "RuntimeTelemetry \<Rightarrow> string list" where
  "telemetry_lines t =
     (let udp = sn_udp (rt_relay t); control = rt_control t; adb = rt_adb t in
      [''queue residence: p99='' @ show_u64 (hs_p99_us (uss_queue_residence_us udp)) @ ''us max='' @
         show_u64 (hs_max_us (uss_queue_residence_us udp)) @ ''us; queued='' @ show_nat (uss_queued_bytes udp) @ '' bytes'',
       ''control: generation='' @ show_u64 (cms_connection_generation control) @ '' reconnects='' @
         show_u64 (cms_reconnects control) @ '' echo-p99='' @
         show_u64 (hs_p99_us (cms_heartbeat_echo_service_us control)) @ ''us'',
       ''adb: device='' @ show_bool (as_device_available adb) @ '' mappings='' @ show_bool (as_mappings_healthy adb) @
         '' reconnect-generation='' @ show_u64 (as_reconnect_generation adb) @
         (case as_last_error adb of None \<Rightarrow> [] | Some category \<Rightarrow> '' category='' @ category)])"

definition android_line :: "AdbError + AndroidVpnStatus \<Rightarrow> string" where
  "android_line android =
     (case android of
        Inr a \<Rightarrow> ''android: '' @ (case av_state a of None \<Rightarrow> ''not running'' | Some s \<Rightarrow> s) @
          '' fd_open='' @ debug_option show_bool (av_vpn_fd_open a) @
          '' rtt_p99='' @ debug_option show_u64 (av_control_rtt_p99_us a) @
          ''us rtt_max='' @ debug_option show_u64 (av_control_rtt_max_us a) @ ''us''
      | Inl e \<Rightarrow> ''android status unavailable: '' @ AdbError_message e)"

definition status_lines ::
  "string \<Rightarrow> RuntimeTelemetry PersistedStatus \<Rightarrow> AdbError + AndroidVpnStatus \<Rightarrow> string list" where
  "status_lines logs status android =
     [''state: '' @ HostState_debug (snap_state (pst_lifecycle status)),
      ''daemon: '' @ (if pst_daemon_running status then ''running'' else ''not running''),
      ''logs: '' @ logs @ '' ('' @ show_nat DEFAULT_FILE_COUNT @ '' x '' @ show_nat (DEFAULT_MAX_BYTES div (1024 * 1024)) @
        '' MiB; oldest auto-deleted)''] @
     (case snap_reason (pst_lifecycle status) of None \<Rightarrow> [] | Some reason \<Rightarrow> [''reason: '' @ reason]) @
     (case pst_telemetry status of None \<Rightarrow> [] | Some t \<Rightarrow> telemetry_lines t) @
     [android_line android]"

fun join_lines :: "string list \<Rightarrow> string" where
  "join_lines [] = []"
| "join_lines [l] = l"
| "join_lines (l # ls) = l @ [CHR 0x0A] @ join_lines ls"

text \<open>The document of \<^verbatim>\<open>--json\<close>, with the status and the Android status as their serialised values.\<close>

definition DEFAULT_TOTAL_BYTES :: nat where "DEFAULT_TOTAL_BYTES = DEFAULT_MAX_BYTES * DEFAULT_FILE_COUNT"

definition status_json :: "string \<Rightarrow> json \<Rightarrow> string + json \<Rightarrow> json" where
  "status_json logs host android =
     JObject [(''host'', host), (''android'', case android of Inr a \<Rightarrow> a | Inl _ \<Rightarrow> JNull),
       (''android_error'', case android of Inr _ \<Rightarrow> JNull | Inl e \<Rightarrow> JString e),
       (''logging'', JObject [(''directory'', JString logs), (''format'', JString ''jsonl''),
          (''max_bytes_per_file'', JNumber (int DEFAULT_MAX_BYTES)), (''file_count'', JNumber (int DEFAULT_FILE_COUNT)),
          (''max_total_bytes'', JNumber (int DEFAULT_TOTAL_BYTES)), (''oldest_file_deleted_on_rotation'', JBool True)])]"

section \<open>Capturing\<close>

text \<open>The lines that a sequence of records writes.\<close>

definition event_of :: "diagnostics_io \<Rightarrow> nat \<Rightarrow> string \<times> json \<Rightarrow> json" where
  "event_of io n r = diagnostics_event (do_env io) (do_unix_ms io n) (fst r) (snd r)"

fun record_lines :: "diagnostics_io \<Rightarrow> nat \<Rightarrow> (string \<times> json) list \<Rightarrow> string list" where
  "record_lines io n [] = []"
| "record_lines io n (r # rs) = (the (do_encode io (event_of io n r)) @ [CHR 0x0A]) # record_lines io (n + 1) rs"

definition encodable :: "diagnostics_io \<Rightarrow> bool" where "encodable io \<longleftrightarrow> (\<forall>v. do_encode io v \<noteq> None)"

lemma record_sequence_writes:
  assumes "encodable io" "\<And>n. do_faults io n = no_faults"
  shows "record_sequence io n rs (w, d) = write_records no_faults (record_lines io n rs) w d"
proof (induction rs arbitrary: n w d)
  case (Cons r rs)
  obtain line where line: "do_encode io (event_of io n r) = Some line" using assms(1) by (auto simp: encodable_def)
  obtain kind fs where "r = (kind, fs)" by fastforce
  with line assms(2) Cons.IH show ?case
    by (simp add: Diagnostics_record_def record_with_metrics_def event_of_def split: prod.splits sum.splits)
qed simp

lemma events_redacted: "redacted (event_of io n r)"
  by (simp add: event_of_def diagnostics_event_def plain_keys redacted_redact_value)

text \<open>A capture with a working file system ends well: the log is then a tail of what it was followed by the four events
  of the capture, in their order, within the bounds of the log; every event holds only placeholders under
  sensitive keys, at any depth of the reports of doctor.\<close>

theorem capture_is_logged:
  assumes "encodable io" "\<And>n. do_faults io n = no_faults" "Diagnostics.writer_ok w d"
    and fit: "list_all (\<lambda>l. length l \<le> rw_max_bytes w)
      (record_lines io 0 (capture_records (SessionId_to_string fresh) n report_start report_end))"
  shows "\<exists>w' d'. diagnostics_capture io fresh n report_start report_end (w, d) = (Inr (captured_text n), w', d') \<and>
    Diagnostics.writer_ok w' d' \<and>
    suffix (retained d' (rw_file_count w)) (retained d (rw_file_count w) @
      concat (record_lines io 0 (capture_records (SessionId_to_string fresh) n report_start report_end))) \<and>
    (\<forall>i r. redacted (event_of io i r))"
proof -
  let ?rs = "record_lines io 0 (capture_records (SessionId_to_string fresh) n report_start report_end)"
  from write_records_ok [OF assms(3) fit] obtain w' d' dropped where
    "write_records no_faults ?rs w d = (Inr (), w', d')" "Diagnostics.writer_ok w' d'"
    "retained d (rw_file_count w) @ concat ?rs = dropped @ retained d' (rw_file_count w)" by blast
  then show ?thesis
    by (intro exI [of _ w'] exI [of _ d'])
       (auto simp: diagnostics_capture_def record_sequence_writes [OF assms(1,2)] suffix_def events_redacted)
qed

text \<open>The broker captures what the command line captures while its ADB program stays the same.\<close>

lemma broker_capture_agrees:
  "broker_capture_diagnostics call program program n d = diagnostics_command call program (Capture n) d"
  by (simp add: broker_capture_diagnostics_def diagnostics_command_def split: prod.splits sum.splits)

section \<open>Exporting\<close>









end
