(* ===== verification/Entry.thy ===== *)
theory Entry
  imports Support BrokerProps TrayWindow AdminProps
begin

text \<open>
  The entry of the program (\<^verbatim>\<open>main.rs\<close>): what \<^verbatim>\<open>main\<close> does with a command, the public commands, how the client opens or
  starts the broker, how the broker serves its pipe, and the start without arguments.  The handlers of the
  commands are arguments by their results; the pipe is an argument by the outcomes of its calls.
\<close>

section \<open>Dispatch\<close>

record Cli =
  cl_home :: "string option"
  cl_adb :: "string option"
  cl_command :: "Command option"

definition configured_adb :: "Cli \<Rightarrow> string option \<Rightarrow> string option" where
  "configured_adb cli variable = (case cl_adb cli of Some path \<Rightarrow> Some path | None \<Rightarrow> variable)"

datatype entry_action =
    NoArgumentEntry
  | RunForeground SessionId bool
  | RunHere Command
  | Forward BrokerCommand
  | Refuse broker_error

definition main_action :: "bool \<Rightarrow> Cli \<Rightarrow> entry_action" where
  "main_action windows cli =
     (case cl_command cli of
        None \<Rightarrow> NoArgumentEntry
      | Some (Daemon session all_traffic) \<Rightarrow> RunForeground session all_traffic
      | Some command \<Rightarrow>
          if windows then
            (if command_runs_client_side command then RunHere command
             else case BrokerCommand_try_from command of Inl e \<Rightarrow> Refuse e | Inr b \<Rightarrow> Forward b)
          else RunHere command)"

text \<open>What the argument parser accepts of the durations and of the two flags of start.\<close>

definition cli_accepts :: "Command \<Rightarrow> bool" where
  "cli_accepts command =
     (case command of
        Diagnostics (Capture d) \<Rightarrow> 1 \<le> d \<and> d \<le> 3600
      | Start args \<Rightarrow> \<not> (sa_virtual_desktop_only args \<and> sa_all_traffic args)
      | _ \<Rightarrow> True)"

section \<open>The public commands\<close>

text \<open>The handlers by the ADB program they use (an export uses none); \<open>pu_root\<close> is the directory of the instance.\<close>

record public_handlers =
  pu_root :: string
  pu_repair_program :: "string \<Rightarrow> string \<Rightarrow> bytes + string"
  pu_start :: "string \<Rightarrow> bool \<Rightarrow> bytes + bytes"
  pu_stop :: "string \<Rightarrow> bytes + bytes"
  pu_status :: "string \<Rightarrow> bool \<Rightarrow> bytes + bytes"
  pu_repair :: "string \<Rightarrow> bytes + bytes"
  pu_doctor :: "string \<Rightarrow> bytes + bytes"
  pu_capture :: "u64 \<Rightarrow> string \<Rightarrow> bytes + bytes"
  pu_export :: "string \<Rightarrow> bytes + bytes"
  pu_version :: string

definition version_text :: "public_handlers \<Rightarrow> bytes" where
  "version_text ph = ascii (''quest-vd-wired '' @ pu_version ph @ '' (GNR4)'')"

definition daemon_refused_text :: bytes where
  "daemon_refused_text = ascii ''internal daemon commands cannot enter the public broker''"

definition execute_public_command :: "public_handlers \<Rightarrow> string \<Rightarrow> Command \<Rightarrow> bytes + bytes" where
  "execute_public_command ph program command =
     (case command of
        Start args \<Rightarrow> pu_start ph program (routes_all_traffic args)
      | Stop \<Rightarrow> pu_stop ph program
      | Status as_json \<Rightarrow> pu_status ph program as_json
      | Repair \<Rightarrow>
          (case pu_repair_program ph program (pu_root ph) of
             Inl e \<Rightarrow> Inl e
           | Inr repaired \<Rightarrow> pu_repair ph repaired)
      | Doctor \<Rightarrow> pu_doctor ph program
      | Diagnostics (Capture d) \<Rightarrow> pu_capture ph d program
      | Diagnostics (Export path) \<Rightarrow> pu_export ph path
      | Version \<Rightarrow> Inr (version_text ph)
      | Daemon _ _ \<Rightarrow> Inl daemon_refused_text)"

text \<open>The same handlers as the broker uses them.\<close>

definition broker_handlers_of :: "public_handlers \<Rightarrow> broker_handlers" where
  "broker_handlers_of ph =
     \<lparr>bh_repair_program = pu_repair_program ph, bh_version = version_text ph,
      bh_export = pu_export ph, bh_capture = pu_capture ph,
      bh_start = (\<lambda>program args. pu_start ph program (routes_all_traffic args)),
      bh_repair = pu_repair ph, bh_public = execute_public_command ph\<rparr>"

section \<open>What the user sees\<close>

record seen_output =
  se_stdout :: bytes
  se_stderr :: bytes
  se_exit :: u8

definition emit_broker_response :: "BrokerResponse \<Rightarrow> seen_output" where
  "emit_broker_response response =
     \<lparr>se_stdout = br_stdout response, se_stderr = br_stderr response,
      se_exit = (if br_exit_code response \<noteq> 0 then br_exit_code response else 0)\<rparr>"

text \<open>What \<^verbatim>\<open>main\<close> itself shows of a result: \<^verbatim>\<open>println!\<close> of the output, or the returned error as the runtime of Rust prints it
  before it exits with 1.  \<open>debug\<close> is that rendering of an error, by the one-line text of it that the handlers return.\<close>

definition main_output :: "(bytes \<Rightarrow> bytes) \<Rightarrow> bytes + bytes \<Rightarrow> seen_output" where
  "main_output debug result =
     (case result of
        Inr out \<Rightarrow> \<lparr>se_stdout = out @ [0x0A], se_stderr = [], se_exit = 0\<rparr>
      | Inl error \<Rightarrow> \<lparr>se_stdout = [], se_stderr = ascii ''Error: '' @ debug error @ [0x0A], se_exit = 1\<rparr>)"

definition run_here :: "(bytes \<Rightarrow> bytes) \<Rightarrow> public_handlers \<Rightarrow> string \<Rightarrow> Command \<Rightarrow> seen_output" where
  "run_here debug ph program command = main_output debug (execute_public_command ph program command)"

section \<open>The coordinator as the broker reaches it\<close>

definition tray_exiting_text :: bytes where
  "tray_exiting_text = ascii ''the notification-area app is exiting; start it again after Exit completes''"
definition tray_unavailable_text :: bytes where "tray_unavailable_text = ascii ''tray coordinator is unavailable''"
definition tray_stopped_text :: bytes where "tray_stopped_text = ascii ''tray coordinator stopped before replying''"

text \<open>\<^verbatim>\<open>execute_external\<close> with its wait: a start is refused while the tray exits; the request may find the coordinator gone, or the
  coordinator may end without a reply; otherwise the backend executes the command on the context of the broker.\<close>

definition execute_external ::
  "broker_handlers \<Rightarrow> Tray \<Rightarrow> bool \<Rightarrow> Command \<Rightarrow> BrokerContext \<Rightarrow> (bytes + bytes) \<times> BrokerContext" where
  "execute_external hs t replies command x =
     (if (case command of Start _ \<Rightarrow> ty_intent t = IntentExiting | _ \<Rightarrow> False) then (Inl tray_exiting_text, x)
      else
        (case handle_external command t of
           (None, t) \<Rightarrow> (Inl tray_unavailable_text, x)
         | (Some ticket, t) \<Rightarrow>
             if replies then BrokerContext_execute hs command x else (Inl tray_stopped_text, x)))"

text \<open>The coordinator is there to execute the command.\<close>

definition tray_serves :: "Tray \<Rightarrow> Command \<Rightarrow> bool" where
  "tray_serves t command \<longleftrightarrow> \<not> ty_closed t \<and> (\<forall>args. command = Start args \<longrightarrow> ty_intent t \<noteq> IntentExiting)"

lemma external_served:
  "tray_serves t command \<Longrightarrow> execute_external hs t True command x = BrokerContext_execute hs command x"
  by (auto simp: tray_serves_def execute_external_def handle_external_def Let_def split: Command.splits)

lemma external_refused:
  "ty_intent t = IntentExiting \<Longrightarrow> execute_external hs t replies (Start args) x = (Inl tray_exiting_text, x)"
  by (simp add: execute_external_def)

section \<open>The client of the broker pipe\<close>

datatype pipe_result = PipeReady | PipeNotFound | PipeBusy | PipeFailed string

datatype open_error = StartFailed string | OpenFailed string | OpenTimedOut

text \<open>\<open>opened n\<close> is the outcome of try \<open>n\<close>, \<open>start\<close> of starting the broker; the tries are 25 milliseconds apart.  The result
  comes with the number of starts.\<close>

fun open_or_start_broker_client ::
  "(nat \<Rightarrow> pipe_result) \<Rightarrow> string option \<Rightarrow> nat \<Rightarrow> nat \<Rightarrow> bool \<Rightarrow> (open_error + nat) \<times> nat" where
  "open_or_start_broker_client opened start 0 n can_start = (Inl OpenTimedOut, 0)"
| "open_or_start_broker_client opened start (Suc tries) n can_start =
     (case opened n of
        PipeReady \<Rightarrow> (Inr n, 0)
      | PipeNotFound \<Rightarrow>
          if can_start then
            (case start of
               Some e \<Rightarrow> (Inl (StartFailed e), 1)
             | None \<Rightarrow>
                 (case open_or_start_broker_client opened start tries (n + 1) False of (r, starts) \<Rightarrow> (r, starts + 1)))
          else open_or_start_broker_client opened start tries (n + 1) False
      | PipeBusy \<Rightarrow> open_or_start_broker_client opened start tries (n + 1) can_start
      | PipeFailed e \<Rightarrow> (Inl (OpenFailed e), 0))"

text \<open>The arguments of the started broker.\<close>

definition spawn_broker_process :: "string \<Rightarrow> string \<Rightarrow> string list" where
  "spawn_broker_process root program = [''--home'', root, ''--adb'', program]"

section \<open>Serving the pipe\<close>

text \<open>\<open>created n\<close> is the outcome of try \<open>n\<close> and \<open>clock n\<close> the time after it; only a busy pipe is tried again.  \<open>None\<close> means that the
  fuel is used up.\<close>

fun recreate_broker_pipe ::
  "(nat \<Rightarrow> pipe_result) \<Rightarrow> (nat \<Rightarrow> instant) \<Rightarrow> instant \<Rightarrow> nat \<Rightarrow> nat \<Rightarrow> (string + nat) option" where
  "recreate_broker_pipe created clock deadline 0 n = None"
| "recreate_broker_pipe created clock deadline (Suc fuel) n =
     (case created n of
        PipeReady \<Rightarrow> Some (Inr n)
      | PipeBusy \<Rightarrow>
          if clock n \<ge> deadline then Some (Inl ''recreating the per-user broker pipe'')
          else recreate_broker_pipe created clock deadline fuel (n + 1)
      | PipeNotFound \<Rightarrow> Some (Inl ''recreating the per-user broker pipe'')
      | PipeFailed e \<Rightarrow> Some (Inl ''recreating the per-user broker pipe''))"

definition BROKER_IO_TIMEOUT :: duration where "BROKER_IO_TIMEOUT = seconds 3"

text \<open>One connection of the pipe: its connect, what the handler meets, and the pipe after it.\<close>

record pipe_pass =
  pp_connect :: "string option"
  pp_coordinator :: "(Command \<Rightarrow> BrokerContext \<Rightarrow> (bytes + bytes) \<times> BrokerContext) option"
  pp_io :: broker_io
  pp_stream :: byte_stream
  pp_recreated :: "string + nat"

definition handle_broker_connection :: "broker_handlers \<Rightarrow> pipe_pass \<Rightarrow> broker_host \<Rightarrow> broker_host \<times> broker_connection" where
  "handle_broker_connection hs pass h =
     (case connection_begin h of
        (h, BC_Holding) \<Rightarrow>
          connection_finish hs (pp_coordinator pass) (pp_io pass) (pp_stream pass) \<lparr>written = [], broken = None\<rparr> h
      | (h, c) \<Rightarrow> (h, c))"

fun serve_broker ::
  "broker_handlers \<Rightarrow> pipe_pass list \<Rightarrow> broker_host \<Rightarrow> string option \<times> broker_host \<times> broker_connection list" where
  "serve_broker hs [] h = (None, h, [])"
| "serve_broker hs (pass # passes) h =
     (case pp_connect pass of
        Some e \<Rightarrow> (Some e, h, [])
      | None \<Rightarrow>
          (case handle_broker_connection hs pass h of
             (h, ended) \<Rightarrow>
               (case pp_recreated pass of
                  Inl e \<Rightarrow> (Some e, h, [ended])
                | Inr _ \<Rightarrow> (case serve_broker hs passes h of (r, h, ends) \<Rightarrow> (r, h, ended # ends)))))"

section \<open>The start without arguments\<close>

datatype 'a NoArgumentTrayAction = StartPrimary 'a | ExitWithoutBroker

definition no_argument_tray_action :: "'a option \<Rightarrow> 'a NoArgumentTrayAction" where
  "no_argument_tray_action instance' = (case instance' of Some i \<Rightarrow> StartPrimary i | None \<Rightarrow> ExitWithoutBroker)"

datatype entry_step = PreparePipe | SpawnCoordinator | SpawnBroker | SpawnTray | AbortBroker | RequestTrayExit | AwaitTray

text \<open>Which of the two tasks ends first, with its result; a task that panics is \<open>None\<close>.\<close>

datatype entry_ending = TrayEnds "(string + unit) option" | BrokerEnds "string option option"

definition no_argument_entry ::
  "string + string option \<Rightarrow> string option \<Rightarrow> entry_ending \<Rightarrow> (string + unit) \<times> entry_step list" where
  "no_argument_entry acquired prepared ending =
     (case acquired of
        Inl e \<Rightarrow> (Inl e, [])
      | Inr found \<Rightarrow>
          (case no_argument_tray_action found of
             ExitWithoutBroker \<Rightarrow> (Inr (), [])
           | StartPrimary class_name \<Rightarrow>
               (case prepared of
                  Some e \<Rightarrow> (Inl e, [PreparePipe])
                | None \<Rightarrow>
                    let begun = [PreparePipe, SpawnCoordinator, SpawnBroker, SpawnTray] in
                    (case ending of
                       TrayEnds None \<Rightarrow> (Inl ''notification-area task failed'', begun @ [AbortBroker])
                     | TrayEnds (Some (Inl _)) \<Rightarrow> (Inl ''running Windows notification-area shell'', begun @ [AbortBroker])
                     | TrayEnds (Some (Inr _)) \<Rightarrow> (Inr (), begun @ [AbortBroker])
                     | BrokerEnds result \<Rightarrow>
                         (Inl (case result of None \<Rightarrow> ''per-user broker task failed''
                               | Some None \<Rightarrow> ''per-user command broker exited unexpectedly''
                               | Some (Some e) \<Rightarrow> e),
                          begun @ [RequestTrayExit, AwaitTray])))))"

text \<open>Elsewhere the status of a running host is shown, if it answers.\<close>

definition no_argument_entry_elsewhere :: "admin_error + AdminResponse \<Rightarrow> string + AdminResponse" where
  "no_argument_entry_elsewhere answer =
     (case answer of
        Inr response \<Rightarrow> Inr response
      | Inl _ \<Rightarrow> Inl ''no-argument notification-area mode is Windows-only; use `quest-vd-wired start`'')"

section \<open>The broker does what the command line does\<close>

definition response_of :: "bytes + bytes \<Rightarrow> BrokerResponse" where
  "response_of result = (case result of Inr stdout \<Rightarrow> BrokerResponse_success stdout | Inl error \<Rightarrow> BrokerResponse_failure error)"

text \<open>A result that the broker passes on unchanged: short enough, without a final line break of its own and, for an error, one
  without causes, which has only one rendering.\<close>

definition passes_unchanged :: "(bytes \<Rightarrow> bytes) \<Rightarrow> bytes + bytes \<Rightarrow> bool" where
  "passes_unchanged debug result \<longleftrightarrow>
     (case result of
        Inr out \<Rightarrow> length out \<le> MAX_BROKER_TEXT \<and> (out = [] \<or> last out \<noteq> 0x0A)
      | Inl error \<Rightarrow> length error + 7 \<le> MAX_BROKER_TEXT \<and> (error = [] \<or> last error \<noteq> 0x0A) \<and> debug error = error)"

lemma emit_response:
  "passes_unchanged debug result \<Longrightarrow> emit_broker_response (response_of result) = main_output debug result"
  by (auto simp: passes_unchanged_def emit_broker_response_def response_of_def main_output_def BrokerResponse_success_def
      BrokerResponse_failure_def bounded_broker_text_def ascii_def split: sum.splits)

lemma emit_exit: "se_exit (emit_broker_response (response_of result)) = se_exit (main_output debug result)"
  by (auto simp: emit_broker_response_def response_of_def main_output_def BrokerResponse_success_def
      BrokerResponse_failure_def split: sum.splits)

lemma response_version: "br_protocol_version (response_of result) = BROKER_PROTOCOL_VERSION"
  by (auto simp: response_of_def BrokerResponse_success_def BrokerResponse_failure_def split: sum.splits)

text \<open>The one difference of the two: the broker repairs a missing ADB before a start.\<close>

definition adb_usable :: "public_handlers \<Rightarrow> string \<Rightarrow> Command \<Rightarrow> bool" where
  "adb_usable ph program command \<longleftrightarrow>
     (\<forall>args. command = Start args \<longrightarrow> pu_repair_program ph program (pu_root ph) = Inr program)"

lemma execute_is_public:
  "bx_root x = pu_root ph \<Longrightarrow> adb_usable ph (bx_adb_program x) command \<Longrightarrow>
   fst (BrokerContext_execute (broker_handlers_of ph) command x) = execute_public_command ph (bx_adb_program x) command"
  by (auto simp: BrokerContext_execute_def execute_adb_command_def with_repaired_def ensure_adb_with_def broker_handlers_of_def
      adb_usable_def execute_public_command_def split: Command.splits DiagnosticsCommand.splits sum.splits)

lemma forwarded_means_same:
  assumes "BrokerCommand_try_from command = Inr b" "cli_accepts command"
  shows "\<exists>command'. into_public_command b = Inr command' \<and>
    execute_public_command ph program command' = execute_public_command ph program command \<and>
    (adb_usable ph program command \<longrightarrow> adb_usable ph program command') \<and> (tray_serves t command \<longrightarrow> tray_serves t command')"
  using assms
  by (cases command rule: BrokerCommand_try_from.cases)
     (auto simp: cli_accepts_def execute_public_command_def routes_all_traffic_def from_all_traffic_def adb_usable_def tray_serves_def
       split: sum.splits)

lemma broker_respond_public:
  assumes "BrokerCommand_try_from command = Inr b" "cli_accepts command" "bx_root x = pu_root ph"
    and "adb_usable ph (bx_adb_program x) command" "tray_serves t command"
    and run: "coordinator = None \<or> coordinator = Some (execute_external (broker_handlers_of ph) t True)"
  shows "fst (broker_respond (broker_handlers_of ph) coordinator (broker_request x b) x) =
    response_of (execute_public_command ph (bx_adb_program x) command)"
proof -
  obtain command' where c': "into_public_command b = Inr command'" "adb_usable ph (bx_adb_program x) command'" "tray_serves t command'"
    "execute_public_command ph (bx_adb_program x) command' = execute_public_command ph (bx_adb_program x) command"
    using forwarded_means_same [OF assms(1,2)] assms(4,5) by blast
  obtain r x' where e: "BrokerContext_execute (broker_handlers_of ph) command' x = (r, x')" by fastforce
  then have "r = execute_public_command ph (bx_adb_program x) command"
    using execute_is_public [OF assms(3) c'(2)] c'(4) by (metis fst_conv)
  then show ?thesis
    using run c'(1) e external_served [OF c'(3)]
    by (auto simp: broker_respond_def broker_request_def response_of_def split: sum.splits)
qed

section \<open>Bounds of the pipe\<close>

text \<open>The broker is started at most once, and only when its pipe was not found.\<close>

lemma broker_started_once:
  "snd (open_or_start_broker_client opened start tries n can_start) \<le> (if can_start then 1 else 0)"
  "snd (open_or_start_broker_client opened start tries n can_start) \<noteq> 0 \<Longrightarrow>
     \<exists>i \<ge> n. i < n + tries \<and> opened i = PipeNotFound"
proof -
  show "snd (open_or_start_broker_client opened start tries n can_start) \<le> (if can_start then 1 else 0)"
    by (induction opened start tries n can_start rule: open_or_start_broker_client.induct)
       (auto split: pipe_result.splits option.splits prod.splits)
  show "snd (open_or_start_broker_client opened start tries n can_start) \<noteq> 0 \<Longrightarrow> \<exists>i \<ge> n. i < n + tries \<and> opened i = PipeNotFound"
  proof (induction opened start tries n can_start rule: open_or_start_broker_client.induct)
    case (2 opened start tries n can_start)
    show ?case
    proof (cases "opened n = PipeNotFound")
      case True
      then show ?thesis by (intro exI [of _ n]) simp
    next
      case False
      then have "\<exists>i \<ge> n + 1. i < n + 1 + tries \<and> opened i = PipeNotFound"
        using 2 by (auto split: pipe_result.splits)
      then obtain i where "n + 1 \<le> i" "i < n + 1 + tries" "opened i = PipeNotFound" by blast
      then show ?thesis by (intro exI [of _ i]) simp
    qed
  qed simp
qed

text \<open>Recreating the pipe ends: with tries 25 milliseconds apart, 121 of them reach the deadline.\<close>

lemma recreate_ends:
  assumes "\<And>i. clock i \<ge> start + i * millis 25" "deadline = start + BROKER_IO_TIMEOUT" "n + fuel \<ge> 121" "fuel > 0"
  shows "recreate_broker_pipe created clock deadline fuel n \<noteq> None"
  using assms(3,4)
proof (induction fuel arbitrary: n)
  case (Suc fuel)
  show ?case
  proof (cases "fuel = 0")
    case True
    then have "n \<ge> 120" using Suc.prems by simp
    then have "deadline \<le> start + n * millis 25"
      by (simp add: assms(2) BROKER_IO_TIMEOUT_def seconds_def millis_def)
    then have "deadline \<le> clock n" using assms(1) [of n] by simp
    then show ?thesis by (simp split: pipe_result.splits)
  next
    case False
    then show ?thesis using Suc.IH [of "n + 1"] Suc.prems by (auto split: pipe_result.splits)
  qed
qed simp

text \<open>Connections of one pipe follow each other: none meets a busy gate, and the gate is free between them.\<close>

lemma handled_frees_gate:
  assumes "bo_gate h = BrokerGate_default" "handle_broker_connection hs pass h = (h', ended)"
  shows "bo_gate h' = BrokerGate_default \<and> ended \<noteq> BC_Finished (Inl BrokerBusy)"
  using assms
  by (auto simp: handle_broker_connection_def connection_begin_def begin_command_def BrokerGate_default_def connection_finish_def
      finish_command_def connection_answer_def split: prod.splits if_splits sum.splits option.splits)

lemma serve_never_busy:
  "bo_gate h = BrokerGate_default \<Longrightarrow> serve_broker hs passes h = (r, h', ends) \<Longrightarrow>
   bo_gate h' = BrokerGate_default \<and> BC_Finished (Inl BrokerBusy) \<notin> set ends"
proof (induction hs passes h arbitrary: r h' ends rule: serve_broker.induct)
  case (2 hs pass passes h)
  obtain h1 ended where e: "handle_broker_connection hs pass h = (h1, ended)" by fastforce
  from handled_frees_gate [OF 2(2) e] have 1: "bo_gate h1 = BrokerGate_default" "ended \<noteq> BC_Finished (Inl BrokerBusy)" by auto
  show ?case
  proof (cases "pp_connect pass = None \<and> (\<exists>n. pp_recreated pass = Inr n)")
    case False
    then show ?thesis using 2(2,3) e 1 by (cases "pp_connect pass"; cases "pp_recreated pass") auto
  next
    case True
    then obtain n where n: "pp_connect pass = None" "pp_recreated pass = Inr n" by blast
    obtain r2 h2 ends2 where s: "serve_broker hs passes h1 = (r2, h2, ends2)" by (metis prod_cases3)
    from 2(1) [OF n(1) e [symmetric] n(2) 1(1) s] 2(3) n e s 1(2) show ?thesis by auto
  qed
qed simp

text \<open>A visible primary instance has a listening broker, and a second instance starts nothing.\<close>

lemma no_argument_order:
  assumes "no_argument_entry acquired prepared ending = (r, steps)"
  shows "SpawnTray \<in> set steps \<Longrightarrow> prepared = None \<and> \<not> isl acquired"
    "acquired = Inr None \<Longrightarrow> steps = []" "RequestTrayExit \<in> set steps \<Longrightarrow> isl r"
  using assms
  by (auto simp: no_argument_entry_def no_argument_tray_action_def Let_def split: sum.splits option.splits entry_ending.splits)

section \<open>Properties\<close>

text \<open>C37. A command that is forwarded to the broker shows what it shows when \<^verbatim>\<open>main\<close> executes it itself.  With a codec that reads
  back what it wrote, a broker of the same directory and the same ADB program, an ADB that need not be repaired for a
  start, messages in time and within the limit of a frame, and, once the tray has a coordinator, one that is there
  and does not refuse the command: the exit code of the client is that of the direct execution, and a result that
  is short enough, does not end with a line break and is no error with causes shows the same bytes on both
  streams.  Flags of start that mean the same are not told apart.\<close>

theorem forwarded_command_transparent:
  assumes json: "json_ok encode (bi_decode io)" "json_ok (bi_encode io) decode"
    and action: "main_action True cli = Forward b" "cl_command cli = Some command" "cli_accepts command"
    and broker: "bx_root x = pu_root ph" "adb_usable ph (bx_adb_program x) command" "tray_serves t command"
      "coordinator = None \<or> coordinator = Some (execute_external (broker_handlers_of ph) t True)"
    and timely: "bi_request_timely io" "bi_response_late io = None" "elapsed \<le> response_timeout b + seconds 5"
    and request: "fits MAX_BROKER_FRAME encode (broker_request x b)"
    and response: "fits MAX_BROKER_FRAME (bi_encode io) (response_of (execute_public_command ph (bx_adb_program x) command))"
  shows "\<exists>sent received answer x'.
     send_broker_command encode decode x b elapsed \<lparr>written = [], broken = None\<rparr>
       \<lparr>pending = received, closing = UnexpectedEof\<rparr> = (Inr answer, \<lparr>written = sent, broken = None\<rparr>) \<and>
     connection_answer (broker_handlers_of ph) coordinator io \<lparr>pending = sent, closing = UnexpectedEof\<rparr>
       \<lparr>written = [], broken = None\<rparr> x = (Inr (), \<lparr>written = received, broken = None\<rparr>, x') \<and>
     se_exit (emit_broker_response answer) = se_exit (run_here debug ph (bx_adb_program x) command) \<and>
     (passes_unchanged debug (execute_public_command ph (bx_adb_program x) command) \<longrightarrow>
        emit_broker_response answer = run_here debug ph (bx_adb_program x) command)"
proof -
  let ?q = "broker_request x b" and ?r = "response_of (execute_public_command ph (bx_adb_program x) command)"
  have "BrokerCommand_try_from command = Inr b"
    using action(1,2) by (auto simp: main_action_def split: Command.splits if_splits sum.splits)
  from broker_respond_public [OF this action(3) broker]
  obtain x' where resp: "broker_respond (broker_handlers_of ph) coordinator ?q x = (?r, x')" by (metis prod.collapse)
  have "send_broker_command encode decode x b elapsed \<lparr>written = [], broken = None\<rparr>
      \<lparr>pending = message_bytes (bi_encode io) ?r, closing = UnexpectedEof\<rparr> =
      (Inr ?r, \<lparr>written = message_bytes encode ?q, broken = None\<rparr>)"
    using timely(3) broker_lane.written [OF request, of "\<lparr>written = [], broken = None\<rparr>"]
      broker_lane.read_back [OF json(2) response, of "\<lparr>pending = message_bytes (bi_encode io) ?r, closing = UnexpectedEof\<rparr>" "[]"]
    by (simp add: send_broker_command_def response_version)
  moreover have "connection_answer (broker_handlers_of ph) coordinator io
      \<lparr>pending = message_bytes encode ?q, closing = UnexpectedEof\<rparr> \<lparr>written = [], broken = None\<rparr> x =
      (Inr (), \<lparr>written = message_bytes (bi_encode io) ?r, broken = None\<rparr>, x')"
    using timely(1,2) resp broker_lane.written [OF response, of "\<lparr>written = [], broken = None\<rparr>"]
      broker_lane.read_back [OF json(1) request, of "\<lparr>pending = message_bytes encode ?q, closing = UnexpectedEof\<rparr>" "[]"]
    by (simp add: connection_answer_def)
  ultimately show ?thesis using emit_response emit_exit unfolding run_here_def by blast
qed

text \<open>C38. A broker that repaired ADB turns its own client away.  When the configured ADB does not answer and a start repairs it,
  the broker exchanges its program for the repaired one; the client still names the configured one, so every
  later command of the same client, a stop included, is refused as one of a different ADB.\<close>

theorem repaired_broker_refuses_its_client:
  assumes "pu_repair_program ph (bx_adb_program x) (bx_root x) = Inr repaired" "repaired \<noteq> bx_adb_program x"
  shows "\<exists>answer x'. broker_respond (broker_handlers_of ph) None (broker_request x (BStart all_traffic)) x = (answer, x') \<and>
    broker_respond (broker_handlers_of ph) coordinator (broker_request x command) x' =
      (BrokerResponse_failure other_adb_text, x')"
proof -
  have x': "snd (BrokerContext_execute (broker_handlers_of ph) (Start args) x) = x\<lparr>bx_adb_program := repaired\<rparr>" for args
    using assms
    by (simp add: BrokerContext_execute_def execute_adb_command_def with_repaired_def ensure_adb_with_def broker_handlers_of_def)
  have "snd (broker_respond (broker_handlers_of ph) None (broker_request x (BStart all_traffic)) x) = x\<lparr>bx_adb_program := repaired\<rparr>"
    using x' [of "from_all_traffic all_traffic"] by (auto simp: broker_respond_def broker_request_def split: prod.splits sum.splits)
  moreover have "broker_respond (broker_handlers_of ph) coordinator (broker_request x command) (x\<lparr>bx_adb_program := repaired\<rparr>) =
      (BrokerResponse_failure other_adb_text, x\<lparr>bx_adb_program := repaired\<rparr>)"
    using assms(2) by (simp add: broker_respond_def broker_request_def)
  ultimately show ?thesis by (metis prod.collapse)
qed

section \<open>Witnesses\<close>

definition sample_handlers :: public_handlers where
  "sample_handlers = \<lparr>pu_root = ''root'', pu_repair_program = (\<lambda>program root. Inr ''local-adb''),
     pu_start = (\<lambda>program all_traffic. Inr (ascii program)), pu_stop = (\<lambda>program. Inl (ascii ''no headset'')),
     pu_status = (\<lambda>program as_json. Inr []), pu_repair = (\<lambda>program. Inr []), pu_doctor = (\<lambda>program. Inr []),
     pu_capture = (\<lambda>d program. Inr []), pu_export = (\<lambda>path. Inr []), pu_version = ''4.0''\<rparr>"

definition sample_context :: BrokerContext where "sample_context = \<lparr>bx_root = ''root'', bx_adb_program = ''adb''\<rparr>"

definition stop_answer :: BrokerResponse where "stop_answer = response_of (Inl (ascii ''no headset''))"

definition stop_io :: broker_io where
  "stop_io = \<lparr>bi_request_timely = True, bi_response_late = None,
     bi_decode = one_decode (broker_request sample_context BStop) (ascii ''stop''),
     bi_encode = one_encode stop_answer (ascii ''answer'')\<rparr>"

definition idle_tray :: Tray where
  "idle_tray = \<lparr>ty_intent = IntentOn, ty_diagnosing = False, ty_queue = [], ty_closed = False, ty_issued = 0, ty_log = []\<rparr>"

theorem forwarded_command_transparent_witness:
  "\<exists>sent received answer x'.
     send_broker_command (one_encode (broker_request sample_context BStop) (ascii ''stop''))
       (one_decode stop_answer (ascii ''answer'')) sample_context BStop 0 \<lparr>written = [], broken = None\<rparr>
       \<lparr>pending = received, closing = UnexpectedEof\<rparr> = (Inr answer, \<lparr>written = sent, broken = None\<rparr>) \<and>
     connection_answer (broker_handlers_of sample_handlers)
       (Some (execute_external (broker_handlers_of sample_handlers) idle_tray True)) stop_io
       \<lparr>pending = sent, closing = UnexpectedEof\<rparr>
       \<lparr>written = [], broken = None\<rparr> sample_context = (Inr (), \<lparr>written = received, broken = None\<rparr>, x') \<and>
     emit_broker_response answer = \<lparr>se_stdout = [], se_stderr = ascii ''Error: no headset'' @ [0x0A], se_exit = 1\<rparr>"
proof -
  have r: "execute_public_command sample_handlers (bx_adb_program sample_context) Stop = Inl (ascii ''no headset'')"
    by (simp add: execute_public_command_def sample_handlers_def)
  have f: "fits MAX_BROKER_FRAME (bi_encode stop_io) (response_of (execute_public_command sample_handlers (bx_adb_program sample_context) Stop))"
    unfolding r stop_io_def stop_answer_def by (simp add: one_fits ascii_def MAX_BROKER_FRAME_def)
  have p: "passes_unchanged id (execute_public_command sample_handlers (bx_adb_program sample_context) Stop)"
    unfolding r by (simp add: passes_unchanged_def ascii_def MAX_BROKER_TEXT_def)
  have h: "run_here id sample_handlers (bx_adb_program sample_context) Stop =
      \<lparr>se_stdout = [], se_stderr = ascii ''Error: no headset'' @ [0x0A], se_exit = 1\<rparr>"
    unfolding run_here_def r by (simp add: main_output_def ascii_def)
  have "\<exists>sent received answer x'.
     send_broker_command (one_encode (broker_request sample_context BStop) (ascii ''stop''))
       (one_decode stop_answer (ascii ''answer'')) sample_context BStop 0 \<lparr>written = [], broken = None\<rparr>
       \<lparr>pending = received, closing = UnexpectedEof\<rparr> = (Inr answer, \<lparr>written = sent, broken = None\<rparr>) \<and>
     connection_answer (broker_handlers_of sample_handlers)
       (Some (execute_external (broker_handlers_of sample_handlers) idle_tray True)) stop_io
       \<lparr>pending = sent, closing = UnexpectedEof\<rparr>
       \<lparr>written = [], broken = None\<rparr> sample_context = (Inr (), \<lparr>written = received, broken = None\<rparr>, x') \<and>
     se_exit (emit_broker_response answer) = se_exit (run_here id sample_handlers (bx_adb_program sample_context) Stop) \<and>
     (passes_unchanged id (execute_public_command sample_handlers (bx_adb_program sample_context) Stop) \<longrightarrow>
        emit_broker_response answer = run_here id sample_handlers (bx_adb_program sample_context) Stop)"
    by (rule forwarded_command_transparent [OF _ _ _ _ _ _ _ _ _ _ _ _ _ f,
          where cli = "\<lparr>cl_home = None, cl_adb = None, cl_command = Some Stop\<rparr>" and t = idle_tray])
       (simp_all add: stop_io_def one_json one_fits main_action_def command_runs_client_side_def cli_accepts_def sample_context_def
         sample_handlers_def ascii_def MAX_BROKER_FRAME_def adb_usable_def tray_serves_def idle_tray_def)
  then show ?thesis using p unfolding h by blast
qed

theorem repaired_broker_refuses_its_client_witness:
  "\<exists>answer x'. broker_respond (broker_handlers_of sample_handlers) None (broker_request sample_context (BStart True)) sample_context =
      (answer, x') \<and>
    broker_respond (broker_handlers_of sample_handlers) None (broker_request sample_context BStop) x' =
      (BrokerResponse_failure other_adb_text, x')"
  by (rule repaired_broker_refuses_its_client [where repaired = "''local-adb''"])
     (simp_all add: sample_handlers_def sample_context_def)

end
