(* ===== verification/WinHost.thy ===== *)
theory WinHost
  imports Admin HostFiles
begin

text \<open>
  Support for processes and pipes on Windows, and the paths of the application (\<^verbatim>\<open>runtime.rs\<close>): process objects with their
  handles, the identity a daemon writes and its termination, the job object, the user's pipes, the listener of the
  admin pipe and the probe of Virtual Desktop.  The kernel is modelled as far as the code relies on it: an object
  keeps its number, its creation time and its program; a number is reused only when no object has it, with a later
  creation time.
\<close>

section \<open>Paths\<close>

record AppPaths =
  ap_root :: string
  ap_logs :: string
  ap_status :: string
  ap_daemon_pid :: string
  ap_operation_lock :: string
  ap_runtime_lock :: string
  ap_admin_token :: string
  ap_admin_socket :: string

definition join_path :: "string \<Rightarrow> string \<Rightarrow> string" where "join_path dir name = dir @ ''/'' @ name"

definition app_root :: "bool \<Rightarrow> (string \<Rightarrow> string option) \<Rightarrow> string \<Rightarrow> string option \<Rightarrow> string" where
  "app_root windows variable temp_dir override_root =
     (case override_root of
        Some root \<Rightarrow> root
      | None \<Rightarrow>
          (case variable ''GNIREHTET_VD_HOME'' of
             Some root \<Rightarrow> root
           | None \<Rightarrow>
               if windows then
                 join_path (case variable ''LOCALAPPDATA'' of Some d \<Rightarrow> d | None \<Rightarrow> temp_dir) ''GnirehtetVD''
               else
                 join_path
                   (case variable ''XDG_STATE_HOME'' of
                      Some d \<Rightarrow> d
                    | None \<Rightarrow> (case variable ''HOME'' of Some home \<Rightarrow> join_path home ''.local/state'' | None \<Rightarrow> temp_dir))
                   ''gnirehtet-vd''))"

definition app_paths :: "string \<Rightarrow> AppPaths" where
  "app_paths root =
     \<lparr>ap_root = root, ap_logs = join_path root ''logs'', ap_status = join_path root ''status.json'',
      ap_daemon_pid = join_path root ''daemon.pid'', ap_operation_lock = join_path root ''operation.lock'',
      ap_runtime_lock = join_path root ''runtime.lock'', ap_admin_token = join_path root ''admin.token'',
      ap_admin_socket = join_path root ''admin.sock''\<rparr>"

text \<open>\<open>mkdir\<close> gives the outcome of creating a directory.\<close>

definition AppPaths_discover ::
  "bool \<Rightarrow> (string \<Rightarrow> string option) \<Rightarrow> string \<Rightarrow> (string \<Rightarrow> io_kind option) \<Rightarrow> string option \<Rightarrow> io_kind + AppPaths" where
  "AppPaths_discover windows variable temp_dir mkdir override_root =
     (let root = app_root windows variable temp_dir override_root; paths = app_paths root in
      case mkdir root of
        Some k \<Rightarrow> Inl k
      | None \<Rightarrow> (case mkdir (ap_logs paths) of Some k \<Rightarrow> Inl k | None \<Rightarrow> Inr paths))"

section \<open>Process objects\<close>

record process_object =
  po_pid :: pid
  po_created :: u64
  po_path :: string
  po_exit :: "u32 option"

text \<open>The objects in the order of their creation, the handles of this process and those of others (both as positions of
  objects), and the objects this process has terminated.\<close>

record kernel =
  ke_objects :: "process_object list"
  ke_handles :: "nat list"
  ke_foreign :: "nat list"
  ke_terminated :: "nat list"

definition object_present :: "kernel \<Rightarrow> nat \<Rightarrow> bool" where
  "object_present k i \<longleftrightarrow> i < length (ke_objects k) \<and>
     (po_exit (ke_objects k ! i) = None \<or> i \<in> set (ke_handles k) \<or> i \<in> set (ke_foreign k))"

datatype process_error = NoSuchProcess | AccessDenied | CallFailed | IdentityUnreadable | IdentityMismatch | WaitTimedOut

definition find_process :: "kernel \<Rightarrow> pid \<Rightarrow> nat option" where
  "find_process k p = List.find (\<lambda>i. object_present k i \<and> po_pid (ke_objects k ! i) = p) [0..<length (ke_objects k)]"

definition open_windows_process :: "bool \<Rightarrow> pid \<Rightarrow> kernel \<Rightarrow> (process_error + nat) \<times> kernel" where
  "open_windows_process granted p k =
     (case find_process k p of
        None \<Rightarrow> (Inl NoSuchProcess, k)
      | Some i \<Rightarrow> if granted then (Inr i, k\<lparr>ke_handles := i # ke_handles k\<rparr>) else (Inl AccessDenied, k))"

definition close_handle :: "nat \<Rightarrow> kernel \<Rightarrow> kernel" where
  "close_handle i k = k\<lparr>ke_handles := remove1 i (ke_handles k)\<rparr>"

definition STILL_ACTIVE :: u32 where "STILL_ACTIVE = 259"

definition object_snapshot :: "process_object \<Rightarrow> WindowsProcessSnapshot" where
  "object_snapshot po =
     \<lparr>wp_active = ((case po_exit po of None \<Rightarrow> STILL_ACTIVE | Some code \<Rightarrow> code) = STILL_ACTIVE),
      wp_creation_time = po_created po, wp_executable_path = po_path po\<rparr>"

text \<open>\<open>queried\<close> says that the three queries succeed.\<close>

definition windows_process_snapshot_from_handle :: "bool \<Rightarrow> nat \<Rightarrow> kernel \<Rightarrow> process_error + WindowsProcessSnapshot" where
  "windows_process_snapshot_from_handle queried i k =
     (if queried then Inr (object_snapshot (ke_objects k ! i)) else Inl CallFailed)"

definition windows_process_snapshot :: "bool \<Rightarrow> bool \<Rightarrow> pid \<Rightarrow> kernel \<Rightarrow> (process_error + WindowsProcessSnapshot) \<times> kernel" where
  "windows_process_snapshot granted queried p k =
     (case open_windows_process granted p k of
        (Inl e, k) \<Rightarrow> (Inl e, k)
      | (Inr i, k) \<Rightarrow> (windows_process_snapshot_from_handle queried i k, close_handle i k))"

definition process_is_running_windows :: "bool \<Rightarrow> bool \<Rightarrow> pid \<Rightarrow> kernel \<Rightarrow> bool" where
  "process_is_running_windows granted queried p k =
     (if p = 0 then False
      else case fst (windows_process_snapshot granted queried p k) of Inl _ \<Rightarrow> False | Inr snap \<Rightarrow> wp_active snap)"

text \<open>Outside Windows \<^verbatim>\<open>kill -0\<close> asks for a process of that number.\<close>

definition process_is_running_unix :: "pid \<Rightarrow> kernel \<Rightarrow> bool" where
  "process_is_running_unix p k =
     (p \<noteq> 0 \<and> list_ex (\<lambda>po. po_pid po = p \<and> po_exit po = None) (ke_objects k))"

section \<open>The identity and the termination of the daemon\<close>

text \<open>What the process \<open>me\<close> writes about itself.\<close>

definition write_daemon_identity_windows :: "bool \<Rightarrow> bool \<Rightarrow> nat \<Rightarrow> SessionId \<Rightarrow> kernel \<Rightarrow> process_error + DaemonIdentity" where
  "write_daemon_identity_windows granted queried me session k =
     (let p = po_pid (ke_objects k ! me) in
      case fst (windows_process_snapshot granted queried p k) of
        Inl e \<Rightarrow> Inl e
      | Inr snap \<Rightarrow>
          if \<not> wp_active snap then Inl CallFailed
          else Inr \<lparr>di_role = ''gnirehtet-vd-daemon'', di_pid = p, di_creation_time = wp_creation_time snap,
                    di_session_id = SessionId_to_string session, di_executable_path = wp_executable_path snap\<rparr>)"

text \<open>Between two calls of \<^verbatim>\<open>terminate_daemon\<close> other processes start and exit.  The handle is closed on every return.\<close>

datatype terminate_phase = Beginning | Opened nat | Matched nat | Waiting nat | Finished "process_error + unit"

definition terminate_open :: "DaemonIdentity option \<Rightarrow> bool \<Rightarrow> kernel \<Rightarrow> kernel \<times> terminate_phase" where
  "terminate_open identity granted k =
     (case identity of
        None \<Rightarrow> (k, Finished (Inl IdentityUnreadable))
      | Some identity \<Rightarrow>
          (case open_windows_process granted (di_pid identity) k of
             (Inl e, k) \<Rightarrow> (k, Finished (Inl e))
           | (Inr i, k) \<Rightarrow> (k, Opened i)))"

definition terminate_check :: "DaemonIdentity \<Rightarrow> bool \<Rightarrow> nat \<Rightarrow> kernel \<Rightarrow> kernel \<times> terminate_phase" where
  "terminate_check identity queried i k =
     (case windows_process_snapshot_from_handle queried i k of
        Inl e \<Rightarrow> (close_handle i k, Finished (Inl e))
      | Inr snap \<Rightarrow>
          if daemon_identity_matches identity snap then (k, Matched i)
          else (close_handle i k, Finished (Inl IdentityMismatch)))"

text \<open>Terminating an object that has exited is refused; otherwise its exit follows.\<close>

definition terminate_call :: "bool \<Rightarrow> nat \<Rightarrow> kernel \<Rightarrow> kernel \<times> terminate_phase" where
  "terminate_call works i k =
     (if works \<and> po_exit (ke_objects k ! i) = None then (k\<lparr>ke_terminated := ke_terminated k @ [i]\<rparr>, Waiting i)
      else (close_handle i k, Finished (Inl CallFailed)))"

text \<open>The wait reports the exit of the object, a timeout or a failure.\<close>

definition terminate_wait :: "bool \<Rightarrow> nat \<Rightarrow> kernel \<Rightarrow> kernel \<times> terminate_phase" where
  "terminate_wait works i k =
     (close_handle i k, Finished
        (if \<not> works then Inl CallFailed else if po_exit (ke_objects k ! i) \<noteq> None then Inr () else Inl WaitTimedOut))"

inductive kernel_step :: "kernel \<Rightarrow> kernel \<Rightarrow> bool" where
  process_starts: "po_exit po = None \<Longrightarrow> find_process k (po_pid po) = None \<Longrightarrow>
    list_all (\<lambda>q. po_pid q = po_pid po \<longrightarrow> po_created q < po_created po) (ke_objects k) \<Longrightarrow>
    kernel_step k (k\<lparr>ke_objects := ke_objects k @ [po]\<rparr>)"
| process_exits: "i < length (ke_objects k) \<Longrightarrow> po_exit (ke_objects k ! i) = None \<Longrightarrow>
    kernel_step k (k\<lparr>ke_objects := (ke_objects k)[i := (ke_objects k ! i)\<lparr>po_exit := Some code\<rparr>]\<rparr>)"
| foreign_handles: "kernel_step k (k\<lparr>ke_foreign := hs\<rparr>)"

inductive terminate_step :: "DaemonIdentity \<Rightarrow> kernel \<times> terminate_phase \<Rightarrow> kernel \<times> terminate_phase \<Rightarrow> bool"
  for identity where
  ts_kernel: "kernel_step k k' \<Longrightarrow> terminate_step identity (k, ph) (k', ph)"
| ts_open: "terminate_step identity (k, Beginning) (terminate_open (if read_ok then Some identity else None) granted k)"
| ts_check: "terminate_step identity (k, Opened i) (terminate_check identity queried i k)"
| ts_call: "terminate_step identity (k, Matched i) (terminate_call works i k)"
| ts_wait: "terminate_step identity (k, Waiting i) (terminate_wait works i k)"

text \<open>Outside Windows the process of the number in the file is sent a signal, whichever it is.\<close>

definition terminate_process :: "pid \<Rightarrow> kernel \<Rightarrow> (process_error + unit) \<times> kernel" where
  "terminate_process p k =
     (case List.find (\<lambda>i. po_pid (ke_objects k ! i) = p \<and> po_exit (ke_objects k ! i) = None) [0..<length (ke_objects k)] of
        None \<Rightarrow> (Inl CallFailed, k)
      | Some i \<Rightarrow> (Inr (), k\<lparr>ke_terminated := ke_terminated k @ [i]\<rparr>))"

definition terminate_daemon_unix :: "string option \<Rightarrow> kernel \<Rightarrow> (process_error + unit) \<times> kernel" where
  "terminate_daemon_unix file' k =
     (case read_daemon_pid file' of None \<Rightarrow> (Inl IdentityUnreadable, k) | Some p \<Rightarrow> terminate_process p k)"

section \<open>The job of the runtime\<close>

text \<open>The outcomes of the calls; the result comes with the job kept for the rest of the process and with the handles left
  open (the number of the job's handle is 1).  \<open>kept\<close> is the job of an earlier call.\<close>

record job_calls =
  jc_created :: bool
  jc_limited :: bool
  jc_assigned :: bool
  jc_raced :: bool

definition install_runtime_kill_job :: "job_calls \<Rightarrow> bool \<Rightarrow> (process_error + unit) \<times> bool \<times> nat list" where
  "install_runtime_kill_job calls kept =
     (if kept then (Inr (), True, [])
      else if \<not> jc_created calls then (Inl CallFailed, False, [])
      else if \<not> jc_limited calls then (Inl CallFailed, False, remove1 1 [1])
      else if \<not> jc_assigned calls then (Inl CallFailed, False, remove1 1 [1])
      else if jc_raced calls then (Inl CallFailed, True, [1])
      else (Inr (), True, [1]))"

section \<open>The user and the pipes\<close>

text \<open>\<^verbatim>\<open>windows_current_user_sid\<close>: the calls in order; \<open>required\<close> is the size the first query reports, \<open>unterminated\<close> the units of
  the SID string up to its zero.\<close>

record sid_calls =
  sc_opened :: bool
  sc_sized :: bool
  sc_insufficient :: bool
  sc_required :: u32
  sc_filled :: bool
  sc_converted :: bool
  sc_units :: "u16 list"

definition TOKEN_USER_SIZE :: nat where "TOKEN_USER_SIZE = 16"
definition USIZE_BYTES :: nat where "USIZE_BYTES = 8"

text \<open>The words of the buffer for the second query.\<close>

definition sid_word_count :: "u32 \<Rightarrow> nat" where
  "sid_word_count required = (unat required + USIZE_BYTES - 1) div USIZE_BYTES"

definition units_before_zero :: "u16 list \<Rightarrow> u16 list" where "units_before_zero us = takeWhile (\<lambda>u. u \<noteq> 0) us"

definition ascii_units :: "u16 list \<Rightarrow> string option" where
  "ascii_units us = (if list_all (\<lambda>u. u < 128) us then Some (map (\<lambda>u. char_of (unat u)) us) else None)"

definition windows_current_user_sid :: "sid_calls \<Rightarrow> process_error + string" where
  "windows_current_user_sid calls =
     (if \<not> sc_opened calls then Inl CallFailed
      else if sc_sized calls \<or> \<not> sc_insufficient calls \<or> unat (sc_required calls) < TOKEN_USER_SIZE then Inl CallFailed
      else if \<not> sc_filled calls then Inl CallFailed
      else if \<not> sc_converted calls then Inl CallFailed
      else case ascii_units (units_before_zero (sc_units calls)) of None \<Rightarrow> Inl CallFailed | Some sid \<Rightarrow> Inr sid)"

definition sid_text :: "string \<Rightarrow> string" where "sid_text sid = map (\<lambda>c. if c = CHR ''-'' then CHR ''_'' else c) sid"

definition windows_admin_pipe_name :: "string \<Rightarrow> string" where
  "windows_admin_pipe_name sid = [CHR 0x5C, CHR 0x5C] @ ''.'' @ [CHR 0x5C] @ ''pipe'' @ [CHR 0x5C] @ ''gnirehtet-vd-'' @ sid_text sid"

definition windows_broker_pipe_name :: "string \<Rightarrow> string" where
  "windows_broker_pipe_name sid =
     [CHR 0x5C, CHR 0x5C] @ ''.'' @ [CHR 0x5C] @ ''pipe'' @ [CHR 0x5C] @ ''gnirehtet-vd-broker-'' @ sid_text sid"

definition user_only_pipe_sddl :: "string \<Rightarrow> string" where
  "user_only_pipe_sddl sid = ''D:P(A;;GA;;;'' @ sid @ '')''"

text \<open>A pipe is created with the descriptor of its owner, the limit of instances and without remote clients.\<close>

record pipe_options =
  px_name :: string
  px_first :: bool
  px_max_instances :: nat
  px_reject_remote :: bool
  px_sddl :: string

definition create_secure_named_pipe :: "process_error + string \<Rightarrow> bool \<Rightarrow> string \<Rightarrow> bool \<Rightarrow> nat \<Rightarrow> process_error + pipe_options" where
  "create_secure_named_pipe sid descriptor_ok name first max_instances =
     (case sid of
        Inl e \<Rightarrow> Inl e
      | Inr sid \<Rightarrow>
          if \<not> descriptor_ok then Inl CallFailed
          else Inr \<lparr>px_name = name, px_first = first, px_max_instances = max_instances, px_reject_remote = True,
                    px_sddl = user_only_pipe_sddl sid\<rparr>)"

section \<open>The client of the admin pipe\<close>

datatype admin_pipe_open = AdminPipeReady | AdminPipeBusy | AdminPipeError

text \<open>A busy pipe is tried again, without a bound of its own: \<open>None\<close> when the fuel is used up.\<close>

fun open_named_pipe_client :: "(nat \<Rightarrow> admin_pipe_open) \<Rightarrow> nat \<Rightarrow> nat \<Rightarrow> (process_error + nat) option" where
  "open_named_pipe_client opened 0 n = None"
| "open_named_pipe_client opened (Suc fuel) n =
     (case opened n of
        AdminPipeReady \<Rightarrow> Some (Inr n)
      | AdminPipeBusy \<Rightarrow> open_named_pipe_client opened fuel (n + 1)
      | AdminPipeError \<Rightarrow> Some (Inl CallFailed))"

section \<open>The listener of the admin pipe\<close>

text \<open>\<open>wl_instances\<close> counts the instances of the pipe in the kernel.  A handler ends by closing its end of the instance and then
  giving its permit back.  An instance goes with its last handle: one whose client still holds its end lingers, no
  longer the server's own, until the client closes too.  The kernel refuses an instance as busy exactly when as many
  exist as the pipe allows.\<close>

datatype listener_loop = Reserving | Creating | Connecting | Sleeping | ListenerFailed

record pipe_listener =
  wl_permits :: nat
  wl_instances :: nat
  wl_lingering :: nat
  wl_handlers :: nat
  wl_closing :: nat
  wl_first :: bool
  wl_loop :: listener_loop

definition pipe_listening :: pipe_listener where
  "pipe_listening = \<lparr>wl_permits = MAX_ADMIN_CONNECTIONS, wl_instances = 0, wl_lingering = 0, wl_handlers = 0, wl_closing = 0,
     wl_first = True, wl_loop = Reserving\<rparr>"

inductive serve_windows_step :: "pipe_listener \<Rightarrow> pipe_listener \<Rightarrow> bool" where
  ws_reserve: "wl_loop l = Reserving \<Longrightarrow> wl_permits l > 0 \<Longrightarrow>
    serve_windows_step l (l\<lparr>wl_permits := wl_permits l - 1, wl_loop := Creating\<rparr>)"
| ws_create: "wl_loop l = Creating \<Longrightarrow> wl_instances l < MAX_ADMIN_CONNECTIONS \<Longrightarrow>
    serve_windows_step l (l\<lparr>wl_instances := wl_instances l + 1, wl_first := False, wl_loop := Connecting\<rparr>)"
| ws_create_busy: "wl_loop l = Creating \<Longrightarrow> wl_instances l = MAX_ADMIN_CONNECTIONS \<Longrightarrow>
    serve_windows_step l (l\<lparr>wl_permits := wl_permits l + 1, wl_loop := Sleeping\<rparr>)"
| ws_create_failed: "wl_loop l = Creating \<Longrightarrow> wl_instances l < MAX_ADMIN_CONNECTIONS \<Longrightarrow>
    serve_windows_step l (l\<lparr>wl_permits := wl_permits l + 1, wl_loop := ListenerFailed\<rparr>)"
| ws_slept: "wl_loop l = Sleeping \<Longrightarrow> serve_windows_step l (l\<lparr>wl_loop := Reserving\<rparr>)"
| ws_connected: "wl_loop l = Connecting \<Longrightarrow>
    serve_windows_step l (l\<lparr>wl_handlers := wl_handlers l + 1, wl_loop := Reserving\<rparr>)"
| ws_connect_failed: "wl_loop l = Connecting \<Longrightarrow>
    serve_windows_step l (l\<lparr>wl_instances := wl_instances l - 1, wl_permits := wl_permits l + 1, wl_loop := ListenerFailed\<rparr>)"
| ws_handled: "wl_handlers l > 0 \<Longrightarrow>
    serve_windows_step l (l\<lparr>wl_instances := wl_instances l - 1, wl_handlers := wl_handlers l - 1, wl_closing := wl_closing l + 1\<rparr>)"
| ws_handled_lingering: "wl_handlers l > 0 \<Longrightarrow>
    serve_windows_step l (l\<lparr>wl_lingering := wl_lingering l + 1, wl_handlers := wl_handlers l - 1, wl_closing := wl_closing l + 1\<rparr>)"
| ws_client_closes: "wl_lingering l > 0 \<Longrightarrow>
    serve_windows_step l (l\<lparr>wl_instances := wl_instances l - 1, wl_lingering := wl_lingering l - 1\<rparr>)"
| ws_permit_dropped: "wl_closing l > 0 \<Longrightarrow>
    serve_windows_step l (l\<lparr>wl_closing := wl_closing l - 1, wl_permits := wl_permits l + 1\<rparr>)"

section \<open>Asking for Virtual Desktop\<close>

datatype child_wait = ChildExited bool string | ChildLate | ChildFailed

definition MAX_COMMAND_OUTPUT :: nat where "MAX_COMMAND_OUTPUT = 64 * 1024"

definition command_text_with_timeout :: "bool \<Rightarrow> child_wait \<Rightarrow> process_error + bool \<times> string" where
  "command_text_with_timeout spawned wait =
     (if \<not> spawned then Inl CallFailed
      else case wait of
        ChildExited success written' \<Rightarrow> Inr (success, take MAX_COMMAND_OUTPUT written')
      | ChildLate \<Rightarrow> Inl WaitTimedOut
      | ChildFailed \<Rightarrow> Inl CallFailed)"

definition parse_streamer :: "string \<Rightarrow> StreamerProbe" where
  "parse_streamer raw =
     (let t = trim raw in
      if t = ''NOT_RUNNING'' then SP_NotRunning
      else if t = ''NOT_LISTENING'' then SP_RunningNotListening
      else if t = ''CHECK_FAILED'' then SP_CheckFailed
      else case strip_prefix ''LISTENING '' t of
        None \<Rightarrow> SP_Unknown
      | Some value \<Rightarrow>
          (case map (parse_unsigned usize_max) (split_whitespace value) of
             Some tcp # Some udp # _ \<Rightarrow> SP_Listening tcp udp
           | _ \<Rightarrow> SP_Unknown))"

definition probe_virtual_desktop_streamer :: "process_error + bool \<times> string \<Rightarrow> StreamerProbe" where
  "probe_virtual_desktop_streamer output' =
     (case output' of Inl _ \<Rightarrow> SP_CheckFailed | Inr (success, raw) \<Rightarrow> if \<not> success then SP_CheckFailed else parse_streamer raw)"

definition probe_virtual_desktop_streamer_elsewhere :: StreamerProbe where
  "probe_virtual_desktop_streamer_elsewhere = SP_Unsupported"

end
