(* ===== verification/WinHostProps.thy ===== *)
theory WinHostProps
  imports WinHost
begin

text \<open>
  Properties of the support for Windows: a daemon is terminated only if it is the one that wrote the identity, whatever
  numbers are reused, and every handle is closed; the listener of the admin pipe never needs a ninth instance; the
  pipes of two users and the two pipes of one user are distinct.
\<close>

section \<open>Process objects keep what identifies them\<close>

definition same_process :: "process_object \<Rightarrow> process_object \<Rightarrow> bool" where
  "same_process a b \<longleftrightarrow> po_pid b = po_pid a \<and> po_created b = po_created a \<and> po_path b = po_path a \<and>
     (po_exit a \<noteq> None \<longrightarrow> po_exit b = po_exit a)"

text \<open>Objects are only added, and an object with the number of an older one was created later.\<close>

definition grown :: "kernel \<Rightarrow> kernel \<Rightarrow> bool" where
  "grown k k' \<longleftrightarrow> length (ke_objects k) \<le> length (ke_objects k') \<and>
     (\<forall>i < length (ke_objects k). same_process (ke_objects k ! i) (ke_objects k' ! i))"

definition reuse_ok :: "kernel \<Rightarrow> bool" where
  "reuse_ok k \<longleftrightarrow> (\<forall>j < length (ke_objects k). \<forall>i < j.
     po_pid (ke_objects k ! i) = po_pid (ke_objects k ! j) \<longrightarrow> po_created (ke_objects k ! i) < po_created (ke_objects k ! j))"

lemma same_process_refl [simp]: "same_process a a"
  by (simp add: same_process_def)

lemma grown_refl [simp]: "grown k k"
  by (simp add: grown_def)

lemma same_process_trans: "same_process a b \<Longrightarrow> same_process b c \<Longrightarrow> same_process a c"
  by (auto simp: same_process_def)

lemma grown_trans: "grown a b \<Longrightarrow> grown b c \<Longrightarrow> grown a c"
  unfolding grown_def by (meson less_le_trans le_trans same_process_trans)

lemma kernel_step_grown: "kernel_step k k' \<Longrightarrow> grown k k'"
  by (induction rule: kernel_step.induct) (auto simp: grown_def nth_append nth_list_update same_process_def)

lemma kernel_step_reuse: "kernel_step k k' \<Longrightarrow> reuse_ok k \<Longrightarrow> reuse_ok k'"
  by (induction rule: kernel_step.induct)
     (auto simp: reuse_ok_def nth_append nth_list_update list_all_length less_Suc_eq)

lemma kernel_step_handles: "kernel_step k k' \<Longrightarrow> ke_handles k' = ke_handles k \<and> ke_terminated k' = ke_terminated k"
  by (induction rule: kernel_step.induct) auto

text \<open>Handles and terminations change no object.\<close>

lemma reuse_ok_handles [simp]:
  "reuse_ok (k\<lparr>ke_handles := hs\<rparr>) = reuse_ok k" "reuse_ok (k\<lparr>ke_terminated := ts\<rparr>) = reuse_ok k"
  by (simp_all add: reuse_ok_def)

text \<open>Number and creation time identify an object.\<close>

lemma object_identified:
  assumes "reuse_ok k" "i < length (ke_objects k)" "j < length (ke_objects k)"
    "po_pid (ke_objects k ! i) = po_pid (ke_objects k ! j)" "po_created (ke_objects k ! i) = po_created (ke_objects k ! j)"
  shows "i = j"
  using assms unfolding reuse_ok_def by (metis linorder_neqE_nat order_less_irrefl)

lemma find_process_some:
  "find_process k p = Some i \<Longrightarrow> i < length (ke_objects k) \<and> object_present k i \<and> po_pid (ke_objects k ! i) = p"
  by (auto simp: find_process_def find_Some_iff)

section \<open>Terminating the daemon\<close>

definition held :: "terminate_phase \<Rightarrow> nat list" where
  "held ph = (case ph of Opened i \<Rightarrow> [i] | Matched i \<Rightarrow> [i] | Waiting i \<Rightarrow> [i] | _ \<Rightarrow> [])"

text \<open>The identity describes the object \<open>me\<close>.\<close>

definition describes :: "DaemonIdentity \<Rightarrow> nat \<Rightarrow> kernel \<Rightarrow> bool" where
  "describes identity me k \<longleftrightarrow> me < length (ke_objects k) \<and> di_pid identity = po_pid (ke_objects k ! me) \<and>
     di_creation_time identity = po_created (ke_objects k ! me)"

lemma describes_handles [simp]:
  "describes identity me (k\<lparr>ke_handles := hs\<rparr>) = describes identity me k"
  "describes identity me (k\<lparr>ke_terminated := ts\<rparr>) = describes identity me k"
  by (simp_all add: describes_def)

definition terminate_inv :: "DaemonIdentity \<Rightarrow> nat \<Rightarrow> kernel \<times> terminate_phase \<Rightarrow> bool" where
  "terminate_inv identity me s \<longleftrightarrow> (case s of (k, ph) \<Rightarrow>
     reuse_ok k \<and> describes identity me k \<and> ke_handles k = held ph \<and>
     (case ph of
        Beginning \<Rightarrow> ke_terminated k = []
      | Opened i \<Rightarrow> i < length (ke_objects k) \<and> po_pid (ke_objects k ! i) = di_pid identity \<and> ke_terminated k = []
      | Matched i \<Rightarrow> i = me \<and> ke_terminated k = []
      | Waiting i \<Rightarrow> i = me \<and> ke_terminated k = [me]
      | Finished r \<Rightarrow> ke_terminated k \<in> {[], [me]} \<and> (r = Inr () \<longrightarrow> ke_terminated k = [me] \<and> po_exit (ke_objects k ! me) \<noteq> None)))"

lemma describes_grown: "describes identity me k \<Longrightarrow> grown k k' \<Longrightarrow> describes identity me k'"
  by (auto simp: describes_def grown_def same_process_def)

lemma terminate_inv_kernel:
  assumes "terminate_inv identity me (k, ph)" "kernel_step k k'"
  shows "terminate_inv identity me (k', ph)"
proof -
  have g: "grown k k'" and r: "reuse_ok k'" and h: "ke_handles k' = ke_handles k" "ke_terminated k' = ke_terminated k"
    using kernel_step_grown [OF assms(2)] kernel_step_reuse [OF assms(2)] kernel_step_handles [OF assms(2)] assms(1)
    by (auto simp: terminate_inv_def)
  have len: "length (ke_objects k) \<le> length (ke_objects k')" using g by (simp add: grown_def)
  have kept: "same_process (ke_objects k ! i) (ke_objects k' ! i)" if "i < length (ke_objects k)" for i
    using g that by (simp add: grown_def)
  have d: "describes identity me k" using assms(1) by (simp add: terminate_inv_def)
  then have "me < length (ke_objects k)" by (simp add: describes_def)
  from kept [OF this] have me: "po_exit (ke_objects k ! me) \<noteq> None \<Longrightarrow> po_exit (ke_objects k' ! me) \<noteq> None"
    by (auto simp: same_process_def)
  show ?thesis
  proof (cases ph)
    case (Opened i)
    then have "i < length (ke_objects k)" "po_pid (ke_objects k ! i) = di_pid identity"
      using assms(1) by (auto simp: terminate_inv_def)
    then have "i < length (ke_objects k')" "po_pid (ke_objects k' ! i) = di_pid identity"
      using kept [of i] len by (auto simp: same_process_def)
    then show ?thesis using Opened assms(1) r h describes_grown [OF d g] by (simp add: terminate_inv_def)
  qed (use assms(1) r h describes_grown [OF d g] me in \<open>auto simp: terminate_inv_def\<close>)
qed

lemma terminate_inv_open:
  assumes "terminate_inv identity me (k, Beginning)"
  shows "terminate_inv identity me (terminate_open (if b then Some identity else None) granted k)"
  using assms
  by (auto simp: terminate_inv_def terminate_open_def open_windows_process_def held_def
      split: option.splits dest: find_process_some)

lemma terminate_inv_check:
  assumes "terminate_inv identity me (k, Opened i)"
  shows "terminate_inv identity me (terminate_check identity queried i k)"
proof -
  have i: "i = me" if "daemon_identity_matches identity (object_snapshot (ke_objects k ! i))"
  proof (rule object_identified)
    show "reuse_ok k" "i < length (ke_objects k)" "me < length (ke_objects k)"
      "po_pid (ke_objects k ! i) = po_pid (ke_objects k ! me)"
      using assms by (simp_all add: terminate_inv_def describes_def)
    show "po_created (ke_objects k ! i) = po_created (ke_objects k ! me)"
      using assms that by (simp add: terminate_inv_def describes_def daemon_identity_matches_def object_snapshot_def)
  qed
  then show ?thesis
    using assms
    by (auto simp: terminate_inv_def terminate_check_def windows_process_snapshot_from_handle_def close_handle_def held_def)
qed

lemma terminate_inv_call:
  assumes "terminate_inv identity me (k, Matched i)"
  shows "terminate_inv identity me (terminate_call works i k)"
  using assms by (auto simp: terminate_inv_def terminate_call_def close_handle_def held_def)

lemma terminate_inv_wait:
  assumes "terminate_inv identity me (k, Waiting i)"
  shows "terminate_inv identity me (terminate_wait works i k)"
  using assms by (auto simp: terminate_inv_def terminate_wait_def close_handle_def held_def)

lemma terminate_inv_step:
  "terminate_step identity s s' \<Longrightarrow> terminate_inv identity me s \<Longrightarrow> terminate_inv identity me s'"
  by (induction rule: terminate_step.induct)
     (auto simp: terminate_inv_kernel terminate_inv_open terminate_inv_check terminate_inv_call terminate_inv_wait)

lemma terminate_inv_steps:
  "(terminate_step identity)\<^sup>*\<^sup>* s s' \<Longrightarrow> terminate_inv identity me s \<Longrightarrow> terminate_inv identity me s'"
  by (induction rule: rtranclp_induct) (auto dest: terminate_inv_step)

lemma written_describes:
  assumes "write_daemon_identity_windows granted queried me session k = Inr identity" "me < length (ke_objects k)"
    "object_present k me" "reuse_ok k" "\<And>i. object_present k i \<Longrightarrow> po_pid (ke_objects k ! i) = po_pid (ke_objects k ! me) \<Longrightarrow> i = me"
  shows "describes identity me k"
proof -
  have "i = me" if "find_process k (po_pid (ke_objects k ! me)) = Some i" for i
    using find_process_some [OF that] assms(5) by blast
  then show ?thesis
    using assms(1,2)
    by (auto simp: write_daemon_identity_windows_def windows_process_snapshot_def open_windows_process_def close_handle_def
        windows_process_snapshot_from_handle_def object_snapshot_def describes_def Let_def
        split: option.splits if_splits)
qed

definition pids_distinct :: "kernel \<Rightarrow> bool" where
  "pids_distinct k \<longleftrightarrow> (\<forall>i j. object_present k i \<longrightarrow> object_present k j \<longrightarrow>
     po_pid (ke_objects k ! i) = po_pid (ke_objects k ! j) \<longrightarrow> i = j)"

lemma kernel_steps:
  "kernel_step\<^sup>*\<^sup>* k k' \<Longrightarrow> reuse_ok k \<Longrightarrow> reuse_ok k' \<and> grown k k'"
  by (induction rule: rtranclp_induct) (auto dest: kernel_step_reuse kernel_step_grown intro: grown_trans)

section \<open>The listener\<close>

definition loop_holds :: "listener_loop \<Rightarrow> nat" where
  "loop_holds p = (if p \<in> {Creating, Connecting} then 1 else 0)"

definition listener_inv :: "pipe_listener \<Rightarrow> bool" where
  "listener_inv l \<longleftrightarrow> wl_permits l + loop_holds (wl_loop l) + wl_handlers l + wl_closing l = MAX_ADMIN_CONNECTIONS \<and>
     wl_instances l = wl_handlers l + (if wl_loop l = Connecting then 1 else 0) + wl_lingering l \<and>
     wl_instances l \<le> MAX_ADMIN_CONNECTIONS"

lemma listener_inv_step: "serve_windows_step l l' \<Longrightarrow> listener_inv l \<Longrightarrow> listener_inv l'"
  by (induction rule: serve_windows_step.induct) (auto simp: listener_inv_def loop_holds_def)

lemma listener_inv_steps: "serve_windows_step\<^sup>*\<^sup>* l l' \<Longrightarrow> listener_inv l \<Longrightarrow> listener_inv l'"
  by (induction rule: rtranclp_induct) (auto dest: listener_inv_step)

section \<open>Names\<close>

text \<open>The text of a SID has no underscore, so its dashes can be told apart.\<close>

lemma sid_text_inject:
  assumes "CHR ''_'' \<notin> set a" "CHR ''_'' \<notin> set b" "sid_text a = sid_text b"
  shows "a = b"
proof (rule nth_equalityI)
  show len: "length a = length b" using assms(3) map_eq_imp_length_eq [of _ a _ b] by (auto simp: sid_text_def)
  show "a ! i = b ! i" if "i < length a" for i
  proof -
    have "sid_text a ! i = sid_text b ! i" using assms(3) by simp
    moreover have "a ! i \<noteq> CHR ''_''" "b ! i \<noteq> CHR ''_''" using assms(1,2) that len nth_mem by metis+
    ultimately show ?thesis using that len by (auto simp: sid_text_def split: if_splits)
  qed
qed

text \<open>Two users never share a pipe, and no admin pipe is a broker pipe.\<close>

lemma pipes_distinct:
  assumes "CHR ''_'' \<notin> set a" "CHR ''_'' \<notin> set b" "take 2 a = ''S-''"
  shows "windows_admin_pipe_name a = windows_admin_pipe_name b \<Longrightarrow> a = b"
    "windows_broker_pipe_name a = windows_broker_pipe_name b \<Longrightarrow> a = b"
    "windows_admin_pipe_name a \<noteq> windows_broker_pipe_name b"
proof -
  show "windows_admin_pipe_name a = windows_admin_pipe_name b \<Longrightarrow> a = b"
    "windows_broker_pipe_name a = windows_broker_pipe_name b \<Longrightarrow> a = b"
    using sid_text_inject [OF assms(1,2)] by (simp_all add: windows_admin_pipe_name_def windows_broker_pipe_name_def)
  obtain r where "a = ''S-'' @ r" using assms(3) append_take_drop_id [of 2 a] by metis
  then show "windows_admin_pipe_name a \<noteq> windows_broker_pipe_name b"
    by (simp add: windows_admin_pipe_name_def windows_broker_pipe_name_def sid_text_def)
qed

text \<open>The buffer of the second query holds what the first one asked for.\<close>

lemma sid_buffer_holds: "unat required \<le> sid_word_count required * USIZE_BYTES"
  by (simp add: sid_word_count_def USIZE_BYTES_def)

text \<open>A failed installation keeps no handle of the job, a successful one keeps it once.\<close>

lemma job_handle_kept:
  assumes "install_runtime_kill_job calls kept = (r, kept', left)"
  shows "r = Inr () \<Longrightarrow> kept'" "\<not> kept' \<Longrightarrow> left = []"
  using assms by (auto simp: install_runtime_kill_job_def split: if_splits)

text \<open>The files of an instance are distinct.\<close>

lemma app_paths_distinct:
  "distinct [ap_logs (app_paths r), ap_status (app_paths r), ap_daemon_pid (app_paths r), ap_operation_lock (app_paths r),
     ap_runtime_lock (app_paths r), ap_admin_token (app_paths r), ap_admin_socket (app_paths r)]"
  by (simp add: app_paths_def join_path_def)

section \<open>Properties\<close>

text \<open>C39. Only the exact daemon is terminated.  An identity was written by a live process \<open>me\<close>; afterwards processes start and
  exit in any order, before and between the calls of the termination, and numbers are reused.  Then the
  termination ends no other process than \<open>me\<close>; it succeeds only when \<open>me\<close> has exited; and whatever way it returns,
  the handle it opened is closed.\<close>

theorem terminate_daemon_exact:
  assumes identity: "write_daemon_identity_windows granted queried me session k0 = Inr identity"
    and kernel: "object_present k0 me" "pids_distinct k0" "reuse_ok k0"
    and later: "kernel_step\<^sup>*\<^sup>* k0 k" "ke_handles k = []" "ke_terminated k = []"
    and run: "(terminate_step identity)\<^sup>*\<^sup>* (k, Beginning) (k', ph)"
  shows "set (ke_terminated k') \<subseteq> {me} \<and> ke_handles k' = held ph \<and>
    (ph = Finished (Inr ()) \<longrightarrow> ke_terminated k' = [me] \<and> po_exit (ke_objects k' ! me) \<noteq> None)"
proof -
  have me: "me < length (ke_objects k0)" using kernel(1) by (simp add: object_present_def)
  have "describes identity me k0"
    using written_describes [OF identity me kernel(1,3)] kernel(1,2) by (auto simp: pids_distinct_def)
  moreover have k: "reuse_ok k" "grown k0 k" using kernel_steps [OF later(1) kernel(3)] by auto
  ultimately have "terminate_inv identity me (k, Beginning)"
    using later(2,3) describes_grown [OF _ k(2)] by (simp add: terminate_inv_def held_def)
  from terminate_inv_steps [OF run this] show ?thesis
    by (cases ph) (auto simp: terminate_inv_def held_def)
qed

text \<open>From a full pipe the listener comes back: the client of a lingering instance closes, and the next try creates.\<close>

lemma busy_recovers:
  assumes "wl_loop l = Creating" "wl_instances l = MAX_ADMIN_CONNECTIONS" "wl_lingering l > 0"
  shows "\<exists>l'. serve_windows_step\<^sup>*\<^sup>* l l' \<and> wl_loop l' = Connecting"
proof -
  let ?a = "l\<lparr>wl_permits := wl_permits l + 1, wl_loop := Sleeping\<rparr>"
  let ?b = "?a\<lparr>wl_loop := Reserving\<rparr>"
  let ?c = "?b\<lparr>wl_instances := wl_instances l - 1, wl_lingering := wl_lingering l - 1\<rparr>"
  let ?d = "?c\<lparr>wl_permits := wl_permits l, wl_loop := Creating\<rparr>"
  let ?e = "?d\<lparr>wl_instances := wl_instances l, wl_first := False, wl_loop := Connecting\<rparr>"
  have "serve_windows_step l ?a" using ws_create_busy [OF assms(1,2)] .
  moreover have "serve_windows_step ?a ?b" using ws_slept [of ?a] by simp
  moreover have "serve_windows_step ?b ?c" using ws_client_closes [of ?b] assms(3) by simp
  moreover have "serve_windows_step ?c ?d" using ws_reserve [of ?c] by simp
  moreover have "serve_windows_step ?d ?e"
    using ws_create [of ?d] assms(2) by (simp add: MAX_ADMIN_CONNECTIONS_def)
  ultimately have "serve_windows_step\<^sup>*\<^sup>* l ?e" by (meson rtranclp.rtrancl_into_rtrancl rtranclp.rtrancl_refl)
  then show ?thesis by (intro exI [of _ ?e]) simp
qed

text \<open>C40. The listener of the admin pipe does not fill the pipe by itself.  However connections come, end and linger: permits,
  the loop and the handlers always add up to eight; of the instances in the kernel only those are not its own that a
  client keeps after the server closed its end; and when the loop asks for another instance its own are fewer than
  eight.  So a creation that meets the limit meets lingering clients, it costs no permit, and the listener can create
  again as soon as one of them closes.\<close>

theorem admin_pipe_within_limit:
  assumes "serve_windows_step\<^sup>*\<^sup>* pipe_listening l"
  shows "wl_permits l + loop_holds (wl_loop l) + wl_handlers l + wl_closing l = MAX_ADMIN_CONNECTIONS \<and>
    wl_instances l \<le> MAX_ADMIN_CONNECTIONS \<and>
    (wl_loop l = Creating \<longrightarrow> wl_instances l - wl_lingering l < MAX_ADMIN_CONNECTIONS) \<and>
    (wl_loop l = Creating \<and> wl_instances l = MAX_ADMIN_CONNECTIONS \<longrightarrow>
       wl_lingering l > 0 \<and> (\<exists>l'. serve_windows_step\<^sup>*\<^sup>* l l' \<and> wl_loop l' = Connecting))"
proof -
  have inv: "listener_inv l"
    by (rule listener_inv_steps [OF assms]) (simp add: listener_inv_def pipe_listening_def loop_holds_def)
  moreover have "wl_lingering l > 0" if "wl_loop l = Creating" "wl_instances l = MAX_ADMIN_CONNECTIONS"
    using inv that by (auto simp: listener_inv_def loop_holds_def)
  ultimately show ?thesis
    using busy_recovers [of l] by (auto simp: listener_inv_def loop_holds_def split: if_splits)
qed

section \<open>Witnesses\<close>

definition sample_daemon :: process_object where
  "sample_daemon = \<lparr>po_pid = 7, po_created = 1, po_path = ''vd.exe'', po_exit = None\<rparr>"

definition later_process :: process_object where
  "later_process = \<lparr>po_pid = 7, po_created = 2, po_path = ''other.exe'', po_exit = None\<rparr>"

definition one_process :: kernel where
  "one_process = \<lparr>ke_objects = [sample_daemon], ke_handles = [], ke_foreign = [], ke_terminated = []\<rparr>"

definition sample_session :: SessionId where "sample_session = SessionId (replicate 16 7)"

definition sample_identity :: DaemonIdentity where
  "sample_identity = \<lparr>di_role = ''gnirehtet-vd-daemon'', di_pid = 7, di_creation_time = 1,
     di_session_id = SessionId_to_string sample_session, di_executable_path = ''vd.exe''\<rparr>"

lemma one_process_found [simp]:
  "find_process one_process 7 = Some 0"
  by (simp add: find_process_def object_present_def one_process_def sample_daemon_def)

lemma sample_written: "write_daemon_identity_windows True True 0 sample_session one_process = Inr sample_identity"
proof -
  have "po_pid (ke_objects one_process ! 0) = 7" by (simp add: one_process_def sample_daemon_def)
  then show ?thesis
    by (simp add: write_daemon_identity_windows_def windows_process_snapshot_def open_windows_process_def
        windows_process_snapshot_from_handle_def object_snapshot_def sample_identity_def)
       (simp add: one_process_def sample_daemon_def)
qed

lemma sample_matches: "daemon_identity_matches sample_identity (object_snapshot sample_daemon)"
proof -
  have "session_wf sample_session" "sample_session \<noteq> SessionId_ZERO"
    by (simp_all add: sample_session_def session_wf_def SessionId_ZERO_def)
  then show ?thesis
    using session_text_roundtrip [of sample_session]
    by (simp add: daemon_identity_matches_def sample_identity_def object_snapshot_def sample_daemon_def valid_session_text_def)
qed

text \<open>The termination of that daemon, which exits once it is told to.\<close>

definition after_exit :: kernel where
  "after_exit = one_process\<lparr>ke_objects := [sample_daemon\<lparr>po_exit := Some 1\<rparr>], ke_terminated := [0]\<rparr>"

lemma sample_termination: "(terminate_step sample_identity)\<^sup>*\<^sup>* (one_process, Beginning) (after_exit, Finished (Inr ()))"
proof -
  let ?t = "terminate_step sample_identity" and ?k = "one_process\<lparr>ke_handles := [0]\<rparr>"
  let ?d = "?k\<lparr>ke_terminated := [0]\<rparr>" and ?e = "?k\<lparr>ke_terminated := [0], ke_objects := [sample_daemon\<lparr>po_exit := Some 1\<rparr>]\<rparr>"
  have 1: "?t (one_process, Beginning) (?k, Opened 0)"
    using ts_open [of sample_identity one_process True True]
    by (simp add: terminate_open_def open_windows_process_def sample_identity_def) (simp add: one_process_def)
  have 2: "?t (?k, Opened 0) (?k, Matched 0)"
    using ts_check [of sample_identity ?k 0 True] sample_matches
    by (simp add: terminate_check_def windows_process_snapshot_from_handle_def one_process_def)
  have 3: "?t (?k, Matched 0) (?d, Waiting 0)"
    using ts_call [of sample_identity ?k 0 True] by (simp add: terminate_call_def one_process_def sample_daemon_def)
  have 4: "?t (?d, Waiting 0) (?e, Waiting 0)"
    using ts_kernel [OF process_exits [of 0 ?d 1], of sample_identity "Waiting 0"] by (simp add: one_process_def sample_daemon_def)
  have 5: "?t (?e, Waiting 0) (after_exit, Finished (Inr ()))"
    using ts_wait [of sample_identity ?e 0 True]
    by (simp add: terminate_wait_def close_handle_def after_exit_def one_process_def)
  from 1 2 3 4 5 show ?thesis by (meson rtranclp.rtrancl_into_rtrancl rtranclp.rtrancl_refl)
qed

theorem terminate_daemon_exact_witness:
  "set (ke_terminated after_exit) \<subseteq> {0} \<and> ke_handles after_exit = held (Finished (Inr ())) \<and>
   po_exit (ke_objects after_exit ! 0) \<noteq> None"
  using terminate_daemon_exact [OF sample_written _ _ _ rtranclp.rtrancl_refl _ _ sample_termination]
  by (simp add: object_present_def pids_distinct_def reuse_ok_def one_process_def sample_daemon_def)

text \<open>One connection is being handled while the listener reserves the next instance.\<close>

definition one_handler :: pipe_listener where
  "one_handler = \<lparr>wl_permits = 6, wl_instances = 1, wl_lingering = 0, wl_handlers = 1, wl_closing = 0, wl_first = False, wl_loop = Creating\<rparr>"

lemma one_handler_reachable: "serve_windows_step\<^sup>*\<^sup>* pipe_listening one_handler"
proof -
  let ?a = "pipe_listening\<lparr>wl_permits := 7, wl_loop := Creating\<rparr>"
  let ?b = "?a\<lparr>wl_instances := 1, wl_first := False, wl_loop := Connecting\<rparr>"
  let ?c = "?b\<lparr>wl_handlers := 1, wl_loop := Reserving\<rparr>"
  have "serve_windows_step pipe_listening ?a"
    using ws_reserve [of pipe_listening] by (simp add: pipe_listening_def MAX_ADMIN_CONNECTIONS_def)
  moreover have "serve_windows_step ?a ?b" using ws_create [of ?a] by (simp add: pipe_listening_def MAX_ADMIN_CONNECTIONS_def)
  moreover have "serve_windows_step ?b ?c" using ws_connected [of ?b] by (simp add: pipe_listening_def)
  moreover have "serve_windows_step ?c one_handler" using ws_reserve [of ?c] by (simp add: pipe_listening_def one_handler_def)
  ultimately show ?thesis by (meson rtranclp.rtrancl_into_rtrancl rtranclp.rtrancl_refl)
qed

theorem admin_pipe_within_limit_witness:
  "wl_instances one_handler - wl_lingering one_handler < MAX_ADMIN_CONNECTIONS \<and>
   wl_permits one_handler + loop_holds (wl_loop one_handler) + wl_handlers one_handler + wl_closing one_handler = MAX_ADMIN_CONNECTIONS"
  using admin_pipe_within_limit [OF one_handler_reachable] by (simp add: one_handler_def)

text \<open>Outside Windows the number alone decides: the identity of a daemon that has exited makes the termination end the
  process that was given its number since.\<close>

theorem unix_termination_hits_reused_pid:
  "\<exists>k k'. kernel_step\<^sup>*\<^sup>* one_process k \<and> ke_objects k ! 1 = later_process \<and> po_exit (ke_objects k ! 0) \<noteq> None \<and>
     terminate_daemon_unix (Some (show_nat (unat (po_pid sample_daemon)))) k = (Inr (), k') \<and> ke_terminated k' = [1]"
proof -
  let ?a = "one_process\<lparr>ke_objects := [sample_daemon\<lparr>po_exit := Some 0\<rparr>]\<rparr>"
  let ?b = "?a\<lparr>ke_objects := [sample_daemon\<lparr>po_exit := Some 0\<rparr>, later_process]\<rparr>"
  have "kernel_step one_process ?a"
    using process_exits [of 0 one_process 0] by (simp add: one_process_def sample_daemon_def)
  moreover have "kernel_step ?a ?b"
    using process_starts [of later_process ?a]
    by (simp add: later_process_def one_process_def sample_daemon_def find_process_def object_present_def)
  ultimately have "kernel_step\<^sup>*\<^sup>* one_process ?b" by (meson rtranclp.rtrancl_into_rtrancl rtranclp.rtrancl_refl)
  moreover have "read_daemon_pid (Some (show_nat 7)) = Some 7" using read_own_identity [of 7] by simp
  then have "terminate_daemon_unix (Some (show_nat (unat (po_pid sample_daemon)))) ?b = (Inr (), ?b\<lparr>ke_terminated := [1]\<rparr>)"
    by (simp add: terminate_daemon_unix_def terminate_process_def sample_daemon_def later_process_def one_process_def upt_rec)
  ultimately show ?thesis by (intro exI [of _ ?b] exI [of _ "?b\<lparr>ke_terminated := [1]\<rparr>"]) (simp add: one_process_def)
qed

end
