(* ===== verification/Spec2Isabelle.thy ===== *)
theory Spec2Isabelle
  imports Protocol Lifecycle Diagnostics HevUdp UdpRelay SocksWire RelayGate Candidates SocksServer
    ControlProps Monitor AdbProps TrackDevices HostProps StopDrain AdminProps CliProps BrokerProps TrayProps
    HostRunProps Bootstrap Containment TrayWindowProps Entry WinHostProps
begin

text \<open>
  Verification of the host of Quest VD Wired, the Rust crate \<^verbatim>\<open>gnirehtet-vd\<close> under
  \<^verbatim>\<open>src/host-rust/crates/gnirehtet-vd/src\<close>.

  \<^bold>\<open>The program.\<close>  A headset is attached by USB.  The host starts an Android VPN service through ADB,
  maps three loopback ports of the headset back to itself (SOCKS, a dedicated lane for UDP, control),
  and serves them: a control server speaks the framed GNR4 protocol with the service and drives the
  lifecycle of the session; two SOCKS listeners relay the TCP connections and the datagrams of the
  streaming application, admitted by a gate that is open only while the control lane is authenticated
  and the carrier healthy; a monitor follows the USB device, rebuilds the mappings after a host resume
  or a reconnection, and restarts a service that stopped answering.

  \<^bold>\<open>The theories\<close>, in the order of their imports, with the files they model:

  \<^item> \<open>Prelude\<close>: machine integers, saturating arithmetic, big-endian bytes, byte streams and sinks, UTF-8
    validation, and the interfaces \<open>framed_codec\<close> and \<open>framed_channel\<close> of a length-delimited codec with
    what follows from them (decoding is exactly inverse to encoding, streams of frames round-trip).
  \<^item> \<open>Pool\<close>: components that share one state and run interleaved; the interfaces \<open>member_invariant\<close>,
    \<open>shared_gauge\<close> and \<open>limited_gauge\<close> give invariants of all members and exact, bounded accounting of a
    shared counter in every interleaving.
  \<^item> \<open>RustText\<close>: the string functions of Rust that the host applies to ADB output and log fields.
  \<^item> \<open>Protocol\<close> (\<^verbatim>\<open>protocol.rs\<close>): session identifiers, message types, METRICS payloads, frames.  Decoders
    accept exactly the encodings, in memory and on streams, and oversize frames are refused early.
  \<^item> \<open>Lifecycle\<close> (\<^verbatim>\<open>state.rs\<close>): the state machine, one definition per method, its invariant over all
    reachable machines, and its refinement of an abstract lifecycle.
  \<^item> \<open>Diagnostics\<close> (\<^verbatim>\<open>diagnostics.rs\<close>): latency histogram and its p99, log rotation as a refinement of a
    log of segments, and redaction.
  \<^item> \<open>HevUdp\<close>, \<open>UdpRelay\<close> (\<^verbatim>\<open>udp.rs\<close>): the UDP framing and the relay of one association as interleaved
    reader, writer and select tasks with byte budgets and bounded queues; budgets are exact in every
    interleaving, queues bounded, and shutdown ends.
  \<^item> \<open>SocksWire\<close>, \<open>RelayGate\<close>, \<open>Candidates\<close>, \<open>SocksServer\<close> (\<^verbatim>\<open>socks.rs\<close>): the wire protocol, the gate with its
    generations, the settlement of duplicate Streamer connections, and the sessions of a listener with
    permits, counters and CONNECT handling.
  \<^item> \<open>Control\<close>, \<open>ControlLaws\<close>, \<open>ControlProps\<close> (\<^verbatim>\<open>control.rs\<close>): the control server as a pool of connection
    handlers on one shared state, each handler a step relation whose steps are the branches of its
    biased select loop, its handshake, its cleanup and its early returns.  The machine of the server
    is a reachable lifecycle machine, stop requests are conserved and answered once, success is
    reported only for a delivered STOPPED frame, and superseded connections are inert.
  \<^item> \<open>RelayControl\<close>, \<open>Monitor\<close> (\<^verbatim>\<open>runtime.rs\<close>): the controller of the relay gate with its grace timers and the
    observer of published snapshots; the liveness policy, the transport recovery machine and the status
    of the ADB monitor.  The relay is open exactly for an authenticated lane on a healthy carrier,
    recovery attempts are bounded, restarts are spaced.
  \<^item> \<open>Adb\<close>, \<open>AdbTransactions\<close>, \<open>AdbLaws\<close>, \<open>AdbProps\<close> (\<^verbatim>\<open>adb.rs\<close>): bounded capture of output, the parsers, and the
    transactions in a state monad over the calls made to ADB.  Failing paths end with the removal of
    the product mappings, polling ends, and a successful stop is a verified teardown: the request, then a
    service dump that shows the VPN closed, then the removal and a listing without product ports.
  \<^item> \<open>TrackDevices\<close> (\<^verbatim>\<open>runtime.rs\<close>): the decoder of \<^verbatim>\<open>adb track-devices\<close>, framed and as text; well-formed frames are
    decoded exactly, however the stream is cut into reads, and only changes are reported.
  \<^item> \<open>HostMonitor\<close>, \<open>HostLaws\<close>, \<open>HostStop\<close>, \<open>HostProps\<close> (\<^verbatim>\<open>runtime.rs\<close>): the monitor task whole, with reconciliation,
    supervision and recovery, as programs on one host state that the control server, the gate, the
    machines of \<open>Monitor\<close> and ADB share.  The environment moves at every suspension point, so a law of a
    program holds in every interleaving of its awaits: the invariants of the parts are kept together, and
    once a stop is requested at most the ADB task already running is finished.
  \<^item> \<open>StopDrain\<close> (\<^verbatim>\<open>runtime.rs\<close>): the operation lock itself, with the three sections that the monitor runs under it and any
    number of stops that set the flag and drain, in every interleaving.  A drained stop is never disturbed again,
    and a stop that waits can drain.
  \<^item> \<open>HostFiles\<close> (\<^verbatim>\<open>runtime.rs\<close>): the state store with its failing writes, the lock file of an operation as
    interleaved file operations, the daemon identity, and the doctor.  The store refines the daemon that
    last said it was ready.
  \<^item> \<open>Messages\<close>, \<open>Admin\<close>, \<open>AdminProps\<close> (\<^verbatim>\<open>runtime.rs\<close>): the length-prefixed messages (the interface \<open>message_lane\<close>,
    interpreted for the admin endpoint and for the broker), the token, the commands of the admin endpoint
    as host programs, its client and its listener.  Nothing changes without the token, and a
    command is executed once and its answer reaches the client.
  \<^item> \<open>Capture\<close>, \<open>Bootstrap\<close> (\<^verbatim>\<open>adb.rs\<close>): the execution of one ADB command as child, two readers, a bounded channel and
    the collecting loop in any interleaving, and the choice and repair of the ADB program with the script it
    runs.  A returned output is everything the child wrote, up to the bound; a program taken for verified comes
    from the archive with the pinned checksum.
  \<^item> \<open>Containment\<close> (\<^verbatim>\<open>adb.rs\<close>): the processes of that command and the job object around them, the recovery of the ADB
    server and the texts of transaction errors.  A failed command leaves no process that was started under its
    job, a command that is answered keeps what it started, and what the caller sees is what \<open>Capture\<close> says.
  \<^item> \<open>Triples\<close>: rules for programs of the state monad, which the next theories share.
  \<^item> \<open>HostRun\<close>, \<open>HostRunProps\<close> (\<^verbatim>\<open>runtime.rs\<close>, \<^verbatim>\<open>diagnostics.rs\<close>): \<^verbatim>\<open>HostRuntime::run\<close> from its lock to the removal of
    its identity, with every early return, and the sample of the metrics task.  The host is named ready only
    while it serves, and what each outcome leaves behind is stated; a failed start keeps its identity.
  \<^item> \<open>Cli\<close>, \<open>CliProps\<close> (\<^verbatim>\<open>main.rs\<close>): the commands start, stop, status and repair as programs that log what they
    do to the daemon, the files and the headset.  A stop never touches a headset whose runtime may still
    repair it, and its success means a clean headset; a start is exclusive, and completes, is undone, or says which
    part of undoing it failed.
  \<^item> \<open>Broker\<close>, \<open>BrokerProps\<close> (\<^verbatim>\<open>main.rs\<close>): the per-user broker, its requests and answers, its gate as a pool of
    connections.  At most one command runs, and every answer fits a frame.
  \<^item> \<open>Tray\<close>, \<open>TrayProps\<close> (\<^verbatim>\<open>main.rs\<close>): the tray application as a step relation of its menu handlers and its coordinator,
    and the choice of an icon.  Exit is final and reported only when everything is off, requests are
    answered in order, and retries are spaced.
  \<^item> \<open>TrayWindow\<close>, \<open>TrayWindowProps\<close> (\<^verbatim>\<open>main.rs\<close>): the window of the tray beside its coordinator: setup, window procedure,
    the message loops that menus and boxes nest inside it, icon, error boxes and exit.  Its steps are steps of the
    tray; it goes only when the link was seen off, and the message that ends it is not lost; a lock held across
    a box can block it for good.
  \<^item> \<open>Support\<close>, \<open>Entry\<close> (\<^verbatim>\<open>diagnostics.rs\<close>, \<^verbatim>\<open>main.rs\<close>): the diagnostics log as its callers use it, capture, export with its
    failing files (every exported line is redacted) and the text of status; the dispatch of \<^verbatim>\<open>main\<close>, the public commands, both ends of the broker pipe and the start without
    arguments.  A forwarded command shows what \<^verbatim>\<open>main\<close> shows of it; a broker that repaired ADB turns
    its own client away.
  \<^item> \<open>WinHost\<close>, \<open>WinHostProps\<close> (\<^verbatim>\<open>runtime.rs\<close>): the paths of an instance, process objects with handles and reused numbers,
    the identity and the termination of the daemon, the job, the pipes of a user and the listener of the admin
    pipe.  Only the process that wrote the identity is terminated, and the listener keeps
    within its instances, whatever clients linger.
  \<^item> This theory puts the start command beside the run of the host: a command that waits until the daemon is ready has
    found it serving.

  \<^bold>\<open>Conventions.\<close>  A struct is a record, an enum a datatype, a fallible function a sum type with the error
  on the left.  Atomic counters are fields at their width; sizes that the code keeps far below 2 ^ 64
  are natural numbers, with saturation and checks written out.  Instants and durations count
  nanoseconds.  What is not in the repository is an argument: the answers and the speed of ADB, the
  bytes a peer sends, what the platform tools archive holds, the JSON texts of \<^verbatim>\<open>serde_json\<close>, the environment variables.  Theorems hold for all
  of them, except where \<open>AdbProps\<close> states what \<^verbatim>\<open>adb reverse\<close> and the service dump of the application document as the hypotheses
  \<open>reverse_contract\<close> and \<open>service_contract\<close> and shows a device that satisfies both, and where \<open>Bootstrap\<close> assumes that the
  pinned archive holds no file with the name of the marker.

  \<^bold>\<open>Termination and fuel.\<close>  Loops over data are structural.  The select loops are step relations, so a
  property of them holds for runs of any length.  \<open>verify_loop\<close> terminates because a command takes at least
  one tick of the clock, \<open>poll_until\<close> and \<open>wait_for_admin_ready\<close> because every round sleeps; \<open>recreate_broker_pipe\<close> has fuel, and 121
  rounds reach its deadline; \<open>collect_child_output\<close> and \<open>wait_for_invalidation\<close> run over the list of the rounds
  or states they observe and are \<open>None\<close> while that list does not end them.  Epochs of connections and of
  the relay are 64-bit counters; two theorems assume that fewer than 2 ^ 64 - 1 connections or
  operations happen, because a wrap-around would repeat an epoch.

  \<^bold>\<open>Not modelled.\<close>  What operating system calls do inside: sockets, processes, pipes, windows and job objects appear
  by the outcomes of their calls, and by the documented behaviour the code relies on (\<open>WinHost\<close>, \<open>TrayWindow\<close>, \<open>Containment\<close>).  A carrier that blocks
  in the middle of a batch of datagrams, and two processes that write the status file at the same moment.  The
  texts of start, stop and repair and the parsing of arguments; fuzz targets and benchmarks; the Android application and the legacy relays of the
  repository, which are written in other languages.
\<close>

section \<open>The start command and the host\<close>

text \<open>A command that looks at the status file while a host runs: its look at turn \<open>n\<close> is at entry \<open>moment n\<close> of the log of
  the run, and finds there what a reader of the file takes for ready.  The looks come behind \<open>MarkedNotReady\<close>, where the
  run withdraws what an earlier process with the same number may have left.\<close>

definition document_ready :: "'t PersistedStatus option \<Rightarrow> pid option" where
  "document_ready found = (case found of None \<Rightarrow> None | Some d \<Rightarrow> if pst_runtime_ready d then pst_daemon_pid d else None)"

definition looks_at_run :: "'t cli_env \<Rightarrow> (nat \<Rightarrow> nat) \<Rightarrow> (run_event \<times> pid option) list \<Rightarrow> bool" where
  "looks_at_run env moment log \<longleftrightarrow> (\<forall>n. moment n < length log \<and> MarkedNotReady \<in> fst ` set (take (moment n) log) \<and>
     document_ready (ce_status env n) = snd (log ! moment n))"

lemma look_found_ready:
  assumes "ready_look env p n = (Some (Inr ()), es)"
  shows "document_ready (ce_status env n) = Some p \<and> es \<noteq> []"
  using assms by (auto simp: ready_look_def document_ready_def split: if_splits option.splits)

text \<open>A wait that succeeds has found the document of the daemon at one of its own looks.\<close>

lemma wait_found_ready:
  assumes "run_state (wait_for_runtime_ready env p) s = (Inr (), s')"
  shows "\<exists>n \<ge> turn s. n < turn s' \<and> document_ready (ce_status env n) = Some p"
proof -
  define Q where "Q x v = (x = Some (Inr ()) \<longrightarrow> (\<exists>n \<ge> turn s. n < turn v \<and> document_ready (ce_status env n) = Some p))"
    for x :: "(cli_error + unit) option" and v
  have "triple (\<lambda>v. turn s \<le> turn v) (poll_for env (ready_look env p) (millis 50) (seconds 3)) Q"
  proof (rule poll_triple)
    fix v r es assume "turn s \<le> turn v" "ready_look env p (turn v) = (Some r, es)"
    then show "Q (Some r) (logged es v)"
      using look_found_ready [of env p "turn v" es] by (auto simp: Q_def turn_def logged_def intro!: exI [of _ "turn v"])
  qed (auto simp: Q_def turn_def logged_def pause_def)
  moreover obtain x v where run: "run_state (poll_for env (ready_look env p) (millis 50) (seconds 3)) s = (x, v)" by fastforce
  ultimately have "Q x v" unfolding triple_def by (metis fst_conv snd_conv order_refl)
  moreover have "x = Some (Inr ())" "v = s'"
    using assms run by (auto simp: wait_for_runtime_ready_def split: option.splits)
  ultimately show ?thesis by (simp add: Q_def)
qed

text \<open>C34. A start command that has seen its daemon ready was served by it: when \<^verbatim>\<open>wait_for_runtime_ready\<close> succeeds for the
  process that runs \<^verbatim>\<open>HostRuntime::run\<close>, then at one of its looks the three lanes of the configuration were bound, the tasks
  were running and the admin endpoint had answered.\<close>

theorem start_sees_served_host:
  assumes "codec_ok (re_codec host)" "hd_log d = []" "run_state (host_run host config) d = (r, d')"
    and "looks_at_run env moment (hd_log d')" "run_state (wait_for_runtime_ready env (re_pid host)) s = (Inr (), s')"
  shows "\<exists>n \<ge> turn s. n < turn s' \<and>
    {Bound (rc_control_bind config), Bound (rc_socks_bind config), Bound (rc_udp_bind config), TasksSpawned, AdminAnswered}
      \<subseteq> fst ` set (take (moment n) (hd_log d'))"
proof -
  have "ready_at host (served config) {} d" using assms(2) by (simp add: ready_at_def ready_inv_def honest_def)
  with ready_run [OF assms(1), of config] assms(3) have honest: "honest (re_pid host) (served config) (hd_log d')"
    unfolding triple_def ready_post_def ready_inv_def by (metis fst_conv snd_conv)
  obtain n where n: "n \<ge> turn s" "n < turn s'" "document_ready (ce_status env n) = Some (re_pid host)"
    using wait_found_ready [OF assms(5)] by blast
  then have "served config \<subseteq> fst ` set (take (moment n) (hd_log d'))"
    using honest assms(4) unfolding honest_def looks_at_run_def by metis
  with n show ?thesis by (auto simp: lanes_bound_def)
qed

text \<open>A command that looks when the sample host has ended its start.\<close>

lemma sample_log:
  assumes "run_state (host_run (sample_run (\<lambda>_. None)) sample_config) empty_disk = (r, d)"
  shows "length (hd_log d) = 18 \<and> fst (hd_log d ! 5) = MarkedNotReady \<and> snd (hd_log d ! 13) = Some 7"
proof -
  obtain c t u where new:
    "ControlServer_new (rc_control_bind sample_config) (rc_session_id sample_config) = Inr c"
    "SocksServer_new (tcp_socks_config (rc_socks_bind sample_config)) (Some []) (Some (wait_for_activation RelayGateState_default)) = Inr t"
    "SocksServer_new (udp_socks_config (rc_udp_bind sample_config)) (Some []) (Some (wait_for_activation RelayGateState_default)) = Inr u"
    using sample_servers by metis
  have "fst (wait_for_admin_ready (\<lambda>_. (True, 0)) deadline now n) = Inr ()" for deadline now n
    by (subst wait_for_admin_ready.simps) simp
  with assms show ?thesis by (auto simp: run_defs new ready_daemon_def StateStore_read_def)
qed

definition ready_document :: "unit PersistedStatus" where
  "ready_document = \<lparr>pst_lifecycle = sample_snapshot, pst_daemon_pid = Some 7, pst_daemon_running = True,
     pst_runtime_ready = True, pst_updated_unix_ms = 0, pst_telemetry = None\<rparr>"

definition looking_env :: "unit cli_env" where
  "looking_env = alone_env\<lparr>ce_running := (\<lambda>_ _. True), ce_status := (\<lambda>_. Some ready_document)\<rparr>"

lemma looking_wait:
  "\<exists>s'. run_state (wait_for_runtime_ready looking_env 7) (fresh \<lparr>aw_calls = [], aw_now = 0\<rparr>) = (Inr (), s')"
  by (simp add: wait_for_runtime_ready_def poll_for_def poll_until.simps ready_look_def looking_env_def ready_document_def
      millis_def seconds_def fresh_def)

theorem start_sees_served_host_witness:
  "AdminAnswered \<in> fst ` set (take 13 (hd_log (snd (run_state (host_run (sample_run (\<lambda>_. None)) sample_config) empty_disk))))"
proof -
  obtain r d where run: "run_state (host_run (sample_run (\<lambda>_. None)) sample_config) empty_disk = (r, d)" by fastforce
  have host: "codec_ok (re_codec (sample_run (\<lambda>_. None)))" "hd_log empty_disk = []" "re_pid (sample_run (\<lambda>_. None)) = 7"
    by (simp_all add: sample_run_def codec_ok_def sample_codec_def empty_disk_def)
  have "hd_log d ! 5 \<in> set (take 13 (hd_log d))" using sample_log [OF run] by (auto simp: in_set_conv_nth intro!: exI [of _ 5])
  then have "MarkedNotReady \<in> fst ` set (take 13 (hd_log d))" using sample_log [OF run] by (metis image_eqI)
  then have looks: "looks_at_run looking_env (\<lambda>_. 13) (hd_log d)"
    using sample_log [OF run] by (simp add: looks_at_run_def document_ready_def looking_env_def ready_document_def)
  obtain s' where wait: "run_state (wait_for_runtime_ready looking_env (re_pid (sample_run (\<lambda>_. None))))
      (fresh \<lparr>aw_calls = [], aw_now = 0\<rparr>) = (Inr (), s')" using looking_wait host(3) by auto
  from start_sees_served_host [OF host(1,2) run looks wait] show ?thesis by (auto simp: run)
qed

end
